(* ===== verification/C_Prelude.thy ===== *)
theory C_Prelude
  imports Main "HOL-Library.Word"
begin

text \<open>
  The part of C that every component uses: machine integers, the ways a C program can go
  wrong as values, bounded buffers, NUL-terminated strings, the number parser
  \<^verbatim>\<open>strtoul\<close> of the C library as the code calls it (base 0), and the trace macros of
  \<^verbatim>\<open>demo-dh/include/debug.h\<close>. The collections \<open>c_mem\<close> and \<open>c_str\<close> gather the facts the
  component proofs rewrite with.
\<close>

named_theorems c_mem
named_theorems c_str

unbundle bit_operations_syntax

type_synonym u8 = "8 word"
type_synonym u16 = "16 word"
type_synonym u32 = "32 word"
type_synonym u64 = "64 word"

text \<open>What a \<^verbatim>\<open>printf\<close> of a threaded program prints: its format and its numbers.\<close>

type_synonym log_line = "string \<times> int list"

section \<open>Undefined behaviour as values\<close>

text \<open>
  A run of the code that dereferences NULL, leaves an array, reads a string that is not
  terminated, reads a variable never written, overflows a signed integer, divides by zero or
  shifts a word by its width or more, uses memory after free, or makes a call that the library leaves
  undefined, has no meaning in C; \<^verbatim>\<open>abort()\<close> ends it. Such a run is \<open>Inl e\<close>; every other run is \<open>Inr v\<close>.
\<close>

datatype c_error =
    Null_Deref | Out_Of_Bounds | Unterminated | Uninit_Read | Int_Overflow | Div_By_Zero | Bad_Shift | Aborted | Use_After_Free
  | Undefined_Call

type_synonym 'a res = "c_error + 'a"

fun res_bind :: "'a res \<Rightarrow> ('a \<Rightarrow> 'b res) \<Rightarrow> 'b res" where
  "res_bind (Inl e) f = Inl e"
| "res_bind (Inr x) f = f x"

lemma res_bind_Inr_iff: "res_bind m f = Inr y \<longleftrightarrow> (\<exists>x. m = Inr x \<and> f x = Inr y)"
  by (cases m) auto

lemma res_bind_assoc: "res_bind (res_bind m f) g = res_bind m (\<lambda>x. res_bind (f x) g)"
  by (cases m) auto

text \<open>The result of an operation on \<^verbatim>\<open>int\<close>, if it is one.\<close>

definition int_ok :: "int \<Rightarrow> int res" where
  "int_ok s = (if - (2 ^ 31) \<le> s \<and> s < 2 ^ 31 then Inr s else Inl Int_Overflow)"

section \<open>Buffers\<close>

definition rd :: "'a list \<Rightarrow> int \<Rightarrow> 'a res" where
  "rd xs i = (if 0 \<le> i \<and> i < int (length xs) then Inr (xs ! nat i) else Inl Out_Of_Bounds)"

definition wr :: "'a list \<Rightarrow> int \<Rightarrow> 'a \<Rightarrow> 'a list res" where
  "wr xs i v = (if 0 \<le> i \<and> i < int (length xs) then Inr (xs[nat i := v]) else Inl Out_Of_Bounds)"

lemma rd_in [c_mem]: "i < length xs \<Longrightarrow> rd xs (int i) = Inr (xs ! i)"
  by (simp add: rd_def)

lemma wr_in [c_mem]: "i < length xs \<Longrightarrow> wr xs (int i) v = Inr (xs[i := v])"
  by (simp add: wr_def)

lemma wr_out [c_mem]: "length xs \<le> i \<Longrightarrow> wr xs (int i) v = Inl Out_Of_Bounds"
  by (simp add: wr_def)

lemma wr_length: "wr xs i v = Inr ys \<Longrightarrow> length ys = length xs"
  by (auto simp: wr_def split: if_splits)

lemma list_update_append_here [c_mem]: "(xs @ y # ys)[length xs := v] = xs @ v # ys"
  by simp

section \<open>Characters and strings\<close>

abbreviation NUL :: char where "NUL \<equiv> CHR 0x00"
abbreviation TAB :: char where "TAB \<equiv> CHR 0x09"
abbreviation NL :: char where "NL \<equiv> CHR 0x0A"
abbreviation CR :: char where "CR \<equiv> CHR 0x0D"
abbreviation SPACE :: char where "SPACE \<equiv> CHR 0x20"

text \<open>Storing an \<^verbatim>\<open>int\<close> into a \<^verbatim>\<open>char\<close> keeps its low eight bits.\<close>

definition char_of_int :: "int \<Rightarrow> char" where
  "char_of_int v = char_of v"

definition uchar_val :: "char \<Rightarrow> int" where
  "uchar_val c = of_char c"

text \<open>Reading a \<^verbatim>\<open>char\<close> as an \<^verbatim>\<open>int\<close> where \<^verbatim>\<open>char\<close> is signed.\<close>

definition schar_val :: "char \<Rightarrow> int" where
  "schar_val c = (let v = of_char c in if v < 128 then v else v - 256)"

lemma char_of_uchar [simp]: "char_of_int (uchar_val c) = c"
  by (simp add: char_of_int_def uchar_val_def)

lemma char_of_minus_256: "char_of (v - 256 :: int) = char_of v"
proof -
  have "char_of ((v - 256) mod 256) = char_of (v mod 256)" by simp
  then show ?thesis by (simp only: char_of_mod_256)
qed

lemma char_of_schar [simp]: "char_of_int (schar_val c) = c"
  by (simp add: char_of_int_def schar_val_def Let_def char_of_minus_256)

lemma char_of_int_10 [simp]: "char_of_int 10 = NL"
  by (simp add: char_of_int_def char_of_def)

lemma uchar_val_NL: "uchar_val c = 10 \<longleftrightarrow> c = NL"
proof
  assume "uchar_val c = 10"
  then have "char_of_int (uchar_val c) = char_of_int 10" by simp
  then show "c = NL" by simp
qed (simp add: uchar_val_def)

lemma schar_val_NL: "schar_val c = 10 \<longleftrightarrow> c = NL"
proof
  assume "schar_val c = 10"
  then have "char_of_int (schar_val c) = char_of_int 10" by simp
  then show "c = NL" by simp
qed (simp add: schar_val_def)

text \<open>The string a pointer into a buffer denotes: up to the first NUL, if there is one.\<close>

fun cstr :: "char list \<Rightarrow> string option" where
  "cstr [] = None"
| "cstr (c # cs) = (if c = NUL then Some [] else map_option (Cons c) (cstr cs))"

definition cstr_at :: "char list \<Rightarrow> nat \<Rightarrow> string res" where
  "cstr_at buf p =
     (if p < length buf
      then (case cstr (drop p buf) of None \<Rightarrow> Inl Unterminated | Some s \<Rightarrow> Inr s)
      else Inl Out_Of_Bounds)"

lemma cstr_append [c_str]: "NUL \<notin> set w \<Longrightarrow> cstr (w @ NUL # rest) = Some w"
  by (induction w) auto

lemma cstr_at_append [c_str]:
  "NUL \<notin> set w \<Longrightarrow> cstr_at (pre @ w @ NUL # rest) (length pre) = Inr w"
  by (simp add: cstr_at_def cstr_append)

section \<open>Numbers: strtoul (s, NULL, 0)\<close>

definition is_space :: "char \<Rightarrow> bool" where
  "is_space c \<longleftrightarrow> c \<in> {SPACE, TAB, NL, CHR 0x0B, CHR 0x0C, CR}"

definition digit_val :: "char \<Rightarrow> nat" where
  "digit_val c =
     (let v = of_char c :: nat
      in if 48 \<le> v \<and> v \<le> 57 then v - 48
         else if 97 \<le> v \<and> v \<le> 122 then v - 87
         else if 65 \<le> v \<and> v \<le> 90 then v - 55
         else 99)"

fun digits_val :: "nat \<Rightarrow> nat \<Rightarrow> string \<Rightarrow> nat" where
  "digits_val base acc [] = acc"
| "digits_val base acc (c # cs) =
     (if digit_val c < base then digits_val base (acc * base + digit_val c) cs else acc)"

fun strtoul_mag :: "string \<Rightarrow> nat" where
  "strtoul_mag (c # x # d # cs) =
     (if c = CHR ''0'' \<and> (x = CHR ''x'' \<or> x = CHR ''X'') \<and> digit_val d < 16
      then digits_val 16 0 (d # cs)
      else if c = CHR ''0'' then digits_val 8 0 (x # d # cs)
      else digits_val 10 0 (c # x # d # cs))"
| "strtoul_mag (c # cs) =
     (if c = CHR ''0'' then digits_val 8 0 cs else digits_val 10 0 (c # cs))"
| "strtoul_mag [] = 0"

text \<open>
  The result is an \<^verbatim>\<open>unsigned long\<close> of 64 bits: a magnitude that does not fit gives
  \<^verbatim>\<open>ULONG_MAX\<close>, a minus sign negates modulo \<open>2 ^ 64\<close>.
\<close>

definition strtoul0 :: "string \<Rightarrow> u64" where
  "strtoul0 s =
     (let t = dropWhile is_space s;
          neg = (t \<noteq> [] \<and> hd t = CHR ''-'');
          u = (if t \<noteq> [] \<and> (hd t = CHR ''-'' \<or> hd t = CHR ''+'') then tl t else t);
          m = strtoul_mag u
      in if m \<ge> 2 ^ 64 then - 1 else if neg then - of_nat m else of_nat m)"

definition strtoul_u16 :: "string \<Rightarrow> u16" where
  "strtoul_u16 s = ucast (strtoul0 s)"

definition strtoul_u32 :: "string \<Rightarrow> u32" where
  "strtoul_u32 s = ucast (strtoul0 s)"

text \<open>The equations that compute a concrete number.\<close>

lemmas strtoul_eval = strtoul_u16_def strtoul_u32_def strtoul0_def Let_def is_space_def digit_val_def

section \<open>Little-endian bytes of a word\<close>

definition le_bytes2 :: "u32 \<Rightarrow> u8 list" where
  "le_bytes2 d = [ucast (d AND 0xff), ucast (drop_bit 8 d AND 0xff)]"

definition le_bytes4 :: "u32 \<Rightarrow> u8 list" where
  "le_bytes4 d = [ucast (d AND 0xff), ucast (drop_bit 8 d AND 0xff),
                  ucast (drop_bit 16 d AND 0xff), ucast (drop_bit 24 d AND 0xff)]"

definition le_word2 :: "u8 \<Rightarrow> u8 \<Rightarrow> u32" where
  "le_word2 b0 b1 = ucast b0 OR push_bit 8 (ucast b1)"

definition le_word4 :: "u8 \<Rightarrow> u8 \<Rightarrow> u8 \<Rightarrow> u8 \<Rightarrow> u32" where
  "le_word4 b0 b1 b2 b3 =
     ucast b0 OR push_bit 8 (ucast b1) OR push_bit 16 (ucast b2) OR push_bit 24 (ucast b3)"

lemma take_bit_join:
  "take_bit n x OR push_bit n (take_bit m (drop_bit n x)) = (take_bit (n + m) x :: 'a::len word)"
  by (rule bit_word_eqI) (auto simp: bit_simps)

lemma and_ff: "x AND 0xff = take_bit 8 (x :: u32)"
  by (simp add: take_bit_eq_mask mask_eq_exp_minus_1)

lemma and_ffff: "x AND 0xffff = take_bit 16 (x :: u32)"
  by (simp add: take_bit_eq_mask mask_eq_exp_minus_1)

lemma ucast_low_byte: "(ucast (ucast (d AND 0xff) :: u8) :: u32) = take_bit 8 (d :: u32)"
  by (simp only: and_ff) (rule bit_word_eqI, auto simp: bit_simps)

lemma le_word4_bytes4:
  "le_word4 (ucast (d AND 0xff)) (ucast (drop_bit 8 d AND 0xff))
            (ucast (drop_bit 16 d AND 0xff)) (ucast (drop_bit 24 d AND 0xff)) = (d :: u32)"
  unfolding le_word4_def ucast_low_byte
  using take_bit_join [of 8 d 8] take_bit_join [of 16 d 8] take_bit_join [of 24 d 8]
  by (simp add: take_bit_word_eq_self or.assoc [symmetric])

lemma le_word2_bytes2:
  "le_word2 (ucast (d AND 0xff)) (ucast (drop_bit 8 d AND 0xff)) = take_bit 16 (d :: u32)"
  unfolding le_word2_def ucast_low_byte
  using take_bit_join [of 8 d 8] by simp

lemma addr_halves:
  "push_bit 16 (ucast (ucast (drop_bit 16 a) :: u16)) OR ucast (ucast (a AND 0xFFFF) :: u16)
   = (a :: u32)"
  by (simp only: and_ffff) (rule bit_word_eqI, auto simp: bit_simps)
section \<open>Trace output (debug.h, debug.c)\<close>

text \<open>
  A trace macro prints to standard output when the bit of its level is set in the mask of
  its subsystem. One printed line is its format and its arguments; pointers (\<open>%p\<close>) are left
  out of the arguments.
\<close>

datatype targ = TInt int | TStr string

datatype trace = Trace string "targ list"

definition sock_trmask :: u32 where "sock_trmask = 0x00000005"
definition comm_trmask :: u32 where "comm_trmask = 0x00000005"
definition usb_trmask :: u32 where "usb_trmask = 0x00000005"

definition trace_on :: "u32 \<Rightarrow> nat \<Rightarrow> bool" where
  "trace_on trmask level \<longleftrightarrow> trmask AND push_bit level 1 \<noteq> 0"

lemma trace_levels:
  "trace_on 5 0" "\<not> trace_on 5 1" "trace_on 5 2"
  by (simp_all add: trace_on_def)

end
