(* ===== verification/Sock_IO.thy ===== *)
theory Sock_IO
  imports C_Prelude
begin

text \<open>
  Models \<^verbatim>\<open>demo-dh/common/sock_io.c\<close>: the character and block transfers of the socket
  console. The kernel's \<^verbatim>\<open>read\<close> and \<^verbatim>\<open>write\<close> are the environment: the results of
  successive \<^verbatim>\<open>read\<close> calls are a list of events, and a call that finds the list empty
  blocks for ever (\<open>None\<close>). The record \<open>io\<close> is the whole input and output of the program:
  standard input, the client socket and the lines printed on standard output.
\<close>

section \<open>The environment\<close>

datatype rd_ev = Rd_bytes string | Rd_zero | Rd_err

record io =
  io_stdin :: string
  io_reads :: "rd_ev list"
  io_accept :: "int list"
  io_sent :: string
  io_out :: "trace list"

text \<open>
  \<^verbatim>\<open>read(fd, buf, n)\<close>: the result, the bytes stored in the buffer and the later events.
  Bytes that do not fit stay for the next call.
\<close>

fun sys_read :: "nat \<Rightarrow> rd_ev list \<Rightarrow> (int \<times> string \<times> rd_ev list) option" where
  "sys_read n [] = None"
| "sys_read n (Rd_zero # es) = Some (0, [], es)"
| "sys_read n (Rd_err # es) = Some (- 1, [], es)"
| "sys_read n (Rd_bytes cs # es) =
     Some (int (min n (length cs)), take n cs,
           if length cs \<le> n then es else Rd_bytes (drop n cs) # es)"

text \<open>
  \<^verbatim>\<open>write(fd, buf, len)\<close>: \<open>io_accept\<close> lists how many bytes the next calls take (a negative
  number is an error, an empty list means every call takes everything).
\<close>

definition sys_write :: "string \<Rightarrow> io \<Rightarrow> int \<times> io" where
  "sys_write buf s =
     (let a = (case io_accept s of [] \<Rightarrow> int (length buf) | x # _ \<Rightarrow> x);
          r = (if a < 0 then - 1 else min a (int (length buf)))
      in (r, s\<lparr>io_accept := tl (io_accept s), io_sent := io_sent s @ take (nat r) buf\<rparr>))"

fun reads_size :: "rd_ev list \<Rightarrow> nat" where
  "reads_size [] = 0"
| "reads_size (Rd_bytes cs # es) = Suc (length cs) + reads_size es"
| "reads_size (Rd_zero # es) = Suc (reads_size es)"
| "reads_size (Rd_err # es) = Suc (reads_size es)"

lemma sys_read_size:
  "sys_read n es = Some (cnt, bs, es') \<Longrightarrow> 0 < n \<Longrightarrow> reads_size es' < reads_size es"
  by (induction n es rule: sys_read.induct) auto

lemma sys_read_cnt:
  "sys_read n es = Some (cnt, bs, es') \<Longrightarrow> 0 \<le> cnt \<Longrightarrow> length bs = nat cnt \<and> cnt \<le> int n"
  by (induction n es rule: sys_read.induct) auto

lemma sys_read_some: "es \<noteq> [] \<Longrightarrow> \<exists>cnt bs es'. sys_read n es = Some (cnt, bs, es')"
  by (cases "(n, es)" rule: sys_read.cases) auto

lemma sys_read_no_err:
  "sys_read n es = Some (cnt, bs, es') \<Longrightarrow> Rd_err \<notin> set es \<Longrightarrow> 0 \<le> cnt \<and> Rd_err \<notin> set es'"
  by (induction n es rule: sys_read.induct) (auto split: if_splits)

lemma sys_read_err: "sys_read n es = Some (cnt, bs, es') \<Longrightarrow> cnt < 0 \<Longrightarrow> bs = []"
  by (induction n es rule: sys_read.induct) auto

text \<open>The bytes the peer has sent, in order.\<close>

fun reads_bytes :: "rd_ev list \<Rightarrow> string" where
  "reads_bytes [] = []"
| "reads_bytes (Rd_bytes cs # es) = cs @ reads_bytes es"
| "reads_bytes (Rd_zero # es) = reads_bytes es"
| "reads_bytes (Rd_err # es) = reads_bytes es"

lemma sys_read_bytes:
  "sys_read n es = Some (cnt, bs, es') \<Longrightarrow> reads_bytes es = bs @ reads_bytes es'"
  by (induction n es rule: sys_read.induct)
     (auto simp: append_assoc [symmetric] simp del: append_assoc split: if_splits)

section \<open>The functions of sock_io.c\<close>

definition sock_trace :: "nat \<Rightarrow> string \<Rightarrow> targ list \<Rightarrow> io \<Rightarrow> io" where
  "sock_trace lvl fmt args s =
     (if trace_on sock_trmask lvl then s\<lparr>io_out := io_out s @ [Trace fmt args]\<rparr> else s)"

lemma sock_trace_reads [simp]: "io_reads (sock_trace m f a s) = io_reads s"
  by (simp add: sock_trace_def)

definition sock_getc :: "io \<Rightarrow> (int \<times> io) option" where
  "sock_getc s =
     (case sys_read 1 (io_reads s) of
        None \<Rightarrow> None
      | Some (cnt, bs, es) \<Rightarrow>
          let s1 = s\<lparr>io_reads := es\<rparr>;
              temp = (if cnt > 0 then hd bs else NUL);
              s2 = (if cnt < 0
                    then sock_trace 0 ''%s, error %d'' [TStr ''sock_getc'', TInt cnt] s1 else s1)
          in Some (schar_val temp, s2))"

function sock_getc_blocked :: "io \<Rightarrow> (int \<times> io) option" where
  "sock_getc_blocked s =
     (case sys_read 1 (io_reads s) of
        None \<Rightarrow> None
      | Some (cnt, bs, es) \<Rightarrow>
          if cnt = 0 then sock_getc_blocked (s\<lparr>io_reads := es\<rparr>)
          else if cnt < 0
          then sock_getc_blocked
                 (sock_trace 0 ''%s, error %d'' [TStr ''sock_getc_blocked'', TInt cnt]
                    (s\<lparr>io_reads := es\<rparr>))
          else Some (schar_val (hd bs), s\<lparr>io_reads := es\<rparr>))"
  by pat_completeness auto
termination
  by (relation "measure (\<lambda>s. reads_size (io_reads s))") (auto dest: sys_read_size)

declare sock_getc_blocked.simps [simp del]

definition sock_putc :: "char \<Rightarrow> io \<Rightarrow> int \<times> io" where
  "sock_putc c s =
     (let (cnt, s1) = sys_write [c] s;
          s2 = (if cnt \<noteq> 1
                then sock_trace 0 ''%s, error %d'' [TStr ''sock_putc'', TInt cnt] s1 else s1)
      in (schar_val c, s2))"

text \<open>The buffer argument is the list of bytes stored from its start.\<close>

definition sock_read :: "nat \<Rightarrow> io \<Rightarrow> (int \<times> string \<times> io) option" where
  "sock_read len s =
     (case sys_read len (io_reads s) of
        None \<Rightarrow> None
      | Some (cnt, bs, es) \<Rightarrow>
          let s1 = s\<lparr>io_reads := es\<rparr>;
              s2 = (if cnt \<noteq> int len
                    then sock_trace 0 ''%s, error %d, len=%d''
                           [TStr ''sock_read'', TInt cnt, TInt (int len)] s1
                    else s1)
          in Some (cnt, bs, s2))"

function sock_read_loop :: "nat \<Rightarrow> nat \<Rightarrow> string \<Rightarrow> io \<Rightarrow> (int \<times> string \<times> io) option" where
  "sock_read_loop len lst buf s =
     (if lst = 0 then Some (int (len - lst), buf, s)
      else case sys_read lst (io_reads s) of
             None \<Rightarrow> None
           | Some (cnt, bs, es) \<Rightarrow>
               if cnt < 0
               then Some (int len - int lst, buf,
                          sock_trace 0 ''%s, error %d, len=%d''
                            [TStr ''sock_read_blocked'', TInt cnt, TInt (int len)]
                            (s\<lparr>io_reads := es\<rparr>))
               else sock_read_loop len (lst - nat cnt) (buf @ bs) (s\<lparr>io_reads := es\<rparr>))"
  by pat_completeness auto
termination
  by (relation "measure (\<lambda>(len, lst, buf, s). reads_size (io_reads s))")
     (auto dest: sys_read_size)

declare sock_read_loop.simps [simp del]

definition sock_read_blocked :: "nat \<Rightarrow> io \<Rightarrow> (int \<times> string \<times> io) option" where
  "sock_read_blocked len s = sock_read_loop len len [] s"

definition sock_write :: "string \<Rightarrow> io \<Rightarrow> int \<times> io" where
  "sock_write buf s =
     (let (cnt, s1) = sys_write buf s;
          s2 = (if cnt \<noteq> int (length buf)
                then sock_trace 0 ''%s, error %d'' [TStr ''sock_write'', TInt cnt] s1 else s1)
      in (cnt, s2))"

section \<open>What they deliver\<close>

lemma sock_getc_blocked_next:
  "reads_bytes (io_reads s) = c # cs \<Longrightarrow>
   \<exists>s'. sock_getc_blocked s = Some (schar_val c, s') \<and> reads_bytes (io_reads s') = cs"
proof (induction s rule: sock_getc_blocked.induct)
  case (1 s)
  obtain cnt bs es where r: "sys_read 1 (io_reads s) = Some (cnt, bs, es)"
    using "1.prems" sys_read_some [of "io_reads s" 1] by (cases "io_reads s") auto
  then have b: "bs @ reads_bytes es = c # cs"
    using "1.prems" sys_read_bytes by metis
  note len = sys_read_cnt [OF r]
  note err = sys_read_err [OF r]
  consider "cnt = 0" | "cnt < 0" | "cnt > 0" by linarith
  then show ?case
  proof cases
    assume "cnt = 0"
    then show ?thesis using "1.IH"(1) [OF r] b len r
      by (auto simp: sock_getc_blocked.simps [of s])
  next
    assume "cnt < 0"
    then show ?thesis using "1.IH"(2) [OF r] b err r
      by (auto simp: sock_getc_blocked.simps [of s])
  next
    assume "cnt > 0"
    with len have "cnt = 1" and "length bs = 1" by auto
    with b have "bs = [c]" and "reads_bytes es = cs" by (cases bs, auto)+
    then show ?thesis using \<open>cnt > 0\<close> r by (simp add: sock_getc_blocked.simps [of s])
  qed
qed

text \<open>
  Without read errors the blocked read returns exactly the first \<open>len\<close> bytes of the peer,
  however the kernel cuts them into pieces.
\<close>

lemma sock_read_loop_exact:
  "lst \<le> length (reads_bytes (io_reads s)) \<Longrightarrow> Rd_err \<notin> set (io_reads s) \<Longrightarrow> lst \<le> len \<Longrightarrow>
   \<exists>s'. sock_read_loop len lst buf s
          = Some (int len, buf @ take lst (reads_bytes (io_reads s)), s')
        \<and> reads_bytes (io_reads s') = drop lst (reads_bytes (io_reads s))"
proof (induction len lst buf s rule: sock_read_loop.induct)
  case (1 len lst buf s)
  show ?case
  proof (cases "lst = 0")
    case True
    then show ?thesis by (simp add: sock_read_loop.simps [of len 0])
  next
    case False
    then have "io_reads s \<noteq> []" using "1.prems"(1) by auto
    then obtain cnt bs es where r: "sys_read lst (io_reads s) = Some (cnt, bs, es)"
      using sys_read_some by metis
    have ne: "0 \<le> cnt" "Rd_err \<notin> set es" using sys_read_no_err [OF r "1.prems"(2)] by auto
    have len: "length bs = nat cnt" "cnt \<le> int lst" using sys_read_cnt [OF r ne(1)] by auto
    have b: "reads_bytes (io_reads s) = bs @ reads_bytes es" using r by (rule sys_read_bytes)
    have "\<exists>s'. sock_read_loop len (lst - nat cnt) (buf @ bs) (s\<lparr>io_reads := es\<rparr>)
            = Some (int len, (buf @ bs) @ take (lst - nat cnt) (reads_bytes es), s')
          \<and> reads_bytes (io_reads s') = drop (lst - nat cnt) (reads_bytes es)"
      using "1.IH" [OF False r refl refl] "1.prems" ne len b by auto
    then show ?thesis
      using False r ne len b by (auto simp: sock_read_loop.simps [of len lst])
  qed
qed

end
