(* ===== verification/Comm_IO.thy ===== *)
theory Comm_IO
  imports Sock_IO
begin

text \<open>
  Models the console switch of \<^verbatim>\<open>demo-dh/common/comm_io.c\<close>: where a character comes from
  and where a string goes, by the preprocessor flags of the build. The locale
  \<open>char_source\<close> is the interface the command reader of \<open>Comm_Cmd\<close> is written against; it
  is interpreted on standard input, on the socket, and on \<open>comm_fgetc\<close> itself.
\<close>

section \<open>Build flags and the console functions\<close>

text \<open>
  The flags of \<^verbatim>\<open>demo-dh/Makefile\<close>. No makefile ever defines \<^verbatim>\<open>USB_SOCKET\<close>, the macro
  that \<^verbatim>\<open>comm_puts\<close> tests.
\<close>

record cflags =
  use_socket :: bool
  usb_socket :: bool
  cmd_module_usb :: bool
  cmd_module_sock :: bool

definition makefile_flags :: "cflags \<Rightarrow> bool" where
  "makefile_flags b \<longleftrightarrow> \<not> usb_socket b"

definition stdin_fgetc :: "io \<Rightarrow> (int \<times> io) option" where
  "stdin_fgetc s =
     (case io_stdin s of
        [] \<Rightarrow> Some (- 1, s)
      | c # cs \<Rightarrow> Some (uchar_val c, s\<lparr>io_stdin := cs\<rparr>))"

definition comm_fgetc :: "cflags \<Rightarrow> io \<Rightarrow> (int \<times> io) option" where
  "comm_fgetc b s = (if use_socket b then sock_getc_blocked s else stdin_fgetc s)"

definition comm_puts :: "cflags \<Rightarrow> string \<Rightarrow> io \<Rightarrow> io" where
  "comm_puts b str s =
     (if usb_socket b then snd (sock_write str s)
      else s\<lparr>io_out := io_out s @ [Trace ''%s'' [TStr str]]\<rparr>)"

section \<open>The interface of a character source\<close>

locale char_source =
  fixes getc :: "'i \<Rightarrow> (int \<times> 'i) option"
    and pending :: "'i \<Rightarrow> string"
  assumes getc_next:
    "pending i = c # cs \<Longrightarrow>
     \<exists>v i'. getc i = Some (v, i') \<and> pending i' = cs \<and> char_of_int v = c \<and> (v = 10 \<longleftrightarrow> c = NL)"

definition io_pending :: "cflags \<Rightarrow> io \<Rightarrow> string" where
  "io_pending b s = (if use_socket b then reads_bytes (io_reads s) else io_stdin s)"

interpretation stdin_src: char_source stdin_fgetc io_stdin
  by unfold_locales (auto simp: stdin_fgetc_def uchar_val_NL)

interpretation sock_src: char_source sock_getc_blocked "\<lambda>s. reads_bytes (io_reads s)"
  by unfold_locales (metis sock_getc_blocked_next char_of_schar schar_val_NL)

interpretation comm_src: char_source "comm_fgetc b" "io_pending b" for b
proof (cases "use_socket b")
  case True
  then have "comm_fgetc b = sock_getc_blocked" "io_pending b = (\<lambda>s. reads_bytes (io_reads s))"
    by (auto simp: comm_fgetc_def io_pending_def)
  then show "char_source (comm_fgetc b) (io_pending b)"
    using sock_src.char_source_axioms by simp
next
  case False
  then have "comm_fgetc b = stdin_fgetc" "io_pending b = io_stdin"
    by (auto simp: comm_fgetc_def io_pending_def)
  then show "char_source (comm_fgetc b) (io_pending b)"
    using stdin_src.char_source_axioms by simp
qed

text \<open>At the end of standard input every read returns EOF and nothing changes.\<close>

lemma stdin_fgetc_eof: "io_stdin s = [] \<Longrightarrow> stdin_fgetc s = Some (- 1, s)"
  by (simp add: stdin_fgetc_def)

end
