(* ===== verification/Comm_Cmd.thy ===== *)
theory Comm_Cmd
  imports Comm_IO
begin

text \<open>
  Models \<^verbatim>\<open>demo-dh/common/comm_cmd.c\<close> and the structures of \<^verbatim>\<open>comm_cmd.h\<close>: reading a
  command line, cutting it into arguments, the table of registered commands, and running a
  command. Addresses of \<^verbatim>\<open>struct comm_cmd\<close> objects are values of a type \<open>'p\<close>; the objects
  they point to are a function from addresses, so that two table slots can hold the same
  object and a field written after registration is seen by the table.
\<close>

section \<open>Data structures (comm_cmd.h)\<close>

abbreviation "COMM_TEMP_BUF_SIZE \<equiv> 4096 :: nat"
abbreviation "COMM_ARGV_BUF_SIZE \<equiv> 2048 :: nat"
abbreviation "COMM_MAX_CMDS \<equiv> 100 :: nat"

text \<open>
  \<open>argv\<close> holds pointers into the interpreter's own line buffer \<open>temp\<close>: \<open>None\<close> is NULL and
  \<open>Some p\<close> is \<open>&temp[p]\<close>. A copy of the structure made by \<^verbatim>\<open>memcpy\<close> keeps these pointers.
\<close>

record comm_data =
  temp :: "char list"
  argv :: "nat option list"
  argc :: int
  tmpc :: int
  tmpsize :: int
  argsize :: int

record ('h, 'c, 'v) comm_cmd =
  cmd_id :: int
  cmd_name :: "string option"
  cmd_group :: "string option"
  cmd_desc :: "string option"
  cmd_priv :: "'v option"
  cmd_cdata :: "'c option"
  cmd_handler :: "'h option"
  cmd_nogroup :: int

record ('p, 'h, 'c, 'v) comm_state =
  comm_cmds :: "'p option list"
  cmd_obj :: "'p \<Rightarrow> ('h, 'c, 'v) comm_cmd"
  cio :: io

text \<open>A \<open>comm_data\<close> filled with zero bytes (\<^verbatim>\<open>memset (pcd, 0, sizeof *pcd)\<close>).\<close>

definition comm_data_zero :: comm_data where
  "comm_data_zero =
     \<lparr>temp = replicate COMM_TEMP_BUF_SIZE NUL, argv = replicate COMM_ARGV_BUF_SIZE None,
      argc = 0, tmpc = 0, tmpsize = 0, argsize = 0\<rparr>"

definition comm_data_init :: "comm_data option \<Rightarrow> int \<times> comm_data option" where
  "comm_data_init d =
     (case d of
        None \<Rightarrow> (- 1, None)
      | Some x \<Rightarrow> (0, Some (x\<lparr>argsize := int COMM_ARGV_BUF_SIZE, tmpsize := int COMM_TEMP_BUF_SIZE,
                             tmpc := 0, argc := 0\<rparr>)))"

section \<open>Reading a line: comm_get_command\<close>

text \<open>
  The loop over \<open>(temp, cnt)\<close>. \<open>None\<close> is a loop that never returns; \<open>Inl\<close> is a store outside
  \<open>temp\<close>. A full buffer starts again at index 0.
\<close>

partial_function (option) comm_get_loop ::
  "('i \<Rightarrow> (int \<times> 'i) option) \<Rightarrow> int \<Rightarrow> char list \<Rightarrow> int \<Rightarrow> 'i \<Rightarrow>
   ((char list \<times> int) res \<times> 'i) option"
where
  "comm_get_loop getc sz tmp cnt i =
     Option.bind (getc i) (\<lambda>(c, i').
       if c = 10 then
         (let stripped =
            (if cnt > 0
             then res_bind (rd tmp (cnt - 1)) (\<lambda>ch. Inr (if ch = CR then cnt - 1 else cnt))
             else Inr cnt)
          in Some (res_bind stripped (\<lambda>n. res_bind (wr tmp n NUL) (\<lambda>tmp'. Inr (tmp', n))), i'))
       else
         (let at = (if cnt \<ge> sz then 0 else cnt)
          in case wr tmp at (char_of_int c) of
               Inl e \<Rightarrow> Some (Inl e, i')
             | Inr tmp' \<Rightarrow> comm_get_loop getc sz tmp' (at + 1) i'))"

definition comm_get_command ::
  "('i \<Rightarrow> (int \<times> 'i) option) \<Rightarrow> comm_data \<Rightarrow> 'i \<Rightarrow> ((int \<times> comm_data) res \<times> 'i) option"
where
  "comm_get_command getc d i =
     map_option
       (\<lambda>(r, i'). (res_bind r (\<lambda>(tmp, cnt). Inr (0, d\<lparr>temp := tmp, tmpc := cnt\<rparr>)), i'))
       (comm_get_loop getc (tmpsize d) (temp d) 0 i)"

section \<open>Cutting it into arguments: comm_parse_command\<close>

definition is_sep :: "char \<Rightarrow> bool" where
  "is_sep c \<longleftrightarrow> c = SPACE \<or> c = TAB"

text \<open>The inner loop: skip one argument and overwrite the separator after it with NUL.\<close>

function parse_word :: "int \<Rightarrow> char list \<Rightarrow> nat \<Rightarrow> (char list \<times> nat) res" where
  "parse_word tc tmp tmpi =
     (if int tmpi \<ge> tc then Inr (tmp, tmpi)
      else if tmpi \<ge> length tmp then Inl Out_Of_Bounds
      else if is_sep (tmp ! tmpi) then Inr (tmp[tmpi := NUL], tmpi + 1)
      else parse_word tc tmp (tmpi + 1))"
  by pat_completeness auto
termination
  by (relation "measure (\<lambda>(tc, tmp, tmpi). length tmp - tmpi)") auto

declare parse_word.simps [simp del]

lemma parse_word_mono: "parse_word tc tmp tmpi = Inr (tmp', i') \<Longrightarrow> tmpi \<le> i' \<and> length tmp' = length tmp"
proof (induction tc tmp tmpi rule: parse_word.induct)
  case (1 tc tmp tmpi)
  then show ?case
    by (subst (asm) (2) parse_word.simps) (auto split: if_splits)
qed

lemma parse_word_progress:
  assumes "parse_word tc tmp tmpi = Inr (tmp', i')" and "int tmpi < tc"
  shows "tmpi < i'"
  using assms parse_word_mono [of tc tmp "tmpi + 1"]
  by (subst (asm) parse_word.simps) (auto split: if_splits)

function parse_loop ::
  "int \<Rightarrow> char list \<Rightarrow> nat option list \<Rightarrow> nat \<Rightarrow> nat \<Rightarrow> (char list \<times> nat option list \<times> nat) res"
where
  "parse_loop tc tmp av tmpi argi =
     (if int tmpi \<ge> tc then Inr (tmp, av, argi)
      else if tmpi \<ge> length tmp then Inl Out_Of_Bounds
      else if tmp ! tmpi = NUL then Inr (tmp, av, argi)
      else if is_sep (tmp ! tmpi) then parse_loop tc tmp av (tmpi + 1) argi
      else if argi \<ge> length av then Inl Out_Of_Bounds
      else case parse_word tc tmp tmpi of
             Inl e \<Rightarrow> Inl e
           | Inr (tmp', i') \<Rightarrow> parse_loop tc tmp' (av[argi := Some tmpi]) i' (argi + 1))"
  by pat_completeness auto
termination
  by (relation "measure (\<lambda>(tc, tmp, av, tmpi, argi). nat (tc - int tmpi))")
     (auto dest: parse_word_progress)

declare parse_loop.simps [simp del]

definition comm_parse_command :: "comm_data \<Rightarrow> (int \<times> comm_data) res" where
  "comm_parse_command d =
     res_bind (parse_loop (tmpc d) (temp d) (argv d) 0 0)
       (\<lambda>(tmp, av, argi). Inr (0, d\<lparr>temp := tmp, argv := av, argc := int argi\<rparr>))"

text \<open>The string that \<open>argv[k]\<close> denotes.\<close>

definition arg_str :: "comm_data \<Rightarrow> int \<Rightarrow> string res" where
  "arg_str d k =
     res_bind (rd (argv d) k)
       (\<lambda>p. case p of None \<Rightarrow> Inl Null_Deref | Some q \<Rightarrow> cstr_at (temp d) q)"

section \<open>The command table\<close>

definition comm_init_command :: "('p, 'h, 'c, 'v) comm_state \<Rightarrow> ('p, 'h, 'c, 'v) comm_state" where
  "comm_init_command st = st\<lparr>comm_cmds := replicate COMM_MAX_CMDS None\<rparr>"

definition comm_trace :: "nat \<Rightarrow> string \<Rightarrow> targ list \<Rightarrow> io \<Rightarrow> io" where
  "comm_trace lvl fmt args s =
     (if trace_on comm_trmask lvl then s\<lparr>io_out := io_out s @ [Trace fmt args]\<rparr> else s)"

definition comm_check_command ::
  "'p option \<Rightarrow> ('p, 'h, 'c, 'v) comm_state \<Rightarrow> int \<times> ('p, 'h, 'c, 'v) comm_state"
where
  "comm_check_command cmd st =
     (case cmd of
        None \<Rightarrow> (- 2, st\<lparr>cio := comm_trace 0 ''null cmd'' [] (cio st)\<rparr>)
      | Some p \<Rightarrow>
          if cmd_id (cmd_obj st p) < 0
          then (- 3, st\<lparr>cio := comm_trace 0 ''cmd id %d, should be 0 ~ %d''
                                 [TInt (cmd_id (cmd_obj st p)), TInt (int COMM_MAX_CMDS)] (cio st)\<rparr>)
          else if cmd_name (cmd_obj st p) = None
          then (- 4, st\<lparr>cio := comm_trace 0 ''cmd name is null'' [] (cio st)\<rparr>)
          else (0, st))"

text \<open>\<^verbatim>\<open>strcmp\<close> of two name fields; comparing through NULL is undefined.\<close>

definition strcmp_names :: "string option \<Rightarrow> string option \<Rightarrow> bool res" where
  "strcmp_names a b =
     (case (a, b) of (Some x, Some y) \<Rightarrow> Inr (x \<noteq> y) | _ \<Rightarrow> Inl Null_Deref)"

fun match_from ::
  "('p \<Rightarrow> ('h, 'c, 'v) comm_cmd) \<Rightarrow> 'p option \<Rightarrow> int \<Rightarrow> 'p option list \<Rightarrow> int res"
where
  "match_from obj c i [] = Inr (- 1)"
| "match_from obj c i (cmd # rest) =
     (if cmd = c
      then (case c of
              None \<Rightarrow> Inr i
            | Some p \<Rightarrow>
                res_bind (strcmp_names (cmd_name (obj p)) (cmd_name (obj p)))
                  (\<lambda>differ. if \<not> differ then Inr i else match_from obj c (i + 1) rest))
      else match_from obj c (i + 1) rest)"

definition comm_match_command ::
  "'p option \<Rightarrow> ('p, 'h, 'c, 'v) comm_state \<Rightarrow> int res"
where
  "comm_match_command c st = match_from (cmd_obj st) c 0 (comm_cmds st)"

definition comm_set_command ::
  "'p option \<Rightarrow> int \<Rightarrow> ('p, 'h, 'c, 'v) comm_state \<Rightarrow> (int \<times> ('p, 'h, 'c, 'v) comm_state) res"
where
  "comm_set_command cmd pos st =
     (if pos \<ge> int COMM_MAX_CMDS then Inr (- 5, st)
      else res_bind (wr (comm_cmds st) pos cmd) (\<lambda>t. Inr (0, st\<lparr>comm_cmds := t\<rparr>)))"

definition comm_cmd_register ::
  "'p option \<Rightarrow> ('p, 'h, 'c, 'v) comm_state \<Rightarrow> (int \<times> ('p, 'h, 'c, 'v) comm_state) res"
where
  "comm_cmd_register cmd st =
     (let (r, st1) = comm_check_command cmd st
      in if r \<noteq> 0 then Inr (r, st1)
         else res_bind (comm_match_command None st1)
                (\<lambda>pos. if pos < 0 then Inr (- 1, st1) else comm_set_command cmd pos st1))"

definition comm_cmd_unregister ::
  "'p option \<Rightarrow> ('p, 'h, 'c, 'v) comm_state \<Rightarrow> (int \<times> ('p, 'h, 'c, 'v) comm_state) res"
where
  "comm_cmd_unregister cmd st =
     (let (r, st1) = comm_check_command cmd st
      in if r \<noteq> 0 then Inr (r, st1)
         else res_bind (comm_match_command cmd st1)
                (\<lambda>pos. if pos < 0 then Inr (- 1, st1) else comm_set_command None pos st1))"

section \<open>Showing and running commands\<close>

definition comm_clear_screen :: "cflags \<Rightarrow> io \<Rightarrow> io" where
  "comm_clear_screen b s = comm_puts b [NL] s"

definition comm_show_screen :: "cflags \<Rightarrow> io \<Rightarrow> io" where
  "comm_show_screen b s = comm_puts b ''CMD>'' s"

definition puts_ptr :: "cflags \<Rightarrow> string option \<Rightarrow> io \<Rightarrow> io res" where
  "puts_ptr b p s = (case p of None \<Rightarrow> Inl Null_Deref | Some str \<Rightarrow> Inr (comm_puts b str s))"

fun show_from ::
  "cflags \<Rightarrow> ('p \<Rightarrow> ('h, 'c, 'v) comm_cmd) \<Rightarrow> 'p option list \<Rightarrow> io \<Rightarrow> io res"
where
  "show_from b obj [] s = Inr s"
| "show_from b obj (None # rest) s = show_from b obj rest s"
| "show_from b obj (Some p # rest) s =
     (let cmd = obj p
      in if cmd_id cmd < 0 \<or> cmd_name cmd = None then show_from b obj rest s
         else res_bind
                (if cmd_nogroup cmd = 0
                 then res_bind (puts_ptr b (cmd_group cmd) s) (\<lambda>s1. Inr (comm_puts b '' '' s1))
                 else Inr s)
                (\<lambda>s1. let s2 = comm_puts b (the (cmd_name cmd)) s1;
                          s3 = comm_puts b '' - '' s2;
                          s4 = (case cmd_desc cmd of None \<Rightarrow> s3 | Some t \<Rightarrow> comm_puts b t s3);
                          s5 = comm_puts b [NL] s4
                      in show_from b obj rest s5))"

definition comm_show_command ::
  "cflags \<Rightarrow> ('p, 'h, 'c, 'v) comm_state \<Rightarrow> ('p, 'h, 'c, 'v) comm_state res"
where
  "comm_show_command b st =
     res_bind (show_from b (cmd_obj st) (comm_cmds st) (cio st)) (\<lambda>s. Inr (st\<lparr>cio := s\<rparr>))"

text \<open>\<^verbatim>\<open>strcmp (argv[k], s)\<close>, where \<open>argv[k]\<close> may be NULL or stale.\<close>

definition strcmp_arg :: "comm_data \<Rightarrow> int \<Rightarrow> string option \<Rightarrow> bool res" where
  "strcmp_arg d k s =
     res_bind (arg_str d k)
       (\<lambda>a. case s of None \<Rightarrow> Inl Null_Deref | Some t \<Rightarrow> Inr (a \<noteq> t))"

text \<open>The scan of \<open>comm_exec_command\<close>: the command it stops at, if any.\<close>

fun exec_find ::
  "comm_data \<Rightarrow> ('p \<Rightarrow> ('h, 'c, 'v) comm_cmd) \<Rightarrow> 'p option list \<Rightarrow> 'p option res"
where
  "exec_find d obj [] = Inr None"
| "exec_find d obj (None # rest) = exec_find d obj rest"
| "exec_find d obj (Some p # rest) =
     (let cmd = obj p;
          name_arg = (if cmd_nogroup cmd = 1 then 0 else 1 :: int)
      in if cmd_id cmd < 0 \<or> cmd_name cmd = None then exec_find d obj rest
         else res_bind
                (if cmd_nogroup cmd = 0 then strcmp_arg d 0 (cmd_group cmd) else Inr False)
                (\<lambda>other_group.
                   if other_group then exec_find d obj rest
                   else res_bind (strcmp_arg d name_arg (cmd_name cmd))
                          (\<lambda>differ. if \<not> differ then Inr (Some p) else exec_find d obj rest)))"

text \<open>
  \<open>copy c d\<close> is \<^verbatim>\<open>memcpy (cmd->cdata, d, sizeof *d)\<close> and \<open>call\<close> runs a handler; both act on
  the state of the whole program.
\<close>

definition comm_exec_command ::
  "('p \<Rightarrow> ('h, 'c, 'v) comm_cmd) \<Rightarrow> 'p option list \<Rightarrow>
   ('c \<Rightarrow> comm_data \<Rightarrow> 's \<Rightarrow> 's) \<Rightarrow>
   ('h \<Rightarrow> int \<Rightarrow> 'c option \<Rightarrow> 'v option \<Rightarrow> 's \<Rightarrow> 's res) \<Rightarrow>
   comm_data \<Rightarrow> 's \<Rightarrow> (int \<times> 's) res"
where
  "comm_exec_command obj cmds copy call d s =
     (if argc d \<le> 0 then Inr (- 1, s)
      else res_bind (exec_find d obj cmds)
             (\<lambda>found. case found of
                None \<Rightarrow> Inr (0, s)
              | Some p \<Rightarrow>
                  let cmd = obj p;
                      s1 = (case cmd_cdata cmd of None \<Rightarrow> s | Some c \<Rightarrow> copy c d s)
                  in case cmd_handler cmd of
                       None \<Rightarrow> Inr (0, s1)
                     | Some h \<Rightarrow>
                         res_bind (call h (cmd_id cmd) (cmd_cdata cmd) (cmd_priv cmd) s1)
                           (\<lambda>s2. Inr (0, s2))))"

end
