(* ===== verification/Comm_Line.thy ===== *)
theory Comm_Line
  imports Comm_Cmd
begin

text \<open>
  What the line reader and the argument cutter of \<open>Comm_Cmd\<close> compute. The reader is verified
  once for every \<open>char_source\<close>; the cutter is shown to compute \<open>tokens\<close>, the blank-separated
  words of the line, and never to leave the argument array.
\<close>

section \<open>Reading a line\<close>

definition strip_cr :: "string \<Rightarrow> string" where
  "strip_cr w = (if w \<noteq> [] \<and> last w = CR then butlast w else w)"

lemma length_strip_cr: "length (strip_cr w) \<le> length w"
  by (simp add: strip_cr_def)

lemma set_strip_cr: "set (strip_cr w) \<subseteq> set w"
  by (auto simp: strip_cr_def dest: in_set_butlastD)

lemma get_newline:
  assumes "post \<noteq> []"
  shows "\<exists>post'. res_bind
           (if int (length pre) > 0
            then res_bind (rd (pre @ post) (int (length pre) - 1))
                   (\<lambda>ch. Inr (if ch = CR then int (length pre) - 1 else int (length pre)))
            else Inr (int (length pre)))
           (\<lambda>n. res_bind (wr (pre @ post) n NUL) (\<lambda>t. Inr (t, n)))
         = Inr (strip_cr pre @ NUL # post', int (length (strip_cr pre)))
         \<and> length (strip_cr pre @ NUL # post') = length (pre @ post)"
proof (cases pre rule: rev_cases)
  case Nil
  then show ?thesis using assms
    by (cases post) (auto simp: wr_def strip_cr_def intro!: exI [of _ "tl post"])
next
  case (snoc us u)
  obtain p ps where post: "post = p # ps" using assms by (cases post) auto
  have rd: "rd (pre @ post) (int (length pre) - 1) = Inr u"
    using snoc by (simp add: rd_def nth_append)
  show ?thesis
  proof (cases "u = CR")
    case True
    then show ?thesis using snoc post rd
      by (auto simp: strip_cr_def wr_def list_update_append intro!: exI [of _ post])
  next
    case False
    then show ?thesis using snoc post rd
      by (auto simp: strip_cr_def wr_def list_update_append nat_add_distrib intro!: exI [of _ ps])
  qed
qed

context char_source
begin

lemma get_loop_line:
  "pending i = ln @ NL # rest \<Longrightarrow> NL \<notin> set ln \<Longrightarrow> length ln < length post \<Longrightarrow>
   int (length pre + length post) \<le> sz \<Longrightarrow>
   \<exists>i' post'. comm_get_loop getc sz (pre @ post) (int (length pre)) i
       = Some (Inr (strip_cr (pre @ ln) @ NUL # post', int (length (strip_cr (pre @ ln)))), i')
     \<and> pending i' = rest
     \<and> length (strip_cr (pre @ ln) @ NUL # post') = length pre + length post"
proof (induction ln arbitrary: i pre post)
  case Nil
  obtain v i' where g: "getc i = Some (v, i')" "pending i' = rest" "v = 10"
    using getc_next [of i NL rest] Nil.prems by auto
  have "post \<noteq> []" using Nil.prems by auto
  then obtain post' where "res_bind
           (if int (length pre) > 0
            then res_bind (rd (pre @ post) (int (length pre) - 1))
                   (\<lambda>ch. Inr (if ch = CR then int (length pre) - 1 else int (length pre)))
            else Inr (int (length pre)))
           (\<lambda>n. res_bind (wr (pre @ post) n NUL) (\<lambda>t. Inr (t, n)))
         = Inr (strip_cr pre @ NUL # post', int (length (strip_cr pre)))"
     "length (strip_cr pre @ NUL # post') = length (pre @ post)"
    using get_newline [OF \<open>post \<noteq> []\<close>, of pre] by blast
  then show ?case using g
    by (subst comm_get_loop.simps) (auto simp: Let_def)
next
  case (Cons c ln)
  obtain v i' where g: "getc i = Some (v, i')" "pending i' = ln @ NL # rest"
      "char_of_int v = c" "v \<noteq> 10"
    using getc_next [of i c "ln @ NL # rest"] Cons.prems by auto
  obtain p ps where post: "post = p # ps" using Cons.prems by (cases post) auto
  have w: "wr (pre @ post) (int (length pre)) c = Inr (pre @ c # ps)"
    by (simp add: wr_def post)
  have "\<exists>i'' post'. comm_get_loop getc sz ((pre @ [c]) @ ps) (int (length (pre @ [c]))) i'
       = Some (Inr (strip_cr ((pre @ [c]) @ ln) @ NUL # post',
                    int (length (strip_cr ((pre @ [c]) @ ln)))), i'')
     \<and> pending i'' = rest
     \<and> length (strip_cr ((pre @ [c]) @ ln) @ NUL # post') = length (pre @ [c]) + length ps"
    using Cons.prems post by (intro Cons.IH g(2)) auto
  then show ?case using g w Cons.prems post
    by (subst comm_get_loop.simps) (auto simp: Let_def algebra_simps)
qed

lemma get_command_line:
  assumes "pending i = ln @ NL # rest" and "NL \<notin> set ln" and "length ln < length (temp d)"
    and "tmpsize d = int (length (temp d))"
  shows "\<exists>i' post. comm_get_command getc d i
           = Some (Inr (0, d\<lparr>temp := strip_cr ln @ NUL # post, tmpc := int (length (strip_cr ln))\<rparr>), i')
         \<and> pending i' = rest \<and> length (strip_cr ln @ NUL # post) = length (temp d)"
  using get_loop_line [where pre = "[]" and post = "temp d" and sz = "tmpsize d",
                       OF assms(1,2,3)] assms(4)
  by (auto simp: comm_get_command_def)

end

section \<open>The words of a line\<close>

function tokens :: "string \<Rightarrow> string list" where
  "tokens s =
     (case dropWhile is_sep s of
        [] \<Rightarrow> []
      | c # cs \<Rightarrow> (c # takeWhile (\<lambda>x. \<not> is_sep x) cs) # tokens (dropWhile (\<lambda>x. \<not> is_sep x) cs))"
  by pat_completeness auto
termination
proof (relation "measure length", simp, simp)
  fix s :: string and c cs
  assume "dropWhile is_sep s = c # cs"
  then have "length (c # cs) \<le> length s" by (metis length_dropWhile_le)
  moreover have "length (dropWhile (\<lambda>x. \<not> is_sep x) cs) \<le> length cs" by (rule length_dropWhile_le)
  ultimately show "length (dropWhile (\<lambda>x. \<not> is_sep x) cs) < length s" by simp
qed

declare tokens.simps [simp del]

lemma tokens_Nil [simp]: "tokens [] = []"
  by (simp add: tokens.simps)

lemma tokens_sep [simp]: "is_sep c \<Longrightarrow> tokens (c # s) = tokens s"
  by (subst (1 2) tokens.simps) simp

lemma tokens_word: "\<not> is_sep c \<Longrightarrow> \<forall>x \<in> set w. \<not> is_sep x \<Longrightarrow> tokens (c # w) = [c # w]"
  by (subst tokens.simps) (simp add: takeWhile_eq_all_conv [THEN iffD2] dropWhile_eq_Nil_conv [THEN iffD2])

lemma tokens_word_sep:
  assumes "\<not> is_sep c" and "\<forall>x \<in> set w. \<not> is_sep x" and "is_sep y"
  shows "tokens (c # w @ y # s) = (c # w) # tokens s"
proof -
  have "dropWhile (\<lambda>x. \<not> is_sep x) (w @ y # s) = y # s"
    "takeWhile (\<lambda>x. \<not> is_sep x) (w @ y # s) = w"
    using assms by (simp_all add: dropWhile_append takeWhile_append)
  then show ?thesis using assms by (subst tokens.simps) simp
qed

lemma tokens_induct [case_names Nil sep word word_sep]:
  assumes "P []"
    and "\<And>c s. is_sep c \<Longrightarrow> P s \<Longrightarrow> P (c # s)"
    and "\<And>c w. \<not> is_sep c \<Longrightarrow> \<forall>x \<in> set w. \<not> is_sep x \<Longrightarrow> P (c # w)"
    and "\<And>c w y s. \<not> is_sep c \<Longrightarrow> \<forall>x \<in> set w. \<not> is_sep x \<Longrightarrow> is_sep y \<Longrightarrow> P s \<Longrightarrow> P (c # w @ y # s)"
  shows "P s"
proof (induction s rule: length_induct)
  case (1 s)
  show ?case
  proof (cases s)
    case Nil
    then show ?thesis using assms(1) by simp
  next
    case (Cons c t)
    show ?thesis
    proof (cases "is_sep c \<or> (\<forall>x \<in> set t. \<not> is_sep x)")
      case True
      then show ?thesis
      proof
        assume "is_sep c"
        then show ?thesis using assms(2) [of c t] Cons 1 by simp
      next
        assume "\<forall>x \<in> set t. \<not> is_sep x"
        then show ?thesis using assms(2) [of c t] assms(3) [of c t] Cons 1 by auto
      qed
    next
      case False
      then obtain w y u where "t = w @ y # u" "is_sep y" "\<forall>x \<in> set w. \<not> is_sep x"
        using split_list_first_prop [of t is_sep] by blast
      then show ?thesis using Cons 1 False assms(4) [of c w y u] by auto
    qed
  qed
qed

text \<open>At most one word for every two characters, so a line that fits \<open>temp\<close> fits \<open>argv\<close>.\<close>

lemma length_tokens: "2 * length (tokens s) \<le> length s + 1"
proof (induction s rule: tokens_induct)
  case (word c w)
  then show ?case by (simp add: tokens_word)
next
  case (word_sep c w y s)
  then show ?case by (simp add: tokens_word_sep)
qed auto

lemma tokens_no_sep: "w \<in> set (tokens s) \<Longrightarrow> x \<in> set w \<Longrightarrow> x \<in> set s \<and> \<not> is_sep x"
proof (induction s rule: tokens_induct)
  case (word c w)
  then show ?case by (auto simp: tokens_word)
next
  case (word_sep c w y s)
  then show ?case by (auto simp: tokens_word_sep)
qed auto

section \<open>Cutting a line into words\<close>

lemma take_Suc_nth_eq:
  assumes "take (a + 1) xs = take (a + 1) (ys[a := v])"
  shows "take a xs = take a ys" and "a < length ys \<Longrightarrow> length xs = length ys \<Longrightarrow> xs ! a = v"
proof -
  have "take a (take (a + 1) xs) = take a (take (a + 1) (ys[a := v]))" using assms by simp
  then show "take a xs = take a ys" by simp
  assume "a < length ys" and "length xs = length ys"
  moreover have "take (a + 1) xs ! a = take (a + 1) (ys[a := v]) ! a" using assms by simp
  ultimately show "xs ! a = v" by simp
qed

lemma parse_word_sep:
  "\<forall>x \<in> set w. \<not> is_sep x \<Longrightarrow> is_sep y \<Longrightarrow> int (length pre + length w) < tc \<Longrightarrow>
   parse_word tc (pre @ w @ y # post) (length pre)
     = Inr (pre @ w @ NUL # post, length pre + length w + 1)"
proof (induction w arbitrary: pre)
  case Nil
  then show ?case by (subst parse_word.simps) simp
next
  case (Cons x w)
  then have "parse_word tc ((pre @ [x]) @ w @ y # post) (length (pre @ [x]))
      = Inr ((pre @ [x]) @ w @ NUL # post, length (pre @ [x]) + length w + 1)"
    by (intro Cons.IH) auto
  then show ?case using Cons.prems by (subst parse_word.simps) simp
qed

lemma parse_word_end:
  "\<forall>x \<in> set w. \<not> is_sep x \<Longrightarrow>
   parse_word (int (length pre + length w)) (pre @ w @ post) (length pre)
     = Inr (pre @ w @ post, length pre + length w)"
proof (induction w arbitrary: pre)
  case Nil
  then show ?case by (subst parse_word.simps) simp
next
  case (Cons x w)
  then have "parse_word (int (length (pre @ [x]) + length w)) ((pre @ [x]) @ w @ post) (length (pre @ [x]))
      = Inr ((pre @ [x]) @ w @ post, length (pre @ [x]) + length w)"
    by (intro Cons.IH) auto
  then show ?case using Cons.prems by (subst parse_word.simps) simp
qed

text \<open>
  What a cut line looks like: every pointer from index \<open>a\<close> on leads to the word of the same
  index, terminated inside the buffer.
\<close>

definition args_at :: "char list \<Rightarrow> nat option list \<Rightarrow> nat \<Rightarrow> string list \<Rightarrow> bool" where
  "args_at tmp av a ws \<longleftrightarrow>
     (\<forall>k < length ws. a + k < length av
        \<and> (\<exists>q. av ! (a + k) = Some q \<and> cstr_at tmp q = Inr (ws ! k)))"

lemma args_at_Nil [simp]: "args_at tmp av a []"
  by (simp add: args_at_def)

lemma args_at_Cons:
  assumes "a < length av" and "av ! a = Some q" and "cstr_at tmp q = Inr w"
    and "args_at tmp av (a + 1) ws"
  shows "args_at tmp av a (w # ws)"
  unfolding args_at_def
proof (intro allI impI)
  fix k assume "k < length (w # ws)"
  then show "a + k < length av \<and> (\<exists>q. av ! (a + k) = Some q \<and> cstr_at tmp q = Inr ((w # ws) ! k))"
    using assms by (cases k) (auto simp: args_at_def)
qed

lemma parse_loop_tokens:
  "NUL \<notin> set s \<Longrightarrow> argi + length (tokens s) \<le> length av \<Longrightarrow>
   \<exists>mid av'. parse_loop (int (length pre + length s)) (pre @ s @ NUL # post) av (length pre) argi
       = Inr (pre @ mid @ NUL # post, av', argi + length (tokens s))
     \<and> length mid = length s \<and> length av' = length av \<and> take argi av' = take argi av
     \<and> drop (argi + length (tokens s)) av' = drop (argi + length (tokens s)) av
     \<and> args_at (pre @ mid @ NUL # post) av' argi (tokens s)"
proof (induction s arbitrary: pre av argi rule: tokens_induct)
  case Nil
  then show ?case by (subst parse_loop.simps) (auto simp: args_at_def)
next
  case (sep c s)
  have "\<exists>mid av'. parse_loop (int (length (pre @ [c]) + length s)) ((pre @ [c]) @ s @ NUL # post) av
            (length (pre @ [c])) argi
       = Inr ((pre @ [c]) @ mid @ NUL # post, av', argi + length (tokens s))
     \<and> length mid = length s \<and> length av' = length av \<and> take argi av' = take argi av
     \<and> drop (argi + length (tokens s)) av' = drop (argi + length (tokens s)) av
     \<and> args_at ((pre @ [c]) @ mid @ NUL # post) av' argi (tokens s)"
    using sep.prems sep.hyps by (intro sep.IH) auto
  then obtain mid av' where
      "parse_loop (int (length (pre @ [c]) + length s)) ((pre @ [c]) @ s @ NUL # post) av
            (length (pre @ [c])) argi
       = Inr ((pre @ [c]) @ mid @ NUL # post, av', argi + length (tokens s))"
      "length mid = length s" "length av' = length av" "take argi av' = take argi av"
      "drop (argi + length (tokens s)) av' = drop (argi + length (tokens s)) av"
      "args_at ((pre @ [c]) @ mid @ NUL # post) av' argi (tokens s)" by auto
  then show ?case using sep.prems sep.hyps
    by (subst parse_loop.simps) (auto intro!: exI [of _ "c # mid"])
next
  case (word c w)
  have p: "parse_word (int (length pre + length (c # w))) (pre @ (c # w) @ NUL # post) (length pre)
      = Inr (pre @ (c # w) @ NUL # post, length pre + length (c # w))"
    using word.hyps by (intro parse_word_end) auto
  have "cstr_at (pre @ (c # w) @ NUL # post) (length pre) = Inr (c # w)"
    using word.prems by (intro cstr_at_append) auto
  then show ?case using p word.prems word.hyps
    apply (subst parse_loop.simps)
    apply (simp add: tokens_word)
    apply (subst parse_loop.simps)
    apply (auto simp: args_at_def intro!: exI [of _ "c # w"])
    done
next
  case (word_sep c w y s)
  let ?pre = "pre @ (c # w) @ [NUL]"
  have p: "parse_word (int (length pre + length (c # w @ y # s)))
      (pre @ (c # w) @ y # (s @ NUL # post)) (length pre)
      = Inr (pre @ (c # w) @ NUL # (s @ NUL # post), length pre + length (c # w) + 1)"
    using word_sep.hyps by (intro parse_word_sep) auto
  have "\<exists>mid av'. parse_loop (int (length ?pre + length s)) (?pre @ s @ NUL # post)
            (av[argi := Some (length pre)]) (length ?pre) (argi + 1)
       = Inr (?pre @ mid @ NUL # post, av', argi + 1 + length (tokens s))
     \<and> length mid = length s \<and> length av' = length (av[argi := Some (length pre)])
     \<and> take (argi + 1) av' = take (argi + 1) (av[argi := Some (length pre)])
     \<and> drop (argi + 1 + length (tokens s)) av'
         = drop (argi + 1 + length (tokens s)) (av[argi := Some (length pre)])
     \<and> args_at (?pre @ mid @ NUL # post) av' (argi + 1) (tokens s)"
    using word_sep.prems word_sep.hyps by (intro word_sep.IH) (auto simp: tokens_word_sep)
  then obtain mid av' where r:
      "parse_loop (int (length ?pre + length s)) (?pre @ s @ NUL # post)
            (av[argi := Some (length pre)]) (length ?pre) (argi + 1)
       = Inr (?pre @ mid @ NUL # post, av', argi + 1 + length (tokens s))"
      "length mid = length s" "length av' = length av"
      "take (argi + 1) av' = take (argi + 1) (av[argi := Some (length pre)])"
      "drop (argi + 1 + length (tokens s)) av'
         = drop (argi + 1 + length (tokens s)) (av[argi := Some (length pre)])"
      "args_at (?pre @ mid @ NUL # post) av' (argi + 1) (tokens s)" by auto
  have slot: "argi < length av'" "av' ! argi = Some (length pre)" "take argi av' = take argi av"
    using r(3) word_sep.prems word_sep.hyps take_Suc_nth_eq [OF r(4)]
    by (auto simp: tokens_word_sep)
  have "cstr_at (pre @ (c # w) @ NUL # (mid @ NUL # post)) (length pre) = Inr (c # w)"
    using word_sep.prems by (intro cstr_at_append) auto
  then have "args_at (?pre @ mid @ NUL # post) av' argi ((c # w) # tokens s)"
    using slot r(6) by (intro args_at_Cons) auto
  then show ?case using p r(1,2,3,5) slot(3) word_sep.prems word_sep.hyps
    by (subst parse_loop.simps)
       (auto simp: tokens_word_sep is_sep_def intro!: exI [of _ "c # w @ NUL # mid"])
qed

text \<open>The sizes the structures have in C.\<close>

definition wf_data :: "comm_data \<Rightarrow> bool" where
  "wf_data d \<longleftrightarrow> length (temp d) = COMM_TEMP_BUF_SIZE \<and> length (argv d) = COMM_ARGV_BUF_SIZE
     \<and> tmpsize d = int COMM_TEMP_BUF_SIZE"

definition holds_args :: "comm_data \<Rightarrow> string list \<Rightarrow> bool" where
  "holds_args d ws \<longleftrightarrow> argc d = int (length ws) \<and> (\<forall>k < length ws. arg_str d (int k) = Inr (ws ! k))"

lemma args_at_holds:
  "args_at (temp d) (argv d) 0 ws \<Longrightarrow> argc d = int (length ws) \<Longrightarrow> holds_args d ws"
  by (auto simp: holds_args_def args_at_def arg_str_def rd_def)

lemma parse_command_tokens:
  assumes "temp d = s @ NUL # post" and "tmpc d = int (length s)" and "NUL \<notin> set s"
    and "length (tokens s) \<le> length (argv d)"
  shows "\<exists>d'. comm_parse_command d = Inr (0, d') \<and> holds_args d' (tokens s)
           \<and> drop (length (tokens s)) (argv d') = drop (length (tokens s)) (argv d)
           \<and> length (temp d') = length (temp d) \<and> length (argv d') = length (argv d)
           \<and> tmpsize d' = tmpsize d"
proof -
  obtain mid av' where r: "parse_loop (tmpc d) (temp d) (argv d) 0 0
       = Inr (mid @ NUL # post, av', length (tokens s))"
     "length mid = length s" "length av' = length (argv d)"
     "args_at (mid @ NUL # post) av' 0 (tokens s)"
     "drop (length (tokens s)) av' = drop (length (tokens s)) (argv d)"
    using parse_loop_tokens [where pre = "[]" and argi = 0 and s = s and post = post and av = "argv d"]
      assms by auto
  let ?d = "d\<lparr>temp := mid @ NUL # post, argv := av', argc := int (length (tokens s))\<rparr>"
  have "holds_args ?d (tokens s)" using r(4) by (intro args_at_holds) auto
  then show ?thesis using r assms(1)
    by (intro exI [of _ ?d]) (simp add: comm_parse_command_def)
qed

text \<open>Any line that fits the buffer is read and cut into its words without leaving an array.\<close>

lemma read_parse_line:
  assumes "wf_data d" and "io_pending b i = ln @ NL # rest"
    and "NL \<notin> set ln" and "NUL \<notin> set ln" and "length ln < COMM_TEMP_BUF_SIZE"
  obtains i' d1 d2 where "comm_get_command (comm_fgetc b) d i = Some (Inr (0, d1), i')"
    and "io_pending b i' = rest" and "comm_parse_command d1 = Inr (0, d2)"
    and "wf_data d2" and "holds_args d2 (tokens (strip_cr ln))"
    and "drop (length (tokens (strip_cr ln))) (argv d2) = drop (length (tokens (strip_cr ln))) (argv d)"
proof -
  let ?w = "strip_cr ln"
  obtain i' post where g: "comm_get_command (comm_fgetc b) d i
      = Some (Inr (0, d\<lparr>temp := ?w @ NUL # post, tmpc := int (length ?w)\<rparr>), i')"
      "io_pending b i' = rest" "length (?w @ NUL # post) = length (temp d)"
    using comm_src.get_command_line [of b i ln rest d] assms by (auto simp: wf_data_def)
  let ?d1 = "d\<lparr>temp := ?w @ NUL # post, tmpc := int (length ?w)\<rparr>"
  have "2 * length (tokens ?w) \<le> 4096"
    using length_tokens [of ?w] length_strip_cr [of ln] assms(5) by linarith
  then have "\<exists>d'. comm_parse_command ?d1 = Inr (0, d') \<and> holds_args d' (tokens ?w)
           \<and> drop (length (tokens ?w)) (argv d') = drop (length (tokens ?w)) (argv ?d1)
           \<and> length (temp d') = length (temp ?d1) \<and> length (argv d') = length (argv ?d1)
           \<and> tmpsize d' = tmpsize ?d1"
    using assms(1,4) set_strip_cr [of ln] by (intro parse_command_tokens) (auto simp: wf_data_def)
  then show ?thesis using that g assms(1) by (auto simp: wf_data_def)
qed

section \<open>Lines that do not fit, and input that ends\<close>

context char_source
begin

lemma get_loop_chars:
  "pending i = ln @ rest \<Longrightarrow> NL \<notin> set ln \<Longrightarrow> length ln \<le> length post \<Longrightarrow>
   int (length pre + length post) \<le> sz \<Longrightarrow>
   \<exists>i'. pending i' = rest \<and>
        comm_get_loop getc sz (pre @ post) (int (length pre)) i
          = comm_get_loop getc sz (pre @ ln @ drop (length ln) post) (int (length (pre @ ln))) i'"
proof (induction ln arbitrary: i pre post)
  case Nil
  then show ?case by auto
next
  case (Cons c ln)
  obtain v i' where g: "getc i = Some (v, i')" "pending i' = ln @ rest"
      "char_of_int v = c" "v \<noteq> 10"
    using getc_next [of i c "ln @ rest"] Cons.prems by auto
  obtain p ps where post: "post = p # ps" using Cons.prems by (cases post) auto
  have w: "wr (pre @ post) (int (length pre)) c = Inr (pre @ c # ps)"
    by (simp add: wr_def post)
  have "\<exists>i''. pending i'' = rest \<and>
        comm_get_loop getc sz ((pre @ [c]) @ ps) (int (length (pre @ [c]))) i'
          = comm_get_loop getc sz ((pre @ [c]) @ ln @ drop (length ln) ps)
              (int (length ((pre @ [c]) @ ln))) i''"
    using Cons.prems post by (intro Cons.IH g(2)) auto
  moreover have "comm_get_loop getc sz (pre @ post) (int (length pre)) i
      = comm_get_loop getc sz ((pre @ [c]) @ ps) (int (length (pre @ [c]))) i'"
    using g w Cons.prems post
    by (subst comm_get_loop.simps) (simp add: Let_def algebra_simps)
  ultimately show ?case using post by simp
qed

lemma get_command_full:
  assumes "pending i = ln @ NL # rest" and "NL \<notin> set ln" and "length ln = length (temp d)"
    and "tmpsize d = int (length (temp d))" and "ln \<noteq> []" and "last ln \<noteq> CR"
  shows "\<exists>i'. comm_get_command getc d i = Some (Inl Out_Of_Bounds, i') \<and> pending i' = rest"
proof -
  obtain i1 where l: "pending i1 = NL # rest"
      "comm_get_loop getc (tmpsize d) (temp d) 0 i
        = comm_get_loop getc (tmpsize d) ln (int (length ln)) i1"
    using get_loop_chars [where pre = "[]" and post = "temp d" and sz = "tmpsize d" and ln = ln
        and rest = "NL # rest" and i = i] assms by auto
  obtain v i2 where g: "getc i1 = Some (v, i2)" "pending i2 = rest" "v = 10"
    using getc_next [OF l(1)] by auto
  have "rd ln (int (length ln) - 1) = Inr (last ln)"
    using assms(5) by (simp add: rd_def last_conv_nth nat_diff_distrib')
  then show ?thesis using l(2) g assms
    by (auto simp: comm_get_command_def wr_def comm_get_loop.simps [where i = i1])
qed

end

text \<open>
  Without a newline in the rest of standard input the reader never returns: at end of file
  \<^verbatim>\<open>fgetc\<close> keeps returning EOF, which is stored like a character.
\<close>

lemma get_loop_stdin_newline:
  assumes "comm_get_loop getc sz tmp cnt i = Some r" and "getc = stdin_fgetc"
    and "0 < sz" and "sz \<le> int (length tmp)" and "0 \<le> cnt" and "cnt \<le> sz"
  shows "NL \<in> set (io_stdin i)"
proof -
  have "getc = stdin_fgetc \<and> 0 < sz \<and> sz \<le> int (length tmp) \<and> 0 \<le> cnt \<and> cnt \<le> sz
      \<longrightarrow> NL \<in> set (io_stdin i)"
  proof (rule comm_get_loop.raw_induct [OF _ assms(1),
        where P = "\<lambda>getc sz tmp cnt i r. getc = stdin_fgetc \<and> 0 < sz \<and> sz \<le> int (length tmp)
           \<and> 0 \<le> cnt \<and> cnt \<le> sz \<longrightarrow> NL \<in> set (io_stdin i)"])
    fix f :: "(io \<Rightarrow> (int \<times> io) option) \<Rightarrow> int \<Rightarrow> char list \<Rightarrow> int \<Rightarrow> io
               \<Rightarrow> ((char list \<times> int) res \<times> io) option"
      and getc sz tmp cnt i r
    assume IH: "\<And>getc sz tmp cnt i r. f getc sz tmp cnt i = Some r \<Longrightarrow>
         getc = stdin_fgetc \<and> 0 < sz \<and> sz \<le> int (length tmp) \<and> 0 \<le> cnt \<and> cnt \<le> sz
           \<longrightarrow> NL \<in> set (io_stdin i)"
      and eq: "Option.bind (getc i) (\<lambda>(c, i').
       if c = 10 then
         (let stripped =
            (if cnt > 0
             then res_bind (rd tmp (cnt - 1)) (\<lambda>ch. Inr (if ch = CR then cnt - 1 else cnt))
             else Inr cnt)
          in Some (res_bind stripped (\<lambda>n. res_bind (wr tmp n NUL) (\<lambda>tmp'. Inr (tmp', n))), i'))
       else
         (let at = (if cnt \<ge> sz then 0 else cnt)
          in case wr tmp at (char_of_int c) of
               Inl e \<Rightarrow> Some (Inl e, i')
             | Inr tmp' \<Rightarrow> f getc sz tmp' (at + 1) i')) = Some r"
    show "getc = stdin_fgetc \<and> 0 < sz \<and> sz \<le> int (length tmp) \<and> 0 \<le> cnt \<and> cnt \<le> sz
           \<longrightarrow> NL \<in> set (io_stdin i)"
    proof (intro impI, elim conjE)
      assume h: "getc = stdin_fgetc" "0 < sz" "sz \<le> int (length tmp)" "0 \<le> cnt" "cnt \<le> sz"
      let ?at = "if cnt \<ge> sz then 0 else cnt"
      have at: "0 \<le> ?at" "?at < int (length tmp)" "?at + 1 \<le> sz" using h by auto
      have step: "NL \<in> set (io_stdin i')"
        if "stdin_fgetc i = Some (c, i')" and "c \<noteq> 10" for c i'
      proof -
        have "f getc sz (tmp[nat ?at := char_of_int c]) (?at + 1) i' = Some r"
          using eq that h at by (simp add: wr_def Let_def)
        from IH [OF this] show ?thesis using h at by simp
      qed
      show "NL \<in> set (io_stdin i)"
      proof (cases "io_stdin i")
        case Nil
        then show ?thesis using step [of "- 1" i] by (simp add: stdin_fgetc_def)
      next
        case (Cons c cs)
        then show ?thesis using step [of "uchar_val c" "i\<lparr>io_stdin := cs\<rparr>"]
          by (cases "c = NL") (auto simp: stdin_fgetc_def uchar_val_NL)
      qed
    qed
  qed
  then show ?thesis using assms by simp
qed

lemma get_command_eof:
  assumes "wf_data d" and "NL \<notin> set (io_stdin i)"
  shows "comm_get_command stdin_fgetc d i = None"
proof -
  have "comm_get_loop stdin_fgetc (tmpsize d) (temp d) 0 i = None"
    using get_loop_stdin_newline [of stdin_fgetc "tmpsize d" "temp d" 0 i] assms
    by (cases "comm_get_loop stdin_fgetc (tmpsize d) (temp d) 0 i") (auto simp: wf_data_def)
  then show ?thesis by (simp add: comm_get_command_def)
qed

end
