(* ===== verification/Comm_Table.thy ===== *)
theory Comm_Table
  imports Comm_Line "HOL-Library.Multiset"
begin

text \<open>
  What the command table of \<open>Comm_Cmd\<close> promises. The locale \<open>command_table\<close> is the contract
  the command modules register against: a bag of commands with a number of free slots. It is
  interpreted on \<open>comm_cmd_register\<close> and \<open>comm_cmd_unregister\<close>. The second half says which
  command a line runs.
\<close>

section \<open>The loop of the module functions\<close>

text \<open>
  \<^verbatim>\<open>for (i = 0; i < ARRAY_SIZE(xs); i++) { r = f(xs[i]); if (r) break; }\<close>
\<close>

fun each_until :: "('a \<Rightarrow> 's \<Rightarrow> (int \<times> 's) res) \<Rightarrow> 'a list \<Rightarrow> int \<Rightarrow> 's \<Rightarrow> (int \<times> 's) res" where
  "each_until f [] r s = Inr (r, s)"
| "each_until f (x # xs) r s =
     res_bind (f x s) (\<lambda>(r', s'). if r' \<noteq> 0 then Inr (r', s') else each_until f xs r' s')"

section \<open>The contract of a command table\<close>

locale command_table =
  fixes reg :: "'p \<Rightarrow> 's \<Rightarrow> (int \<times> 's) res"
    and unreg :: "'p \<Rightarrow> 's \<Rightarrow> (int \<times> 's) res"
    and contents :: "'s \<Rightarrow> 'p multiset"
    and room :: "'s \<Rightarrow> nat"
    and valid :: "'s \<Rightarrow> 'p \<Rightarrow> bool"
    and inv :: "'s \<Rightarrow> bool"
  assumes reg_ok: "inv s \<Longrightarrow> valid s p \<Longrightarrow> 0 < room s \<Longrightarrow>
      \<exists>s'. reg p s = Inr (0, s') \<and> inv s' \<and> contents s' = add_mset p (contents s)
           \<and> room s = Suc (room s') \<and> valid s' = valid s"
    and reg_full: "inv s \<Longrightarrow> valid s p \<Longrightarrow> room s = 0 \<Longrightarrow> \<exists>s'. reg p s = Inr (- 1, s') \<and> contents s' = contents s \<and> room s' = room s"
    and unreg_ok: "inv s \<Longrightarrow> valid s p \<Longrightarrow> p \<in># contents s \<Longrightarrow>
      \<exists>s'. unreg p s = Inr (0, s') \<and> inv s' \<and> contents s' = contents s - {#p#}
           \<and> room s' = Suc (room s) \<and> valid s' = valid s"
    and unreg_absent: "inv s \<Longrightarrow> valid s p \<Longrightarrow> p \<notin># contents s \<Longrightarrow> \<exists>s'. unreg p s = Inr (- 1, s') \<and> contents s' = contents s \<and> room s' = room s"
begin

text \<open>
  A module that prepares each command and registers it, stopping at the first error,
  registers all of them when there is room.
\<close>

lemma reg_all:
  "inv s \<Longrightarrow> length ps \<le> room s \<Longrightarrow>
   (\<And>p s. p \<in> set ps \<Longrightarrow> inv s \<Longrightarrow> inv (prep p s) \<and> valid (prep p s) p
      \<and> contents (prep p s) = contents s \<and> room (prep p s) = room s) \<Longrightarrow>
   \<exists>s'. each_until (\<lambda>p s. reg p (prep p s)) ps 0 s = Inr (0, s') \<and> inv s'
        \<and> contents s' = contents s + mset ps \<and> room s = length ps + room s'"
proof (induction ps arbitrary: s)
  case Nil
  then show ?case by simp
next
  case (Cons p ps)
  have pr: "inv (prep p s)" "valid (prep p s) p" "contents (prep p s) = contents s"
      "room (prep p s) = room s"
    using Cons.prems(1,3) by auto
  obtain s1 where s1: "reg p (prep p s) = Inr (0, s1)" "inv s1"
      "contents s1 = add_mset p (contents s)" "room s = Suc (room s1)"
    using reg_ok [OF pr(1,2)] pr Cons.prems(2) by auto
  have "\<exists>s'. each_until (\<lambda>p s. reg p (prep p s)) ps 0 s1 = Inr (0, s') \<and> inv s'
        \<and> contents s' = contents s1 + mset ps \<and> room s1 = length ps + room s'"
    using Cons.prems s1 by (intro Cons.IH) auto
  then show ?case using s1 by auto
qed

lemma unreg_all:
  "inv s \<Longrightarrow> mset ps \<subseteq># contents s \<Longrightarrow> (\<And>p. p \<in> set ps \<Longrightarrow> valid s p) \<Longrightarrow>
   \<exists>s'. each_until unreg ps 0 s = Inr (0, s') \<and> inv s' \<and> valid s' = valid s
        \<and> contents s' = contents s - mset ps \<and> room s' = length ps + room s"
proof (induction ps arbitrary: s)
  case Nil
  then show ?case by simp
next
  case (Cons p ps)
  have "p \<in># contents s" using mset_subset_eqD [OF Cons.prems(2), of p] by simp
  then obtain s1 where s1: "unreg p s = Inr (0, s1)" "inv s1"
      "contents s1 = contents s - {#p#}" "room s1 = Suc (room s)" "valid s1 = valid s"
    using unreg_ok [of s p] Cons.prems by auto
  have "mset ps \<subseteq># contents s1" using Cons.prems(2) s1(3)
    by (simp add: insert_subset_eq_iff)
  then have "\<exists>s'. each_until unreg ps 0 s1 = Inr (0, s') \<and> inv s' \<and> valid s' = valid s1
        \<and> contents s' = contents s1 - mset ps \<and> room s' = length ps + room s1"
    using Cons.prems s1 by (intro Cons.IH) auto
  then show ?case using s1 by (auto simp: add_mset_remove_trivial)
qed

text \<open>Registering commands and unregistering them again leaves the bag as it was.\<close>

lemma reg_keeps_valid:
  "inv s \<Longrightarrow> length ps \<le> room s \<Longrightarrow> \<forall>p \<in> set ps. valid s p \<Longrightarrow>
   \<exists>s'. each_until reg ps r s = Inr (if ps = [] then r else 0, s') \<and> inv s' \<and> valid s' = valid s
        \<and> contents s' = contents s + mset ps \<and> room s = length ps + room s'"
proof (induction ps arbitrary: r s)
  case (Cons p ps)
  obtain s1 where s1: "reg p s = Inr (0, s1)" "inv s1" "contents s1 = add_mset p (contents s)"
      "room s = Suc (room s1)" "valid s1 = valid s"
    using reg_ok [of s p] Cons.prems by auto
  then show ?case using Cons.IH [of s1 0] Cons.prems by auto
qed simp

lemma reg_unreg_all:
  assumes "inv s" and "\<forall>p \<in> set ps. valid s p" and "length ps \<le> room s"
  shows "\<exists>s1 s2. each_until reg ps 0 s = Inr (0, s1) \<and> contents s1 = contents s + mset ps
    \<and> each_until unreg ps 0 s1 = Inr (0, s2) \<and> contents s2 = contents s \<and> room s2 = room s"
proof -
  obtain s1 where s1: "each_until reg ps 0 s = Inr (0, s1)" "inv s1" "valid s1 = valid s"
      "contents s1 = contents s + mset ps" "room s = length ps + room s1"
    using reg_keeps_valid [OF assms(1,3,2), of 0] by auto
  then show ?thesis using unreg_all [of s1 ps] assms(2) by auto
qed

lemma reg_unreg:
  assumes "inv s" and "valid s p" and "0 < room s"
  shows "\<exists>s1 s2. reg p s = Inr (0, s1) \<and> unreg p s1 = Inr (0, s2)
           \<and> contents s2 = contents s \<and> room s2 = room s"
proof -
  obtain s1 where s1: "reg p s = Inr (0, s1)" "inv s1" "contents s1 = add_mset p (contents s)"
      "room s = Suc (room s1)" "valid s1 = valid s"
    using reg_ok [OF assms] by auto
  then show ?thesis using unreg_ok [of s1 p] assms(2) by auto
qed

end

section \<open>The table of comm_cmd.c keeps the contract\<close>

definition registered :: "('p, 'h, 'c, 'v) comm_state \<Rightarrow> 'p multiset" where
  "registered st = mset (List.map_filter (\<lambda>x. x) (comm_cmds st))"

definition free_slots :: "('p, 'h, 'c, 'v) comm_state \<Rightarrow> nat" where
  "free_slots st = length (filter (\<lambda>x. x = None) (comm_cmds st))"

definition valid_cmd :: "('p, 'h, 'c, 'v) comm_state \<Rightarrow> 'p \<Rightarrow> bool" where
  "valid_cmd st p \<longleftrightarrow> 0 \<le> cmd_id (cmd_obj st p) \<and> cmd_name (cmd_obj st p) \<noteq> None"

definition wf_table :: "('p, 'h, 'c, 'v) comm_state \<Rightarrow> bool" where
  "wf_table st \<longleftrightarrow> length (comm_cmds st) = COMM_MAX_CMDS"

lemma check_valid: "valid_cmd st p \<Longrightarrow> comm_check_command (Some p) st = (0, st)"
  by (auto simp: comm_check_command_def valid_cmd_def)

lemma match_from_index:
  "(\<And>p. c = Some p \<Longrightarrow> cmd_name (obj p) \<noteq> None) \<Longrightarrow> c \<in> set xs \<Longrightarrow>
   \<exists>k < length xs. match_from obj c i xs = Inr (i + int k) \<and> xs ! k = c"
proof (induction xs arbitrary: i)
  case Nil
  then show ?case by simp
next
  case (Cons x xs)
  show ?case
  proof (cases "x = c")
    case True
    then show ?thesis using Cons.prems(1)
      by (intro exI [of _ 0]) (auto simp: strcmp_names_def split: option.splits)
  next
    case False
    then obtain k where "k < length xs" "match_from obj c (i + 1) xs = Inr (i + 1 + int k)" "xs ! k = c"
      using Cons.IH [of "i + 1"] Cons.prems by auto
    then show ?thesis using False by (intro exI [of _ "Suc k"]) auto
  qed
qed

lemma match_from_absent: "c \<notin> set xs \<Longrightarrow> match_from obj c i xs = Inr (- 1)"
  by (induction xs arbitrary: i) auto

lemma filter_update_bag:
  assumes "k < length xs"
  shows "xs ! k = None \<Longrightarrow>
           mset (List.map_filter (\<lambda>x. x) (xs[k := Some p]))
             = add_mset p (mset (List.map_filter (\<lambda>x. x) xs))
         \<and> length (filter (\<lambda>x. x = None) xs) = Suc (length (filter (\<lambda>x. x = None) (xs[k := Some p])))"
    and "xs ! k = Some p \<Longrightarrow>
           mset (List.map_filter (\<lambda>x. x) (xs[k := None]))
             = mset (List.map_filter (\<lambda>x. x) xs) - {#p#}
         \<and> length (filter (\<lambda>x. x = None) (xs[k := None])) = Suc (length (filter (\<lambda>x. x = None) xs))"
proof -
  have xs: "xs = take k xs @ xs ! k # drop (Suc k) xs" using assms by (rule id_take_nth_drop)
  have up: "xs[k := v] = take k xs @ v # drop (Suc k) xs" for v
    using assms by (rule upd_conv_take_nth_drop)
  show "xs ! k = None \<Longrightarrow>
           mset (List.map_filter (\<lambda>x. x) (xs[k := Some p]))
             = add_mset p (mset (List.map_filter (\<lambda>x. x) xs))
         \<and> length (filter (\<lambda>x. x = None) xs) = Suc (length (filter (\<lambda>x. x = None) (xs[k := Some p])))"
    by (subst (2 3) xs) (simp add: up List.map_filter_def)
  show "xs ! k = Some p \<Longrightarrow>
           mset (List.map_filter (\<lambda>x. x) (xs[k := None]))
             = mset (List.map_filter (\<lambda>x. x) xs) - {#p#}
         \<and> length (filter (\<lambda>x. x = None) (xs[k := None])) = Suc (length (filter (\<lambda>x. x = None) xs))"
    by (subst (2 4) xs) (simp add: up List.map_filter_def)
qed

lemma map_filter_mem: "p \<in> set (List.map_filter (\<lambda>x. x) xs) \<longleftrightarrow> Some p \<in> set xs"
  by (induction xs) (auto simp: List.map_filter_def)

lemma free_slots_pos: "0 < free_slots st \<longleftrightarrow> None \<in> set (comm_cmds st)"
  by (auto simp: free_slots_def filter_empty_conv)

lemma register_ok:
  assumes "wf_table st" and "valid_cmd st p" and "0 < free_slots st"
  shows "\<exists>k < COMM_MAX_CMDS. comm_cmds st ! k = None
           \<and> comm_cmd_register (Some p) st = Inr (0, st\<lparr>comm_cmds := (comm_cmds st)[k := Some p]\<rparr>)"
proof -
  obtain k where "k < length (comm_cmds st)" "comm_cmds st ! k = None"
      "match_from (cmd_obj st) None 0 (comm_cmds st) = Inr (int k)"
    using match_from_index [of None "cmd_obj st" "comm_cmds st" 0] assms(3)
    by (auto simp: free_slots_pos)
  then show ?thesis using assms
    by (intro exI [of _ k])
       (auto simp: comm_cmd_register_def check_valid comm_match_command_def comm_set_command_def
          wf_table_def wr_def)
qed

lemma unregister_ok:
  assumes "wf_table st" and "valid_cmd st p" and "Some p \<in> set (comm_cmds st)"
  shows "\<exists>k < COMM_MAX_CMDS. comm_cmds st ! k = Some p
           \<and> comm_cmd_unregister (Some p) st = Inr (0, st\<lparr>comm_cmds := (comm_cmds st)[k := None]\<rparr>)"
proof -
  obtain k where "k < length (comm_cmds st)" "comm_cmds st ! k = Some p"
      "match_from (cmd_obj st) (Some p) 0 (comm_cmds st) = Inr (int k)"
    using match_from_index [of "Some p" "cmd_obj st" "comm_cmds st" 0] assms(2,3)
    by (auto simp: valid_cmd_def)
  then show ?thesis using assms
    by (intro exI [of _ k])
       (auto simp: comm_cmd_unregister_def check_valid comm_match_command_def comm_set_command_def
          wf_table_def wr_def)
qed

lemma register_full: "valid_cmd st p \<Longrightarrow> free_slots st = 0 \<Longrightarrow> comm_cmd_register (Some p) st = Inr (- 1, st)"
  using free_slots_pos [of st]
  by (simp add: comm_cmd_register_def check_valid comm_match_command_def match_from_absent)

lemma unregister_absent:
  "valid_cmd st p \<Longrightarrow> Some p \<notin> set (comm_cmds st) \<Longrightarrow> comm_cmd_unregister (Some p) st = Inr (- 1, st)"
  by (simp add: comm_cmd_unregister_def check_valid comm_match_command_def match_from_absent)

interpretation comm_tab: command_table
  "\<lambda>p. comm_cmd_register (Some p)" "\<lambda>p. comm_cmd_unregister (Some p)"
  registered free_slots valid_cmd wf_table
proof unfold_locales
  fix s :: "('a, 'b, 'c, 'd) comm_state" and p
  assume a: "wf_table s" "valid_cmd s p"
  show "\<exists>s'. comm_cmd_register (Some p) s = Inr (0, s') \<and> wf_table s'
      \<and> registered s' = add_mset p (registered s) \<and> free_slots s = Suc (free_slots s')
      \<and> valid_cmd s' = valid_cmd s" if room: "0 < free_slots s"
  proof -
    obtain k where k: "k < COMM_MAX_CMDS" "comm_cmds s ! k = None"
        "comm_cmd_register (Some p) s = Inr (0, s\<lparr>comm_cmds := (comm_cmds s)[k := Some p]\<rparr>)"
      using register_ok [OF a room] by auto
    then show ?thesis using filter_update_bag(1) [of k "comm_cmds s" p] a(1)
      by (auto simp: registered_def free_slots_def wf_table_def valid_cmd_def)
  qed
  show "\<exists>s'. comm_cmd_register (Some p) s = Inr (- 1, s') \<and> registered s' = registered s
      \<and> free_slots s' = free_slots s" if "free_slots s = 0"
    using register_full [OF a(2) that] by auto
  show "\<exists>s'. comm_cmd_unregister (Some p) s = Inr (0, s') \<and> wf_table s'
      \<and> registered s' = registered s - {#p#} \<and> free_slots s' = Suc (free_slots s)
      \<and> valid_cmd s' = valid_cmd s" if mem: "p \<in># registered s"
  proof -
    have "Some p \<in> set (comm_cmds s)" using mem by (simp add: registered_def map_filter_mem)
    then obtain k where k: "k < COMM_MAX_CMDS" "comm_cmds s ! k = Some p"
        "comm_cmd_unregister (Some p) s = Inr (0, s\<lparr>comm_cmds := (comm_cmds s)[k := None]\<rparr>)"
      using unregister_ok [OF a] by auto
    then show ?thesis using filter_update_bag(2) [of k "comm_cmds s" p] a(1)
      by (auto simp: registered_def free_slots_def wf_table_def valid_cmd_def)
  qed
  show "\<exists>s'. comm_cmd_unregister (Some p) s = Inr (- 1, s') \<and> registered s' = registered s
      \<and> free_slots s' = free_slots s" if "p \<notin># registered s"
    using unregister_absent [OF a(2)] that by (simp add: registered_def map_filter_mem)
qed

section \<open>Which command a line runs\<close>

definition runnable :: "('h, 'c, 'v) comm_cmd \<Rightarrow> bool" where
  "runnable cmd \<longleftrightarrow> 0 \<le> cmd_id cmd \<and> cmd_name cmd \<noteq> None"

text \<open>A command without a group is named by the first word, one with a group by the first two.\<close>

definition cmd_matches :: "('h, 'c, 'v) comm_cmd \<Rightarrow> string \<Rightarrow> string \<Rightarrow> bool" where
  "cmd_matches cmd w0 w1 \<longleftrightarrow> runnable cmd \<and>
     (if cmd_nogroup cmd = 1 then cmd_name cmd = Some w0
      else cmd_group cmd = Some w0 \<and> cmd_name cmd = Some w1)"

text \<open>Every command of the program has \<open>nogroup\<close> 0 or 1, and one with 0 names its group.\<close>

definition wf_cmd :: "('h, 'c, 'v) comm_cmd \<Rightarrow> bool" where
  "wf_cmd cmd \<longleftrightarrow> cmd_nogroup cmd = 1 \<or> (cmd_nogroup cmd = 0 \<and> cmd_group cmd \<noteq> None)"

definition slots :: "'p option list \<Rightarrow> 'p list" where
  "slots cmds = List.map_filter (\<lambda>x. x) cmds"

lemma slots_simps [simp]:
  "slots [] = []" "slots (None # xs) = slots xs" "slots (Some p # xs) = p # slots xs"
  by (simp_all add: slots_def List.map_filter_def)

lemma slots_append [simp]: "slots (xs @ ys) = slots xs @ slots ys"
  by (simp add: slots_def List.map_filter_def)

lemma slots_replicate_None [simp]: "slots (replicate n None) = []"
  by (induction n) auto

lemma strcmp_arg_Inr: "arg_str d k = Inr w \<Longrightarrow> strcmp_arg d k (Some t) = Inr (w \<noteq> t)"
  by (simp add: strcmp_arg_def)

lemma exec_find_words:
  assumes "arg_str d 0 = Inr w0" and "arg_str d 1 = Inr w1"
  shows "\<forall>p \<in> set (slots cmds). wf_cmd (obj p) \<Longrightarrow>
    exec_find d obj cmds = Inr (find (\<lambda>p. cmd_matches (obj p) w0 w1) (slots cmds))"
proof (induction cmds)
  case (Cons x cmds)
  show ?case
  proof (cases x)
    case (Some p)
    then have "wf_cmd (obj p)" using Cons.prems by simp
    then have "exec_find d obj (Some p # cmds)
        = (if cmd_matches (obj p) w0 w1 then Inr (Some p) else exec_find d obj cmds)"
      by (auto simp: wf_cmd_def cmd_matches_def runnable_def Let_def
          strcmp_arg_Inr [OF assms(1)] strcmp_arg_Inr [OF assms(2)])
    then show ?thesis using Some Cons by (simp del: exec_find.simps)
  qed (use Cons in simp)
qed simp

lemma exec_find_one_word:
  assumes "arg_str d 0 = Inr w0"
  shows "\<forall>p \<in> set (slots cmds). wf_cmd (obj p) \<and>
      (runnable (obj p) \<and> cmd_nogroup (obj p) = 0 \<longrightarrow> cmd_group (obj p) \<noteq> Some w0) \<Longrightarrow>
    exec_find d obj cmds = Inr (find (\<lambda>p. cmd_nogroup (obj p) = 1 \<and> cmd_matches (obj p) w0 []) (slots cmds))"
proof (induction cmds)
  case (Cons x cmds)
  show ?case
  proof (cases x)
    case (Some p)
    then have "wf_cmd (obj p)" and "runnable (obj p) \<and> cmd_nogroup (obj p) = 0 \<longrightarrow>
        cmd_group (obj p) \<noteq> Some w0" using Cons.prems by auto
    then have "exec_find d obj (Some p # cmds)
        = (if cmd_nogroup (obj p) = 1 \<and> cmd_matches (obj p) w0 [] then Inr (Some p)
           else exec_find d obj cmds)"
      by (auto simp: wf_cmd_def cmd_matches_def runnable_def Let_def strcmp_arg_Inr [OF assms(1)])
    then show ?thesis using Some Cons by (simp del: exec_find.simps)
  qed (use Cons in simp)
qed simp

text \<open>
  A line with a group name alone: the first command of the group is compared with
  \<^verbatim>\<open>argv[1]\<close>, which is not an argument of this line. NULL makes the comparison undefined.
\<close>

lemma exec_find_group_alone:
  assumes "arg_str d 0 = Inr w0" and "arg_str d 1 = Inl e"
    and "wf_cmd (obj p)" and "runnable (obj p)" and "cmd_nogroup (obj p) = 0" and "cmd_group (obj p) = Some w0"
  shows "\<forall>q \<in> set (slots xs). wf_cmd (obj q) \<and> (runnable (obj q) \<longrightarrow>
      (if cmd_nogroup (obj q) = 1 then cmd_name (obj q) \<noteq> Some w0 else cmd_group (obj q) \<noteq> Some w0)) \<Longrightarrow>
    exec_find d obj (xs @ Some p # ys) = Inl e"
proof (induction xs)
  case Nil
  have "strcmp_arg d 1 (cmd_name (obj p)) = Inl e" using assms(2) by (simp add: strcmp_arg_def)
  then show ?case using assms(3-)
    by (auto simp: runnable_def Let_def strcmp_arg_Inr [OF assms(1)])
next
  case (Cons x xs)
  show ?case
  proof (cases x)
    case None
    then show ?thesis using Cons by simp
  next
    case (Some q)
    then have "wf_cmd (obj q)" and "runnable (obj q) \<longrightarrow>
      (if cmd_nogroup (obj q) = 1 then cmd_name (obj q) \<noteq> Some w0 else cmd_group (obj q) \<noteq> Some w0)"
      using Cons.prems by auto
    then have "exec_find d obj (Some q # xs @ Some p # ys) = exec_find d obj (xs @ Some p # ys)"
      by (auto simp: wf_cmd_def runnable_def Let_def strcmp_arg_Inr [OF assms(1)] split: if_splits)
    then show ?thesis using Some Cons by (simp del: exec_find.simps)
  qed
qed

end
