(* ===== verification/Usb_Lib.thy ===== *)
theory Usb_Lib
  imports C_Prelude
begin

text \<open>
  Models \<^verbatim>\<open>demo-dh/common/usb_cmd.c\<close>, \<^verbatim>\<open>usb_cmd.h\<close> and \<^verbatim>\<open>usb_fm_ctrl.h\<close>: the commands
  that bind a USB device, read and write its memory and registers and control its FM
  receiver. libusb is not part of the repository; its functions are the record \<open>libusb\<close>, an
  argument of every definition that calls it. The state \<open>usb\<close> holds \<^verbatim>\<open>usbctrl\<close>, the state
  \<open>'w\<close> behind libusb, the lines printed, and \<open>ucalls\<close>, a record of the calls made to libusb
  that no code reads.
\<close>

section \<open>Constants and tables\<close>

abbreviation "USB_IDX_GROUP \<equiv> 0 :: nat"
abbreviation "USB_IDX_CMD \<equiv> 1 :: nat"
abbreviation "USB_IDX_ARGC1 \<equiv> 2 :: nat"
abbreviation "USB_IDX_ARGC2 \<equiv> 3 :: nat"
abbreviation "USB_IDX_ARGC3 \<equiv> 4 :: nat"

abbreviation "USB_CMD_LIST \<equiv> 0 :: int"
abbreviation "USB_CMD_LIST1 \<equiv> 1 :: int"
abbreviation "USB_CMD_BIND \<equiv> 2 :: int"
abbreviation "USB_CMD_UNBIND \<equiv> 3 :: int"
abbreviation "USB_CMD_READ \<equiv> 4 :: int"
abbreviation "USB_CMD_WRITE \<equiv> 5 :: int"
abbreviation "USB_CMD_TEST \<equiv> 6 :: int"
abbreviation "USB_CMD_FM \<equiv> 7 :: int"

abbreviation "USB_MOD_ANA \<equiv> 1 :: int"
abbreviation "USB_MOD_PMU \<equiv> 2 :: int"
abbreviation "USB_MOD_DIG \<equiv> 3 :: int"
abbreviation "USB_MOD_MEM \<equiv> 4 :: int"
abbreviation "USB_CMD_EXEC \<equiv> 5 :: int"
abbreviation "USB_CMD_RESET \<equiv> 6 :: int"
abbreviation "USB_CMD_RESET_CDC \<equiv> 7 :: int"

abbreviation "USB_FM_CMD_POWER_ON \<equiv> 0 :: int"
abbreviation "USB_FM_CMD_POWER_OFF \<equiv> 1 :: int"
abbreviation "USB_FM_CMD_VOLUME \<equiv> 2 :: int"
abbreviation "USB_FM_CMD_CHANNEL \<equiv> 3 :: int"
abbreviation "USB_FM_CMD_BAND \<equiv> 4 :: int"
abbreviation "USB_FM_CMD_DEVICE \<equiv> 5 :: int"
abbreviation "USB_FM_CMD_TEST \<equiv> 6 :: int"
abbreviation "USB_FM_CMD_MUTE \<equiv> 7 :: int"

abbreviation "USB_FM_PRIMITIVE_SET \<equiv> 0xA1 :: u8"
abbreviation "USB_FM_PRIMITIVE_GET \<equiv> 0xA2 :: u8"

abbreviation "USB_FM_SET_POWER \<equiv> 0 :: u16"
abbreviation "USB_FM_SET_BAND \<equiv> 1 :: u16"
abbreviation "USB_FM_SET_MUTE \<equiv> 4 :: u16"
abbreviation "USB_FM_SET_VOLUME \<equiv> 5 :: u16"
abbreviation "USB_FM_SET_TUNING_CHAN \<equiv> 9 :: u16"
abbreviation "USB_FM_GET_FM_IC \<equiv> 1 :: u16"
abbreviation "USB_FM_GET_BAND \<equiv> 3 :: u16"
abbreviation "USB_FM_GET_MUTE_STATE \<equiv> 6 :: u16"
abbreviation "USB_FM_GET_VOL \<equiv> 8 :: u16"
abbreviation "USB_FM_GET_CUR_CHAN \<equiv> 13 :: u16"

definition cmds_info :: "(string \<times> int) list" where
  "cmds_info =
     [(''list'', USB_CMD_LIST), (''list1'', USB_CMD_LIST1), (''bind'', USB_CMD_BIND),
      (''unbind'', USB_CMD_UNBIND), (''read'', USB_CMD_READ), (''write'', USB_CMD_WRITE),
      (''test'', USB_CMD_TEST), (''fm'', USB_CMD_FM)]"

definition rw_sub_cmds :: "(string \<times> int) list" where
  "rw_sub_cmds =
     [(''ana'', USB_MOD_ANA), (''pmu'', USB_MOD_PMU), (''dig'', USB_MOD_DIG), (''mem'', USB_MOD_MEM),
      (''exec'', USB_CMD_EXEC), (''rst'', USB_CMD_RESET), (''rstcdc'', USB_CMD_RESET_CDC)]"

definition fm_sub_cmds :: "(string \<times> int) list" where
  "fm_sub_cmds =
     [(''on'', USB_FM_CMD_POWER_ON), (''off'', USB_FM_CMD_POWER_OFF), (''volume'', USB_FM_CMD_VOLUME),
      (''channel'', USB_FM_CMD_CHANNEL), (''band'', USB_FM_CMD_BAND), (''device'', USB_FM_CMD_DEVICE),
      (''test'', USB_FM_CMD_TEST), (''mute'', USB_FM_CMD_MUTE)]"

text \<open>A table search that stops at the first match, and one that runs to the end.\<close>

fun sub_cmd_first :: "(string \<times> int) list \<Rightarrow> string \<Rightarrow> int" where
  "sub_cmd_first [] s = - 1"
| "sub_cmd_first ((n, i) # rest) s = (if n = s then i else sub_cmd_first rest s)"

fun sub_cmd_last :: "(string \<times> int) list \<Rightarrow> string \<Rightarrow> int \<Rightarrow> int" where
  "sub_cmd_last [] s acc = acc"
| "sub_cmd_last ((n, i) # rest) s acc = sub_cmd_last rest s (if n = s then i else acc)"

definition BIND_DEF_VID :: u16 where "BIND_DEF_VID = 0xBE57"
definition BIND_DEF_PID :: u16 where "BIND_DEF_PID = 0x0238"
definition REQ_TYPE_OTH_WR :: u8 where "REQ_TYPE_OTH_WR = 0x00 OR 0x40 OR 0x03"
definition REQ_TYPE_OTH_RD :: u8 where "REQ_TYPE_OTH_RD = 0x80 OR 0x40 OR 0x03"
definition REQ_TYPE_DEV_RD :: u8 where "REQ_TYPE_DEV_RD = 0x80 OR 0x40 OR 0x00"
definition ANA_REG_MAX_ADDR :: u32 where "ANA_REG_MAX_ADDR = 0x400"

section \<open>libusb, the interface\<close>

record ctl_setup =
  bmRequestType :: u8
  bRequest :: u8
  wValue :: u16
  wIndex :: u16
  wLength :: u16

record alt_desc =
  bInterfaceNumber :: u8
  bAlternateSetting :: u8
  bNumEndpoints :: u8

record itf_desc =
  num_altsetting :: int
  altsetting :: "alt_desc list"

record config_desc =
  wTotalLength :: u16
  bNumInterfaces :: u8
  bConfigurationValue :: u8
  bmAttributes :: u8
  MaxPower :: u8
  itfs :: "itf_desc list"

text \<open>\<open>desc_bytes\<close> is the memory image of the device descriptor.\<close>

record dev_desc =
  bLength :: u8
  idVendor :: u16
  idProduct :: u16
  desc_bytes :: "u8 list"

text \<open>
  A transfer returns libusb's result and the bytes it stored at the start of the buffer. A
  descriptor call that does not fill its argument gives \<open>None\<close>.
\<close>

record ('d, 'h, 'w) libusb =
  lu_init :: "'w \<Rightarrow> int \<times> 'w"
  lu_exit :: "'w \<Rightarrow> 'w"
  lu_open_vid_pid :: "u16 \<Rightarrow> u16 \<Rightarrow> 'w \<Rightarrow> 'h option \<times> 'w"
  lu_close :: "'h \<Rightarrow> 'w \<Rightarrow> 'w"
  lu_control_transfer :: "'h option \<Rightarrow> ctl_setup \<Rightarrow> u8 list \<Rightarrow> nat \<Rightarrow> 'w \<Rightarrow> int \<times> u8 list \<times> 'w"
  lu_get_device_list :: "'w \<Rightarrow> int \<times> 'd list \<times> 'w"
  lu_get_device_descriptor :: "'d \<Rightarrow> 'w \<Rightarrow> int \<times> dev_desc option \<times> 'w"
  lu_get_active_config :: "'d \<Rightarrow> 'w \<Rightarrow> int \<times> config_desc option \<times> 'w"
  lu_bus_number :: "'d \<Rightarrow> int"
  lu_port_number :: "'d \<Rightarrow> int"
  lu_device_address :: "'d \<Rightarrow> int"
  lu_device_speed :: "'d \<Rightarrow> int"
  lu_free_device_list :: "'d list \<Rightarrow> 'w \<Rightarrow> 'w"

datatype 'h lib_call =
    Lib_init int
  | Lib_exit
  | Lib_open u16 u16 "'h option"
  | Lib_close 'h
  | Lib_transfer "'h option" ctl_setup "u8 list"

record ('h, 'w) usb =
  uc_bind :: int
  uc_handle :: "'h option"
  uc_vid :: u16
  uc_pid :: u16
  uworld :: 'w
  ucalls :: "'h lib_call list"
  uout :: "trace list"

definition usb_trace :: "nat \<Rightarrow> string \<Rightarrow> targ list \<Rightarrow> ('h, 'w) usb \<Rightarrow> ('h, 'w) usb" where
  "usb_trace lvl fmt args s =
     (if trace_on usb_trmask lvl then s\<lparr>uout := uout s @ [Trace fmt args]\<rparr> else s)"

definition call_init :: "('d, 'h, 'w) libusb \<Rightarrow> ('h, 'w) usb \<Rightarrow> int \<times> ('h, 'w) usb" where
  "call_init lib s =
     (let (r, w) = lu_init lib (uworld s) in (r, s\<lparr>uworld := w, ucalls := ucalls s @ [Lib_init r]\<rparr>))"

definition call_exit :: "('d, 'h, 'w) libusb \<Rightarrow> ('h, 'w) usb \<Rightarrow> ('h, 'w) usb" where
  "call_exit lib s = s\<lparr>uworld := lu_exit lib (uworld s), ucalls := ucalls s @ [Lib_exit]\<rparr>"

definition call_open ::
  "('d, 'h, 'w) libusb \<Rightarrow> u16 \<Rightarrow> u16 \<Rightarrow> ('h, 'w) usb \<Rightarrow> 'h option \<times> ('h, 'w) usb"
where
  "call_open lib vid pid s =
     (let (h, w) = lu_open_vid_pid lib vid pid (uworld s)
      in (h, s\<lparr>uworld := w, ucalls := ucalls s @ [Lib_open vid pid h]\<rparr>))"

definition call_close :: "('d, 'h, 'w) libusb \<Rightarrow> 'h \<Rightarrow> ('h, 'w) usb \<Rightarrow> ('h, 'w) usb" where
  "call_close lib h s =
     s\<lparr>uworld := lu_close lib h (uworld s), ucalls := ucalls s @ [Lib_close h]\<rparr>"

text \<open>Bytes received overwrite the start of the buffer; for an OUT transfer the log keeps the data.\<close>

definition overlay :: "u8 list \<Rightarrow> u8 list \<Rightarrow> u8 list" where
  "overlay bs buf = take (length buf) bs @ drop (length bs) buf"

lemma length_overlay [simp]: "length (overlay bs buf) = length buf"
  by (simp add: overlay_def)

definition call_transfer ::
  "('d, 'h, 'w) libusb \<Rightarrow> 'h option \<Rightarrow> ctl_setup \<Rightarrow> u8 list \<Rightarrow> ('h, 'w) usb \<Rightarrow>
   int \<times> u8 list \<times> ('h, 'w) usb"
where
  "call_transfer lib h su buf s =
     (let (r, bs, w) = lu_control_transfer lib h su buf 1000 (uworld s);
          is_in = (bmRequestType su AND 0x80 \<noteq> 0)
      in (r, if is_in then overlay bs buf else buf,
          s\<lparr>uworld := w, ucalls := ucalls s @ [Lib_transfer h su (if is_in then [] else buf)]\<rparr>))"

section \<open>Raw transfers\<close>

definition raw_setup :: "u8 \<Rightarrow> u8 \<Rightarrow> u32 \<Rightarrow> u32 \<Rightarrow> ctl_setup" where
  "raw_setup request opcode addr len =
     \<lparr>bmRequestType = request, bRequest = opcode, wValue = ucast (addr AND 0xFFFF),
      wIndex = ucast (drop_bit 16 addr), wLength = ucast len\<rparr>"

definition usb_raw_write ::
  "('d, 'h, 'w) libusb \<Rightarrow> 'h option \<Rightarrow> u8 \<Rightarrow> u8 \<Rightarrow> u32 \<Rightarrow> u8 list \<Rightarrow> u32 \<Rightarrow> ('h, 'w) usb \<Rightarrow>
   int \<times> ('h, 'w) usb"
where
  "usb_raw_write lib h request opcode addr pbuf len s =
     (let (r, buf, s1) = call_transfer lib h (raw_setup request opcode addr len) pbuf s in (r, s1))"

definition usb_raw_read ::
  "('d, 'h, 'w) libusb \<Rightarrow> 'h option \<Rightarrow> u8 \<Rightarrow> u8 \<Rightarrow> u32 \<Rightarrow> u8 list \<Rightarrow> u32 \<Rightarrow> ('h, 'w) usb \<Rightarrow>
   int \<times> u8 list \<times> ('h, 'w) usb"
where
  "usb_raw_read lib h request opcode addr pbuf len s =
     call_transfer lib h (raw_setup request opcode addr len) pbuf s"

text \<open>A failed FM transfer is reported as length 0.\<close>

definition usb_fm_raw_xfer ::
  "('d, 'h, 'w) libusb \<Rightarrow> 'h option \<Rightarrow> u8 \<Rightarrow> u8 \<Rightarrow> u16 \<Rightarrow> u16 \<Rightarrow> u16 \<Rightarrow> u8 list \<Rightarrow> ('h, 'w) usb \<Rightarrow>
   int \<times> u8 list \<times> ('h, 'w) usb"
where
  "usb_fm_raw_xfer lib h ty request wV wI wL pbuf s =
     (let (r, buf, s1) =
        call_transfer lib h
          \<lparr>bmRequestType = ty, bRequest = request, wValue = wV, wIndex = wI, wLength = wL\<rparr> pbuf s
      in if r < 0
         then (0, buf, usb_trace 0 ''%s, error %d'' [TStr ''usb_fm_raw_xfer'', TInt r] s1)
         else (r, buf, s1))"

end
