(* ===== verification/Usb_Cmd.thy ===== *)
theory Usb_Cmd
  imports Usb_Lib
begin

text \<open>
  The command handlers of \<^verbatim>\<open>demo-dh/common/usb_cmd.c\<close>. The argument list \<open>args\<close> is
  \<^verbatim>\<open>argv[0 .. argc-1]\<close>. Trace lines of level 1 are masked off (lemma \<open>trace_levels\<close>) and
  are not written out; \<^verbatim>\<open>perror\<close> writes to standard error and \<^verbatim>\<open>usleep\<close> only waits.
\<close>

section \<open>usb bind, usb unbind\<close>

definition usb_handle_cmd_bind ::
  "('d, 'h, 'w) libusb \<Rightarrow> string list \<Rightarrow> int \<Rightarrow> ('h, 'w) usb \<Rightarrow> int \<times> ('h, 'w) usb"
where
  "usb_handle_cmd_bind lib args bnd s =
     (let vid = (if length args > USB_IDX_ARGC1 then strtoul_u16 (args ! USB_IDX_ARGC1) else BIND_DEF_VID);
          pid = (if length args > USB_IDX_ARGC2 then strtoul_u16 (args ! USB_IDX_ARGC2) else BIND_DEF_PID)
      in if uc_bind s = bnd
         then (0, usb_trace 2 ''USB bind %d already done'' [TInt bnd] s)
         else if bnd \<noteq> 0
         then if vid = 0 \<or> pid = 0
              then (- 1, usb_trace 0 ''%s, invalid vid, pid'' [TStr ''usb_handle_cmd_bind''] s)
              else let (r, s1) = call_init lib s
                   in if r \<noteq> 0 then (- 1, usb_trace 0 ''init usb failed %d'' [TInt r] s1)
                      else let (handle, s2) = call_open lib vid pid s1
                           in if handle = None
                              then (- 1, usb_trace 0 ''open libusb failed'' [] s2)
                              else let s3 = usb_trace 2 ''open usb okay, vid=%x, pid=%x''
                                              [TInt (uint vid), TInt (uint pid)] s2
                                   in (0, s3\<lparr>uc_vid := vid, uc_pid := pid, uc_handle := handle,
                                             uc_bind := bnd\<rparr>)
         else let s1 = (case uc_handle s of None \<Rightarrow> s | Some h \<Rightarrow> call_close lib h s);
                  s2 = usb_trace 2 ''close usb okay, vid=%x, pid=%x''
                         [TInt (uint vid), TInt (uint pid)] s1
              in (0, s2\<lparr>uc_vid := vid, uc_pid := pid, uc_handle := None, uc_bind := bnd\<rparr>))"

section \<open>usb read, usb write\<close>

definition is_mem_mod :: "int \<Rightarrow> bool" where
  "is_mem_mod cmd_id \<longleftrightarrow>
     cmd_id = USB_MOD_ANA \<or> cmd_id = USB_MOD_PMU \<or> cmd_id = USB_MOD_DIG \<or> cmd_id = USB_MOD_MEM"

text \<open>The word the received bytes denote, by the length of the access.\<close>

definition rw_word :: "u32 \<Rightarrow> u8 list \<Rightarrow> u32" where
  "rw_word len buf =
     (if len = 4 then le_word4 (buf ! 0) (buf ! 1) (buf ! 2) (buf ! 3)
      else if len = 2 then le_word2 (buf ! 0) (buf ! 1)
      else ucast (buf ! 0))"

fun rw_read_loop ::
  "('d, 'h, 'w) libusb \<Rightarrow> int \<Rightarrow> u32 \<Rightarrow> u32 \<Rightarrow> nat \<Rightarrow> u32 \<Rightarrow> u8 list \<Rightarrow> int \<Rightarrow> ('h, 'w) usb \<Rightarrow>
   int \<times> ('h, 'w) usb"
where
  "rw_read_loop lib cmd_id len inc 0 addr buf err s = (err, s)"
| "rw_read_loop lib cmd_id len inc (Suc n) addr buf err s =
     (let (rlen, buf1, s1) =
        usb_raw_read lib (uc_handle s) REQ_TYPE_OTH_RD (of_int cmd_id) addr buf len s
      in if rlen \<noteq> uint len
         then rw_read_loop lib cmd_id len inc n (addr + inc) buf1 (err + 1)
                (usb_trace 0 ''read error, rlen=%d, len=%d'' [TInt rlen, TInt (uint len)] s1)
         else rw_read_loop lib cmd_id len inc n (addr + inc) buf1 err
                (usb_trace 2 ''DATA: [%x] = %x'' [TInt (uint addr), TInt (uint (rw_word len buf1))] s1))"

text \<open>The access itself, after the checks: one write, or a run of reads.\<close>

definition rw_send ::
  "('d, 'h, 'w) libusb \<Rightarrow> int \<Rightarrow> u32 \<Rightarrow> u8 list \<Rightarrow> u32 \<Rightarrow> ('h, 'w) usb \<Rightarrow> int \<times> ('h, 'w) usb"
where
  "rw_send lib cmd_id addr buf len s =
     (let (rlen, s1) = usb_raw_write lib (uc_handle s) REQ_TYPE_OTH_WR (of_int cmd_id) addr buf len s
      in if rlen \<noteq> uint len
         then (1, usb_trace 0 ''write error, rlen=%d, len=%d'' [TInt rlen, TInt (uint len)] s1)
         else (0, s1))"

definition rw_fetch ::
  "('d, 'h, 'w) libusb \<Rightarrow> int \<Rightarrow> u32 \<Rightarrow> u32 \<Rightarrow> u32 \<Rightarrow> u32 \<Rightarrow> ('h, 'w) usb \<Rightarrow> int \<times> ('h, 'w) usb"
where
  "rw_fetch lib cmd_id addr argv3 len inc s =
     (let times = (if is_mem_mod cmd_id then unat ((argv3 * 4) div len) else 0)
      in rw_read_loop lib cmd_id len inc times addr (replicate 8 0) 0 s)"

definition usb_handle_cmd_rw ::
  "('d, 'h, 'w) libusb \<Rightarrow> string list \<Rightarrow> int \<Rightarrow> ('h, 'w) usb \<Rightarrow> int \<times> ('h, 'w) usb"
where
  "usb_handle_cmd_rw lib args read s =
     (if uc_bind s = 0 then (- 1, usb_trace 0 ''usb not bind'' [] s)
      else
      let cmd_name = (if length args > USB_IDX_ARGC1 then Some (args ! USB_IDX_ARGC1) else None);
          addr = (if length args > USB_IDX_ARGC2 then strtoul_u32 (args ! USB_IDX_ARGC2) else 0);
          argv3 = (if length args > USB_IDX_ARGC3 then strtoul_u32 (args ! USB_IDX_ARGC3) else 1)
      in case cmd_name of
           None \<Rightarrow> (- 2, usb_trace 0 ''invalid cmd'' [] s)
         | Some name \<Rightarrow>
      let cmd_id = sub_cmd_first rw_sub_cmds name;
          out_of_range = usb_trace 0 ''addr %x out of range 0x%x''
                           [TInt (uint addr), TInt (uint ANA_REG_MAX_ADDR)] s;
          unaligned = usb_trace 0 ''unaligned addr %x'' [TInt (uint addr)] s
      in if cmd_id < 0 then (- 3, usb_trace 0 ''unsupported cmd: %s'' [TStr name] s)
      else if read = 0 then
        if is_mem_mod cmd_id \<and> length args \<le> USB_IDX_ARGC3
        then (- 4, usb_trace 0 ''null data to write'' [] s)
        else
             if cmd_id = USB_MOD_ANA \<or> cmd_id = USB_MOD_PMU then
               if addr \<ge> ANA_REG_MAX_ADDR then (- 3, out_of_range)
               else rw_send lib cmd_id addr (le_bytes2 argv3) 2 s
             else if cmd_id = USB_MOD_DIG \<or> cmd_id = USB_MOD_MEM then
               if addr AND 3 \<noteq> 0 then (- 3, unaligned)
               else rw_send lib cmd_id addr (le_bytes4 argv3) 4 s
             else if cmd_id = USB_CMD_EXEC \<or> cmd_id = USB_CMD_RESET \<or> cmd_id = USB_CMD_RESET_CDC
             then rw_send lib cmd_id addr [0, 0, 0, 0] 4 s
             else (- 5, s)
      else
           if cmd_id = USB_MOD_ANA \<or> cmd_id = USB_MOD_PMU then
             if addr \<ge> ANA_REG_MAX_ADDR then (- 3, out_of_range)
             else rw_fetch lib cmd_id addr argv3 2 1 s
           else if cmd_id = USB_MOD_DIG \<or> cmd_id = USB_MOD_MEM then
             if addr AND 3 \<noteq> 0 then (- 3, unaligned) else rw_fetch lib cmd_id addr argv3 4 4 s
           else if cmd_id = USB_CMD_EXEC \<or> cmd_id = USB_CMD_RESET \<or> cmd_id = USB_CMD_RESET_CDC
           then rw_fetch lib cmd_id addr argv3 4 0 s
           else (- 6, s))"

section \<open>usb fm\<close>

text \<open>A two-byte variable as the device sees it, and back.\<close>

definition u16_bytes :: "u16 \<Rightarrow> u8 list" where
  "u16_bytes v = [ucast v, ucast (drop_bit 8 v)]"

definition bytes_u16 :: "u8 list \<Rightarrow> u16" where
  "bytes_u16 b = ucast (b ! 0) OR push_bit 8 (ucast (b ! 1))"

definition usb_fm_cmd_power ::
  "('d, 'h, 'w) libusb \<Rightarrow> int \<Rightarrow> ('h, 'w) usb \<Rightarrow> int \<times> ('h, 'w) usb"
where
  "usb_fm_cmd_power lib on s =
     (let on1 = (if on \<noteq> 0 then 1 else 0 :: int);
          (r, err, s1) = usb_fm_raw_xfer lib (uc_handle s) REQ_TYPE_DEV_RD USB_FM_PRIMITIVE_SET
                           USB_FM_SET_POWER (of_int on1) 1 [0] s;
          s2 = usb_trace 2 ''%s on=%d'' [TStr ''usb_fm_cmd_power'', TInt on1] s1
      in (uint (err ! 0), s2))"

definition usb_fm_cmd_mute ::
  "('d, 'h, 'w) libusb \<Rightarrow> u16 \<Rightarrow> int \<Rightarrow> ('h, 'w) usb \<Rightarrow> int \<times> u16 \<times> ('h, 'w) usb"
where
  "usb_fm_cmd_mute lib mute is_set s =
     (if is_set \<noteq> 0 then
        let m = mute AND 0x03;
            (r, err, s1) = usb_fm_raw_xfer lib (uc_handle s) REQ_TYPE_DEV_RD USB_FM_PRIMITIVE_SET
                             USB_FM_SET_MUTE m 1 [0] s
        in (uint (err ! 0), mute, usb_trace 2 ''%s, mute=%d'' [TStr ''usb_fm_cmd_mute'', TInt (uint m)] s1)
      else
        let (r, buf, s1) = usb_fm_raw_xfer lib (uc_handle s) REQ_TYPE_DEV_RD USB_FM_PRIMITIVE_SET
                             USB_FM_GET_MUTE_STATE 0 2 (u16_bytes 0) s;
            m = bytes_u16 buf
        in (0, m, usb_trace 2 ''%s, mute=%d'' [TStr ''usb_fm_cmd_mute'', TInt (uint m)] s1))"

definition usb_fm_cmd_band ::
  "('d, 'h, 'w) libusb \<Rightarrow> u16 \<Rightarrow> int \<Rightarrow> ('h, 'w) usb \<Rightarrow> int \<times> u16 \<times> ('h, 'w) usb"
where
  "usb_fm_cmd_band lib band is_set s =
     (if is_set \<noteq> 0 then
        let b = band AND 0x03;
            (r, err, s1) = usb_fm_raw_xfer lib (uc_handle s) REQ_TYPE_DEV_RD USB_FM_PRIMITIVE_SET
                             USB_FM_SET_BAND b 1 [0] s
        in (uint (err ! 0), band, usb_trace 2 ''%s, band=%d'' [TStr ''usb_fm_cmd_band'', TInt (uint b)] s1)
      else
        let (r, buf, s1) = usb_fm_raw_xfer lib (uc_handle s) REQ_TYPE_DEV_RD USB_FM_PRIMITIVE_SET
                             USB_FM_GET_BAND 0 2 (u16_bytes 0) s;
            b = bytes_u16 buf
        in (0, b, usb_trace 2 ''%s, band=%d'' [TStr ''usb_fm_cmd_band'', TInt (uint b)] s1))"

definition usb_fm_cmd_channel ::
  "('d, 'h, 'w) libusb \<Rightarrow> u16 \<Rightarrow> int \<Rightarrow> ('h, 'w) usb \<Rightarrow> int \<times> u16 \<times> ('h, 'w) usb"
where
  "usb_fm_cmd_channel lib chan is_set s =
     (if is_set \<noteq> 0 then
        let (r, err, s1) = usb_fm_raw_xfer lib (uc_handle s) REQ_TYPE_DEV_RD USB_FM_PRIMITIVE_SET
                             USB_FM_SET_TUNING_CHAN chan 1 [0] s
        in (uint (err ! 0), chan,
            usb_trace 2 ''%s, chan=%d'' [TStr ''usb_fm_cmd_channel'', TInt (uint chan)] s1)
      else
        let (r, buf, s1) = usb_fm_raw_xfer lib (uc_handle s) REQ_TYPE_DEV_RD USB_FM_PRIMITIVE_GET
                             USB_FM_GET_CUR_CHAN 0 2 (u16_bytes 0) s;
            ch = bytes_u16 buf
        in (0, ch, usb_trace 2 ''%s, chan=%d'' [TStr ''usb_fm_cmd_channel'', TInt (uint ch)] s1))"

definition usb_fm_cmd_volume ::
  "('d, 'h, 'w) libusb \<Rightarrow> u16 \<Rightarrow> int \<Rightarrow> ('h, 'w) usb \<Rightarrow> int \<times> u16 \<times> ('h, 'w) usb"
where
  "usb_fm_cmd_volume lib vol is_set s =
     (if is_set \<noteq> 0 then
        let v = vol AND 0xF;
            (r, err, s1) = usb_fm_raw_xfer lib (uc_handle s) REQ_TYPE_DEV_RD USB_FM_PRIMITIVE_SET
                             USB_FM_SET_VOLUME v 1 [0] s
        in (uint (err ! 0), vol, usb_trace 2 ''%s, vol=%d'' [TStr ''usb_fm_cmd_volume'', TInt (uint v)] s1)
      else
        let (r, buf, s1) = usb_fm_raw_xfer lib (uc_handle s) REQ_TYPE_DEV_RD USB_FM_PRIMITIVE_GET
                             USB_FM_GET_VOL 0 2 (u16_bytes 0) s;
            v = bytes_u16 buf
        in (0, v, usb_trace 2 ''%s, vol=%d'' [TStr ''usb_fm_cmd_volume'', TInt (uint v)] s1))"

definition usb_fm_cmd_get_device ::
  "('d, 'h, 'w) libusb \<Rightarrow> u16 \<Rightarrow> ('h, 'w) usb \<Rightarrow> int \<times> u16 \<times> ('h, 'w) usb"
where
  "usb_fm_cmd_get_device lib devid s =
     (let (r, buf, s1) = usb_fm_raw_xfer lib (uc_handle s) REQ_TYPE_DEV_RD USB_FM_PRIMITIVE_GET
                           USB_FM_GET_FM_IC 0 2 (u16_bytes devid) s;
          d = bytes_u16 buf
      in (0, d, usb_trace 2 ''%s, id=%d'' [TStr ''usb_fm_cmd_get_device'', TInt (uint d)] s1))"

definition usb_fm_cmd_test :: "('d, 'h, 'w) libusb \<Rightarrow> ('h, 'w) usb \<Rightarrow> int \<times> ('h, 'w) usb" where
  "usb_fm_cmd_test lib s =
     (let chan = 9740; vol = 8; band = 0;
          (_, _, s1) = usb_fm_cmd_get_device lib 0 s;
          (_, s2) = usb_fm_cmd_power lib 1 s1;
          (_, _, s3) = usb_fm_cmd_band lib band 1 s2;
          (_, _, s4) = usb_fm_cmd_channel lib chan 1 s3;
          (_, _, s5) = usb_fm_cmd_volume lib vol 1 s4
      in (0, s5))"

text \<open>\<^verbatim>\<open>case USB_FM_CMD_TEST\<close> has no \<^verbatim>\<open>break\<close> and falls into \<^verbatim>\<open>default\<close>.\<close>

definition usb_handle_cmd_fm ::
  "('d, 'h, 'w) libusb \<Rightarrow> string list \<Rightarrow> ('h, 'w) usb \<Rightarrow> int \<times> ('h, 'w) usb"
where
  "usb_handle_cmd_fm lib args s =
     (if uc_bind s = 0 then (- 1, usb_trace 0 ''usb not bind'' [] s)
      else
      let sub_cmd = (if length args > USB_IDX_ARGC1 then Some (args ! USB_IDX_ARGC1) else None);
          is_set = (if length args > USB_IDX_ARGC2 then 1 else 0 :: int);
          arg = (if length args > USB_IDX_ARGC2 then strtoul_u16 (args ! USB_IDX_ARGC2) else 0);
          val = (if is_set \<noteq> 0 then arg else 0)
      in case sub_cmd of
           None \<Rightarrow> (- 2, usb_trace 0 ''null cmd'' [] s)
         | Some name \<Rightarrow>
      let fm = sub_cmd_last fm_sub_cmds name (- 1)
      in if fm < 0 then (- 3, usb_trace 0 ''unsupported cmd: %s'' [TStr name] s)
         else if fm = USB_FM_CMD_POWER_ON then (0, snd (usb_fm_cmd_power lib 1 s))
         else if fm = USB_FM_CMD_POWER_OFF then (0, snd (usb_fm_cmd_power lib 0 s))
         else if fm = USB_FM_CMD_VOLUME then (0, snd (snd (usb_fm_cmd_volume lib val is_set s)))
         else if fm = USB_FM_CMD_CHANNEL then (0, snd (snd (usb_fm_cmd_channel lib val is_set s)))
         else if fm = USB_FM_CMD_BAND then (0, snd (snd (usb_fm_cmd_band lib val is_set s)))
         else if fm = USB_FM_CMD_MUTE then (0, snd (snd (usb_fm_cmd_mute lib val is_set s)))
         else if fm = USB_FM_CMD_DEVICE then (0, snd (snd (usb_fm_cmd_get_device lib 0 s)))
         else if fm = USB_FM_CMD_TEST then (- 4, snd (usb_fm_cmd_test lib s))
         else (- 4, s))"

end
