(* ===== verification/Usb_List.thy ===== *)
theory Usb_List
  imports Usb_Cmd
begin

text \<open>
  The descriptor printers, \<^verbatim>\<open>usb list\<close>, \<^verbatim>\<open>usb test\<close> and the dispatcher of
  \<^verbatim>\<open>demo-dh/common/usb_cmd.c\<close>. A descriptor that claims more entries than it has, or a
  descriptor that is read before libusb filled it, is undefined behaviour. The array of
  devices ends with NULL, so the loops run over the list of devices.
\<close>

section \<open>Printing descriptors\<close>

definition usb_itf_desc_print :: "alt_desc \<Rightarrow> ('h, 'w) usb \<Rightarrow> ('h, 'w) usb" where
  "usb_itf_desc_print alt s =
     (let s1 = usb_trace 2 ''        ==============alt %p==============='' [] s;
          s2 = usb_trace 2 ''bInterfaceNumber:        %d'' [TInt (uint (bInterfaceNumber alt))] s1;
          s3 = usb_trace 2 ''bAlternateSetting:       %d'' [TInt (uint (bAlternateSetting alt))] s2;
          s4 = usb_trace 2 ''bNumEndpoints:           %d'' [TInt (uint (bNumEndpoints alt))] s3
      in usb_trace 2 ''        ==============alt %p==============='' [] s4)"

fun alt_loop :: "alt_desc list \<Rightarrow> nat \<Rightarrow> nat \<Rightarrow> ('h, 'w) usb \<Rightarrow> ('h, 'w) usb res" where
  "alt_loop alts i 0 s = Inr s"
| "alt_loop alts i (Suc n) s =
     res_bind (rd alts (int i)) (\<lambda>alt. alt_loop alts (i + 1) n (usb_itf_desc_print alt s))"

definition usb_itf_print :: "itf_desc \<Rightarrow> ('h, 'w) usb \<Rightarrow> ('h, 'w) usb res" where
  "usb_itf_print itf s =
     (let s1 = usb_trace 2 ''    ==============interface %p==============='' [] s;
          s2 = usb_trace 2 ''num_altsetting: %d'' [TInt (num_altsetting itf)] s1
      in res_bind (alt_loop (altsetting itf) 0 (nat (num_altsetting itf)) s2)
           (\<lambda>s3. Inr (usb_trace 2 ''    ==============interface %p==============='' [] s3)))"

text \<open>The loop counter is not used: every round prints \<^verbatim>\<open>desc->interface\<close>, the first one.\<close>

fun itf_loop :: "itf_desc list \<Rightarrow> nat \<Rightarrow> ('h, 'w) usb \<Rightarrow> ('h, 'w) usb res" where
  "itf_loop is 0 s = Inr s"
| "itf_loop is (Suc n) s =
     res_bind (rd is 0) (\<lambda>itf. res_bind (usb_itf_print itf s) (\<lambda>s1. itf_loop is n s1))"

definition usb_config_desc_print :: "config_desc option \<Rightarrow> ('h, 'w) usb \<Rightarrow> ('h, 'w) usb res" where
  "usb_config_desc_print desc s =
     (case desc of
        None \<Rightarrow> Inr s
      | Some d \<Rightarrow>
          let s1 = usb_trace 2 ''==============configurator %p==============='' [] s;
              s2 = usb_trace 2 ''wTotalLength:        %d'' [TInt (uint (wTotalLength d))] s1;
              s3 = usb_trace 2 ''bNumInterfaces:      %d'' [TInt (uint (bNumInterfaces d))] s2;
              s4 = usb_trace 2 ''bConfigurationValue: %d'' [TInt (uint (bConfigurationValue d))] s3;
              s5 = usb_trace 2 ''bmAttributes:        0x%x'' [TInt (uint (bmAttributes d))] s4;
              s6 = usb_trace 2 ''MaxPower:            %d'' [TInt (uint (MaxPower d))] s5
          in res_bind (itf_loop (itfs d) (unat (bNumInterfaces d)) s6)
               (\<lambda>s7. Inr (usb_trace 2 ''==============configurator %p==============='' [] s7)))"

fun desc_loop :: "u8 list \<Rightarrow> nat \<Rightarrow> nat \<Rightarrow> ('h, 'w) usb \<Rightarrow> ('h, 'w) usb res" where
  "desc_loop pbuf i 0 s = Inr s"
| "desc_loop pbuf i (Suc n) s =
     res_bind (rd pbuf (int i))
       (\<lambda>v. let s1 = usb_trace 2 ''%02X '' [TInt (uint v)] s;
                s2 = (if (i + 1) mod 18 = 0 then usb_trace 2 [NL] [] s1 else s1)
            in desc_loop pbuf (i + 1) n s2)"

definition usb_device_desc_print :: "dev_desc \<Rightarrow> ('h, 'w) usb \<Rightarrow> ('h, 'w) usb res" where
  "usb_device_desc_print desc s =
     (let s1 = usb_trace 2 ''======================================================='' [] s;
          s2 = usb_trace 2 ''Device Descriptor:'' [] s1
      in desc_loop (desc_bytes desc) 0 (unat (bLength desc)) s2)"

section \<open>usb list\<close>

definition call_device_list ::
  "('d, 'h, 'w) libusb \<Rightarrow> ('h, 'w) usb \<Rightarrow> int \<times> 'd list \<times> ('h, 'w) usb"
where
  "call_device_list lib s =
     (let (nr, devs, w) = lu_get_device_list lib (uworld s) in (nr, devs, s\<lparr>uworld := w\<rparr>))"

text \<open>A descriptor call keeps the old contents of the variable when libusb does not fill it.\<close>

definition call_device_descriptor ::
  "('d, 'h, 'w) libusb \<Rightarrow> 'd \<Rightarrow> dev_desc option \<Rightarrow> ('h, 'w) usb \<Rightarrow> int \<times> dev_desc option \<times> ('h, 'w) usb"
where
  "call_device_descriptor lib dev old s =
     (let (r, desc, w) = lu_get_device_descriptor lib dev (uworld s)
      in (r, if desc = None then old else desc, s\<lparr>uworld := w\<rparr>))"

definition call_active_config ::
  "('d, 'h, 'w) libusb \<Rightarrow> 'd \<Rightarrow> config_desc option \<Rightarrow> ('h, 'w) usb \<Rightarrow>
   int \<times> config_desc option \<times> ('h, 'w) usb"
where
  "call_active_config lib dev old s =
     (let (r, conf, w) = lu_get_active_config lib dev (uworld s)
      in (r, if conf = None then old else conf, s\<lparr>uworld := w\<rparr>))"

definition call_free_list :: "('d, 'h, 'w) libusb \<Rightarrow> 'd list \<Rightarrow> ('h, 'w) usb \<Rightarrow> ('h, 'w) usb" where
  "call_free_list lib devs s = s\<lparr>uworld := lu_free_device_list lib devs (uworld s)\<rparr>"

definition list_device ::
  "('d, 'h, 'w) libusb \<Rightarrow> int \<Rightarrow> 'd \<Rightarrow> dev_desc \<Rightarrow> ('h, 'w) usb \<Rightarrow> ('h, 'w) usb res"
where
  "list_device lib level dev desc s =
     (let s1 = usb_trace 2 ''VID: %04X, PID: %04X''
                 [TInt (uint (idVendor desc)), TInt (uint (idProduct desc))] s
      in res_bind (if level = 1 then usb_device_desc_print desc s1 else Inr s1)
           (\<lambda>s2. let (r, conf, s3) = call_active_config lib dev None s2;
                     s4 = usb_trace 2 ''BUS: %03d, PORT: %03d, DEVICE: %03d, SPEED: %08d''
                            [TInt (lu_bus_number lib dev), TInt (lu_port_number lib dev),
                             TInt (lu_device_address lib dev), TInt (lu_device_speed lib dev)] s3
                 in if level = 1 then usb_config_desc_print conf s4 else Inr s4))"

text \<open>\<open>Some c\<close> is an early return of \<open>c\<close>, which skips freeing the list and \<^verbatim>\<open>libusb_exit\<close>.\<close>

fun list_loop ::
  "('d, 'h, 'w) libusb \<Rightarrow> int \<Rightarrow> 'd list \<Rightarrow> dev_desc option \<Rightarrow> ('h, 'w) usb \<Rightarrow>
   (int option \<times> ('h, 'w) usb) res"
where
  "list_loop lib level [] desc s = Inr (None, s)"
| "list_loop lib level (dev # devs) desc s =
     (let (r, desc1, s1) = call_device_descriptor lib dev desc s
      in if r < 0 then Inr (Some (- 1), usb_trace 0 ''get dev desc failed %d'' [TInt r] s1)
         else case desc1 of
                None \<Rightarrow> Inl Uninit_Read
              | Some d \<Rightarrow> res_bind (list_device lib level dev d s1)
                            (\<lambda>s2. list_loop lib level devs desc1 s2))"

definition usb_handle_cmd_list ::
  "('d, 'h, 'w) libusb \<Rightarrow> int \<Rightarrow> ('h, 'w) usb \<Rightarrow> (int \<times> ('h, 'w) usb) res"
where
  "usb_handle_cmd_list lib level s =
     (let (r, s1) = call_init lib s
      in if r \<noteq> 0 then Inr (r, usb_trace 0 ''init libusb failed %d'' [TInt r] s1)
         else let (nr, devs, s2) = call_device_list lib s1
              in if nr < 0 then Inr (- 1, usb_trace 0 ''get libusb dev failed %d'' [TInt r] s2)
                 else res_bind
                        (list_loop lib level devs None
                           (usb_trace 2 ''usb devices number=%d'' [TInt nr] s2))
                        (\<lambda>(early, s3). case early of
                           Some c \<Rightarrow> Inr (c, s3)
                         | None \<Rightarrow> Inr (0, call_exit lib (call_free_list lib devs s3))))"

section \<open>usb test\<close>

fun test_loop ::
  "('d, 'h, 'w) libusb \<Rightarrow> u16 \<Rightarrow> u16 \<Rightarrow> 'd list \<Rightarrow> dev_desc option \<Rightarrow> int \<Rightarrow> ('h, 'w) usb \<Rightarrow>
   (int \<times> ('h, 'w) usb) res"
where
  "test_loop lib vid pid [] desc r s = Inr (r, s)"
| "test_loop lib vid pid (dev # devs) desc r s =
     (let (r1, desc1, s1) = call_device_descriptor lib dev desc s
      in case desc1 of
           None \<Rightarrow> Inl Uninit_Read
         | Some d \<Rightarrow>
             if idVendor d = vid \<and> idProduct d = pid
             then let (r2, conf, s2) = call_active_config lib dev None s1
                  in res_bind (usb_device_desc_print d s2)
                       (\<lambda>s3. res_bind (usb_config_desc_print conf s3) (\<lambda>s4. Inr (r2, s4)))
             else test_loop lib vid pid devs desc1 r1 s1)"

definition usb_handle_cmd_test ::
  "('d, 'h, 'w) libusb \<Rightarrow> string list \<Rightarrow> ('h, 'w) usb \<Rightarrow> (int \<times> ('h, 'w) usb) res"
where
  "usb_handle_cmd_test lib args s =
     (let vid = (if length args > USB_IDX_ARGC1 then strtoul_u16 (args ! USB_IDX_ARGC1) else 0);
          pid = (if length args > USB_IDX_ARGC2 then strtoul_u16 (args ! USB_IDX_ARGC2) else 0)
      in if vid = 0 \<or> pid = 0
         then Inr (- 1, usb_trace 0 ''%s, invalid vid, pid'' [TStr ''usb_handle_cmd_test''] s)
         else
         let s0 = usb_trace 2 ''%s, vid=%x, pid=%x''
                    [TStr ''usb_handle_cmd_test'', TInt (uint vid), TInt (uint pid)] s;
             (r, s1) = call_init lib s0
         in if r \<noteq> 0 then Inr (r, usb_trace 0 ''init libusb failed %d'' [TInt r] s1)
            else let (nr, devs, s2) = call_device_list lib s1
                 in if nr < 0 then Inr (- 1, usb_trace 0 ''get libusb dev failed %d'' [TInt r] s2)
                    else res_bind
                           (test_loop lib vid pid devs None r
                              (usb_trace 2 ''usb devices number=%d'' [TInt nr] s2))
                           (\<lambda>(r1, s3). Inr (r1, call_exit lib (call_free_list lib devs s3))))"

section \<open>The dispatcher\<close>

definition exec_usb_cmd ::
  "('d, 'h, 'w) libusb \<Rightarrow> int \<Rightarrow> string list \<Rightarrow> ('h, 'w) usb \<Rightarrow> (int \<times> ('h, 'w) usb) res"
where
  "exec_usb_cmd lib cid args s =
     (if cid = USB_CMD_LIST then usb_handle_cmd_list lib 0 s
      else if cid = USB_CMD_LIST1 then usb_handle_cmd_list lib 1 s
      else if cid = USB_CMD_BIND then Inr (usb_handle_cmd_bind lib args 1 s)
      else if cid = USB_CMD_UNBIND then Inr (usb_handle_cmd_bind lib args 0 s)
      else if cid = USB_CMD_READ then Inr (usb_handle_cmd_rw lib args 1 s)
      else if cid = USB_CMD_WRITE then Inr (usb_handle_cmd_rw lib args 0 s)
      else if cid = USB_CMD_TEST then usb_handle_cmd_test lib args s
      else if cid = USB_CMD_FM then Inr (usb_handle_cmd_fm lib args s)
      else Inr (0, s))"

text \<open>The stand-alone entry point: the program name is dropped first.\<close>

definition usb_cmd_test_handler ::
  "('d, 'h, 'w) libusb \<Rightarrow> string list \<Rightarrow> ('h, 'w) usb \<Rightarrow> (int \<times> ('h, 'w) usb) res"
where
  "usb_cmd_test_handler lib argv0 s =
     (let args = tl argv0;
          group = (if length args > USB_IDX_GROUP then Some (args ! USB_IDX_GROUP) else None);
          cmd = (if length args > USB_IDX_CMD then Some (args ! USB_IDX_CMD) else None)
      in case (group, cmd) of
           (Some g, Some c) \<Rightarrow>
             if g \<noteq> ''usb''
             then Inr (- 2, usb_trace 0 ''%s: invalid group %s''
                              [TStr ''usb_cmd_test_handler'', TStr g] s)
             else let cid = sub_cmd_last cmds_info c (- 1)
                  in if cid < 0
                     then Inr (- 3, usb_trace 0 ''%s: invalid cmd %s''
                                      [TStr ''usb_cmd_test_handler'', TStr c] s)
                     else exec_usb_cmd lib cid args s
         | _ \<Rightarrow> Inr (- 1, usb_trace 0 ''usb [cmd] [argv1] [argv2] [argv3]'' []
                            (usb_trace 0 ''%s: null cmd or group''
                               [TStr ''usb_cmd_test_handler''] s)))"

end
