(* ===== verification/Console.thy ===== *)
theory Console
  imports Comm_Table Usb_List
begin

text \<open>
  Puts the console program together: \<^verbatim>\<open>demo-dh/common/sock_cmd.c\<close>, the command objects and
  the registration of \<^verbatim>\<open>usb_cmd.c\<close>, the module table of \<^verbatim>\<open>comm_io.c\<close>, and
  \<^verbatim>\<open>comm_main.c\<close>. The static objects of these files are named by the reference types below;
  \<open>app\<close> is the whole memory of the program.
\<close>

section \<open>Static objects\<close>

datatype cmd_ref =
    Usb_cmd_list | Usb_cmd_list1 | Usb_cmd_bind | Usb_cmd_unbind | Usb_cmd_read | Usb_cmd_write
  | Usb_cmd_test | Usb_cmd_fm | Cmd_echo | Cmd_md32 | Cmd_mw32 | Cmd_mr32
  | Cmd_exit | Cmd_quit | Cmd_help

datatype handler_ref = Usb_cmd_handler | Sock_cmd_handler | Cmd_quit_handler | Cmd_help_handler
datatype cdata_ref = Cdata_usb | Cdata_sock
datatype priv_ref = Usbctrl | Spdata

record sock_pdata =
  sp_size :: int
  sp_cnt :: int
  sp_buf :: "u32 list"

record ('h, 'w) app =
  cst :: "(cmd_ref, handler_ref, cdata_ref, priv_ref) comm_state"
  box_quit :: int
  box_cdata :: comm_data
  cdata_usb :: comm_data
  cdata_sock :: comm_data
  spdata :: sock_pdata
  usbctrl :: "('h, 'w) usb"

definition text_lines :: "string list \<Rightarrow> string" where
  "text_lines ls = concat (List.map (\<lambda>l. l @ [NL]) ls)"

abbreviation "SOCK_CMD_ZERO \<equiv> 0 :: int"
abbreviation "SOCK_CMD_ECHO \<equiv> 1 :: int"
abbreviation "SOCK_CMD_MEM_D32 \<equiv> 2 :: int"
abbreviation "SOCK_CMD_MEM_W32 \<equiv> 3 :: int"
abbreviation "SOCK_CMD_MEM_R32 \<equiv> 4 :: int"

definition usb_desc :: "cmd_ref \<Rightarrow> string" where
  "usb_desc p =
     (case p of
        Usb_cmd_list \<Rightarrow> text_lines [''list usb devices'', ''usage: usb list'', []]
      | Usb_cmd_list1 \<Rightarrow> text_lines [''list usb devices with more informations'', ''usage: usb list1'', []]
      | Usb_cmd_bind \<Rightarrow> text_lines [''bind one usb device'', ''usage: usb bind [vid] [pid]'', ''example:'',
          ''    usb bind 0xbe57 0x020f    - bind the usb device(vid=0xbe57, pid=0x020f)'', []]
      | Usb_cmd_unbind \<Rightarrow> text_lines [''unbind one usb device'', ''usage usb unbind [vid] [pid]'', ''example:'',
          ''    usb unbind 0xbe57 0x020f  - unbind the usb device(vid=0xbe57, pid=0x020f)'', []]
      | Usb_cmd_read \<Rightarrow> text_lines [''read usb device'', ''usage: usb read [module] [addr] [nr]'', ''example:'',
          ''    usb read ana 0x60          - read analog [0x60]'',
          ''    usb read pmu 0x00          - read pmu [0x00]'',
          ''    usb read dig 0x40300060    - read digital [0x40300060]'',
          ''    usb read mem 0x20000000 8  - read memory [0x20000000], 8 words'', []]
      | Usb_cmd_write \<Rightarrow> text_lines [''write one usb device'', ''usage: usb write [module] [addr] [value]'', ''example:'',
          ''    usb write ana 0x60 0x0001  - write analog [60] = 0x0001'',
          ''    usb write pmu 0x03 0x0002  - write pmu [03] = 0x0001'',
          ''    usb write dig 0x40300060 0x1234abcd - write digital [0x40300060] = 0x1234abcd'',
          ''    usb write mem 0x20000000 0x1234abcd - write memory [0x20000000] = 0x1234abcd'',
          ''    usb write rst    - reset system'',
          ''    usb write rstcdc - reset system with USB CDC device'', []]
      | Usb_cmd_test \<Rightarrow> text_lines [''test usb device'', ''usage: usb test'', []]
      | _ \<Rightarrow> text_lines [''fm device commands'', ''usage: usb fm [cmd] [arg]'', ''example: '',
          ''    usb fm on            - power on device'',
          ''    usb fm off           - power off device'',
          ''    usb fm band          - get band'',
          ''    usb fm band 0        - set band to 0'',
          ''    usb fm channel       - get channel'',
          ''    usb fm channel 10390 - set channel to 10390'',
          ''    usb fm volume        - get volume'',
          ''    usb fm volume 8      - set volume to 8'',
          ''    usb fm test          - test device'',
          ''    usb fm mute          - get mute state'',
          ''    usb fm mute 1        - set mute state 1'', []])"

definition usb_object :: "int \<Rightarrow> cmd_ref \<Rightarrow> (handler_ref, cdata_ref, priv_ref) comm_cmd" where
  "usb_object i p =
     \<lparr>cmd_id = i, cmd_name = None, cmd_group = Some ''usb'', cmd_desc = Some (usb_desc p),
      cmd_priv = Some Usbctrl, cmd_cdata = Some Cdata_usb, cmd_handler = Some Usb_cmd_handler,
      cmd_nogroup = 0\<rparr>"

definition sock_object :: "int \<Rightarrow> string \<Rightarrow> string \<Rightarrow> (handler_ref, cdata_ref, priv_ref) comm_cmd" where
  "sock_object i name desc =
     \<lparr>cmd_id = i, cmd_name = Some name, cmd_group = None, cmd_desc = Some desc,
      cmd_priv = Some Spdata, cmd_cdata = Some Cdata_sock, cmd_handler = Some Sock_cmd_handler,
      cmd_nogroup = 1\<rparr>"

definition trivial_object ::
  "int \<Rightarrow> string \<Rightarrow> string \<Rightarrow> handler_ref \<Rightarrow> (handler_ref, cdata_ref, priv_ref) comm_cmd"
where
  "trivial_object i name desc h =
     \<lparr>cmd_id = i, cmd_name = Some name, cmd_group = None, cmd_desc = Some desc,
      cmd_priv = None, cmd_cdata = None, cmd_handler = Some h, cmd_nogroup = 1\<rparr>"

definition sock_desc :: "cmd_ref \<Rightarrow> string" where
  "sock_desc p =
     (case p of
        Cmd_echo \<Rightarrow> text_lines [''echo string'', ''echo [string]'' @ [TAB, TAB] @ ''- echo string to socket'', []]
      | Cmd_md32 \<Rightarrow> text_lines [''display memory word'',
          ''md32 [addr]'' @ [TAB, TAB] @ ''- display memory word at [addr]'',
          ''md32 [addr] [n]'' @ [TAB] @ ''- display memory n words at [addr]'', []]
      | Cmd_mw32 \<Rightarrow> text_lines [''write word to memory'',
          ''mw32 [addr] [val]'' @ [TAB] @ ''- write [val] to memory [addr]'', []]
      | _ \<Rightarrow> text_lines [''read word from memory'',
          ''mr32 [addr] [n]'' @ [TAB] @ ''- read [val] to memory [addr]'', []])"

text \<open>The objects as they are initialised at compile time: the USB commands have no name yet.\<close>

fun static_obj :: "cmd_ref \<Rightarrow> (handler_ref, cdata_ref, priv_ref) comm_cmd" where
  "static_obj Usb_cmd_list = usb_object USB_CMD_LIST Usb_cmd_list"
| "static_obj Usb_cmd_list1 = usb_object USB_CMD_LIST1 Usb_cmd_list1"
| "static_obj Usb_cmd_bind = usb_object USB_CMD_BIND Usb_cmd_bind"
| "static_obj Usb_cmd_unbind = usb_object USB_CMD_UNBIND Usb_cmd_unbind"
| "static_obj Usb_cmd_read = usb_object USB_CMD_READ Usb_cmd_read"
| "static_obj Usb_cmd_write = usb_object USB_CMD_WRITE Usb_cmd_write"
| "static_obj Usb_cmd_test = usb_object USB_CMD_TEST Usb_cmd_test"
| "static_obj Usb_cmd_fm = usb_object USB_CMD_FM Usb_cmd_fm"
| "static_obj Cmd_echo = sock_object SOCK_CMD_ECHO ''echo'' (sock_desc Cmd_echo)"
| "static_obj Cmd_md32 = sock_object SOCK_CMD_MEM_D32 ''md32'' (sock_desc Cmd_md32)"
| "static_obj Cmd_mw32 = sock_object SOCK_CMD_MEM_W32 ''mw32'' (sock_desc Cmd_mw32)"
| "static_obj Cmd_mr32 = sock_object SOCK_CMD_MEM_R32 ''mr32'' (sock_desc Cmd_mr32)"
| "static_obj Cmd_exit = trivial_object 98 ''exit'' ''exit the program'' Cmd_quit_handler"
| "static_obj Cmd_quit = trivial_object 99 ''quit'' ''quit the program'' Cmd_quit_handler"
| "static_obj Cmd_help = trivial_object 100 ''help'' ''show help info'' Cmd_help_handler"

definition usb_cmds :: "cmd_ref list" where
  "usb_cmds = [Usb_cmd_list, Usb_cmd_list1, Usb_cmd_bind, Usb_cmd_unbind, Usb_cmd_read,
               Usb_cmd_write, Usb_cmd_test, Usb_cmd_fm]"

definition sock_cmds :: "cmd_ref list" where
  "sock_cmds = [Cmd_echo, Cmd_md32, Cmd_mw32, Cmd_mr32]"

text \<open>The memory of the program when it starts; \<open>s\<close> is its input and \<open>w\<close> the world behind libusb.\<close>

definition app_boot :: "io \<Rightarrow> 'w \<Rightarrow> ('h, 'w) app" where
  "app_boot s w =
     \<lparr>cst = \<lparr>comm_cmds = replicate COMM_MAX_CMDS None, cmd_obj = static_obj, cio = s\<rparr>,
      box_quit = 0, box_cdata = comm_data_zero, cdata_usb = comm_data_zero,
      cdata_sock = comm_data_zero, spdata = \<lparr>sp_size = 0, sp_cnt = 0, sp_buf = replicate 1024 0\<rparr>,
      usbctrl = \<lparr>uc_bind = 0, uc_handle = None, uc_vid = 0, uc_pid = 0, uworld = w, ucalls = [], uout = []\<rparr>\<rparr>"

section \<open>Access to the memory of the program\<close>

definition on_io :: "(io \<Rightarrow> io) \<Rightarrow> ('h, 'w) app \<Rightarrow> ('h, 'w) app" where
  "on_io f a = a\<lparr>cst := (cst a)\<lparr>cio := f (cio (cst a))\<rparr>\<rparr>"

definition out_trace :: "u32 \<Rightarrow> nat \<Rightarrow> string \<Rightarrow> targ list \<Rightarrow> ('h, 'w) app \<Rightarrow> ('h, 'w) app" where
  "out_trace trmask lvl fmt args a =
     (if trace_on trmask lvl then on_io (\<lambda>s. s\<lparr>io_out := io_out s @ [Trace fmt args]\<rparr>) a else a)"

definition get_cdata :: "cdata_ref \<Rightarrow> ('h, 'w) app \<Rightarrow> comm_data" where
  "get_cdata c a = (case c of Cdata_usb \<Rightarrow> cdata_usb a | Cdata_sock \<Rightarrow> cdata_sock a)"

definition put_cdata :: "cdata_ref \<Rightarrow> comm_data \<Rightarrow> ('h, 'w) app \<Rightarrow> ('h, 'w) app" where
  "put_cdata c d a = (case c of Cdata_usb \<Rightarrow> a\<lparr>cdata_usb := d\<rparr> | Cdata_sock \<Rightarrow> a\<lparr>cdata_sock := d\<rparr>)"

text \<open>\<^verbatim>\<open>comm_data_init (cmd->cdata)\<close>.\<close>

definition init_cdata :: "cdata_ref option \<Rightarrow> ('h, 'w) app \<Rightarrow> ('h, 'w) app" where
  "init_cdata c a =
     (case c of
        None \<Rightarrow> a
      | Some r \<Rightarrow> (case snd (comm_data_init (Some (get_cdata r a))) of
                     None \<Rightarrow> a | Some d \<Rightarrow> put_cdata r d a))"

text \<open>
  The copied structure still points into the line buffer of \<^verbatim>\<open>comm_main\<close>, so its arguments
  are read there.
\<close>

definition pd_view :: "comm_data \<Rightarrow> ('h, 'w) app \<Rightarrow> comm_data" where
  "pd_view pd a = pd\<lparr>temp := temp (box_cdata a)\<rparr>"

definition args_of :: "comm_data \<Rightarrow> string list res" where
  "args_of d =
     foldr (\<lambda>k acc. res_bind (arg_str d (int k)) (\<lambda>w. res_bind acc (\<lambda>ws. Inr (w # ws))))
       [0..<nat (argc d)] (Inr [])"

text \<open>A USB operation prints to the same standard output as the rest of the program.\<close>

definition usb_run ::
  "(('h, 'w) usb \<Rightarrow> (int \<times> ('h, 'w) usb) res) \<Rightarrow> ('h, 'w) app \<Rightarrow> (int \<times> ('h, 'w) app) res"
where
  "usb_run f a =
     res_bind (f ((usbctrl a)\<lparr>uout := io_out (cio (cst a))\<rparr>))
       (\<lambda>(r, u). Inr (r, on_io (\<lambda>s. s\<lparr>io_out := uout u\<rparr>) (a\<lparr>usbctrl := u\<rparr>)))"

section \<open>The socket console commands (sock_cmd.c)\<close>

definition sock_data_init :: "priv_ref option \<Rightarrow> ('h, 'w) app \<Rightarrow> ('h, 'w) app" where
  "sock_data_init priv a =
     (case priv of
        Some Spdata \<Rightarrow> a\<lparr>spdata := (spdata a)\<lparr>sp_cnt := 0, sp_size := 0\<rparr>\<rparr>
      | _ \<Rightarrow> a)"

definition do_cmd_echo :: "cflags \<Rightarrow> comm_data \<Rightarrow> ('h, 'w) app \<Rightarrow> (int \<times> ('h, 'w) app) res" where
  "do_cmd_echo b pd a =
     (let a1 = on_io (comm_puts b [NL]) a
      in res_bind (arg_str (pd_view pd a) 1)
           (\<lambda>ps. Inr (0, on_io (comm_puts b [NL]) (on_io (comm_puts b ps) a1))))"

definition do_cmd_md :: "('h, 'w) app \<Rightarrow> (int \<times> ('h, 'w) app) res" where
  "do_cmd_md a = Inr (0, a)"

definition do_cmd_mw :: "('h, 'w) app \<Rightarrow> (int \<times> ('h, 'w) app) res" where
  "do_cmd_mw a = Inr (0, a)"

definition do_cmd_mr :: "('h, 'w) app \<Rightarrow> (int \<times> ('h, 'w) app) res" where
  "do_cmd_mr a = Inr (0, a)"

text \<open>
  \<^verbatim>\<open>r\<close> is set only for the four memory and echo commands; for every other id the test
  \<^verbatim>\<open>if (r)\<close> reads a variable never written.
\<close>

definition sock_cmd_handler ::
  "cflags \<Rightarrow> int \<Rightarrow> cdata_ref option \<Rightarrow> priv_ref option \<Rightarrow> ('h, 'w) app \<Rightarrow> ('h, 'w) app res"
where
  "sock_cmd_handler b i cdata priv a =
     (case cdata of
        None \<Rightarrow> Inl Null_Deref
      | Some c \<Rightarrow>
          res_bind
            (if i = SOCK_CMD_ECHO then do_cmd_echo b (get_cdata c a) a
             else if i = SOCK_CMD_MEM_D32 then do_cmd_md a
             else if i = SOCK_CMD_MEM_W32 then do_cmd_mw a
             else if i = SOCK_CMD_MEM_R32 then do_cmd_mr a
             else Inl Uninit_Read)
            (\<lambda>(r, a1).
               let a2 = (if r \<noteq> 0
                         then out_trace sock_trmask 0 ''exec cmd %d error %d'' [TInt i, TInt r] a1
                         else a1)
               in Inr (sock_data_init priv (init_cdata cdata a2))))"

section \<open>The handlers of the other commands\<close>

definition usb_cmd_handler ::
  "('d, 'h, 'w) libusb \<Rightarrow> int \<Rightarrow> cdata_ref option \<Rightarrow> ('h, 'w) app \<Rightarrow> ('h, 'w) app res"
where
  "usb_cmd_handler lib i cdata a =
     (case cdata of
        None \<Rightarrow> Inl Null_Deref
      | Some c \<Rightarrow>
          res_bind (args_of (pd_view (get_cdata c a) a))
            (\<lambda>args. res_bind (usb_run (exec_usb_cmd lib i args) a) (\<lambda>(r, a1). Inr a1)))"

definition cmd_quit_handler :: "('h, 'w) app \<Rightarrow> ('h, 'w) app res" where
  "cmd_quit_handler a = Inr (a\<lparr>box_quit := 1\<rparr>)"

definition cmd_help_handler :: "cflags \<Rightarrow> ('h, 'w) app \<Rightarrow> ('h, 'w) app res" where
  "cmd_help_handler b a = res_bind (comm_show_command b (cst a)) (\<lambda>st. Inr (a\<lparr>cst := st\<rparr>))"

text \<open>The call through \<^verbatim>\<open>cmd->handler\<close>.\<close>

definition call_handler ::
  "cflags \<Rightarrow> ('d, 'h, 'w) libusb \<Rightarrow> handler_ref \<Rightarrow> int \<Rightarrow> cdata_ref option \<Rightarrow> priv_ref option \<Rightarrow>
   ('h, 'w) app \<Rightarrow> ('h, 'w) app res"
where
  "call_handler b lib h i cdata priv a =
     (case h of
        Usb_cmd_handler \<Rightarrow> usb_cmd_handler lib i cdata a
      | Sock_cmd_handler \<Rightarrow> sock_cmd_handler b i cdata priv a
      | Cmd_quit_handler \<Rightarrow> cmd_quit_handler a
      | Cmd_help_handler \<Rightarrow> cmd_help_handler b a)"

section \<open>Registering the modules\<close>

definition on_table ::
  "((cmd_ref, handler_ref, cdata_ref, priv_ref) comm_state \<Rightarrow>
    (int \<times> (cmd_ref, handler_ref, cdata_ref, priv_ref) comm_state) res) \<Rightarrow>
   ('h, 'w) app \<Rightarrow> (int \<times> ('h, 'w) app) res"
where
  "on_table f a = res_bind (f (cst a)) (\<lambda>(r, st). Inr (r, a\<lparr>cst := st\<rparr>))"

text \<open>\<^verbatim>\<open>cmd->name\<close>, printed when a call fails.\<close>

definition shown_name :: "cmd_ref \<Rightarrow> ('h, 'w) app \<Rightarrow> targ" where
  "shown_name p a = TStr (case cmd_name (cmd_obj (cst a) p) of None \<Rightarrow> ''(null)'' | Some s \<Rightarrow> s)"

text \<open>The call and the error trace in the loop bodies; \<open>m\<close> is the mask of the module.\<close>

definition register_traced :: "u32 \<Rightarrow> cmd_ref \<Rightarrow> ('h, 'w) app \<Rightarrow> (int \<times> ('h, 'w) app) res" where
  "register_traced m p a =
     res_bind (on_table (comm_cmd_register (Some p)) a)
       (\<lambda>(r, a1). Inr (r, if r \<noteq> 0
                         then out_trace m 0 ''register cmd %s failed, %d'' [shown_name p a1, TInt r] a1
                         else a1))"

definition unregister_traced :: "u32 \<Rightarrow> cmd_ref \<Rightarrow> ('h, 'w) app \<Rightarrow> (int \<times> ('h, 'w) app) res" where
  "unregister_traced m p a =
     res_bind (on_table (comm_cmd_unregister (Some p)) a)
       (\<lambda>(r, a1). Inr (r, if r \<noteq> 0
                         then out_trace m 0 ''unregister cmd %s failed, %d'' [shown_name p a1, TInt r] a1
                         else a1))"

definition usb_data_init :: "('h, 'w) app \<Rightarrow> ('h, 'w) app" where
  "usb_data_init a =
     a\<lparr>usbctrl := (usbctrl a)\<lparr>uc_bind := 0, uc_handle := None, uc_vid := 0, uc_pid := 0\<rparr>\<rparr>"

text \<open>\<^verbatim>\<open>cmd->name = cmds_info[cmd->id].name; comm_data_init (cmd->cdata);\<close>\<close>

definition usb_prepare :: "cmd_ref \<Rightarrow> ('h, 'w) app \<Rightarrow> ('h, 'w) app" where
  "usb_prepare p a =
     (let obj = (cmd_obj (cst a) p)\<lparr>cmd_name := Some (fst (cmds_info ! nat (cmd_id (cmd_obj (cst a) p))))\<rparr>
      in init_cdata (cmd_cdata obj) (a\<lparr>cst := (cst a)\<lparr>cmd_obj := (cmd_obj (cst a))(p := obj)\<rparr>\<rparr>))"

definition usb_cmd_register :: "('h, 'w) app \<Rightarrow> (int \<times> ('h, 'w) app) res" where
  "usb_cmd_register a =
     each_until (\<lambda>p a. register_traced usb_trmask p (usb_prepare p a)) usb_cmds 0 (usb_data_init a)"

definition usb_cmd_unregister ::
  "('d, 'h, 'w) libusb \<Rightarrow> ('h, 'w) app \<Rightarrow> (int \<times> ('h, 'w) app) res"
where
  "usb_cmd_unregister lib a =
     res_bind (if uc_bind (usbctrl a) \<noteq> 0
               then usb_run (\<lambda>u. Inr (usb_handle_cmd_bind lib [] 0 u)) a else Inr (0, a))
       (\<lambda>(r, a1). each_until (unregister_traced usb_trmask) usb_cmds 0 a1)"

definition sock_prepare :: "cmd_ref \<Rightarrow> ('h, 'w) app \<Rightarrow> ('h, 'w) app" where
  "sock_prepare p a =
     sock_data_init (cmd_priv (cmd_obj (cst a) p)) (init_cdata (cmd_cdata (cmd_obj (cst a) p)) a)"

definition sock_cmd_register :: "('h, 'w) app \<Rightarrow> (int \<times> ('h, 'w) app) res" where
  "sock_cmd_register a =
     each_until (\<lambda>p a. register_traced sock_trmask p (sock_prepare p a)) sock_cmds 0 a"

definition sock_cmd_unregister :: "('h, 'w) app \<Rightarrow> (int \<times> ('h, 'w) app) res" where
  "sock_cmd_unregister a = each_until (unregister_traced sock_trmask) sock_cmds 0 a"

text \<open>The module table of \<^verbatim>\<open>comm_io.c\<close> and the loops over it.\<close>

datatype cmd_module = Module_usb | Module_sock

definition comm_cmd_modules :: "cflags \<Rightarrow> cmd_module list" where
  "comm_cmd_modules b =
     (if cmd_module_usb b then [Module_usb] else []) @ (if cmd_module_sock b then [Module_sock] else [])"

definition comm_user_cmd_register :: "cflags \<Rightarrow> ('h, 'w) app \<Rightarrow> (int \<times> ('h, 'w) app) res" where
  "comm_user_cmd_register b a =
     each_until (\<lambda>m. case m of Module_usb \<Rightarrow> usb_cmd_register | Module_sock \<Rightarrow> sock_cmd_register)
       (comm_cmd_modules b) 0 a"

definition comm_user_cmd_unregister ::
  "cflags \<Rightarrow> ('d, 'h, 'w) libusb \<Rightarrow> ('h, 'w) app \<Rightarrow> (int \<times> ('h, 'w) app) res"
where
  "comm_user_cmd_unregister b lib a =
     each_until (\<lambda>m. case m of Module_usb \<Rightarrow> usb_cmd_unregister lib | Module_sock \<Rightarrow> sock_cmd_unregister)
       (comm_cmd_modules b) 0 a"

definition trivial_cmd_register :: "('h, 'w) app \<Rightarrow> (int \<times> ('h, 'w) app) res" where
  "trivial_cmd_register a =
     res_bind (on_table (comm_cmd_register (Some Cmd_quit)) a)
       (\<lambda>(r1, a1). res_bind (on_table (comm_cmd_register (Some Cmd_exit)) a1)
       (\<lambda>(r2, a2). res_bind (on_table (comm_cmd_register (Some Cmd_help)) a2)
       (\<lambda>(r3, a3). Inr (r1 + r2 + r3, a3))))"

text \<open>The second call registers \<^verbatim>\<open>cmd_exit\<close> once more.\<close>

definition trivial_cmd_unregister :: "('h, 'w) app \<Rightarrow> (int \<times> ('h, 'w) app) res" where
  "trivial_cmd_unregister a =
     res_bind (on_table (comm_cmd_unregister (Some Cmd_quit)) a)
       (\<lambda>(r1, a1). res_bind (on_table (comm_cmd_register (Some Cmd_exit)) a1)
       (\<lambda>(r2, a2). res_bind (on_table (comm_cmd_unregister (Some Cmd_help)) a2)
       (\<lambda>(r3, a3). Inr (r1 + r2 + r3, a3))))"

section \<open>comm_main\<close>

definition run_command ::
  "cflags \<Rightarrow> ('d, 'h, 'w) libusb \<Rightarrow> ('h, 'w) app \<Rightarrow> (int \<times> ('h, 'w) app) res"
where
  "run_command b lib a =
     comm_exec_command (cmd_obj (cst a)) (comm_cmds (cst a)) put_cdata (call_handler b lib) (box_cdata a) a"

text \<open>One round of the loop: prompt, read a line, cut it, run it. \<open>None\<close>: the read never returns.\<close>

definition console_round ::
  "cflags \<Rightarrow> ('d, 'h, 'w) libusb \<Rightarrow> ('h, 'w) app \<Rightarrow> ('h, 'w) app res option"
where
  "console_round b lib a =
     (let a0 = on_io (comm_show_screen b) a
      in case comm_get_command (comm_fgetc b) (box_cdata a0) (cio (cst a0)) of
           None \<Rightarrow> None
         | Some (r, s) \<Rightarrow>
             Some (res_bind r (\<lambda>(_, d1).
                   res_bind (comm_parse_command d1) (\<lambda>(_, d2).
                   res_bind (run_command b lib (on_io (\<lambda>_. s) (a0\<lparr>box_cdata := d2\<rparr>)))
                     (\<lambda>(_, a1). Inr a1)))))"

partial_function (option) main_loop ::
  "cflags \<Rightarrow> ('d, 'h, 'w) libusb \<Rightarrow> ('h, 'w) app \<Rightarrow> ('h, 'w) app res option"
where
  "main_loop b lib a =
     Option.bind (console_round b lib a)
       (\<lambda>r. case r of Inl e \<Rightarrow> Some (Inl e)
            | Inr a1 \<Rightarrow> if box_quit a1 \<noteq> 0 then Some (Inr a1) else main_loop b lib a1)"

definition main_start :: "cflags \<Rightarrow> ('h, 'w) app \<Rightarrow> (int \<times> ('h, 'w) app) res" where
  "main_start b a =
     (let a1 = a\<lparr>box_quit := 0, box_cdata := comm_data_zero, cst := comm_init_command (cst a)\<rparr>;
          a2 = (case snd (comm_data_init (Some (box_cdata a1))) of None \<Rightarrow> a1 | Some d \<Rightarrow> a1\<lparr>box_cdata := d\<rparr>);
          a3 = on_io (comm_clear_screen b) a2
      in res_bind (trivial_cmd_register a3) (\<lambda>(r1, a4).
         res_bind (comm_user_cmd_register b a4) (\<lambda>(r2, a5). Inr (r1 + r2, a5))))"

definition main_finish ::
  "cflags \<Rightarrow> ('d, 'h, 'w) libusb \<Rightarrow> ('h, 'w) app \<Rightarrow> (int \<times> ('h, 'w) app) res"
where
  "main_finish b lib a =
     res_bind (comm_user_cmd_unregister b lib a) (\<lambda>(r1, a1).
     res_bind (trivial_cmd_unregister a1) (\<lambda>(r2, a2).
       if r1 + r2 \<noteq> 0
       then Inr (r1 + r2, out_trace comm_trmask 0 ''unregister cmd failed %d'' [TInt (r1 + r2)] a2)
       else Inr (0, out_trace comm_trmask 2 ''See you again.'' [] (on_io (comm_clear_screen b) a2))))"

definition comm_main ::
  "cflags \<Rightarrow> ('d, 'h, 'w) libusb \<Rightarrow> ('h, 'w) app \<Rightarrow> (int \<times> ('h, 'w) app) res option"
where
  "comm_main b lib a =
     (case main_start b a of
        Inl e \<Rightarrow> Some (Inl e)
      | Inr (r, a1) \<Rightarrow>
          if r \<noteq> 0
          then Some (Inr (r, out_trace comm_trmask 0 ''register cmd failed %d'' [TInt r] a1))
          else map_option (\<lambda>m. res_bind m (main_finish b lib)) (main_loop b lib a1))"

end
