(* ===== verification/Usb_Session.thy ===== *)
theory Usb_Session
  imports Usb_List
begin

text \<open>
  What the USB commands guarantee: the protocol they keep towards libusb, and the exact
  transfers of \<^verbatim>\<open>usb read\<close> and \<^verbatim>\<open>usb write\<close>. The collection \<open>usb_talk\<close> holds one lemma per
  operation: it only adds transfers on the bound handle and leaves the binding alone.
\<close>

named_theorems usb_talk

section \<open>The protocol with libusb\<close>

text \<open>
  \<open>run_log h cs\<close> replays calls from the open handle \<open>h\<close>: a device is opened only when none is
  open, closed only when it is the open one, and transfers go to the open handle. \<open>None\<close> is
  a violation.
\<close>

fun run_log :: "'h option \<Rightarrow> 'h lib_call list \<Rightarrow> 'h option option" where
  "run_log h [] = Some h"
| "run_log h (Lib_init r # cs) = run_log h cs"
| "run_log h (Lib_exit # cs) = run_log h cs"
| "run_log h (Lib_open vid pid new # cs) = (if h = None then run_log new cs else None)"
| "run_log h (Lib_close old # cs) = (if h = Some old then run_log None cs else None)"
| "run_log h (Lib_transfer used su d # cs) = (if used = h \<and> h \<noteq> None then run_log h cs else None)"

lemma run_log_append: "run_log h (xs @ ys) = Option.bind (run_log h xs) (\<lambda>h'. run_log h' ys)"
  by (induction h xs rule: run_log.induct) auto

definition usb_ok :: "('h, 'w) usb \<Rightarrow> bool" where
  "usb_ok s \<longleftrightarrow> run_log None (ucalls s) = Some (uc_handle s)
     \<and> (uc_bind s = (if uc_handle s = None then 0 else 1))"

text \<open>A step that only talks over the bound handle.\<close>

definition plain_call :: "'h option \<Rightarrow> 'h lib_call \<Rightarrow> bool" where
  "plain_call h c \<longleftrightarrow> (case c of Lib_transfer u _ _ \<Rightarrow> u = h | Lib_init _ \<Rightarrow> True | Lib_exit \<Rightarrow> True | _ \<Rightarrow> False)"

definition talks :: "('h, 'w) usb \<Rightarrow> ('h, 'w) usb \<Rightarrow> bool" where
  "talks s s' \<longleftrightarrow> uc_bind s' = uc_bind s \<and> uc_handle s' = uc_handle s
     \<and> uc_vid s' = uc_vid s \<and> uc_pid s' = uc_pid s
     \<and> (\<exists>cs. ucalls s' = ucalls s @ cs \<and> list_all (plain_call (uc_handle s)) cs)"

lemma talks_refl [usb_talk]: "talks s s"
  by (auto simp: talks_def)

lemma talks_trans: "talks s s1 \<Longrightarrow> talks s1 s2 \<Longrightarrow> talks s s2"
  by (auto simp: talks_def)

lemma run_log_plain: "h \<noteq> None \<Longrightarrow> list_all (plain_call h) cs \<Longrightarrow> run_log h cs = Some h"
  by (induction cs) (auto simp: plain_call_def split: lib_call.splits)

lemma talks_ok: "talks s s' \<Longrightarrow> usb_ok s \<Longrightarrow> uc_handle s \<noteq> None \<Longrightarrow> usb_ok s'"
  by (auto simp: talks_def usb_ok_def run_log_append run_log_plain)

lemma talks_trace [usb_talk]: "talks s s1 \<Longrightarrow> talks s (usb_trace lvl fmt args s1)"
  by (auto simp: talks_def usb_trace_def)

lemma talks_transfer [usb_talk]:
  "call_transfer lib (uc_handle s1) su buf s1 = (r, b, s2) \<Longrightarrow> talks s s1 \<Longrightarrow> talks s s2"
  by (auto simp: talks_def call_transfer_def plain_call_def Let_def split: prod.splits)

lemma talks_raw_read [usb_talk]:
  "usb_raw_read lib (uc_handle s1) q op ad buf len s1 = (r, b, s2) \<Longrightarrow> talks s s1 \<Longrightarrow> talks s s2"
  unfolding usb_raw_read_def by (rule talks_transfer)

lemma talks_raw_write [usb_talk]:
  "usb_raw_write lib (uc_handle s1) q op ad buf len s1 = (r, s2) \<Longrightarrow> talks s s1 \<Longrightarrow> talks s s2"
  by (auto simp: usb_raw_write_def intro: talks_transfer split: prod.splits)

lemma talks_fm_xfer [usb_talk]:
  "usb_fm_raw_xfer lib (uc_handle s1) ty q v i l buf s1 = (r, b, s2) \<Longrightarrow> talks s s1 \<Longrightarrow> talks s s2"
  by (auto simp: usb_fm_raw_xfer_def Let_def intro: talks_transfer talks_trace split: prod.splits if_splits)

lemma talks_read_loop [usb_talk]:
  "rw_read_loop lib c len inc n a buf err s1 = (r, s2) \<Longrightarrow> talks s s1 \<Longrightarrow> talks s s2"
proof (induction n arbitrary: a buf err s1)
  case 0
  then show ?case by simp
next
  case (Suc n)
  obtain rl b s3 where x: "usb_raw_read lib (uc_handle s1) REQ_TYPE_OTH_RD (of_int c) a buf len s1 = (rl, b, s3)"
    by (cases "usb_raw_read lib (uc_handle s1) REQ_TYPE_OTH_RD (of_int c) a buf len s1") auto
  then have "talks s s3" using Suc.prems(2) by (rule talks_raw_read)
  then show ?case using Suc.prems(1) x
    by (auto simp: Let_def intro: Suc.IH talks_trace split: if_splits)
qed

lemma rw_send_talks [usb_talk]: "talks s (snd (rw_send lib c a buf len s))"
  by (auto simp: rw_send_def intro: talks_trace talks_raw_write talks_refl split: prod.splits)

lemma rw_fetch_talks [usb_talk]: "talks s (snd (rw_fetch lib c a v len inc s))"
proof -
  obtain r s' where "rw_read_loop lib c len inc (if is_mem_mod c then unat ((v * 4) div len) else 0) a
      (replicate 8 0) 0 s = (r, s')" by fastforce
  then show ?thesis
    using talks_read_loop [OF _ talks_refl] by (simp add: rw_fetch_def Let_def)
qed

lemma rw_talks: "talks s (snd (usb_handle_cmd_rw lib args read s))"
  unfolding usb_handle_cmd_rw_def Let_def
  by (simp add: talks_trace talks_refl rw_send_talks rw_fetch_talks split: option.split)

lemma fm_ops_talk [usb_talk]:
  "talks s s1 \<Longrightarrow> talks s (snd (usb_fm_cmd_power lib on s1))"
  "talks s s1 \<Longrightarrow> talks s (snd (snd (usb_fm_cmd_mute lib v is_set s1)))"
  "talks s s1 \<Longrightarrow> talks s (snd (snd (usb_fm_cmd_band lib v is_set s1)))"
  "talks s s1 \<Longrightarrow> talks s (snd (snd (usb_fm_cmd_channel lib v is_set s1)))"
  "talks s s1 \<Longrightarrow> talks s (snd (snd (usb_fm_cmd_volume lib v is_set s1)))"
  "talks s s1 \<Longrightarrow> talks s (snd (snd (usb_fm_cmd_get_device lib v s1)))"
  by (auto simp: usb_fm_cmd_power_def usb_fm_cmd_mute_def usb_fm_cmd_band_def usb_fm_cmd_channel_def
        usb_fm_cmd_volume_def usb_fm_cmd_get_device_def Let_def
      intro!: talks_trace intro: talks_fm_xfer split: prod.splits)

lemma fm_test_talks [usb_talk]: "talks s (snd (usb_fm_cmd_test lib s))"
  by (auto simp: usb_fm_cmd_test_def Let_def split_beta intro!: fm_ops_talk talks_refl)

lemma fm_talks: "talks s (snd (usb_handle_cmd_fm lib args s))"
  unfolding usb_handle_cmd_fm_def Let_def
  by (auto intro!: fm_ops_talk fm_test_talks talks_trace talks_refl split: option.splits)

text \<open>A step that only starts or ends libusb.\<close>

definition quiet :: "('h, 'w) usb \<Rightarrow> ('h, 'w) usb \<Rightarrow> bool" where
  "quiet s s' \<longleftrightarrow> uc_bind s' = uc_bind s \<and> uc_handle s' = uc_handle s
     \<and> uc_vid s' = uc_vid s \<and> uc_pid s' = uc_pid s
     \<and> (\<exists>cs. ucalls s' = ucalls s @ cs \<and> list_all (\<lambda>c. c = Lib_exit \<or> (\<exists>r. c = Lib_init r)) cs)"

lemma quiet_refl [usb_talk]: "quiet s s"
  by (auto simp: quiet_def)

lemma quiet_trans: "quiet s s1 \<Longrightarrow> quiet s1 s2 \<Longrightarrow> quiet s s2"
  by (auto simp: quiet_def)

lemma run_log_quiet:
  "list_all (\<lambda>c. c = Lib_exit \<or> (\<exists>r. c = Lib_init r)) cs \<Longrightarrow> run_log h cs = Some h"
  by (induction cs) auto

lemma quiet_ok: "quiet s s' \<Longrightarrow> usb_ok s \<Longrightarrow> usb_ok s'"
  by (auto simp: quiet_def usb_ok_def run_log_append run_log_quiet)

lemma quiet_trace [usb_talk]: "quiet s s1 \<Longrightarrow> quiet s (usb_trace lvl fmt args s1)"
  by (auto simp: quiet_def usb_trace_def)

lemma quiet_calls [usb_talk]:
  "call_init lib s1 = (r, s2) \<Longrightarrow> quiet s s1 \<Longrightarrow> quiet s s2"
  "quiet s s1 \<Longrightarrow> quiet s (call_exit lib s1)"
  "call_device_list lib s1 = (nr, devs, s2) \<Longrightarrow> quiet s s1 \<Longrightarrow> quiet s s2"
  "call_device_descriptor lib dev old s1 = (r, desc, s2) \<Longrightarrow> quiet s s1 \<Longrightarrow> quiet s s2"
  "call_active_config lib dev c1 s1 = (r, conf, s2) \<Longrightarrow> quiet s s1 \<Longrightarrow> quiet s s2"
  "quiet s s1 \<Longrightarrow> quiet s (call_free_list lib devs s1)"
  by (auto simp: quiet_def call_init_def call_exit_def call_device_list_def call_device_descriptor_def
        call_active_config_def call_free_list_def split: prod.splits)

lemma quiet_itf_desc_print [usb_talk]: "quiet s s1 \<Longrightarrow> quiet s (usb_itf_desc_print alt s1)"
  by (simp add: usb_itf_desc_print_def Let_def quiet_trace)

lemma quiet_alt_loop [usb_talk]: "alt_loop alts i n s1 = Inr s2 \<Longrightarrow> quiet s s1 \<Longrightarrow> quiet s s2"
  by (induction alts i n s1 rule: alt_loop.induct) (auto simp: res_bind_Inr_iff quiet_itf_desc_print)

lemma quiet_itf_print [usb_talk]: "usb_itf_print itf s1 = Inr s2 \<Longrightarrow> quiet s s1 \<Longrightarrow> quiet s s2"
  by (auto simp: usb_itf_print_def Let_def res_bind_Inr_iff intro!: quiet_trace dest: quiet_alt_loop
      [OF _ quiet_trace [OF quiet_trace]])

lemma quiet_itf_loop [usb_talk]: "itf_loop is n s1 = Inr s2 \<Longrightarrow> quiet s s1 \<Longrightarrow> quiet s s2"
  by (induction "is" n s1 rule: itf_loop.induct) (auto simp: res_bind_Inr_iff intro: quiet_itf_print)

lemma quiet_config_print [usb_talk]:
  "usb_config_desc_print desc s1 = Inr s2 \<Longrightarrow> quiet s s1 \<Longrightarrow> quiet s s2"
  by (auto simp: usb_config_desc_print_def Let_def res_bind_Inr_iff
      intro!: quiet_trace elim!: quiet_itf_loop split: option.splits)

lemma quiet_desc_loop [usb_talk]: "desc_loop buf i n s1 = Inr s2 \<Longrightarrow> quiet s s1 \<Longrightarrow> quiet s s2"
proof (induction n arbitrary: i s1)
  case (Suc n)
  then obtain v where v: "rd buf (int i) = Inr v" by (auto simp: res_bind_Inr_iff)
  let ?s = "usb_trace 2 ''%02X '' [TInt (uint v)] s1"
  have "quiet s (if (i + 1) mod 18 = 0 then usb_trace 2 [NL] [] ?s else ?s)"
    using Suc.prems(2) by (simp add: quiet_trace)
  then show ?case using Suc.prems(1) v Suc.IH by (simp add: Let_def)
qed simp

lemma quiet_device_print [usb_talk]:
  "usb_device_desc_print desc s1 = Inr s2 \<Longrightarrow> quiet s s1 \<Longrightarrow> quiet s s2"
  by (auto simp: usb_device_desc_print_def Let_def intro!: quiet_trace elim!: quiet_desc_loop)

lemma quiet_list_device [usb_talk]:
  "list_device lib level dev desc s1 = Inr s2 \<Longrightarrow> quiet s s1 \<Longrightarrow> quiet s s2"
proof -
  assume a: "list_device lib level dev desc s1 = Inr s2" and q: "quiet s s1"
  let ?s = "usb_trace 2 ''VID: %04X, PID: %04X''
                 [TInt (uint (idVendor desc)), TInt (uint (idProduct desc))] s1"
  obtain s3 where s3: "(if level = 1 then usb_device_desc_print desc ?s else Inr ?s) = Inr s3"
    using a unfolding list_device_def Let_def res_bind_Inr_iff by blast
  then have q3: "quiet s s3"
    using q quiet_trace quiet_device_print by (fastforce split: if_splits)
  obtain r conf s4 where c: "call_active_config lib dev None s3 = (r, conf, s4)"
    by (cases "call_active_config lib dev None s3") auto
  then have "quiet s s4" using q3 by (rule quiet_calls)
  then show "quiet s s2" using a s3 c quiet_trace quiet_config_print
    by (fastforce simp: list_device_def Let_def split: if_splits)
qed

lemma quiet_list_loop [usb_talk]:
  "list_loop lib level devs desc s1 = Inr (e, s2) \<Longrightarrow> quiet s s1 \<Longrightarrow> quiet s s2"
proof (induction lib level devs desc s1 arbitrary: e rule: list_loop.induct)
  case (2 lib level dev devs desc s1)
  obtain r desc1 s3 where x: "call_device_descriptor lib dev desc s1 = (r, desc1, s3)"
    by (cases "call_device_descriptor lib dev desc s1") auto
  then have q: "quiet s s3" using 2(3) by (rule quiet_calls)
  show ?case
  proof (cases "r < 0 \<or> desc1 = None")
    case True
    then show ?thesis using "2.prems"(1) x q by (auto simp: quiet_trace split: if_splits)
  next
    case False
    then obtain d where "desc1 = Some d" and "\<not> r < 0" by auto
    then show ?thesis using 2 x q
      by (auto simp: res_bind_Inr_iff dest: quiet_list_device)
  qed
qed simp

lemma quiet_test_loop [usb_talk]:
  "test_loop lib vid pid devs desc r s1 = Inr (r', s2) \<Longrightarrow> quiet s s1 \<Longrightarrow> quiet s s2"
proof (induction lib vid pid devs desc r s1 rule: test_loop.induct)
  case (2 lib vid pid dev devs desc r s1)
  obtain r1 desc1 s3 where x: "call_device_descriptor lib dev desc s1 = (r1, desc1, s3)"
    by (cases "call_device_descriptor lib dev desc s1") auto
  then have q: "quiet s s3" using "2.prems"(2) by (rule quiet_calls)
  obtain d where d: "desc1 = Some d" using "2.prems"(1) x by (cases desc1) auto
  show ?case
  proof (cases "idVendor d = vid \<and> idProduct d = pid")
    case True
    then show ?thesis using "2.prems"(1) x d q
      by (auto simp: res_bind_Inr_iff split: prod.splits
          elim!: quiet_config_print quiet_device_print dest!: quiet_calls(5) [where s = s])
  next
    case False
    then show ?thesis using 2 x d q by auto
  qed
qed simp

lemma quiet_handle_list [usb_talk]:
  assumes a: "usb_handle_cmd_list lib level s = Inr (r, s')"
  shows "quiet s s'"
proof -
  obtain r1 s1 where i: "call_init lib s = (r1, s1)" by (cases "call_init lib s")
  note q1 = quiet_calls(1) [OF i quiet_refl]
  obtain nr devs s2 where l: "call_device_list lib s1 = (nr, devs, s2)"
    by (cases "call_device_list lib s1") auto
  note q2 = quiet_calls(3) [OF l q1]
  let ?s = "usb_trace 2 ''usb devices number=%d'' [TInt nr] s2"
  show ?thesis
  proof (cases "r1 = 0 \<and> 0 \<le> nr")
    case False
    then have "s' = usb_trace 0 ''init libusb failed %d'' [TInt r1] s1
        \<or> s' = usb_trace 0 ''get libusb dev failed %d'' [TInt r1] s2"
      using a i l by (cases "r1 = 0") (auto simp: usb_handle_cmd_list_def)
    then show ?thesis using quiet_trace [OF q1] quiet_trace [OF q2] by blast
  next
    case True
    then have "res_bind (list_loop lib level devs None ?s)
        (\<lambda>(early, s3). case early of Some c \<Rightarrow> Inr (c, s3)
           | None \<Rightarrow> Inr (0, call_exit lib (call_free_list lib devs s3))) = Inr (r, s')"
      using a i l by (simp add: usb_handle_cmd_list_def)
    then show ?thesis using quiet_list_loop [OF _ quiet_trace [OF q2]]
      by (auto simp: res_bind_Inr_iff split: option.splits intro!: quiet_calls(2,6))
  qed
qed

lemma quiet_handle_test [usb_talk]:
  assumes a: "usb_handle_cmd_test lib args s = Inr (r, s')"
  shows "quiet s s'"
proof -
  define vid pid where "vid = (if length args > 2 then strtoul_u16 (args ! 2) else 0)"
    and "pid = (if length args > 3 then strtoul_u16 (args ! 3) else 0)"
  define s0 where "s0 = usb_trace 2 ''%s, vid=%x, pid=%x''
               [TStr ''usb_handle_cmd_test'', TInt (uint vid), TInt (uint pid)] s"
  note h = a [unfolded usb_handle_cmd_test_def vid_def [symmetric] pid_def [symmetric] Let_def,
      folded s0_def]
  obtain r1 s1 where i: "call_init lib s0 = (r1, s1)" by (cases "call_init lib s0")
  have q1: "quiet s s1" using i by (rule quiet_calls(1)) (simp add: s0_def quiet_trace quiet_refl)
  obtain nr devs s2 where l: "call_device_list lib s1 = (nr, devs, s2)"
    by (cases "call_device_list lib s1") auto
  note q2 = quiet_calls(3) [OF l q1]
  consider "vid = 0 \<or> pid = 0" | "vid \<noteq> 0 \<and> pid \<noteq> 0" "r1 \<noteq> 0"
    | "vid \<noteq> 0 \<and> pid \<noteq> 0" "r1 = 0" "nr < 0" | "vid \<noteq> 0 \<and> pid \<noteq> 0" "r1 = 0" "0 \<le> nr" by linarith
  then show ?thesis
  proof cases
    case 1
    then show ?thesis using h by (auto simp: quiet_trace quiet_refl)
  next
    case 2
    then show ?thesis using h i quiet_trace [OF q1] by auto
  next
    case 3
    then show ?thesis using h i l quiet_trace [OF q2] by auto
  next
    case 4
    then have "res_bind (test_loop lib vid pid devs None r1 (usb_trace 2 ''usb devices number=%d'' [TInt nr] s2))
        (\<lambda>(r2, s3). Inr (r2, call_exit lib (call_free_list lib devs s3))) = Inr (r, s')"
      using h i l by simp
    then show ?thesis using quiet_test_loop [OF _ quiet_trace [OF q2]]
      by (auto simp: res_bind_Inr_iff intro!: quiet_calls(2,6))
  qed
qed

lemma unbound_quiet:
  assumes "uc_bind s = 0"
  shows "quiet s (snd (usb_handle_cmd_rw lib args read s))" "quiet s (snd (usb_handle_cmd_fm lib args s))"
  using assms by (simp_all add: usb_handle_cmd_rw_def usb_handle_cmd_fm_def quiet_trace quiet_refl)

lemma usb_trace_fields [simp]:
  "uc_bind (usb_trace lvl fmt args s) = uc_bind s" "uc_handle (usb_trace lvl fmt args s) = uc_handle s"
  "ucalls (usb_trace lvl fmt args s) = ucalls s" "uworld (usb_trace lvl fmt args s) = uworld s"
  by (simp_all add: usb_trace_def)

lemma usb_ok_trace [simp]: "usb_ok (usb_trace lvl fmt args s) = usb_ok s"
  by (simp only: usb_ok_def usb_trace_fields)

lemma usb_ok_bind: "usb_ok s \<Longrightarrow> uc_bind s = 0 \<longleftrightarrow> uc_handle s = None"
  by (simp add: usb_ok_def)

lemma usb_ok_init: "call_init lib s = (r, s') \<Longrightarrow> usb_ok s \<Longrightarrow> usb_ok s'"
  by (rule quiet_ok [OF quiet_calls(1) [OF _ quiet_refl]])

lemma usb_ok_opened:
  assumes "usb_ok s" and "uc_bind s = 0" and "call_open lib vid pid s = (h, s1)"
  shows "h = None \<Longrightarrow> usb_ok s1"
    and "h \<noteq> None \<Longrightarrow> usb_ok (s1\<lparr>uc_vid := v, uc_pid := p, uc_handle := h, uc_bind := 1\<rparr>)"
  using assms by (auto simp: call_open_def usb_ok_def run_log_append split: prod.splits if_splits)

lemma usb_ok_closed:
  assumes "usb_ok s" and "uc_handle s = Some h"
  shows "usb_ok ((call_close lib h s)\<lparr>uc_vid := v, uc_pid := p, uc_handle := None, uc_bind := 0\<rparr>)"
  using assms by (simp add: call_close_def usb_ok_def run_log_append)

lemma usb_ok_trace_update [simp]:
  "usb_ok ((usb_trace lvl fmt args s)\<lparr>uc_vid := v, uc_pid := p, uc_handle := h, uc_bind := b\<rparr>)
   = usb_ok (s\<lparr>uc_vid := v, uc_pid := p, uc_handle := h, uc_bind := b\<rparr>)"
  by (simp add: usb_ok_def usb_trace_def)

lemma bind_state:
  "call_init lib s = (r, s') \<Longrightarrow> uc_bind s' = uc_bind s"
  by (auto simp: call_init_def split: prod.splits)

lemma bind_1_ok:
  assumes ok: "usb_ok s" shows "usb_ok (snd (usb_handle_cmd_bind lib args 1 s))"
proof (cases "uc_bind s = 0")
  case True
  define vid pid where "vid = (if length args > 2 then strtoul_u16 (args ! 2) else BIND_DEF_VID)"
    and "pid = (if length args > 3 then strtoul_u16 (args ! 3) else BIND_DEF_PID)"
  obtain r1 s1 where i: "call_init lib s = (r1, s1)" by (cases "call_init lib s")
  obtain h s2 where o: "call_open lib vid pid s1 = (h, s2)" by (cases "call_open lib vid pid s1")
  note ok1 = usb_ok_init [OF i ok]
  note ok2 = usb_ok_opened [OF ok1 _ o, unfolded bind_state [OF i], OF True]
  show ?thesis using True ok i o ok1 ok2
    unfolding usb_handle_cmd_bind_def vid_def [symmetric] pid_def [symmetric] Let_def
    by (cases "vid = 0 \<or> pid = 0"; cases "r1 = 0"; cases h) auto
next
  case False
  then have "uc_bind s = 1" using ok by (auto simp: usb_ok_def split: if_splits)
  then show ?thesis using ok by (simp add: usb_handle_cmd_bind_def)
qed

lemma bind_0_ok:
  assumes ok: "usb_ok s" shows "usb_ok (snd (usb_handle_cmd_bind lib args 0 s))"
proof (cases "uc_handle s")
  case None
  then show ?thesis using ok by (simp add: usb_handle_cmd_bind_def usb_ok_bind)
next
  case (Some h)
  then have "uc_bind s \<noteq> 0" using usb_ok_bind [OF ok] by simp
  then show ?thesis using Some
    by (simp add: usb_handle_cmd_bind_def Let_def usb_ok_closed [OF ok Some])
qed

lemma rw_ok: "usb_ok s \<Longrightarrow> usb_ok (snd (usb_handle_cmd_rw lib args read s))"
  using quiet_ok [OF unbound_quiet(1)] talks_ok [OF rw_talks] usb_ok_bind by blast

lemma fm_ok: "usb_ok s \<Longrightarrow> usb_ok (snd (usb_handle_cmd_fm lib args s))"
  using quiet_ok [OF unbound_quiet(2)] talks_ok [OF fm_talks] usb_ok_bind by blast

lemma exec_usb_ok:
  assumes e: "exec_usb_cmd lib cid args s = Inr (r, s')" and ok: "usb_ok s"
  shows "usb_ok s'"
proof -
  have "s' = s \<or> quiet s s' \<or> s' = snd (usb_handle_cmd_bind lib args 1 s)
      \<or> s' = snd (usb_handle_cmd_bind lib args 0 s) \<or> s' = snd (usb_handle_cmd_rw lib args 1 s)
      \<or> s' = snd (usb_handle_cmd_rw lib args 0 s) \<or> s' = snd (usb_handle_cmd_fm lib args s)"
    using e quiet_handle_list [of lib 0 s r s'] quiet_handle_list [of lib 1 s r s']
      quiet_handle_test [of lib args s r s']
    by (simp add: exec_usb_cmd_def split: if_splits)
  then show ?thesis
    using ok quiet_ok [OF _ ok] bind_1_ok [OF ok] bind_0_ok [OF ok] rw_ok [OF ok] fm_ok [OF ok]
    by (elim disjE) simp_all
qed

end
