(* ===== verification/Console_Table.thy ===== *)
theory Console_Table
  imports Console Usb_Session
begin

text \<open>
  What the program's start-up leaves behind: the command table after the modules have
  registered, by the \<open>command_table\<close> contract interpreted on the traced calls of the module
  loops, and the invariant \<open>console_ready\<close> that holds at every prompt.
\<close>

section \<open>The contract on the whole memory\<close>

lemma on_io_fields [simp]:
  "comm_cmds (cst (on_io f a)) = comm_cmds (cst a)" "cmd_obj (cst (on_io f a)) = cmd_obj (cst a)"
  "cio (cst (on_io f a)) = f (cio (cst a))"
  "box_quit (on_io f a) = box_quit a" "box_cdata (on_io f a) = box_cdata a"
  "cdata_usb (on_io f a) = cdata_usb a" "cdata_sock (on_io f a) = cdata_sock a"
  "spdata (on_io f a) = spdata a" "usbctrl (on_io f a) = usbctrl a"
  by (simp_all add: on_io_def)

lemma table_of_fields:
  assumes "comm_cmds st = comm_cmds st'" "cmd_obj st = cmd_obj st'"
  shows "wf_table st = wf_table st'" "registered st = registered st'" "free_slots st = free_slots st'"
    "valid_cmd st = valid_cmd st'"
  using assms by (auto simp: wf_table_def registered_def free_slots_def valid_cmd_def)

lemma on_io_table [simp]:
  "wf_table (cst (on_io f a)) = wf_table (cst a)" "registered (cst (on_io f a)) = registered (cst a)"
  "free_slots (cst (on_io f a)) = free_slots (cst a)" "valid_cmd (cst (on_io f a)) = valid_cmd (cst a)"
  by (rule table_of_fields; simp)+

lemma out_trace_table [simp]:
  "wf_table (cst (out_trace m l f x a)) = wf_table (cst a)"
  "registered (cst (out_trace m l f x a)) = registered (cst a)"
  "free_slots (cst (out_trace m l f x a)) = free_slots (cst a)"
  "valid_cmd (cst (out_trace m l f x a)) = valid_cmd (cst a)"
  "cmd_obj (cst (out_trace m l f x a)) = cmd_obj (cst a)"
  by (simp_all add: out_trace_def)

section \<open>What registering leaves alone\<close>

text \<open>A loop that ends with 0 has run its body on every element.\<close>

lemma each_until_done:
  assumes step: "\<And>x s r s' d. x \<in> S \<Longrightarrow> J d s \<Longrightarrow> f x s = Inr (r, s') \<Longrightarrow> J (insert x d) s'"
  shows "set xs \<subseteq> S \<Longrightarrow> J d s \<Longrightarrow> each_until f xs r0 s = Inr (0, s') \<Longrightarrow> J (d \<union> set xs) s'"
proof (induction xs arbitrary: d r0 s)
  case (Cons x xs)
  obtain r s1 where x: "f x s = Inr (r, s1)" and go: "each_until f xs r s1 = Inr (0, s')"
    using Cons.prems(3) by (auto simp: res_bind_Inr_iff split: if_splits)
  have "J (insert x d \<union> set xs) s'"
    using Cons.prems(1) by (intro Cons.IH [OF _ step [OF _ Cons.prems(2) x] go]) auto
  then show ?case by simp
qed simp

lemma each_until_inv:
  assumes "\<And>x s r s'. J s \<Longrightarrow> f x s = Inr (r, s') \<Longrightarrow> J s'"
  shows "J s \<Longrightarrow> each_until f xs r0 s = Inr (r, s') \<Longrightarrow> J s'"
proof (induction xs arbitrary: r0 s)
  case (Cons x xs)
  then obtain r1 s1 where x: "f x s = Inr (r1, s1)"
      and go: "(r, s') = (r1, s1) \<or> each_until f xs r1 s1 = Inr (r, s')"
    by (auto simp: res_bind_Inr_iff split: if_splits)
  then show ?case using assms [OF Cons.prems(1) x] Cons.IH by blast
qed simp

text \<open>The part of the memory that no registration writes, apart from output.\<close>

definition same_session :: "('h, 'w) app \<Rightarrow> ('h, 'w) app \<Rightarrow> bool" where
  "same_session a a' \<longleftrightarrow> box_quit a' = box_quit a \<and> box_cdata a' = box_cdata a
     \<and> uc_bind (usbctrl a') = uc_bind (usbctrl a) \<and> uc_handle (usbctrl a') = uc_handle (usbctrl a)
     \<and> ucalls (usbctrl a') = ucalls (usbctrl a)
     \<and> io_stdin (cio (cst a')) = io_stdin (cio (cst a)) \<and> io_reads (cio (cst a')) = io_reads (cio (cst a))"

lemma same_session_refl [simp]: "same_session a a"
  by (simp add: same_session_def)

lemma same_session_trans: "same_session a b \<Longrightarrow> same_session b c \<Longrightarrow> same_session a c"
  by (simp add: same_session_def)

lemma check_command_io:
  "comm_check_command p st = (r, st') \<Longrightarrow> comm_cmds st' = comm_cmds st \<and> cmd_obj st' = cmd_obj st
     \<and> io_stdin (cio st') = io_stdin (cio st) \<and> io_reads (cio st') = io_reads (cio st)"
  by (auto simp: comm_check_command_def comm_trace_def split: option.splits if_splits)

lemma set_command_keeps:
  "comm_set_command x pos st = Inr (r, st') \<Longrightarrow> cmd_obj st' = cmd_obj st \<and> cio st' = cio st"
  by (auto simp: comm_set_command_def res_bind_Inr_iff split: if_splits)

definition table_step :: "('p, 'h, 'c, 'v) comm_state \<Rightarrow> ('p, 'h, 'c, 'v) comm_state \<Rightarrow> bool" where
  "table_step st st' \<longleftrightarrow> cmd_obj st' = cmd_obj st \<and> io_stdin (cio st') = io_stdin (cio st)
     \<and> io_reads (cio st') = io_reads (cio st)"

lemma checked_set_keeps:
  assumes "(let (r, st1) = comm_check_command p st
      in if r \<noteq> 0 then Inr (r, st1)
         else res_bind (comm_match_command q st1)
                (\<lambda>pos. if pos < 0 then Inr (- 1, st1) else comm_set_command x pos st1)) = Inr (r', st')"
  shows "table_step st st'"
proof -
  obtain r st1 where c: "comm_check_command p st = (r, st1)" by (cases "comm_check_command p st")
  note k = check_command_io [OF c]
  show ?thesis
  proof (cases "r = 0")
    case True
    then obtain pos where "(if pos < 0 then Inr (- 1, st1) else comm_set_command x pos st1) = Inr (r', st')"
      using assms c by (auto simp: res_bind_Inr_iff)
    then show ?thesis using k set_command_keeps [of x pos st1 r' st']
      by (cases "pos < 0") (auto simp: table_step_def)
  next
    case False
    then show ?thesis using assms c k by (simp add: table_step_def)
  qed
qed

lemma register_keeps: "comm_cmd_register p st = Inr (r, st') \<Longrightarrow> table_step st st'"
  unfolding comm_cmd_register_def by (rule checked_set_keeps)

lemma unregister_keeps: "comm_cmd_unregister p st = Inr (r, st') \<Longrightarrow> table_step st st'"
  unfolding comm_cmd_unregister_def by (rule checked_set_keeps)

definition app_step :: "('h, 'w) app \<Rightarrow> ('h, 'w) app \<Rightarrow> bool" where
  "app_step a a' \<longleftrightarrow> cmd_obj (cst a') = cmd_obj (cst a) \<and> same_session a a'"

lemma app_step_trans: "app_step a b \<Longrightarrow> app_step b c \<Longrightarrow> app_step a c"
  by (simp add: app_step_def same_session_def)

lemma on_table_keeps:
  "on_table f a = Inr (r, a') \<Longrightarrow> (\<And>r st. f (cst a) = Inr (r, st) \<Longrightarrow> table_step (cst a) st) \<Longrightarrow> app_step a a'"
  by (auto simp: on_table_def res_bind_Inr_iff app_step_def same_session_def table_step_def)

lemma app_step_trace: "app_step a a' \<Longrightarrow> app_step a (out_trace m l f x a')"
  by (simp add: app_step_def same_session_def out_trace_def)

lemma register_traced_keeps: "register_traced m p a = Inr (r, a') \<Longrightarrow> app_step a a'"
  by (auto simp: register_traced_def res_bind_Inr_iff split: if_splits
      intro: app_step_trace on_table_keeps register_keeps)

lemma unregister_traced_keeps: "unregister_traced m p a = Inr (r, a') \<Longrightarrow> app_step a a'"
  by (auto simp: unregister_traced_def res_bind_Inr_iff split: if_splits
      intro: app_step_trace on_table_keeps unregister_keeps)

lemma init_cdata_keeps:
  "cst (init_cdata c a) = cst a" "same_session a (init_cdata c a)"
  by (auto simp: init_cdata_def put_cdata_def same_session_def split: option.splits cdata_ref.splits)

lemma sock_data_init_keeps: "cst (sock_data_init v a) = cst a" "same_session a (sock_data_init v a)"
  by (auto simp: sock_data_init_def same_session_def split: option.splits priv_ref.splits)

section \<open>The contract on the traced calls\<close>

text \<open>Every command has an id, and only the USB commands may still lack a name.\<close>

definition app_wf :: "('h, 'w) app \<Rightarrow> bool" where
  "app_wf a \<longleftrightarrow> wf_table (cst a) \<and> (\<forall>p. 0 \<le> cmd_id (cmd_obj (cst a) p))
     \<and> (\<forall>p. p \<notin> set usb_cmds \<longrightarrow> cmd_name (cmd_obj (cst a) p) \<noteq> None)"

lemma app_wf_step: "app_wf a \<Longrightarrow> app_step a a' \<Longrightarrow> wf_table (cst a') \<Longrightarrow> app_wf a'"
  by (simp add: app_wf_def app_step_def)

lemma app_wf_table: "app_wf a \<Longrightarrow> wf_table (cst a)"
  by (simp add: app_wf_def)

lemma on_table_register:
  assumes "app_wf a" and "valid_cmd (cst a) p" and "0 < free_slots (cst a)"
  obtains a' where "on_table (comm_cmd_register (Some p)) a = Inr (0, a')" and "app_wf a'"
    and "registered (cst a') = add_mset p (registered (cst a))"
    and "free_slots (cst a) = Suc (free_slots (cst a'))" and "app_step a a'"
proof -
  obtain st where st: "comm_cmd_register (Some p) (cst a) = Inr (0, st)" "wf_table st"
      "registered st = add_mset p (registered (cst a))" "free_slots (cst a) = Suc (free_slots st)"
    using comm_tab.reg_ok [OF app_wf_table [OF assms(1)] assms(2,3)] by auto
  have r: "on_table (comm_cmd_register (Some p)) a = Inr (0, a\<lparr>cst := st\<rparr>)"
    using st(1) by (simp add: on_table_def)
  have s: "app_step a (a\<lparr>cst := st\<rparr>)" using r by (rule on_table_keeps) (rule register_keeps)
  show ?thesis using r s st app_wf_step [OF assms(1) s] by (intro that) auto
qed

lemma on_table_unregister:
  assumes "app_wf a" and "valid_cmd (cst a) p" and "p \<in># registered (cst a)"
  obtains a' where "on_table (comm_cmd_unregister (Some p)) a = Inr (0, a')" and "app_wf a'"
    and "registered (cst a') = registered (cst a) - {#p#}"
    and "free_slots (cst a') = Suc (free_slots (cst a))" and "app_step a a'"
proof -
  obtain st where st: "comm_cmd_unregister (Some p) (cst a) = Inr (0, st)" "wf_table st"
      "registered st = registered (cst a) - {#p#}" "free_slots st = Suc (free_slots (cst a))"
    using comm_tab.unreg_ok [OF app_wf_table [OF assms(1)] assms(2,3)] by auto
  have r: "on_table (comm_cmd_unregister (Some p)) a = Inr (0, a\<lparr>cst := st\<rparr>)"
    using st(1) by (simp add: on_table_def)
  have s: "app_step a (a\<lparr>cst := st\<rparr>)" using r by (rule on_table_keeps) (rule unregister_keeps)
  show ?thesis using r s st app_wf_step [OF assms(1) s] by (intro that) auto
qed

lemma app_step_valid: "app_step a a' \<Longrightarrow> valid_cmd (cst a') = valid_cmd (cst a)"
  by (auto simp: app_step_def valid_cmd_def)

interpretation app_tab: command_table
  "register_traced m" "unregister_traced m"
  "\<lambda>a. registered (cst a)" "\<lambda>a. free_slots (cst a)" "\<lambda>a. valid_cmd (cst a)" app_wf
  for m
proof unfold_locales
  fix s :: "('a, 'b) app" and p
  assume a: "app_wf s" "valid_cmd (cst s) p"
  show "\<exists>s'. register_traced m p s = Inr (0, s') \<and> app_wf s'
      \<and> registered (cst s') = add_mset p (registered (cst s))
      \<and> free_slots (cst s) = Suc (free_slots (cst s')) \<and> valid_cmd (cst s') = valid_cmd (cst s)"
    if "0 < free_slots (cst s)"
    using a that
    by (rule on_table_register) (auto simp: register_traced_def app_step_valid)
  show "\<exists>s'. register_traced m p s = Inr (- 1, s') \<and> registered (cst s') = registered (cst s)
      \<and> free_slots (cst s') = free_slots (cst s)" if "free_slots (cst s) = 0"
    using comm_tab.reg_full [OF app_wf_table [OF a(1)] a(2) that]
    by (auto simp: register_traced_def on_table_def)
  show "\<exists>s'. unregister_traced m p s = Inr (0, s') \<and> app_wf s'
      \<and> registered (cst s') = registered (cst s) - {#p#}
      \<and> free_slots (cst s') = Suc (free_slots (cst s)) \<and> valid_cmd (cst s') = valid_cmd (cst s)"
    if "p \<in># registered (cst s)"
    using a that
    by (rule on_table_unregister) (auto simp: unregister_traced_def app_step_valid)
  show "\<exists>s'. unregister_traced m p s = Inr (- 1, s') \<and> registered (cst s') = registered (cst s)
      \<and> free_slots (cst s') = free_slots (cst s)" if "p \<notin># registered (cst s)"
    using comm_tab.unreg_absent [OF app_wf_table [OF a(1)] a(2) that]
    by (auto simp: unregister_traced_def on_table_def)
qed

section \<open>The table after start-up\<close>

definition named_obj :: "cmd_ref \<Rightarrow> (handler_ref, cdata_ref, priv_ref) comm_cmd" where
  "named_obj p =
     (if p \<in> set usb_cmds
      then (static_obj p)\<lparr>cmd_name := Some (fst (cmds_info ! nat (cmd_id (static_obj p))))\<rparr>
      else static_obj p)"

text \<open>The objects when the USB commands \<open>d\<close> have been named.\<close>

definition objs_named :: "cmd_ref set \<Rightarrow> ('h, 'w) app \<Rightarrow> bool" where
  "objs_named d a \<longleftrightarrow> (\<forall>p. cmd_obj (cst a) p = (if p \<in> d then named_obj p else static_obj p))"

definition module_cmds :: "cflags \<Rightarrow> cmd_ref list" where
  "module_cmds b = (if cmd_module_usb b then usb_cmds else []) @ (if cmd_module_sock b then sock_cmds else [])"

definition trivial_cmds :: "cmd_ref list" where
  "trivial_cmds = [Cmd_help, Cmd_exit, Cmd_quit]"

lemma static_ids: "0 \<le> cmd_id (static_obj p)"
  by (cases p) (simp_all add: usb_object_def sock_object_def trivial_object_def)

lemma static_names: "p \<notin> set usb_cmds \<Longrightarrow> cmd_name (static_obj p) \<noteq> None"
  by (cases p) (simp_all add: usb_cmds_def sock_object_def trivial_object_def)

lemma named_id [simp]: "cmd_id (named_obj p) = cmd_id (static_obj p)"
  by (simp add: named_obj_def)

lemma named_name: "cmd_name (named_obj p) \<noteq> None"
  using static_names by (simp add: named_obj_def)

lemma objs_named_wf: "objs_named d a \<Longrightarrow> wf_table (cst a) \<Longrightarrow> app_wf a"
  using static_ids static_names named_name by (simp add: app_wf_def objs_named_def)

lemma usb_prepare_fields:
  "comm_cmds (cst (usb_prepare p a)) = comm_cmds (cst a)"
  "cmd_obj (cst (usb_prepare p a)) = (cmd_obj (cst a))
     (p := (cmd_obj (cst a) p)\<lparr>cmd_name := Some (fst (cmds_info ! nat (cmd_id (cmd_obj (cst a) p))))\<rparr>)"
  "same_session a (usb_prepare p a)"
proof -
  define obj where "obj = (cmd_obj (cst a) p)
      \<lparr>cmd_name := Some (fst (cmds_info ! nat (cmd_id (cmd_obj (cst a) p))))\<rparr>"
  let ?a = "a\<lparr>cst := (cst a)\<lparr>cmd_obj := (cmd_obj (cst a))(p := obj)\<rparr>\<rparr>"
  have u: "usb_prepare p a = init_cdata (cmd_cdata obj) ?a"
    by (simp only: usb_prepare_def obj_def Let_def)
  show "comm_cmds (cst (usb_prepare p a)) = comm_cmds (cst a)"
    by (simp add: u init_cdata_keeps(1))
  show "cmd_obj (cst (usb_prepare p a)) = (cmd_obj (cst a))
     (p := (cmd_obj (cst a) p)\<lparr>cmd_name := Some (fst (cmds_info ! nat (cmd_id (cmd_obj (cst a) p))))\<rparr>)"
    by (simp add: u init_cdata_keeps(1) obj_def)
  have "same_session a ?a" by (simp add: same_session_def)
  then show "same_session a (usb_prepare p a)"
    unfolding u using init_cdata_keeps(2) by (rule same_session_trans)
qed

lemma usb_prepare_table:
  assumes "app_wf a"
  shows "app_wf (usb_prepare p a)" "valid_cmd (cst (usb_prepare p a)) p"
    "registered (cst (usb_prepare p a)) = registered (cst a)"
    "free_slots (cst (usb_prepare p a)) = free_slots (cst a)"
  using assms
  by (auto simp: app_wf_def wf_table_def valid_cmd_def registered_def free_slots_def usb_prepare_fields)

lemma usb_prepare_named:
  assumes "objs_named d a" and "p \<in> set usb_cmds"
  shows "objs_named (insert p d) (usb_prepare p a)"
proof -
  have "(cmd_obj (cst a) p)\<lparr>cmd_name := Some (fst (cmds_info ! nat (cmd_id (cmd_obj (cst a) p))))\<rparr> = named_obj p"
    using assms by (simp add: objs_named_def named_obj_def)
  then show ?thesis using assms(1) by (simp add: objs_named_def usb_prepare_fields)
qed

lemma sock_prepare_fields: "cst (sock_prepare p a) = cst a" "same_session a (sock_prepare p a)"
  unfolding sock_prepare_def using same_session_trans [OF init_cdata_keeps(2) sock_data_init_keeps(2)]
  by (simp_all add: init_cdata_keeps(1) sock_data_init_keeps(1))

lemma usb_register_ok:
  assumes "objs_named {} a" and "wf_table (cst a)" and "8 \<le> free_slots (cst a)"
  obtains a' where "usb_cmd_register a = Inr (0, a')" and "wf_table (cst a')"
    and "registered (cst a') = registered (cst a) + mset usb_cmds"
    and "free_slots (cst a) = 8 + free_slots (cst a')"
    and "objs_named (set usb_cmds) a'" and "same_session (usb_data_init a) a'"
proof -
  let ?a = "usb_data_init a"
  let ?f = "\<lambda>p a. register_traced usb_trmask p (usb_prepare p a)"
  have c: "cst ?a = cst a" by (simp add: usb_data_init_def)
  have n8: "length usb_cmds = 8" by (simp add: usb_cmds_def)
  have wf: "app_wf ?a" using assms(1,2) c by (intro objs_named_wf [of "{}"]) (auto simp: objs_named_def)
  have "\<exists>a'. each_until ?f usb_cmds 0 ?a = Inr (0, a') \<and> app_wf a'
      \<and> registered (cst a') = registered (cst ?a) + mset usb_cmds
      \<and> free_slots (cst ?a) = length usb_cmds + free_slots (cst a')"
    using wf assms(3) c n8 by (intro app_tab.reg_all) (simp_all add: usb_prepare_table)
  then obtain a' where a': "each_until ?f usb_cmds 0 ?a = Inr (0, a')" "app_wf a'"
      "registered (cst a') = registered (cst a) + mset usb_cmds"
      "free_slots (cst a) = 8 + free_slots (cst a')"
    using c n8 by auto
  have "objs_named ({} \<union> set usb_cmds) a'"
  proof (rule each_until_done [OF _ subset_refl _ a'(1)])
    fix p s r s' d
    assume "p \<in> set usb_cmds" and "objs_named d s" and "?f p s = Inr (r, s')"
    then show "objs_named (insert p d) s'"
      using usb_prepare_named [of d s p] register_traced_keeps [of usb_trmask p "usb_prepare p s" r s']
      by (simp add: objs_named_def app_step_def)
  qed (use assms(1) c in \<open>simp add: objs_named_def\<close>)
  moreover have "same_session ?a a'"
  proof (rule each_until_inv [of "same_session ?a" ?f, OF _ _ a'(1)])
    fix x s r s' assume "same_session ?a s" and "?f x s = Inr (r, s')"
    then show "same_session ?a s'"
      using register_traced_keeps [of usb_trmask x "usb_prepare x s"] usb_prepare_fields(3)
      by (metis app_step_def same_session_trans)
  qed simp
  ultimately show ?thesis using that [of a'] a' app_wf_table [of a'] by (simp add: usb_cmd_register_def)
qed

lemma sock_register_ok:
  assumes "objs_named d a" and "wf_table (cst a)" and "4 \<le> free_slots (cst a)"
  obtains a' where "sock_cmd_register a = Inr (0, a')" and "wf_table (cst a')"
    and "registered (cst a') = registered (cst a) + mset sock_cmds"
    and "free_slots (cst a) = 4 + free_slots (cst a')"
    and "cmd_obj (cst a') = cmd_obj (cst a)" and "same_session a a'"
proof -
  let ?f = "\<lambda>p a. register_traced sock_trmask p (sock_prepare p a)"
  have n4: "length sock_cmds = 4" by (simp add: sock_cmds_def)
  have v: "valid_cmd (cst s) p" if "app_wf s" and "p \<in> set sock_cmds" for s :: "('a, 'b) app" and p
  proof -
    have "p \<notin> set usb_cmds" using that(2) by (auto simp: sock_cmds_def usb_cmds_def)
    then show ?thesis using that(1) by (simp add: app_wf_def valid_cmd_def)
  qed
  have wf: "app_wf a" using assms(1,2) by (rule objs_named_wf)
  have "\<exists>a'. each_until ?f sock_cmds 0 a = Inr (0, a') \<and> app_wf a'
      \<and> registered (cst a') = registered (cst a) + mset sock_cmds
      \<and> free_slots (cst a) = length sock_cmds + free_slots (cst a')"
  proof (rule app_tab.reg_all [OF wf])
    show "length sock_cmds \<le> free_slots (cst a)" using assms(3) n4 by simp
    fix p and s :: "('a, 'b) app"
    assume "p \<in> set sock_cmds" "app_wf s"
    then show "app_wf (sock_prepare p s) \<and> valid_cmd (cst (sock_prepare p s)) p
        \<and> registered (cst (sock_prepare p s)) = registered (cst s)
        \<and> free_slots (cst (sock_prepare p s)) = free_slots (cst s)"
      using v by (simp add: app_wf_def sock_prepare_fields)
  qed
  then obtain a' where a': "each_until ?f sock_cmds 0 a = Inr (0, a')" "app_wf a'"
      "registered (cst a') = registered (cst a) + mset sock_cmds"
      "free_slots (cst a) = 4 + free_slots (cst a')"
    using n4 by auto
  have "app_step a a'"
  proof (rule each_until_inv [of "app_step a" ?f, OF _ _ a'(1)])
    fix x s r s' assume "app_step a s" and "?f x s = Inr (r, s')"
    then show "app_step a s'"
      using register_traced_keeps [of sock_trmask x "sock_prepare x s" r s'] sock_prepare_fields [where p = x and a = s]
      by (auto simp: app_step_def intro: same_session_trans)
  qed (simp add: app_step_def)
  then show ?thesis using that [of a'] a' app_wf_table [of a']
    by (simp add: sock_cmd_register_def app_step_def)
qed

text \<open>The session as it stands when the module loop has run.\<close>

definition session_start :: "cflags \<Rightarrow> ('h, 'w) app \<Rightarrow> ('h, 'w) app" where
  "session_start b a = (if cmd_module_usb b then usb_data_init a else a)"

definition module_objs :: "cflags \<Rightarrow> cmd_ref set" where
  "module_objs b = (if cmd_module_usb b then set usb_cmds else {})"

lemma user_register_ok:
  assumes "objs_named {} a" and "wf_table (cst a)" and "12 \<le> free_slots (cst a)"
  obtains a' where "comm_user_cmd_register b a = Inr (0, a')" and "wf_table (cst a')"
    and "registered (cst a') = registered (cst a) + mset (module_cmds b)"
    and "objs_named (module_objs b) a'" and "same_session (session_start b a) a'"
proof -
  obtain a1 where a1: "(if cmd_module_usb b then usb_cmd_register a else Inr (0, a)) = Inr (0, a1)"
      "wf_table (cst a1)" "4 \<le> free_slots (cst a1)"
      "registered (cst a1) = registered (cst a) + mset (if cmd_module_usb b then usb_cmds else [])"
      "objs_named (module_objs b) a1" "same_session (session_start b a) a1"
  proof (cases "cmd_module_usb b")
    case True
    have "8 \<le> free_slots (cst a)" using assms(3) by simp
    from usb_register_ok [OF assms(1,2) this] obtain x where x: "usb_cmd_register a = Inr (0, x)"
      "wf_table (cst x)" "registered (cst x) = registered (cst a) + mset usb_cmds"
      "free_slots (cst a) = 8 + free_slots (cst x)" "objs_named (set usb_cmds) x"
      "same_session (usb_data_init a) x" by blast
    show ?thesis using True x assms(3) by (intro that [of x]) (simp_all add: module_objs_def session_start_def)
  next
    case False
    then show ?thesis using that [of a] assms by (auto simp: module_objs_def session_start_def)
  qed
  obtain a2 where a2: "(if cmd_module_sock b then sock_cmd_register a1 else Inr (0, a1)) = Inr (0, a2)"
      "wf_table (cst a2)"
      "registered (cst a2) = registered (cst a1) + mset (if cmd_module_sock b then sock_cmds else [])"
      "cmd_obj (cst a2) = cmd_obj (cst a1)" "same_session a1 a2"
  proof (cases "cmd_module_sock b")
    case True
    from sock_register_ok [OF a1(5,2,3)] obtain x where x: "sock_cmd_register a1 = Inr (0, x)"
      "wf_table (cst x)" "registered (cst x) = registered (cst a1) + mset sock_cmds"
      "cmd_obj (cst x) = cmd_obj (cst a1)" "same_session a1 x" by blast
    show ?thesis using True x by (intro that [of x]) simp_all
  next
    case False
    then show ?thesis using that [of a1] a1 by auto
  qed
  have "comm_user_cmd_register b a = Inr (0, a2)"
    using a1(1) a2(1) by (simp add: comm_user_cmd_register_def comm_cmd_modules_def split: if_splits)
  then show ?thesis using that [of a2] a1 a2 same_session_trans [OF a1(6) a2(5)]
    by (simp add: module_cmds_def objs_named_def)
qed

lemma trivial_register_ok:
  assumes "objs_named {} a" and "wf_table (cst a)" and "3 \<le> free_slots (cst a)"
  obtains a' where "trivial_cmd_register a = Inr (0, a')" and "wf_table (cst a')"
    and "registered (cst a') = registered (cst a) + mset trivial_cmds"
    and "free_slots (cst a) = 3 + free_slots (cst a')"
    and "objs_named {} a'" and "same_session a a'"
proof -
  have wf: "app_wf a" using assms(1,2) by (rule objs_named_wf)
  have v: "valid_cmd (cst a) p" if "p \<in> {Cmd_quit, Cmd_exit, Cmd_help}" for p
    using wf that by (auto simp: app_wf_def valid_cmd_def usb_cmds_def)
  have q: "valid_cmd (cst a) Cmd_quit" "0 < free_slots (cst a)" using v assms(3) by auto
  obtain a1 where a1: "on_table (comm_cmd_register (Some Cmd_quit)) a = Inr (0, a1)" "app_wf a1"
      "registered (cst a1) = add_mset Cmd_quit (registered (cst a))"
      "free_slots (cst a) = Suc (free_slots (cst a1))" "app_step a a1"
    by (rule on_table_register [OF wf q])
  have e: "valid_cmd (cst a1) Cmd_exit" "0 < free_slots (cst a1)"
    using v a1(4) assms(3) by (auto simp: app_step_valid [OF a1(5)])
  obtain a2 where a2: "on_table (comm_cmd_register (Some Cmd_exit)) a1 = Inr (0, a2)" "app_wf a2"
      "registered (cst a2) = add_mset Cmd_exit (registered (cst a1))"
      "free_slots (cst a1) = Suc (free_slots (cst a2))" "app_step a1 a2"
    by (rule on_table_register [OF a1(2) e])
  have h: "valid_cmd (cst a2) Cmd_help" "0 < free_slots (cst a2)"
    using v a1(4) a2(4) assms(3) by (auto simp: app_step_valid [OF a1(5)] app_step_valid [OF a2(5)])
  obtain a3 where a3: "on_table (comm_cmd_register (Some Cmd_help)) a2 = Inr (0, a3)" "app_wf a3"
      "registered (cst a3) = add_mset Cmd_help (registered (cst a2))"
      "free_slots (cst a2) = Suc (free_slots (cst a3))" "app_step a2 a3"
    by (rule on_table_register [OF a2(2) h])
  have "app_step a a3" using app_step_trans [OF app_step_trans [OF a1(5) a2(5)] a3(5)] .
  then show ?thesis using that [of a3] a1 a2 a3 assms(1) app_wf_table [of a3]
    by (simp add: trivial_cmd_register_def trivial_cmds_def objs_named_def app_step_def)
qed

section \<open>The invariant of the prompt\<close>

definition console_ready :: "cflags \<Rightarrow> ('h, 'w) app \<Rightarrow> bool" where
  "console_ready b a \<longleftrightarrow> wf_table (cst a) \<and> registered (cst a) = mset (trivial_cmds @ module_cmds b)
     \<and> objs_named (module_objs b) a \<and> wf_data (box_cdata a)"

lemma sock_write_keeps:
  "io_stdin (snd (sock_write str s)) = io_stdin s" "io_reads (snd (sock_write str s)) = io_reads s"
  by (simp_all add: sock_write_def sys_write_def sock_trace_def split_beta Let_def)

lemma comm_puts_keeps [simp]:
  "io_stdin (comm_puts b str s) = io_stdin s" "io_reads (comm_puts b str s) = io_reads s"
  by (simp_all add: comm_puts_def sock_write_keeps)

lemma io_pending_cong:
  "io_stdin s' = io_stdin s \<Longrightarrow> io_reads s' = io_reads s \<Longrightarrow> io_pending b s' = io_pending b s"
  by (simp add: io_pending_def)

lemma slots_replicate_free: "free_slots (st\<lparr>comm_cmds := replicate n None\<rparr>) = n"
  by (simp add: free_slots_def)

lemma main_start_ok:
  assumes "cmd_obj (cst a) = static_obj"
  obtains a' where "main_start b a = Inr (0, a')" and "console_ready b a'" and "box_quit a' = 0"
    and "argv (box_cdata a') = replicate COMM_ARGV_BUF_SIZE None"
    and "uc_bind (usbctrl a') = uc_bind (usbctrl (session_start b a))"
    and "uc_handle (usbctrl a') = uc_handle (usbctrl (session_start b a))"
    and "ucalls (usbctrl a') = ucalls (usbctrl a)"
    and "io_pending b (cio (cst a')) = io_pending b (cio (cst a))"
proof -
  define d where "d = comm_data_zero\<lparr>argsize := int COMM_ARGV_BUF_SIZE, tmpsize := int COMM_TEMP_BUF_SIZE,
      tmpc := 0, argc := 0\<rparr>"
  define a3 where "a3 = on_io (comm_clear_screen b)
      (a\<lparr>box_quit := 0, cst := comm_init_command (cst a), box_cdata := d\<rparr>)"
  have m: "main_start b a = res_bind (trivial_cmd_register a3) (\<lambda>(r1, a4).
         res_bind (comm_user_cmd_register b a4) (\<lambda>(r2, a5). Inr (r1 + r2, a5)))"
    by (simp add: main_start_def a3_def d_def comm_data_init_def)
  have t3: "objs_named {} a3" "wf_table (cst a3)" "free_slots (cst a3) = 100"
      "registered (cst a3) = {#}" "box_quit a3 = 0" "box_cdata a3 = d" "usbctrl a3 = usbctrl a"
      "io_stdin (cio (cst a3)) = io_stdin (cio (cst a))" "io_reads (cio (cst a3)) = io_reads (cio (cst a))"
    using assms
    by (simp_all add: a3_def objs_named_def wf_table_def comm_init_command_def slots_replicate_free
        registered_def comm_clear_screen_def slots_def [symmetric])
  have "3 \<le> free_slots (cst a3)" using t3(3) by simp
  from trivial_register_ok [OF t3(1,2) this] obtain a4 where a4: "trivial_cmd_register a3 = Inr (0, a4)"
      "wf_table (cst a4)" "registered (cst a4) = registered (cst a3) + mset trivial_cmds"
      "free_slots (cst a3) = 3 + free_slots (cst a4)" "objs_named {} a4" "same_session a3 a4" by blast
  have "12 \<le> free_slots (cst a4)" using t3(3) a4(4) by simp
  from user_register_ok [OF a4(5,2) this] obtain a5 where a5: "comm_user_cmd_register b a4 = Inr (0, a5)"
      "wf_table (cst a5)" "registered (cst a5) = registered (cst a4) + mset (module_cmds b)"
      "objs_named (module_objs b) a5" "same_session (session_start b a4) a5" by blast
  have f: "box_quit a5 = 0" "box_cdata a5 = d"
      "uc_bind (usbctrl a5) = uc_bind (usbctrl (session_start b a))"
      "uc_handle (usbctrl a5) = uc_handle (usbctrl (session_start b a))"
      "ucalls (usbctrl a5) = ucalls (usbctrl a)"
      "io_pending b (cio (cst a5)) = io_pending b (cio (cst a))"
    using a4(6) a5(5) t3
    by (auto simp: same_session_def session_start_def usb_data_init_def io_pending_def split: if_splits)
  show ?thesis
  proof (rule that [of a5])
    show "main_start b a = Inr (0, a5)" using m a4(1) a5(1) by simp
    show "console_ready b a5"
      using a5 a4(3) t3(4) f(2) by (simp add: console_ready_def wf_data_def d_def comm_data_zero_def)
    show "argv (box_cdata a5) = replicate COMM_ARGV_BUF_SIZE None"
      by (simp add: f(2) d_def comm_data_zero_def)
  qed (use f in simp_all)
qed

end
