(* ===== verification/Console_Run.thy ===== *)
theory Console_Run
  imports Console_Table
begin

text \<open>
  What one line typed at the console does: which command runs with which arguments, how the
  program ends, and the invariant of every prompt.
\<close>

section \<open>From the line to the command\<close>

lemma args_of_holds: "holds_args d ws \<Longrightarrow> args_of d = Inr ws"
proof -
  assume h: "holds_args d ws"
  have "foldr (\<lambda>k acc. res_bind (arg_str d (int k)) (\<lambda>w. res_bind acc (\<lambda>ws. Inr (w # ws)))) ks (Inr [])
      = Inr (map (\<lambda>k. ws ! k) ks)" if "\<forall>k \<in> set ks. k < length ws" for ks
    using that h by (induction ks) (auto simp: holds_args_def)
  from this [of "[0..<length ws]"] show ?thesis
    using h by (simp add: args_of_def holds_args_def map_nth)
qed

lemma holds_arg: "holds_args d ws \<Longrightarrow> k < length ws \<Longrightarrow> arg_str d (int k) = Inr (ws ! k)"
  by (simp add: holds_args_def)

lemma round_reads:
  assumes "console_ready b a" and "io_pending b (cio (cst a)) = ln @ NL # rest"
    and "NL \<notin> set ln" and "NUL \<notin> set ln" and "length ln < COMM_TEMP_BUF_SIZE"
  obtains a1 where "console_round b lib a = Some (res_bind (run_command b lib a1) (\<lambda>(_, a'). Inr a'))"
    and "console_ready b a1" and "holds_args (box_cdata a1) (tokens (strip_cr ln))"
    and "io_pending b (cio (cst a1)) = rest"
    and "usbctrl a1 = usbctrl a" and "box_quit a1 = box_quit a"
    and "drop (length (tokens (strip_cr ln))) (argv (box_cdata a1))
       = drop (length (tokens (strip_cr ln))) (argv (box_cdata a))"
proof -
  let ?a0 = "on_io (comm_show_screen b) a"
  have r0: "console_ready b ?a0" using assms(1) by (simp add: console_ready_def objs_named_def)
  then have wf: "wf_data (box_cdata ?a0)" by (simp add: console_ready_def)
  have p0: "io_pending b (cio (cst ?a0)) = ln @ NL # rest"
  proof -
    have "io_pending b (comm_puts b ''CMD>'' (cio (cst a))) = io_pending b (cio (cst a))"
      by (rule io_pending_cong) simp_all
    then show ?thesis using assms(2) by (simp add: comm_show_screen_def)
  qed
  obtain i' d1 d2 where g: "comm_get_command (comm_fgetc b) (box_cdata ?a0) (cio (cst ?a0)) = Some (Inr (0, d1), i')"
      "io_pending b i' = rest" "comm_parse_command d1 = Inr (0, d2)" "wf_data d2"
      "holds_args d2 (tokens (strip_cr ln))"
      "drop (length (tokens (strip_cr ln))) (argv d2)
         = drop (length (tokens (strip_cr ln))) (argv (box_cdata ?a0))"
    by (rule read_parse_line [OF wf p0 assms(3,4,5)])
  define a1 where "a1 = on_io (\<lambda>_. i') (?a0\<lparr>box_cdata := d2\<rparr>)"
  show ?thesis
  proof (rule that [of a1])
    show "console_round b lib a = Some (res_bind (run_command b lib a1) (\<lambda>(_, a'). Inr a'))"
      using g(1,3) by (simp add: console_round_def a1_def)
    show "console_ready b a1" using r0 g(4) by (simp add: console_ready_def a1_def objs_named_def)
  qed (use g in \<open>simp_all add: a1_def\<close>)
qed

section \<open>The objects in the table\<close>

lemma ready_slots:
  "console_ready b a \<Longrightarrow> set (slots (comm_cmds (cst a))) = set (trivial_cmds @ module_cmds b)"
proof -
  assume "console_ready b a"
  then have "set_mset (registered (cst a)) = set_mset (mset (trivial_cmds @ module_cmds b))"
    by (simp only: console_ready_def)
  then show ?thesis by (simp only: registered_def slots_def set_mset_mset)
qed

lemma ready_obj:
  assumes "console_ready b a" and "p \<in> set (slots (comm_cmds (cst a)))"
  shows "cmd_obj (cst a) p = named_obj p"
proof -
  have "p \<in> set (trivial_cmds @ module_cmds b)" using assms ready_slots by blast
  then show ?thesis using assms(1)
    by (auto simp: console_ready_def objs_named_def named_obj_def module_objs_def module_cmds_def
        trivial_cmds_def usb_cmds_def sock_cmds_def split: if_splits)
qed

text \<open>What identifies a command on a line: its group, if it has one, and its name.\<close>

fun cmd_words :: "cmd_ref \<Rightarrow> string list" where
  "cmd_words Usb_cmd_list = [''usb'', ''list'']"
| "cmd_words Usb_cmd_list1 = [''usb'', ''list1'']"
| "cmd_words Usb_cmd_bind = [''usb'', ''bind'']"
| "cmd_words Usb_cmd_unbind = [''usb'', ''unbind'']"
| "cmd_words Usb_cmd_read = [''usb'', ''read'']"
| "cmd_words Usb_cmd_write = [''usb'', ''write'']"
| "cmd_words Usb_cmd_test = [''usb'', ''test'']"
| "cmd_words Usb_cmd_fm = [''usb'', ''fm'']"
| "cmd_words Cmd_echo = [''echo'']"
| "cmd_words Cmd_md32 = [''md32'']"
| "cmd_words Cmd_mw32 = [''mw32'']"
| "cmd_words Cmd_mr32 = [''mr32'']"
| "cmd_words Cmd_exit = [''exit'']"
| "cmd_words Cmd_quit = [''quit'']"
| "cmd_words Cmd_help = [''help'']"

lemma named_fields:
  "cmd_nogroup (named_obj p) = (if p \<in> set usb_cmds then 0 else 1)"
  "cmd_group (named_obj p) = (if p \<in> set usb_cmds then Some ''usb'' else None)"
  "cmd_name (named_obj p) = Some (last (cmd_words p))"
  by (cases p; simp add: named_obj_def usb_cmds_def cmds_info_def usb_object_def sock_object_def
      trivial_object_def)+

lemma words_last_inj: "last (cmd_words p) = last (cmd_words q) \<Longrightarrow> p = q"
proof -
  assume e: "last (cmd_words p) = last (cmd_words q)"
  let ?all = "usb_cmds @ sock_cmds @ [Cmd_exit, Cmd_quit, Cmd_help]"
  have "distinct (map (\<lambda>p. last (cmd_words p)) ?all)" by (simp add: usb_cmds_def sock_cmds_def)
  then have "inj_on (\<lambda>p. last (cmd_words p)) (set ?all)" by (simp only: distinct_map)
  moreover have "p \<in> set ?all" "q \<in> set ?all"
    by (cases p; simp add: usb_cmds_def sock_cmds_def) (cases q; simp add: usb_cmds_def sock_cmds_def)
  ultimately show "p = q" using e by (metis (no_types, lifting) inj_onD)
qed

lemma named_runnable: "runnable (named_obj p)" "wf_cmd (named_obj p)"
  using named_name static_ids by (auto simp: runnable_def wf_cmd_def named_fields)

lemma named_matches:
  "cmd_matches (named_obj p) w0 w1 \<longleftrightarrow>
     (if p \<in> set usb_cmds then w0 = ''usb'' \<and> w1 = last (cmd_words p) else w0 = last (cmd_words p))"
  by (simp add: cmd_matches_def named_fields named_runnable) blast

lemma find_only:
  assumes "p \<in> set xs" and "P p" and only: "\<And>q. P q \<Longrightarrow> q = p"
  shows "find P xs = Some p"
  using assms(1)
proof (induction xs)
  case (Cons x xs)
  show ?case
  proof (cases "P x")
    case True
    then show ?thesis using only [of x] by simp
  next
    case False
    then have "p \<noteq> x" using assms(2) by blast
    then show ?thesis using False Cons by simp
  qed
qed simp

lemma find_cong: "(\<And>x. x \<in> set xs \<Longrightarrow> P x = Q x) \<Longrightarrow> find P xs = find Q xs"
  by (induction xs) auto

lemma usb_words:
  "p \<in> set usb_cmds \<Longrightarrow> cmd_words p = [''usb'', last (cmd_words p)]"
  "p \<notin> set usb_cmds \<Longrightarrow> cmd_words p = [last (cmd_words p)]"
  by (cases p; simp add: usb_cmds_def)+

lemma words_length: "length (cmd_words p) = (if p \<in> set usb_cmds then 2 else 1)"
  by (cases p) (simp_all add: usb_cmds_def)

lemma not_usb_word: "last (cmd_words p) \<noteq> ''usb''"
  by (cases p) auto

text \<open>A line that begins with the words of a registered command finds that command.\<close>

lemma ready_finds:
  assumes r: "console_ready b a" and p: "p \<in> set (trivial_cmds @ module_cmds b)"
    and h: "holds_args (box_cdata a) (cmd_words p @ ws)"
  shows "exec_find (box_cdata a) (cmd_obj (cst a)) (comm_cmds (cst a)) = Inr (Some p)"
proof -
  let ?S = "slots (comm_cmds (cst a))" and ?o = "cmd_obj (cst a)" and ?d = "box_cdata a"
  have pS: "p \<in> set ?S" using p ready_slots [OF r] by simp
  have obj: "?o q = named_obj q" if "q \<in> set ?S" for q using r that by (rule ready_obj)
  have a0: "arg_str ?d 0 = Inr ((cmd_words p @ ws) ! 0)"
    using holds_arg [OF h, of 0] words_length [of p] by (simp split: if_splits)
  show ?thesis
  proof (cases "p \<in> set usb_cmds")
    case True
    then have a1: "arg_str ?d 1 = Inr ((cmd_words p @ ws) ! 1)"
      using holds_arg [OF h, of 1] words_length [of p] True by simp
    have "exec_find ?d ?o (comm_cmds (cst a))
        = Inr (find (\<lambda>q. cmd_matches (?o q) ((cmd_words p @ ws) ! 0) ((cmd_words p @ ws) ! 1)) ?S)"
      using obj named_runnable(2) by (intro exec_find_words a0 a1) simp
    also have "find (\<lambda>q. cmd_matches (?o q) ((cmd_words p @ ws) ! 0) ((cmd_words p @ ws) ! 1)) ?S
        = find (\<lambda>q. cmd_matches (named_obj q) ''usb'' (last (cmd_words p))) ?S"
      using usb_words(1) [OF True] by (intro find_cong) (metis append_Cons nth_Cons_0 nth_Cons_Suc One_nat_def obj)
    also have "\<dots> = Some p"
      using pS True words_last_inj not_usb_word by (intro find_only) (auto simp: named_matches split: if_splits)
    finally show ?thesis .
  next
    case False
    have w: "(cmd_words p @ ws) ! 0 = last (cmd_words p)"
      using usb_words(2) [OF False] by (metis append_Cons nth_Cons_0)
    have "exec_find ?d ?o (comm_cmds (cst a))
        = Inr (find (\<lambda>q. cmd_nogroup (?o q) = 1 \<and> cmd_matches (?o q) (last (cmd_words p)) []) ?S)"
      using obj named_runnable(2) not_usb_word [of p] a0 [unfolded w]
      by (intro exec_find_one_word) (auto simp: named_fields split: if_splits)
    also have "find (\<lambda>q. cmd_nogroup (?o q) = 1 \<and> cmd_matches (?o q) (last (cmd_words p)) []) ?S
        = find (\<lambda>q. q \<notin> set usb_cmds \<and> last (cmd_words p) = last (cmd_words q)) ?S"
      using obj by (intro find_cong) (simp add: named_matches named_fields)
    also have "\<dots> = Some p"
      using pS False words_last_inj by (intro find_only) auto
    finally show ?thesis .
  qed
qed

section \<open>Running it\<close>

lemma named_exec [simp]:
  "p \<in> set usb_cmds \<Longrightarrow> cmd_cdata (named_obj p) = Some Cdata_usb"
  "p \<in> set usb_cmds \<Longrightarrow> cmd_handler (named_obj p) = Some Usb_cmd_handler"
  "p \<in> set sock_cmds \<Longrightarrow> cmd_cdata (named_obj p) = Some Cdata_sock"
  "p \<in> set sock_cmds \<Longrightarrow> cmd_handler (named_obj p) = Some Sock_cmd_handler"
  "p \<in> set sock_cmds \<Longrightarrow> cmd_priv (named_obj p) = Some Spdata"
  by (auto simp: named_obj_def usb_cmds_def sock_cmds_def usb_object_def sock_object_def)

lemma named_trivial [simp]:
  "cmd_cdata (named_obj Cmd_quit) = None" "cmd_cdata (named_obj Cmd_exit) = None"
  "cmd_cdata (named_obj Cmd_help) = None"
  "cmd_handler (named_obj Cmd_quit) = Some Cmd_quit_handler"
  "cmd_handler (named_obj Cmd_exit) = Some Cmd_quit_handler"
  "cmd_handler (named_obj Cmd_help) = Some Cmd_help_handler"
  by (simp_all add: named_obj_def usb_cmds_def trivial_object_def)

lemma run_found:
  assumes "console_ready b a" and "p \<in> set (trivial_cmds @ module_cmds b)"
    and "holds_args (box_cdata a) (cmd_words p @ ws)"
  shows "run_command b lib a =
     (let a1 = (case cmd_cdata (named_obj p) of None \<Rightarrow> a | Some c \<Rightarrow> put_cdata c (box_cdata a) a)
      in case cmd_handler (named_obj p) of
           None \<Rightarrow> Inr (0, a1)
         | Some h \<Rightarrow> res_bind (call_handler b lib h (cmd_id (static_obj p)) (cmd_cdata (named_obj p))
                                 (cmd_priv (named_obj p)) a1) (\<lambda>a2. Inr (0, a2)))"
proof -
  have "0 < argc (box_cdata a)" using assms(3) words_length [of p] by (auto simp: holds_args_def)
  moreover have "cmd_obj (cst a) p = named_obj p"
    using assms(1,2) ready_slots by (intro ready_obj) auto
  ultimately show ?thesis using ready_finds [OF assms]
    by (simp add: run_command_def comm_exec_command_def Let_def split: option.split)
qed

lemma run_usb:
  assumes "console_ready b a" and "cmd_module_usb b" and "p \<in> set usb_cmds"
    and "holds_args (box_cdata a) (cmd_words p @ ws)"
  shows "run_command b lib a =
     res_bind (usb_run (exec_usb_cmd lib (cmd_id (static_obj p)) (cmd_words p @ ws))
                 (a\<lparr>cdata_usb := box_cdata a\<rparr>))
       (\<lambda>x. Inr (0, snd x))"
proof -
  let ?a = "a\<lparr>cdata_usb := box_cdata a\<rparr>"
  have m: "p \<in> set (trivial_cmds @ module_cmds b)" using assms(2,3) by (simp add: module_cmds_def)
  have v: "pd_view (get_cdata Cdata_usb ?a) ?a = box_cdata a" by (simp add: pd_view_def get_cdata_def)
  have p: "put_cdata Cdata_usb (box_cdata a) a = ?a" by (simp add: put_cdata_def)
  show ?thesis
    using run_found [OF assms(1) m assms(4)] assms(3) args_of_holds [OF assms(4)]
    by (simp add: call_handler_def usb_cmd_handler_def p v res_bind_assoc split_beta Let_def)
qed

lemma run_quit:
  assumes "console_ready b a" and "p = Cmd_quit \<or> p = Cmd_exit"
    and "holds_args (box_cdata a) (cmd_words p @ ws)"
  shows "run_command b lib a = Inr (0, a\<lparr>box_quit := 1\<rparr>)"
proof -
  have "p \<in> set (trivial_cmds @ module_cmds b)" using assms(2) by (auto simp: trivial_cmds_def)
  from run_found [OF assms(1) this assms(3), where lib = lib] show ?thesis
    using assms(2) by (auto simp: call_handler_def cmd_quit_handler_def)
qed

lemma run_echo:
  assumes r: "console_ready b a" and "cmd_module_sock b" and h: "holds_args (box_cdata a) (''echo'' # w # ws)"
  obtains a' where "run_command b lib a = Inr (0, a')"
    and "cio (cst a') = comm_puts b [NL] (comm_puts b w (comm_puts b [NL] (cio (cst a))))"
    and "box_quit a' = box_quit a" and "usbctrl a' = usbctrl a"
proof -
  let ?a = "a\<lparr>cdata_sock := box_cdata a\<rparr>"
  have s: "Cmd_echo \<in> set sock_cmds" by (simp add: sock_cmds_def)
  then have m: "Cmd_echo \<in> set (trivial_cmds @ module_cmds b)" using assms(2) by (simp add: module_cmds_def)
  have v: "pd_view (get_cdata Cdata_sock ?a) ?a = box_cdata a" by (simp add: pd_view_def get_cdata_def)
  have p: "put_cdata Cdata_sock (box_cdata a) a = ?a" by (simp add: put_cdata_def)
  have e: "arg_str (box_cdata a) 1 = Inr w" using holds_arg [OF h, of 1] by simp
  have i: "cmd_id (static_obj Cmd_echo) = SOCK_CMD_ECHO" by (simp add: sock_object_def)
  let ?b = "on_io (comm_puts b [NL]) (on_io (comm_puts b w) (on_io (comm_puts b [NL]) ?a))"
  have echo: "do_cmd_echo b (get_cdata Cdata_sock ?a) ?a = Inr (0, ?b)"
    by (simp add: do_cmd_echo_def v e)
  have "run_command b lib a = Inr (0, sock_data_init (Some Spdata) (init_cdata (Some Cdata_sock) ?b))"
    using run_found [OF r m, where lib = lib and ws = "w # ws"] h s i echo
    by (simp add: call_handler_def sock_cmd_handler_def p)
  then show ?thesis
    by (rule that) (simp_all add: sock_data_init_def init_cdata_def comm_data_init_def put_cdata_def)
qed

section \<open>Every round keeps the invariant\<close>

lemma exec_find_in: "exec_find d obj cmds = Inr (Some p) \<Longrightarrow> p \<in> set (slots cmds)"
proof (induction cmds)
  case (Cons x cmds)
  then show ?case
    by (cases x) (auto simp: res_bind_Inr_iff Let_def split: if_splits)
qed simp

lemma parse_loop_lengths:
  "parse_loop tc tmp av i k = Inr (tmp', av', k') \<Longrightarrow> length tmp' = length tmp \<and> length av' = length av"
proof (induction tc tmp av i k rule: parse_loop.induct)
  case (1 tc tmp av i k)
  note go = "1.prems" [unfolded parse_loop.simps [of tc tmp av i k]]
  show ?case
  proof (cases "int i \<ge> tc \<or> i \<ge> length tmp \<or> tmp ! i = NUL")
    case True
    then show ?thesis using go by (auto split: if_splits)
  next
    case False
    then have n: "\<not> tc \<le> int i" "\<not> length tmp \<le> i" "tmp ! i \<noteq> NUL" by auto
    show ?thesis
    proof (cases "is_sep (tmp ! i)")
      case True
      have "parse_loop tc tmp av (i + 1) k = Inr (tmp', av', k')" using go n True by simp
      with n True show ?thesis by (rule "1.IH"(1))
    next
      case False
      then obtain t1 i1 where w: "parse_word tc tmp i = Inr (t1, i1)" "\<not> length av \<le> k"
          "parse_loop tc t1 (av[k := Some i]) i1 (k + 1) = Inr (tmp', av', k')"
        using go n by (auto split: if_splits sum.splits)
      have "length tmp' = length t1 \<and> length av' = length (av[k := Some i])"
        using "1.IH"(2) [OF n False w(2,1) refl w(3)] .
      then show ?thesis using parse_word_mono [OF w(1)] by simp
    qed
  qed
qed

lemma parse_command_wf: "comm_parse_command d = Inr (r, d') \<Longrightarrow> wf_data d \<Longrightarrow> wf_data d'"
  by (auto simp: comm_parse_command_def res_bind_Inr_iff wf_data_def dest: parse_loop_lengths)

lemma get_loop_length:
  assumes "comm_get_loop getc sz tmp cnt i = Some r"
  shows "\<forall>tmp' n. fst r = Inr (tmp', n) \<longrightarrow> length tmp' = length tmp"
proof (rule comm_get_loop.raw_induct [OF _ assms,
      where P = "\<lambda>getc sz tmp cnt i r. \<forall>tmp' n. fst r = Inr (tmp', n) \<longrightarrow> length tmp' = length tmp"])
  fix f :: "('a \<Rightarrow> (int \<times> 'a) option) \<Rightarrow> int \<Rightarrow> char list \<Rightarrow> int \<Rightarrow> 'a
               \<Rightarrow> ((char list \<times> int) res \<times> 'a) option"
    and getc sz tmp cnt i r
  assume IH: "\<And>getc sz tmp cnt i r. f getc sz tmp cnt i = Some r \<Longrightarrow>
         \<forall>tmp' n. fst r = Inr (tmp', n) \<longrightarrow> length tmp' = length tmp"
    and eq: "Option.bind (getc i) (\<lambda>(c, i').
       if c = 10 then
         (let stripped =
            (if cnt > 0
             then res_bind (rd tmp (cnt - 1)) (\<lambda>ch. Inr (if ch = CR then cnt - 1 else cnt))
             else Inr cnt)
          in Some (res_bind stripped (\<lambda>n. res_bind (wr tmp n NUL) (\<lambda>tmp'. Inr (tmp', n))), i'))
       else
         (let at = (if cnt \<ge> sz then 0 else cnt)
          in case wr tmp at (char_of_int c) of
               Inl e \<Rightarrow> Some (Inl e, i')
             | Inr tmp' \<Rightarrow> f getc sz tmp' (at + 1) i')) = Some r"
  obtain c i' where g: "getc i = Some (c, i')" using eq by (cases "getc i") auto
  show "\<forall>tmp' n. fst r = Inr (tmp', n) \<longrightarrow> length tmp' = length tmp"
  proof (cases "c = 10")
    case True
    then show ?thesis using eq g by (auto simp: Let_def res_bind_Inr_iff dest: wr_length)
  next
    case False
    let ?at = "if cnt \<ge> sz then 0 else cnt"
    show ?thesis
    proof (cases "wr tmp ?at (char_of_int c)")
      case (Inl e)
      then show ?thesis using eq g \<open>c \<noteq> 10\<close> by (auto simp: Let_def)
    next
      case (Inr t1)
      then have "f getc sz t1 (?at + 1) i' = Some r" using eq g \<open>c \<noteq> 10\<close> by (simp add: Let_def)
      from IH [OF this] show ?thesis using wr_length [OF Inr] by simp
    qed
  qed
qed

lemma get_command_wf:
  "comm_get_command getc d i = Some (Inr (r, d'), i') \<Longrightarrow> wf_data d \<Longrightarrow> wf_data d'"
  by (auto simp: comm_get_command_def res_bind_Inr_iff wf_data_def dest: get_loop_length)

end
