(* ===== verification/Console_Main.thy ===== *)
theory Console_Main
  imports Console_Run
begin

text \<open>
  The whole of \<^verbatim>\<open>comm_main\<close>: the invariant of every prompt for arbitrary input, the
  sessions as an inductive relation, and what is left when the program ends.
\<close>

section \<open>Every round keeps the invariant\<close>

definition same_console :: "('h, 'w) app \<Rightarrow> ('h, 'w) app \<Rightarrow> bool" where
  "same_console a a' \<longleftrightarrow> comm_cmds (cst a') = comm_cmds (cst a) \<and> cmd_obj (cst a') = cmd_obj (cst a)
     \<and> box_cdata a' = box_cdata a"

lemma same_console_refl: "same_console a a"
  by (simp add: same_console_def)

lemma ready_same: "console_ready b a \<Longrightarrow> same_console a a' \<Longrightarrow> console_ready b a'"
  by (simp add: console_ready_def same_console_def wf_table_def registered_def objs_named_def)

lemma usb_ok_uout [simp]: "usb_ok (u\<lparr>uout := x\<rparr>) = usb_ok u"
  by (simp add: usb_ok_def)

lemma usb_run_keeps:
  assumes "usb_run f a = Inr (r, a')" and "usb_ok (usbctrl a)"
    and "\<And>u u' r. f u = Inr (r, u') \<Longrightarrow> usb_ok u \<Longrightarrow> usb_ok u'"
  shows "same_console a a' \<and> usb_ok (usbctrl a')"
  using assms by (auto simp: usb_run_def res_bind_Inr_iff same_console_def)

lemma put_cdata_keeps [simp]: "same_console a (put_cdata c d a)" "usbctrl (put_cdata c d a) = usbctrl a"
  "box_quit (put_cdata c d a) = box_quit a"
  by (cases c; simp add: put_cdata_def same_console_def)+

lemma init_cdata_console [simp]: "same_console a (init_cdata c a)" "usbctrl (init_cdata c a) = usbctrl a"
  by (cases c; simp add: init_cdata_def comm_data_init_def same_console_refl)+

lemma sock_data_init_console [simp]:
  "same_console a (sock_data_init v a)" "usbctrl (sock_data_init v a) = usbctrl a"
  by (auto simp: sock_data_init_def same_console_def split: option.splits priv_ref.splits)

lemma on_io_console [simp]: "same_console a (on_io f a)"
  by (simp add: same_console_def)

lemma same_console_trans: "same_console a b \<Longrightarrow> same_console b c \<Longrightarrow> same_console a c"
  by (simp add: same_console_def)

lemma sock_handler_keeps:
  assumes "sock_cmd_handler b i c v a = Inr a'"
  shows "same_console a a' \<and> usbctrl a' = usbctrl a"
proof -
  obtain cd r a1 where c: "c = Some cd" and d: "(if i = SOCK_CMD_ECHO then do_cmd_echo b (get_cdata cd a) a
             else if i = SOCK_CMD_MEM_D32 then do_cmd_md a
             else if i = SOCK_CMD_MEM_W32 then do_cmd_mw a
             else if i = SOCK_CMD_MEM_R32 then do_cmd_mr a
             else Inl Uninit_Read) = Inr (r, a1)"
    and a': "a' = sock_data_init v (init_cdata c (if r \<noteq> 0
             then out_trace sock_trmask 0 ''exec cmd %d error %d'' [TInt i, TInt r] a1 else a1))"
    using assms unfolding sock_cmd_handler_def Let_def
    by (cases c) (auto simp: res_bind_Inr_iff)
  have 1: "same_console a a1 \<and> usbctrl a1 = usbctrl a"
    using d by (auto simp: do_cmd_echo_def do_cmd_md_def do_cmd_mw_def do_cmd_mr_def res_bind_Inr_iff
        same_console_def Let_def split: if_split_asm)
  let ?a2 = "if r \<noteq> 0 then out_trace sock_trmask 0 ''exec cmd %d error %d'' [TInt i, TInt r] a1 else a1"
  have 2: "same_console a1 ?a2 \<and> usbctrl ?a2 = usbctrl a1"
    by (simp add: out_trace_def same_console_refl)
  have "same_console ?a2 a'"
    unfolding a' by (rule same_console_trans [OF init_cdata_console(1) sock_data_init_console(1)])
  with 1 2 have "same_console a a'" by (blast intro: same_console_trans)
  moreover have "usbctrl a' = usbctrl ?a2"
    unfolding a' sock_data_init_console(2) init_cdata_console(2) by (rule refl)
  ultimately show ?thesis using 1 2 by simp
qed

lemma call_handler_keeps:
  assumes "call_handler b lib h i c v a = Inr a'" and "usb_ok (usbctrl a)"
  shows "same_console a a' \<and> usb_ok (usbctrl a')"
proof (cases h)
  case Usb_cmd_handler
  then obtain args r where "usb_run (exec_usb_cmd lib i args) a = Inr (r, a')"
    using assms(1) by (auto simp: call_handler_def usb_cmd_handler_def res_bind_Inr_iff split: option.splits)
  then show ?thesis using assms(2) exec_usb_ok by (rule usb_run_keeps) auto
next
  case Sock_cmd_handler
  then have "sock_cmd_handler b i c v a = Inr a'" using assms(1) by (simp add: call_handler_def)
  from sock_handler_keeps [OF this] show ?thesis using assms(2) by simp
next
  case Cmd_quit_handler
  then show ?thesis using assms by (auto simp: call_handler_def cmd_quit_handler_def same_console_def)
next
  case Cmd_help_handler
  then show ?thesis using assms
    by (auto simp: call_handler_def cmd_help_handler_def comm_show_command_def res_bind_Inr_iff
        same_console_def)
qed

lemma run_command_keeps:
  assumes r: "console_ready b a" and u: "usb_ok (usbctrl a)" and e: "run_command b lib a = Inr (x, a')"
  shows "console_ready b a' \<and> usb_ok (usbctrl a')"
proof (cases "argc (box_cdata a) \<le> 0")
  case True
  then show ?thesis using assms by (simp add: run_command_def comm_exec_command_def)
next
  case False
  then obtain found where f: "exec_find (box_cdata a) (cmd_obj (cst a)) (comm_cmds (cst a)) = Inr found"
    using e by (auto simp: run_command_def comm_exec_command_def res_bind_Inr_iff)
  show ?thesis
  proof (cases found)
    case None
    then show ?thesis using assms False f by (simp add: run_command_def comm_exec_command_def)
  next
    case (Some p)
    define a1 where "a1 = (case cmd_cdata (cmd_obj (cst a) p) of None \<Rightarrow> a
        | Some c \<Rightarrow> put_cdata c (box_cdata a) a)"
    have a1: "same_console a a1" "usbctrl a1 = usbctrl a"
      by (simp_all add: a1_def same_console_refl split: option.split)
    have "a' = a1 \<or> (\<exists>h i c v. call_handler b lib h i c v a1 = Inr a')"
      using e False f Some unfolding run_command_def comm_exec_command_def
      by (auto simp: res_bind_Inr_iff Let_def a1_def split: option.splits)
    then show ?thesis
      using a1 r u call_handler_keeps [of b lib] same_console_trans ready_same
      by metis
  qed
qed

lemma round_keeps:
  assumes r: "console_ready b a" and u: "usb_ok (usbctrl a)" and e: "console_round b lib a = Some (Inr a')"
  shows "console_ready b a' \<and> usb_ok (usbctrl a')"
proof -
  let ?a0 = "on_io (comm_show_screen b) a"
  obtain x y z d1 d2 s where
      g: "comm_get_command (comm_fgetc b) (box_cdata ?a0) (cio (cst ?a0)) = Some (Inr (x, d1), s)"
    and p: "comm_parse_command d1 = Inr (y, d2)"
    and run: "run_command b lib (on_io (\<lambda>_. s) (?a0\<lparr>box_cdata := d2\<rparr>)) = Inr (z, a')"
    using e by (auto simp: console_round_def Let_def res_bind_Inr_iff split: option.splits)
  have "wf_data (box_cdata ?a0)" using r by (simp add: console_ready_def)
  then have "wf_data d2" using get_command_wf [OF g] parse_command_wf [OF p] by blast
  then have "console_ready b (on_io (\<lambda>_. s) (?a0\<lparr>box_cdata := d2\<rparr>))"
    using r by (simp add: console_ready_def objs_named_def)
  then show ?thesis using run_command_keeps [OF _ _ run] u by simp
qed

section \<open>Sessions\<close>

text \<open>The states the program passes through at the prompt.\<close>

inductive at_prompt :: "cflags \<Rightarrow> ('d, 'h, 'w) libusb \<Rightarrow> ('h, 'w) app \<Rightarrow> ('h, 'w) app \<Rightarrow> bool"
  for b lib a where
  first: "at_prompt b lib a a"
| again: "at_prompt b lib a a1 \<Longrightarrow> console_round b lib a1 = Some (Inr a2) \<Longrightarrow> box_quit a2 = 0
          \<Longrightarrow> at_prompt b lib a a2"

inductive_cases at_promptE: "at_prompt b lib a a'"

lemma at_prompt_keeps:
  "at_prompt b lib a a' \<Longrightarrow> console_ready b a \<Longrightarrow> usb_ok (usbctrl a) \<Longrightarrow>
   console_ready b a' \<and> usb_ok (usbctrl a')"
  by (induction rule: at_prompt.induct) (use round_keeps in blast)+

text \<open>A loop that ends without undefined behaviour ends after some round at a prompt.\<close>

lemma main_loop_ends:
  assumes "main_loop b lib a = Some r" and "r = Inr a'"
  shows "\<exists>a1. at_prompt b lib a a1 \<and> console_round b lib a1 = Some (Inr a') \<and> box_quit a' \<noteq> 0"
proof -
  have "r = Inr a' \<longrightarrow> at_prompt b lib a0 a \<longrightarrow>
      (\<exists>a1. at_prompt b lib a0 a1 \<and> console_round b lib a1 = Some (Inr a') \<and> box_quit a' \<noteq> 0)" for a0
  proof (rule main_loop.raw_induct [OF _ assms(1), where P = "\<lambda>b lib a r.
        r = Inr a' \<longrightarrow> at_prompt b lib a0 a \<longrightarrow>
        (\<exists>a1. at_prompt b lib a0 a1 \<and> console_round b lib a1 = Some (Inr a') \<and> box_quit a' \<noteq> 0)"])
    fix f and b lib a r
    assume IH: "\<And>b lib a r. f b lib a = Some r \<Longrightarrow> r = Inr a' \<longrightarrow> at_prompt b lib a0 a \<longrightarrow>
        (\<exists>a1. at_prompt b lib a0 a1 \<and> console_round b lib a1 = Some (Inr a') \<and> box_quit a' \<noteq> 0)"
      and eq: "Option.bind (console_round b lib a)
       (\<lambda>r. case r of Inl e \<Rightarrow> Some (Inl e)
            | Inr a1 \<Rightarrow> if box_quit a1 \<noteq> 0 then Some (Inr a1) else f b lib a1) = Some r"
    show "r = Inr a' \<longrightarrow> at_prompt b lib a0 a \<longrightarrow>
        (\<exists>a1. at_prompt b lib a0 a1 \<and> console_round b lib a1 = Some (Inr a') \<and> box_quit a' \<noteq> 0)"
    proof (intro impI)
      assume ra: "r = Inr a'" and p: "at_prompt b lib a0 a"
      obtain a2 where c: "console_round b lib a = Some (Inr a2)"
          and n: "(if box_quit a2 \<noteq> 0 then Some (Inr a2) else f b lib a2) = Some r"
        using eq ra by (cases "console_round b lib a") (auto split: sum.splits)
      show "\<exists>a1. at_prompt b lib a0 a1 \<and> console_round b lib a1 = Some (Inr a') \<and> box_quit a' \<noteq> 0"
      proof (cases "box_quit a2 = 0")
        case True
        then show ?thesis using IH [of b lib a2 r] n ra again [OF p c True] by simp
      next
        case False
        then show ?thesis using c n ra p by auto
      qed
    qed
  qed
  from this [of a] show ?thesis using assms(2) first by blast
qed

section \<open>Leaving the program\<close>

lemma slots_free: "length (List.map_filter (\<lambda>x. x) xs) + length (filter (\<lambda>x. x = None) xs) = length xs"
  by (induction xs) (auto simp: List.map_filter_def split: option.splits)

lemma table_full: "wf_table st \<Longrightarrow> size (registered st) + free_slots st = COMM_MAX_CMDS"
  using slots_free [of "comm_cmds st"] by (simp add: registered_def free_slots_def wf_table_def)

lemma module_unregister:
  assumes "app_wf a" and "mset ps \<subseteq># registered (cst a)" and "\<And>p. p \<in> set ps \<Longrightarrow> valid_cmd (cst a) p"
  obtains a' where "each_until (unregister_traced m) ps 0 a = Inr (0, a')" and "app_wf a'"
    and "registered (cst a') = registered (cst a) - mset ps" and "app_step a a'"
proof -
  obtain a' where a': "each_until (unregister_traced m) ps 0 a = Inr (0, a')" "app_wf a'"
      "registered (cst a') = registered (cst a) - mset ps"
    using app_tab.unreg_all [OF assms] by blast
  have "app_step a a'"
  proof (rule each_until_inv [OF _ _ a'(1)])
    fix x s r s' assume "app_step a s" and "unregister_traced m x s = Inr (r, s')"
    then show "app_step a s'" using unregister_traced_keeps app_step_trans by blast
  qed (simp add: app_step_def)
  then show ?thesis using that a' by blast
qed

lemma ready_wf: "console_ready b a \<Longrightarrow> app_wf a"
  by (auto simp: console_ready_def intro: objs_named_wf)

lemma ready_valid:
  assumes "console_ready b a" and "p \<in> set (trivial_cmds @ module_cmds b)"
  shows "valid_cmd (cst a) p"
proof -
  have "cmd_obj (cst a) p = named_obj p"
    using assms ready_slots by (intro ready_obj) auto
  then show ?thesis using named_name static_ids by (simp add: valid_cmd_def)
qed

text \<open>\<^verbatim>\<open>usb unbind\<close> always succeeds and leaves no handle.\<close>

lemma unbind_result:
  assumes "usb_ok u"
  obtains u' where "usb_handle_cmd_bind lib [] 0 u = (0, u')" and "usb_ok u'" and "uc_bind u' = 0"
proof -
  have "fst (usb_handle_cmd_bind lib [] 0 u) = 0" "uc_bind (snd (usb_handle_cmd_bind lib [] 0 u)) = 0"
    by (auto simp: usb_handle_cmd_bind_def Let_def)
  then show ?thesis using that bind_0_ok [OF assms, of lib "[]"] by (metis prod.collapse)
qed

lemma usb_unregister_ok:
  assumes w: "app_wf a" and m: "mset usb_cmds \<subseteq># registered (cst a)"
    and v: "\<And>p. p \<in> set usb_cmds \<Longrightarrow> valid_cmd (cst a) p" and u: "usb_ok (usbctrl a)"
  obtains a' where "usb_cmd_unregister lib a = Inr (0, a')" and "app_wf a'"
    and "registered (cst a') = registered (cst a) - mset usb_cmds"
    and "cmd_obj (cst a') = cmd_obj (cst a)" and "usb_ok (usbctrl a')" and "uc_bind (usbctrl a') = 0"
    and "io_pending b (cio (cst a')) = io_pending b (cio (cst a))"
proof -
  let ?u = "(usbctrl a)\<lparr>uout := io_out (cio (cst a))\<rparr>"
  obtain r a1 where a1: "(if uc_bind (usbctrl a) \<noteq> 0
      then usb_run (\<lambda>u. Inr (usb_handle_cmd_bind lib [] 0 u)) a else Inr (0, a)) = Inr (r, a1)"
      "same_console a a1" "usb_ok (usbctrl a1)" "uc_bind (usbctrl a1) = 0"
      "io_pending b (cio (cst a1)) = io_pending b (cio (cst a))"
  proof (cases "uc_bind (usbctrl a) = 0")
    case True
    then show ?thesis using that [of 0 a] u by (simp add: same_console_def)
  next
    case False
    obtain u' where u': "usb_handle_cmd_bind lib [] 0 ?u = (0, u')" "usb_ok u'" "uc_bind u' = 0"
      using unbind_result [of ?u lib] u by auto
    show ?thesis
      using False u' by (intro that [of 0 "on_io (\<lambda>s. s\<lparr>io_out := uout u'\<rparr>) (a\<lparr>usbctrl := u'\<rparr>)"])
        (simp_all add: usb_run_def same_console_def io_pending_def)
  qed
  have same: "app_wf a1" "registered (cst a1) = registered (cst a)" "valid_cmd (cst a1) = valid_cmd (cst a)"
    using w a1(2) by (auto simp: app_wf_def wf_table_def same_console_def registered_def valid_cmd_def)
  obtain a2 where a2: "each_until (unregister_traced usb_trmask) usb_cmds 0 a1 = Inr (0, a2)" "app_wf a2"
      "registered (cst a2) = registered (cst a1) - mset usb_cmds" "app_step a1 a2"
    using module_unregister [OF same(1) m [folded same(2)] v [folded same(3)], of usb_trmask] by blast
  show ?thesis
    using a1 a2 same
    by (intro that [of a2])
       (auto simp: usb_cmd_unregister_def app_step_def same_session_def same_console_def usb_ok_def io_pending_def)
qed

lemma sock_unregister_ok:
  assumes w: "app_wf a" and m: "mset sock_cmds \<subseteq># registered (cst a)"
    and v: "\<And>p. p \<in> set sock_cmds \<Longrightarrow> valid_cmd (cst a) p"
  obtains a' where "sock_cmd_unregister a = Inr (0, a')" and "app_wf a'"
    and "registered (cst a') = registered (cst a) - mset sock_cmds" and "app_step a a'"
  using module_unregister [OF assms, of sock_trmask] by (auto simp: sock_cmd_unregister_def)

text \<open>The modules leave the table as \<^verbatim>\<open>trivial_cmd_register\<close> made it.\<close>

lemma user_unregister_ok:
  assumes r: "console_ready b a" and u: "usb_ok (usbctrl a)"
  obtains a' where "comm_user_cmd_unregister b lib a = Inr (0, a')" and "app_wf a'"
    and "registered (cst a') = mset trivial_cmds" and "cmd_obj (cst a') = cmd_obj (cst a)"
    and "usb_ok (usbctrl a')" and "cmd_module_usb b \<Longrightarrow> uc_bind (usbctrl a') = 0"
    and "io_pending b (cio (cst a')) = io_pending b (cio (cst a))"
proof -
  have reg: "registered (cst a) = mset trivial_cmds + mset (module_cmds b)"
    using r by (simp add: console_ready_def)
  note w = ready_wf [OF r] and v = ready_valid [OF r]
  let ?n = "if cmd_module_usb b then mset usb_cmds else {#}"
  let ?k = "if cmd_module_sock b then mset sock_cmds else {#}"
  have split: "mset (module_cmds b) = ?n + ?k" by (simp add: module_cmds_def)
  obtain a1 where a1: "(if cmd_module_usb b then usb_cmd_unregister lib a else Inr (0, a)) = Inr (0, a1)"
      "app_wf a1" "registered (cst a1) = mset trivial_cmds + ?k" "cmd_obj (cst a1) = cmd_obj (cst a)"
      "usb_ok (usbctrl a1)" "cmd_module_usb b \<Longrightarrow> uc_bind (usbctrl a1) = 0"
      "io_pending b (cio (cst a1)) = io_pending b (cio (cst a))"
  proof (cases "cmd_module_usb b")
    case True
    have "mset usb_cmds \<subseteq># registered (cst a)" using True by (simp add: reg split)
    moreover have "valid_cmd (cst a) p" if "p \<in> set usb_cmds" for p
      using v that True by (simp add: module_cmds_def)
    ultimately obtain x where x: "usb_cmd_unregister lib a = Inr (0, x)" "app_wf x"
        "registered (cst x) = registered (cst a) - mset usb_cmds" "cmd_obj (cst x) = cmd_obj (cst a)"
        "usb_ok (usbctrl x)" "uc_bind (usbctrl x) = 0"
        "io_pending b (cio (cst x)) = io_pending b (cio (cst a))"
      using usb_unregister_ok [OF w _ _ u, of lib b] by blast
    show ?thesis using True x reg split by (intro that [of x]) auto
  next
    case False
    then show ?thesis using w u reg split by (intro that [of a]) auto
  qed
  obtain a2 where a2: "(if cmd_module_sock b then sock_cmd_unregister a1 else Inr (0, a1)) = Inr (0, a2)"
      "app_wf a2" "registered (cst a2) = mset trivial_cmds" "app_step a1 a2"
  proof (cases "cmd_module_sock b")
    case True
    have "mset sock_cmds \<subseteq># registered (cst a1)" using True by (simp add: a1(3))
    moreover have "valid_cmd (cst a1) p" if "p \<in> set sock_cmds" for p
      using v [of p] that True a1(4) by (simp add: module_cmds_def valid_cmd_def)
    ultimately obtain x where x: "sock_cmd_unregister a1 = Inr (0, x)" "app_wf x"
        "registered (cst x) = registered (cst a1) - mset sock_cmds" "app_step a1 x"
      using sock_unregister_ok [OF a1(2)] by blast
    show ?thesis using True x a1(3) by (intro that [of x]) auto
  next
    case False
    then show ?thesis using a1 by (intro that [of a1]) (auto simp: app_step_def)
  qed
  have "comm_user_cmd_unregister b lib a = Inr (0, a2)"
    using a1(1) a2(1) by (simp add: comm_user_cmd_unregister_def comm_cmd_modules_def split: if_splits)
  then show ?thesis using a1 a2
    by (intro that [of a2]) (auto simp: app_step_def same_session_def usb_ok_def io_pending_def)
qed

text \<open>The last step drops \<open>quit\<close> and \<open>help\<close> and registers \<open>exit\<close> a second time.\<close>

lemma trivial_unregister_ok:
  assumes w: "app_wf a" and reg: "registered (cst a) = mset trivial_cmds"
  obtains a' where "trivial_cmd_unregister a = Inr (0, a')"
    and "registered (cst a') = {#Cmd_exit, Cmd_exit#}" and "app_step a a'"
proof -
  have v: "valid_cmd (cst a) p" if "p \<in> {Cmd_quit, Cmd_exit, Cmd_help}" for p
    using w that by (auto simp: app_wf_def valid_cmd_def usb_cmds_def)
  have q: "valid_cmd (cst a) Cmd_quit" "Cmd_quit \<in># registered (cst a)"
    using v reg by (auto simp: trivial_cmds_def)
  obtain a1 where a1: "on_table (comm_cmd_unregister (Some Cmd_quit)) a = Inr (0, a1)" "app_wf a1"
      "registered (cst a1) = registered (cst a) - {#Cmd_quit#}"
      "free_slots (cst a1) = Suc (free_slots (cst a))" "app_step a a1"
    by (rule on_table_unregister [OF w q])
  have e: "valid_cmd (cst a1) Cmd_exit" "0 < free_slots (cst a1)"
    using v a1(4) by (auto simp: app_step_valid [OF a1(5)])
  obtain a2 where a2: "on_table (comm_cmd_register (Some Cmd_exit)) a1 = Inr (0, a2)" "app_wf a2"
      "registered (cst a2) = add_mset Cmd_exit (registered (cst a1))"
      "free_slots (cst a1) = Suc (free_slots (cst a2))" "app_step a1 a2"
    by (rule on_table_register [OF a1(2) e])
  have h: "valid_cmd (cst a2) Cmd_help" "Cmd_help \<in># registered (cst a2)"
    using v a1(3) a2(3) reg by (auto simp: app_step_valid [OF a1(5)] app_step_valid [OF a2(5)] trivial_cmds_def)
  obtain a3 where a3: "on_table (comm_cmd_unregister (Some Cmd_help)) a2 = Inr (0, a3)" "app_wf a3"
      "registered (cst a3) = registered (cst a2) - {#Cmd_help#}"
      "free_slots (cst a3) = Suc (free_slots (cst a2))" "app_step a2 a3"
    by (rule on_table_unregister [OF a2(2) h])
  show ?thesis
    using a1 a2 a3 reg app_step_trans [OF app_step_trans [OF a1(5) a2(5)] a3(5)]
    by (intro that [of a3]) (auto simp: trivial_cmd_unregister_def trivial_cmds_def)
qed

lemma main_finish_ok:
  assumes r: "console_ready b a" and u: "usb_ok (usbctrl a)"
  obtains a' where "main_finish b lib a = Inr (0, a')"
    and "registered (cst a') = {#Cmd_exit, Cmd_exit#}" and "usb_ok (usbctrl a')"
    and "cmd_module_usb b \<Longrightarrow> uc_bind (usbctrl a') = 0"
    and "io_pending b (cio (cst a')) = io_pending b (cio (cst a))"
proof -
  obtain a1 where a1: "comm_user_cmd_unregister b lib a = Inr (0, a1)" "app_wf a1"
      "registered (cst a1) = mset trivial_cmds" "cmd_obj (cst a1) = cmd_obj (cst a)"
      "usb_ok (usbctrl a1)" "cmd_module_usb b \<Longrightarrow> uc_bind (usbctrl a1) = 0"
      "io_pending b (cio (cst a1)) = io_pending b (cio (cst a))"
    using user_unregister_ok [OF r u, of lib] by blast
  obtain a2 where a2: "trivial_cmd_unregister a1 = Inr (0, a2)"
      "registered (cst a2) = {#Cmd_exit, Cmd_exit#}" "app_step a1 a2"
    using trivial_unregister_ok [OF a1(2,3)] by blast
  let ?a = "out_trace comm_trmask 2 ''See you again.'' [] (on_io (comm_clear_screen b) a2)"
  have f: "main_finish b lib a = Inr (0, ?a)" using a1(1) a2(1) by (simp add: main_finish_def)
  have "usbctrl ?a = usbctrl a2" by (simp add: out_trace_def)
  moreover have "io_pending b (cio (cst ?a)) = io_pending b (cio (cst a2))"
    by (rule io_pending_cong) (simp_all add: out_trace_def comm_clear_screen_def)
  moreover have "registered (cst ?a) = registered (cst a2)" by simp
  ultimately show ?thesis using f a1 a2
    by (intro that [of ?a]) (auto simp: app_step_def same_session_def usb_ok_def io_pending_def)
qed

section \<open>comm_main\<close>

lemma comm_main_start:
  assumes "cmd_obj (cst a) = static_obj"
  obtains a1 where "console_ready b a1" and "box_quit a1 = 0"
    and "argv (box_cdata a1) = replicate COMM_ARGV_BUF_SIZE None"
    and "usb_ok (usbctrl a) \<Longrightarrow> uc_handle (usbctrl a) = None \<Longrightarrow> usb_ok (usbctrl a1)"
    and "io_pending b (cio (cst a1)) = io_pending b (cio (cst a))"
    and "comm_main b lib a = map_option (\<lambda>m. res_bind m (main_finish b lib)) (main_loop b lib a1)"
proof -
  obtain a1 where a1: "main_start b a = Inr (0, a1)" "console_ready b a1" "box_quit a1 = 0"
      "argv (box_cdata a1) = replicate COMM_ARGV_BUF_SIZE None"
      "uc_bind (usbctrl a1) = uc_bind (usbctrl (session_start b a))"
      "uc_handle (usbctrl a1) = uc_handle (usbctrl (session_start b a))"
      "ucalls (usbctrl a1) = ucalls (usbctrl a)"
      "io_pending b (cio (cst a1)) = io_pending b (cio (cst a))"
    using main_start_ok [OF assms, of b] by blast
  show ?thesis
    using a1 by (intro that [of a1])
      (auto simp: comm_main_def usb_ok_def session_start_def usb_data_init_def split: if_splits)
qed

section \<open>Lines without a command, and input that ends\<close>

lemma find_group_alone:
  assumes r: "console_ready b a" and m: "cmd_module_usb b"
    and h: "holds_args (box_cdata a) [''usb'']" and n: "arg_str (box_cdata a) 1 = Inl e"
  shows "run_command b lib a = Inl e"
proof -
  let ?c = "comm_cmds (cst a)" and ?o = "cmd_obj (cst a)"
  have obj: "?o q = named_obj q" if "q \<in> set (slots ?c)" for q using r that by (rule ready_obj)
  have "Usb_cmd_list \<in> set (slots ?c)"
    using ready_slots [OF r] m by (simp add: module_cmds_def usb_cmds_def)
  then have "\<exists>x \<in> set ?c. \<exists>p. x = Some p \<and> p \<in> set usb_cmds"
    by (auto simp: slots_def map_filter_mem usb_cmds_def)
  then obtain xs x ys where sp: "?c = xs @ x # ys" "\<exists>p. x = Some p \<and> p \<in> set usb_cmds"
      "\<forall>y \<in> set xs. \<not> (\<exists>p. y = Some p \<and> p \<in> set usb_cmds)"
    using split_list_first_propE [of ?c "\<lambda>x. \<exists>p. x = Some p \<and> p \<in> set usb_cmds"] by blast
  then obtain p where p: "x = Some p" "p \<in> set usb_cmds" by auto
  have op: "?o p = named_obj p" using obj [of p] sp(1) p(1) by simp
  have before: "q \<notin> set usb_cmds \<and> ?o q = named_obj q" if "q \<in> set (slots xs)" for q
    using that sp(1,3) obj [of q] by (auto simp: slots_def map_filter_mem)
  have "arg_str (box_cdata a) 0 = Inr ''usb''" using holds_arg [OF h, of 0] by simp
  then have "exec_find (box_cdata a) ?o (xs @ Some p # ys) = Inl e"
    using n op p(2) before not_usb_word
    by (intro exec_find_group_alone) (auto simp: named_runnable named_fields)
  moreover have "0 < argc (box_cdata a)" using h by (simp add: holds_args_def)
  ultimately show ?thesis using sp(1) p(1)
    by (simp add: run_command_def comm_exec_command_def)
qed

lemma round_eof:
  assumes "console_ready b a" and "\<not> use_socket b" and "NL \<notin> set (io_stdin (cio (cst a)))"
  shows "console_round b lib a = None"
proof -
  have f: "comm_fgetc b = stdin_fgetc" using assms(2) by (auto simp: comm_fgetc_def)
  have "comm_get_command stdin_fgetc (box_cdata a) (comm_show_screen b (cio (cst a))) = None"
    using assms by (intro get_command_eof) (simp_all add: console_ready_def comm_show_screen_def)
  then show ?thesis by (simp add: console_round_def f)
qed

section \<open>Whole lines\<close>

lemma round_quits:
  assumes a: "console_ready b a" "usb_ok (usbctrl a)" "io_pending b (cio (cst a)) = ln @ NL # rest"
    and ln: "NL \<notin> set ln" "NUL \<notin> set ln" "length ln < COMM_TEMP_BUF_SIZE"
    and w: "tokens (strip_cr ln) = cmd # ws" "cmd = ''quit'' \<or> cmd = ''exit''"
  obtains a' where "main_loop b lib a = Some (Inr a')" and "console_ready b a'" and "usb_ok (usbctrl a')"
    and "io_pending b (cio (cst a')) = rest"
proof -
  obtain a2 where a2: "console_round b lib a = Some (res_bind (run_command b lib a2) (\<lambda>(_, a'). Inr a'))"
      "console_ready b a2" "holds_args (box_cdata a2) (cmd # ws)" "io_pending b (cio (cst a2)) = rest"
      "usbctrl a2 = usbctrl a"
    using round_reads [OF a(1,3) ln, of lib] w(1) by metis
  obtain p where p: "p = Cmd_quit \<or> p = Cmd_exit" "cmd_words p = [cmd]"
    using w(2) cmd_words.simps by blast
  let ?a = "a2\<lparr>box_quit := 1\<rparr>"
  have "run_command b lib a2 = Inr (0, ?a)"
    using run_quit [OF a2(2) p(1), of ws lib] p(2) a2(3) by simp
  then have "main_loop b lib a = Some (Inr ?a)" using a2(1) by (subst main_loop.simps) simp
  then show ?thesis
    using a2 a(2) by (intro that [of ?a]) (simp_all add: console_ready_def objs_named_def)
qed

lemma main_quits:
  assumes a: "cmd_obj (cst a) = static_obj" "usb_ok (usbctrl a)" "uc_handle (usbctrl a) = None"
    and p: "io_pending b (cio (cst a)) = ln @ NL # rest"
    and ln: "NL \<notin> set ln" "NUL \<notin> set ln" "length ln < COMM_TEMP_BUF_SIZE"
    and w: "tokens (strip_cr ln) = cmd # ws" "cmd = ''quit'' \<or> cmd = ''exit''"
  obtains a' where "comm_main b lib a = Some (Inr (0, a'))" and "io_pending b (cio (cst a')) = rest"
proof -
  obtain a1 where a1: "console_ready b a1" "usb_ok (usbctrl a1)" "io_pending b (cio (cst a1)) = ln @ NL # rest"
      "comm_main b lib a = map_option (\<lambda>m. res_bind m (main_finish b lib)) (main_loop b lib a1)"
    using comm_main_start [OF a(1), of b lib] a p by metis
  obtain a2 where a2: "main_loop b lib a1 = Some (Inr a2)" "console_ready b a2" "usb_ok (usbctrl a2)"
      "io_pending b (cio (cst a2)) = rest"
    by (rule round_quits [OF a1(1-3) ln w])
  obtain a3 where "main_finish b lib a2 = Inr (0, a3)" "io_pending b (cio (cst a3)) = io_pending b (cio (cst a2))"
    by (rule main_finish_ok [OF a2(2,3)])
  then show ?thesis using that a1(4) a2 by simp
qed

lemma cmds_info_refs: "cmds_info = map (\<lambda>p. (last (cmd_words p), cmd_id (static_obj p))) usb_cmds"
  by (simp add: cmds_info_def usb_cmds_def usb_object_def)

lemma usb_command_ref:
  assumes "(name, i) \<in> set cmds_info"
  obtains p where "p \<in> set usb_cmds" and "cmd_words p = [''usb'', name]" and "cmd_id (static_obj p) = i"
proof -
  obtain p where "p \<in> set usb_cmds" "name = last (cmd_words p)" "i = cmd_id (static_obj p)"
    using assms unfolding cmds_info_refs set_map by blast
  then show ?thesis using that usb_words(1) [of p] by simp
qed

lemma round_usb:
  assumes a: "console_ready b a" "io_pending b (cio (cst a)) = ln @ NL # rest" "cmd_module_usb b"
    and ln: "NL \<notin> set ln" "NUL \<notin> set ln" "length ln < COMM_TEMP_BUF_SIZE"
    and w: "tokens (strip_cr ln) = ''usb'' # name # ws" "(name, i) \<in> set cmds_info"
  obtains a2 where "io_pending b (cio (cst a2)) = rest" and "usbctrl a2 = usbctrl a" and "box_quit a2 = box_quit a"
    and "console_round b lib a =
      Some (res_bind (usb_run (exec_usb_cmd lib i (''usb'' # name # ws)) a2) (\<lambda>x. Inr (snd x)))"
proof -
  obtain p where p: "p \<in> set usb_cmds" "cmd_words p = [''usb'', name]" "cmd_id (static_obj p) = i"
    by (rule usb_command_ref [OF w(2)])
  obtain a2 where a2: "console_round b lib a = Some (res_bind (run_command b lib a2) (\<lambda>(_, a'). Inr a'))"
      "console_ready b a2" "holds_args (box_cdata a2) (''usb'' # name # ws)" "io_pending b (cio (cst a2)) = rest"
      "usbctrl a2 = usbctrl a" "box_quit a2 = box_quit a"
    using round_reads [OF a(1,2) ln, of lib] w(1) by metis
  have h: "holds_args (box_cdata a2) (cmd_words p @ ws)" using a2(3) p(2) by simp
  show ?thesis
    using a2 run_usb [OF a2(2) a(3) p(1) h, of lib] p(2,3)
    by (intro that [of "a2\<lparr>cdata_usb := box_cdata a2\<rparr>"]) (simp_all add: res_bind_assoc split_beta)
qed

end
