(* ===== verification/Server.thy ===== *)
theory Server
  imports Console_Main
begin

text \<open>
  Models \<^verbatim>\<open>demo-dh/socket/server.c\<close>: the socket calls around \<^verbatim>\<open>comm_main\<close>, and the choice of the
  program that \<^verbatim>\<open>main\<close> starts. The results of the socket calls are the environment
  \<open>sock_env\<close>; the calls that act on a descriptor or a path are logged. \<^verbatim>\<open>perror\<close> writes to
  standard error, which is not modelled.
\<close>

section \<open>The socket and its environment\<close>

record sock_data =
  sd_server_fd :: int
  sd_client_fd :: int
  sd_port :: int
  sd_ql :: int
  sd_ipv :: int
  sd_ips :: string
  sd_server_sa :: "u16 \<times> u32"
  sd_tmplen :: int
  sd_tmpsize :: int

definition sockdata :: sock_data where
  "sockdata = \<lparr>sd_server_fd = - 1, sd_client_fd = - 1, sd_port = 1234, sd_ql = 5, sd_ipv = 0, sd_ips = ''127.0.0.1'',
     sd_server_sa = (0, 0), sd_tmplen = 0, sd_tmpsize = 4096\<rparr>"

text \<open>
  The results of \<^verbatim>\<open>socket\<close>, \<^verbatim>\<open>inet_addr\<close>, \<^verbatim>\<open>bind\<close>, \<^verbatim>\<open>listen\<close> and \<^verbatim>\<open>accept\<close>. A descriptor that is
  negative answers every \<^verbatim>\<open>read\<close> and \<^verbatim>\<open>write\<close> with an error: \<open>sk_tries\<close> of them are kept, and
  the code blocks in a run that would need more.
\<close>

record sock_env =
  sk_socket :: int
  sk_addr :: "string \<Rightarrow> u32"
  sk_bind :: int
  sk_listen :: int
  sk_accept :: int
  sk_tries :: nat

datatype sys_call = Sys_bind int "u16 \<times> u32" | Sys_listen int int | Sys_accept int | Sys_unlink string | Sys_close int

record ('h, 'w) server =
  sdata :: sock_data
  scalls :: "sys_call list"
  sapp :: "('h, 'w) app"

definition htons :: "u16 \<Rightarrow> u16" where
  "htons p = push_bit 8 p OR drop_bit 8 p"

definition sys :: "sys_call \<Rightarrow> ('h, 'w) server \<Rightarrow> ('h, 'w) server" where
  "sys c s = s\<lparr>scalls := scalls s @ [c]\<rparr>"

text \<open>The descriptor the console reads from and writes to.\<close>

definition connect_io :: "sock_env \<Rightarrow> io \<Rightarrow> io" where
  "connect_io e s =
     (if sk_accept e < 0
      then s\<lparr>io_reads := replicate (sk_tries e) Rd_err, io_accept := replicate (sk_tries e) (- 1)\<rparr> else s)"

section \<open>The program\<close>

definition server_run ::
  "cflags \<Rightarrow> ('d, 'h, 'w) libusb \<Rightarrow> ('h, 'w) server \<Rightarrow> (int \<times> ('h, 'w) server) res option"
where
  "server_run b lib s =
     map_option (\<lambda>m. res_bind m (\<lambda>(r, a). Inr (r, s\<lparr>sapp := a\<rparr>))) (comm_main b lib (sapp s))"

definition sock_say :: "string \<Rightarrow> targ list \<Rightarrow> ('h, 'w) server \<Rightarrow> ('h, 'w) server" where
  "sock_say fmt args s = s\<lparr>sapp := out_trace sock_trmask 2 fmt args (sapp s)\<rparr>"

text \<open>The label \<^verbatim>\<open>exit\<close>.\<close>

definition server_exit :: "('h, 'w) server \<Rightarrow> int \<times> ('h, 'w) server" where
  "server_exit s =
     (let s1 = sys (Sys_unlink (sd_ips (sdata s))) s;
          s2 = sys (Sys_close (sd_server_fd (sdata s1))) s1
      in (0, sock_say ''server closed'' [] s2))"

definition server_accept ::
  "cflags \<Rightarrow> ('d, 'h, 'w) libusb \<Rightarrow> sock_env \<Rightarrow> ('h, 'w) server \<Rightarrow> (int \<times> ('h, 'w) server) res option"
where
  "server_accept b lib e s =
     (let s1 = sys (Sys_accept (sd_server_fd (sdata s))) (sock_say ''wait connection ...'' [] s);
          s2 = s1\<lparr>sdata := (sdata s1)\<lparr>sd_client_fd := sk_accept e\<rparr>, sapp := on_io (connect_io e) (sapp s1)\<rparr>;
          s3 = sock_say ''client %d connceted'' [TInt (sd_client_fd (sdata s2))] s2
      in map_option (\<lambda>m. res_bind m (\<lambda>(r, s4). Inr (server_exit s4))) (server_run b lib s3))"

definition server_main ::
  "cflags \<Rightarrow> ('d, 'h, 'w) libusb \<Rightarrow> sock_env \<Rightarrow> ('h, 'w) server \<Rightarrow> (int \<times> ('h, 'w) server) res option"
where
  "server_main b lib e s =
     (if sk_socket e < 0 then Some (Inr (- 1, s))
      else
        let s1 = s\<lparr>sdata := (sdata s)\<lparr>sd_server_fd := sk_socket e,
                     sd_server_sa := (htons (of_int (sd_port (sdata s))), sk_addr e (sd_ips (sdata s)))\<rparr>\<rparr>;
            psd = sdata s1;
            s2 = sys (Sys_bind (sd_server_fd psd) (sd_server_sa psd)) s1
        in if sk_bind e \<noteq> 0 then Some (Inr (server_exit s2))
           else
             let s3 = sock_say ''bind ok, fd:%d, ip:%s, port:%d''
                        [TInt (sd_server_fd psd), TStr (sd_ips psd), TInt (sd_port psd)] s2;
                 s4 = sys (Sys_listen (sd_server_fd psd) (sd_ql psd)) s3
             in if sk_listen e \<noteq> 0 then Some (Inr (server_exit s4)) else server_accept b lib e s4)"

text \<open>
  \<^verbatim>\<open>main\<close>: the socket server, the tests of the build with \<^verbatim>\<open>TEST\<close> (\<open>test_main\<close>
  is a parameter, as it has no part of this memory: see \<open>Test_Keys\<close>) or the console.
\<close>

definition prog_main ::
  "cflags \<Rightarrow> bool \<Rightarrow> (('h, 'w) server \<Rightarrow> (int \<times> ('h, 'w) server) res option) \<Rightarrow> ('d, 'h, 'w) libusb \<Rightarrow> sock_env
   \<Rightarrow> ('h, 'w) server \<Rightarrow> (int \<times> ('h, 'w) server) res option"
where
  "prog_main b test test_main lib e s =
     (if use_socket b then server_main b lib e s
      else if test then test_main s else server_run b lib s)"

section \<open>How it ends\<close>

lemmas server_defs = server_main_def server_accept_def server_exit_def sock_say_def sys_def Let_def

lemma server_run_keeps:
  "server_run b lib s = Some (Inr (r, s')) \<Longrightarrow> sdata s' = sdata s \<and> scalls s' = scalls s"
  by (auto simp: server_run_def res_bind_Inr_iff)

lemma server_calls:
  assumes "server_main b lib e s = Some (Inr (r, s'))" and "0 \<le> sk_socket e"
  shows "r = 0 \<and> (\<exists>opening. scalls s' = scalls s @ opening @ [Sys_unlink (sd_ips (sdata s)), Sys_close (sk_socket e)]
    \<and> (\<forall>c \<in> set opening. \<forall>p fd. c \<noteq> Sys_unlink p \<and> c \<noteq> Sys_close fd))"
  using assms
  by (auto simp: server_defs res_bind_Inr_iff split: if_split_asm dest!: server_run_keeps)

lemma getc_no_bytes: "reads_bytes (io_reads s) = [] \<Longrightarrow> sock_getc_blocked s = None"
proof (induction s rule: sock_getc_blocked.induct)
  case (1 s)
  show ?case
  proof (cases "sys_read 1 (io_reads s)")
    case None
    then show ?thesis by (simp add: sock_getc_blocked.simps [of s])
  next
    case (Some a)
    then obtain cnt bs es where r: "sys_read 1 (io_reads s) = Some (cnt, bs, es)" by (cases a) auto
    have e: "bs = []" "reads_bytes es = []" using sys_read_bytes [OF r] "1.prems" by auto
    then have "\<not> cnt > 0" using sys_read_cnt [OF r] by auto
    then consider "cnt = 0" | "cnt < 0" by linarith
    then show ?thesis
    proof cases
      assume "cnt = 0"
      then show ?thesis using "1.IH"(1) [OF r] r e by (auto simp: sock_getc_blocked.simps [of s])
    next
      assume "cnt < 0"
      then show ?thesis using "1.IH"(2) [OF r] r e by (auto simp: sock_getc_blocked.simps [of s])
    qed
  qed
qed

lemma reads_of_errors [simp]: "reads_bytes (replicate n Rd_err) = []"
  by (induction n) auto

lemma silent_main:
  assumes "use_socket b" and "cmd_obj (cst a) = static_obj" and "reads_bytes (io_reads (cio (cst a))) = []"
  shows "comm_main b lib a = None"
proof -
  obtain a1 where a1: "io_pending b (cio (cst a1)) = io_pending b (cio (cst a))"
      "comm_main b lib a = map_option (\<lambda>m. res_bind m (main_finish b lib)) (main_loop b lib a1)"
    by (rule comm_main_start [OF assms(2), of b lib]) blast
  have "reads_bytes (io_reads (comm_show_screen b (cio (cst a1)))) = []"
    using a1(1) assms(1,3) by (simp add: io_pending_def comm_show_screen_def)
  then have "comm_fgetc b (comm_show_screen b (cio (cst a1))) = None"
    using assms(1) by (simp add: comm_fgetc_def getc_no_bytes)
  then have "console_round b lib a1 = None"
    by (simp add: console_round_def comm_get_command_def comm_get_loop.simps [where i = "comm_show_screen _ _"])
  then show ?thesis using a1(2) by (subst (asm) main_loop.simps) simp
qed

end
