(* ===== verification/Usb_Access.thy ===== *)
theory Usb_Access
  imports Usb_Session
begin

text \<open>
  The exact transfers behind \<^verbatim>\<open>usb read\<close>, \<^verbatim>\<open>usb write\<close> and \<^verbatim>\<open>usb fm\<close>: which setup packet
  goes out for which command line, what is refused before anything is sent, and what a
  device that answers is seen to hold.
\<close>

section \<open>Which accesses are allowed\<close>

text \<open>The module's opcode, the length of one access and the step to the next address.\<close>

definition mod_access :: "string \<Rightarrow> u32 \<Rightarrow> (int \<times> u32 \<times> u32) option" where
  "mod_access name addr =
     (if name = ''ana'' \<or> name = ''pmu''
      then if addr < 0x400 then Some (if name = ''ana'' then 1 else 2, 2, 1) else None
      else if name = ''dig'' \<or> name = ''mem''
      then if addr mod 4 = 0 then Some (if name = ''dig'' then 3 else 4, 4, 4) else None
      else None)"

definition is_module :: "string \<Rightarrow> bool" where
  "is_module name \<longleftrightarrow> name \<in> {''ana'', ''pmu'', ''dig'', ''mem''}"

lemma and_3_mod: "addr AND 3 = 0 \<longleftrightarrow> addr mod 4 = (0 :: u32)"
proof -
  have "addr AND 3 = take_bit 2 addr" by (simp add: take_bit_eq_mask mask_eq_exp_minus_1)
  then show ?thesis by (simp add: take_bit_eq_mod)
qed

lemma module_ids [simp]:
  "sub_cmd_first rw_sub_cmds ''ana'' = 1" "sub_cmd_first rw_sub_cmds ''pmu'' = 2"
  "sub_cmd_first rw_sub_cmds ''dig'' = 3" "sub_cmd_first rw_sub_cmds ''mem'' = 4"
  by (simp_all add: rw_sub_cmds_def)

lemma module_cases:
  assumes "is_module name"
  obtains (word) "name = ''ana'' \<or> name = ''pmu''" | (dword) "name = ''dig'' \<or> name = ''mem''"
  using assms by (auto simp: is_module_def)

section \<open>usb write\<close>

text \<open>A write is one transfer or none.\<close>

lemma rw_send_call:
  assumes "rw_send lib c addr buf len s = (r, s')"
  shows "ucalls s' = ucalls s @ [Lib_transfer (uc_handle s) (raw_setup REQ_TYPE_OTH_WR (of_int c) addr len) buf]
    \<and> uc_bind s' = uc_bind s \<and> uc_handle s' = uc_handle s
    \<and> (r = 0 \<or> r = 1)
    \<and> (r = 0 \<longleftrightarrow> fst (lu_control_transfer lib (uc_handle s)
          (raw_setup REQ_TYPE_OTH_WR (of_int c) addr len) buf 1000 (uworld s)) = uint len)
    \<and> uworld s' = snd (snd (lu_control_transfer lib (uc_handle s)
          (raw_setup REQ_TYPE_OTH_WR (of_int c) addr len) buf 1000 (uworld s)))
    \<and> (r = 0 \<longrightarrow> uout s' = uout s)"
  using assms
  by (auto simp: rw_send_def usb_raw_write_def call_transfer_def raw_setup_def REQ_TYPE_OTH_WR_def
      Let_def usb_trace_def split: prod.splits if_splits)

lemma rw_write_cases:
  assumes bound: "uc_bind s \<noteq> 0" and len: "4 < length args" and m: "is_module (args ! 2)"
  defines "a \<equiv> strtoul_u32 (args ! 3)" and "v \<equiv> strtoul_u32 (args ! 4)"
  shows "usb_handle_cmd_rw lib args 0 s =
     (case mod_access (args ! 2) a of
        None \<Rightarrow> (- 3, if args ! 2 = ''ana'' \<or> args ! 2 = ''pmu''
                      then usb_trace 0 ''addr %x out of range 0x%x'' [TInt (uint a), TInt 0x400] s
                      else usb_trace 0 ''unaligned addr %x'' [TInt (uint a)] s)
      | Some (c, n, inc) \<Rightarrow> rw_send lib c a (take (unat n) (le_bytes4 v)) n s)"
proof -
  have len': "2 < length args" "3 < length args" "\<not> length args \<le> 4" using len by auto
  have cut: "le_bytes2 v = take 2 (le_bytes4 v)" "le_bytes4 v = take 4 (le_bytes4 v)"
    by (simp_all add: le_bytes2_def le_bytes4_def)
  show ?thesis
    using m
  proof (cases rule: module_cases)
    case word
    then show ?thesis using bound len len' cut
      by (elim disjE) (auto simp: usb_handle_cmd_rw_def is_mem_mod_def mod_access_def Let_def
          a_def v_def ANA_REG_MAX_ADDR_def)
  next
    case dword
    then show ?thesis using bound len len' cut
      by (elim disjE) (auto simp: usb_handle_cmd_rw_def is_mem_mod_def mod_access_def Let_def
          a_def v_def and_3_mod)
  qed
qed

section \<open>usb read\<close>

fun read_calls :: "'h option \<Rightarrow> int \<Rightarrow> u32 \<Rightarrow> u32 \<Rightarrow> nat \<Rightarrow> u32 \<Rightarrow> 'h lib_call list" where
  "read_calls h c len inc 0 a = []"
| "read_calls h c len inc (Suc n) a =
     Lib_transfer h (raw_setup REQ_TYPE_OTH_RD (of_int c) a len) [] # read_calls h c len inc n (a + inc)"

lemma read_calls_map:
  "read_calls h c len inc n a =
   map (\<lambda>k. Lib_transfer h (raw_setup REQ_TYPE_OTH_RD (of_int c) (a + of_nat k * inc) len) []) [0..<n]"
proof (induction n arbitrary: a)
  case (Suc n)
  have "[0..<Suc n] = 0 # map Suc [0..<n]" by (simp add: map_Suc_upt upt_conv_Cons)
  then show ?case using Suc by (simp add: algebra_simps del: upt_Suc)
qed simp

lemma raw_read_fields:
  assumes "usb_raw_read lib h REQ_TYPE_OTH_RD op a buf len s = (r, buf', s')"
  shows "ucalls s' = ucalls s @ [Lib_transfer h (raw_setup REQ_TYPE_OTH_RD op a len) []]"
    and "uc_handle s' = uc_handle s" and "uc_bind s' = uc_bind s" and "length buf' = length buf"
    and "uout s' = uout s"
  using assms
  by (auto simp: usb_raw_read_def call_transfer_def raw_setup_def REQ_TYPE_OTH_RD_def Let_def
      split: prod.splits if_splits)

text \<open>
  What the transfers of a read give, in their order: the address, libusb's result and the buffer after it, each
  transfer being made in the world that the one before left.
\<close>

fun read_answers ::
  "('d, 'h, 'w) libusb \<Rightarrow> 'h option \<Rightarrow> int \<Rightarrow> u32 \<Rightarrow> u32 \<Rightarrow> nat \<Rightarrow> u32 \<Rightarrow> u8 list \<Rightarrow> 'w \<Rightarrow> (u32 \<times> int \<times> u8 list) list"
where
  "read_answers lib h c len inc 0 a buf w = []"
| "read_answers lib h c len inc (Suc n) a buf w =
     (let (r, bs, w1) = lu_control_transfer lib h (raw_setup REQ_TYPE_OTH_RD (of_int c) a len) buf 1000 w
      in (a, r, overlay bs buf) # read_answers lib h c len inc n (a + inc) (overlay bs buf) w1)"

text \<open>The number of transfers that did not bring as many bytes as were asked for, and the line printed for each transfer.\<close>

definition failed_reads :: "u32 \<Rightarrow> (u32 \<times> int \<times> u8 list) list \<Rightarrow> nat" where
  "failed_reads len ans = length (filter (\<lambda>(a, r, b). r \<noteq> uint len) ans)"

definition read_line :: "u32 \<Rightarrow> u32 \<times> int \<times> u8 list \<Rightarrow> trace" where
  "read_line len = (\<lambda>(a, r, b).
     if r \<noteq> uint len then Trace ''read error, rlen=%d, len=%d'' [TInt r, TInt (uint len)]
     else Trace ''DATA: [%x] = %x'' [TInt (uint a), TInt (uint (rw_word len b))])"

lemma length_read_answers [simp]: "length (read_answers lib h c len inc n a buf w) = n"
  by (induction n arbitrary: a buf w) (simp_all add: split_beta)

lemma raw_read_answer:
  assumes "usb_raw_read lib h REQ_TYPE_OTH_RD op a buf len s = (r, buf', s')"
  shows "\<exists>bs. lu_control_transfer lib h (raw_setup REQ_TYPE_OTH_RD op a len) buf 1000 (uworld s) = (r, bs, uworld s')
    \<and> buf' = overlay bs buf"
  using assms
  by (auto simp: usb_raw_read_def call_transfer_def raw_setup_def REQ_TYPE_OTH_RD_def Let_def split: prod.splits if_splits)

lemma read_loop_calls:
  "rw_read_loop lib c len inc n a buf err s = (r, s') \<Longrightarrow>
   ucalls s' = ucalls s @ read_calls (uc_handle s) c len inc n a
   \<and> r = err + int (failed_reads len (read_answers lib (uc_handle s) c len inc n a buf (uworld s)))
   \<and> uout s' = uout s @ map (read_line len) (read_answers lib (uc_handle s) c len inc n a buf (uworld s))
   \<and> uc_handle s' = uc_handle s \<and> uc_bind s' = uc_bind s"
proof (induction n arbitrary: a buf err s)
  case 0
  then show ?case by (simp add: failed_reads_def)
next
  case (Suc n)
  obtain rl b s1 where x: "usb_raw_read lib (uc_handle s) REQ_TYPE_OTH_RD (of_int c) a buf len s = (rl, b, s1)"
    by (cases "usb_raw_read lib (uc_handle s) REQ_TYPE_OTH_RD (of_int c) a buf len s") auto
  note f = raw_read_fields [OF x]
  obtain bs where t: "lu_control_transfer lib (uc_handle s) (raw_setup REQ_TYPE_OTH_RD (of_int c) a len) buf 1000 (uworld s)
      = (rl, bs, uworld s1)" "b = overlay bs buf"
    using raw_read_answer [OF x] by blast
  define s2 where "s2 = s1\<lparr>uout := uout s1 @ [read_line len (a, rl, b)]\<rparr>"
  have go: "rw_read_loop lib c len inc n (a + inc) b (if rl \<noteq> uint len then err + 1 else err) s2 = (r, s')"
    using Suc.prems x trace_levels
    by (auto simp: s2_def read_line_def usb_trace_def usb_trmask_def split: if_splits)
  from Suc.IH [OF go] show ?case
    using f t by (auto simp: s2_def failed_reads_def)
qed

lemma rw_read_cases:
  assumes bound: "uc_bind s \<noteq> 0" and len: "3 < length args" and m: "is_module (args ! 2)"
  defines "a \<equiv> strtoul_u32 (args ! 3)"
    and "nr \<equiv> (if length args > 4 then strtoul_u32 (args ! 4) else 1)"
  shows "usb_handle_cmd_rw lib args 1 s =
     (case mod_access (args ! 2) a of
        None \<Rightarrow> (- 3, if args ! 2 = ''ana'' \<or> args ! 2 = ''pmu''
                      then usb_trace 0 ''addr %x out of range 0x%x'' [TInt (uint a), TInt 0x400] s
                      else usb_trace 0 ''unaligned addr %x'' [TInt (uint a)] s)
      | Some (c, n, inc) \<Rightarrow>
          rw_read_loop lib c n inc (unat (nr * 4 div n)) a (replicate 8 0) 0 s)"
proof -
  have len': "2 < length args" using len by auto
  show ?thesis
    using m
  proof (cases rule: module_cases)
    case word
    then show ?thesis using bound len len'
      unfolding usb_handle_cmd_rw_def rw_fetch_def Let_def nr_def [symmetric]
      by (elim disjE) (auto simp: is_mem_mod_def mod_access_def a_def ANA_REG_MAX_ADDR_def)
  next
    case dword
    have "(if is_mem_mod c then unat (nr * 4 div n) else 0) = unat (nr * 4 div n)" if "c = 3 \<or> c = 4" for c n
      using that by (auto simp: is_mem_mod_def)
    then show ?thesis using dword bound len len'
      unfolding usb_handle_cmd_rw_def rw_fetch_def Let_def nr_def [symmetric]
      by (elim disjE) (simp_all add: mod_access_def a_def and_3_mod)
  qed
qed

section \<open>What a device that answers is seen to hold\<close>

text \<open>
  \<open>serves lib h w c len f\<close>: in world \<open>w\<close> every read of module \<open>c\<close> at address \<open>a\<close> returns the
  \<open>len\<close> bytes \<open>f a\<close> and changes nothing.
\<close>

definition serves ::
  "('d, 'h, 'w) libusb \<Rightarrow> 'h option \<Rightarrow> 'w \<Rightarrow> int \<Rightarrow> u32 \<Rightarrow> (u32 \<Rightarrow> u8 list) \<Rightarrow> bool"
where
  "serves lib h w c len f \<longleftrightarrow>
     (\<forall>a buf. lu_control_transfer lib h (raw_setup REQ_TYPE_OTH_RD (of_int c) a len) buf 1000 w
        = (uint len, f a, w) \<and> length (f a) = unat len)"

fun data_lines :: "u32 \<Rightarrow> u32 \<Rightarrow> (u32 \<Rightarrow> u8 list) \<Rightarrow> nat \<Rightarrow> u32 \<Rightarrow> trace list" where
  "data_lines len inc f 0 a = []"
| "data_lines len inc f (Suc n) a =
     Trace ''DATA: [%x] = %x'' [TInt (uint a), TInt (uint (rw_word len (f a)))]
     # data_lines len inc f n (a + inc)"

lemma rw_word_overlay:
  assumes "length bs = unat len" and "len = 2 \<or> len = 4" and "length buf = 8"
  shows "rw_word len (overlay bs buf) = rw_word len bs"
  using assms by (auto simp: rw_word_def overlay_def nth_append)

lemma read_loop_serves:
  assumes "len = 2 \<or> len = 4"
  shows "serves lib (uc_handle s) (uworld s) c len f \<Longrightarrow> length buf = 8 \<Longrightarrow>
    \<exists>s'. rw_read_loop lib c len inc n a buf err s = (err, s') \<and> uworld s' = uworld s
         \<and> uout s' = uout s @ data_lines len inc f n a"
proof (induction n arbitrary: a buf s)
  case (Suc n)
  have dev: "lu_control_transfer lib (uc_handle s) (raw_setup REQ_TYPE_OTH_RD (of_int c) a len) buf 1000
      (uworld s) = (uint len, f a, uworld s)" and fa: "length (f a) = unat len"
    using Suc.prems(1) by (auto simp: serves_def)
  let ?s1 = "s\<lparr>uworld := uworld s,
      ucalls := ucalls s @ [Lib_transfer (uc_handle s) (raw_setup REQ_TYPE_OTH_RD (of_int c) a len) []]\<rparr>"
  have x: "usb_raw_read lib (uc_handle s) REQ_TYPE_OTH_RD (of_int c) a buf len s
      = (uint len, overlay (f a) buf, ?s1)"
    using dev by (simp add: usb_raw_read_def call_transfer_def raw_setup_def REQ_TYPE_OTH_RD_def)
  have w: "rw_word len (overlay (f a) buf) = rw_word len (f a)"
    using fa assms Suc.prems(2) by (rule rw_word_overlay)
  let ?s2 = "usb_trace 2 ''DATA: [%x] = %x'' [TInt (uint a), TInt (uint (rw_word len (f a)))] ?s1"
  have "\<exists>s'. rw_read_loop lib c len inc n (a + inc) (overlay (f a) buf) err ?s2 = (err, s')
      \<and> uworld s' = uworld ?s2 \<and> uout s' = uout ?s2 @ data_lines len inc f n (a + inc)"
    using Suc.prems by (intro Suc.IH) simp_all
  moreover have "uout ?s2 = uout s @ [Trace ''DATA: [%x] = %x'' [TInt (uint a), TInt (uint (rw_word len (f a)))]]"
    using trace_levels by (simp add: usb_trace_def usb_trmask_def)
  ultimately show ?case using x w by simp
qed simp

lemma rw_word_bytes4: "rw_word 4 (le_bytes4 v) = v"
  by (simp add: rw_word_def le_bytes4_def le_word4_bytes4)

lemma unat_4_div: "unat ((1 :: u32) * 4 div 4) = 1" "unat ((1 :: u32) * 4 div 2) = 2"
  by simp_all

section \<open>usb fm\<close>

text \<open>
  The one transfer behind each FM command with and without an argument. Setting masks the
  argument to the width of the field; \<^verbatim>\<open>band\<close> and \<^verbatim>\<open>mute\<close> are queried with the primitive
  for setting.
\<close>

definition fm_setup :: "u8 \<Rightarrow> u16 \<Rightarrow> u16 \<Rightarrow> u16 \<Rightarrow> ctl_setup" where
  "fm_setup prim op v n = \<lparr>bmRequestType = REQ_TYPE_DEV_RD, bRequest = prim, wValue = op, wIndex = v, wLength = n\<rparr>"

definition fm_packet :: "string \<Rightarrow> u16 option \<Rightarrow> ctl_setup option" where
  "fm_packet name arg =
     (if name = ''on'' then Some (fm_setup 0xA1 0 1 1)
      else if name = ''off'' then Some (fm_setup 0xA1 0 0 1)
      else if name = ''device'' then Some (fm_setup 0xA2 1 0 2)
      else if name = ''volume''
      then Some (case arg of None \<Rightarrow> fm_setup 0xA2 8 0 2 | Some v \<Rightarrow> fm_setup 0xA1 5 (v AND 0xF) 1)
      else if name = ''channel''
      then Some (case arg of None \<Rightarrow> fm_setup 0xA2 13 0 2 | Some v \<Rightarrow> fm_setup 0xA1 9 v 1)
      else if name = ''band''
      then Some (case arg of None \<Rightarrow> fm_setup 0xA1 3 0 2 | Some v \<Rightarrow> fm_setup 0xA1 1 (v AND 3) 1)
      else if name = ''mute''
      then Some (case arg of None \<Rightarrow> fm_setup 0xA1 6 0 2 | Some v \<Rightarrow> fm_setup 0xA1 4 (v AND 3) 1)
      else None)"

lemma fm_ids [simp]:
  "sub_cmd_last fm_sub_cmds ''on'' (- 1) = 0" "sub_cmd_last fm_sub_cmds ''off'' (- 1) = 1"
  "sub_cmd_last fm_sub_cmds ''volume'' (- 1) = 2" "sub_cmd_last fm_sub_cmds ''channel'' (- 1) = 3"
  "sub_cmd_last fm_sub_cmds ''band'' (- 1) = 4" "sub_cmd_last fm_sub_cmds ''device'' (- 1) = 5"
  "sub_cmd_last fm_sub_cmds ''test'' (- 1) = 6" "sub_cmd_last fm_sub_cmds ''mute'' (- 1) = 7"
  by (simp_all add: fm_sub_cmds_def)

lemma fm_xfer_calls:
  assumes "usb_fm_raw_xfer lib h ty rq v i l buf s = (r, b, s')" and "ty = REQ_TYPE_DEV_RD"
  shows "ucalls s' = ucalls s @ [Lib_transfer h (fm_setup rq v i l) []]"
    and "uc_handle s' = uc_handle s"
  using assms
  by (auto simp: usb_fm_raw_xfer_def call_transfer_def fm_setup_def REQ_TYPE_DEV_RD_def Let_def
      split: prod.splits if_splits)

lemma fm_op_calls:
  "ucalls (snd (usb_fm_cmd_power lib on s)) = ucalls s @
     [Lib_transfer (uc_handle s) (fm_setup 0xA1 0 (if on \<noteq> 0 then 1 else 0) 1) []]"
  "ucalls (snd (snd (usb_fm_cmd_volume lib v set1 s))) = ucalls s @
     [Lib_transfer (uc_handle s) (if set1 \<noteq> 0 then fm_setup 0xA1 5 (v AND 0xF) 1 else fm_setup 0xA2 8 0 2) []]"
  "ucalls (snd (snd (usb_fm_cmd_channel lib v set1 s))) = ucalls s @
     [Lib_transfer (uc_handle s) (if set1 \<noteq> 0 then fm_setup 0xA1 9 v 1 else fm_setup 0xA2 13 0 2) []]"
  "ucalls (snd (snd (usb_fm_cmd_band lib v set1 s))) = ucalls s @
     [Lib_transfer (uc_handle s) (if set1 \<noteq> 0 then fm_setup 0xA1 1 (v AND 3) 1 else fm_setup 0xA1 3 0 2) []]"
  "ucalls (snd (snd (usb_fm_cmd_mute lib v set1 s))) = ucalls s @
     [Lib_transfer (uc_handle s) (if set1 \<noteq> 0 then fm_setup 0xA1 4 (v AND 3) 1 else fm_setup 0xA1 6 0 2) []]"
  "ucalls (snd (snd (usb_fm_cmd_get_device lib v s))) = ucalls s @
     [Lib_transfer (uc_handle s) (fm_setup 0xA2 1 0 2) []]"
  by (auto simp: usb_fm_cmd_power_def usb_fm_cmd_volume_def usb_fm_cmd_channel_def usb_fm_cmd_band_def
      usb_fm_cmd_mute_def usb_fm_cmd_get_device_def Let_def dest: fm_xfer_calls split: prod.splits)

lemma talks_handle: "talks s s' \<Longrightarrow> uc_handle s' = uc_handle s"
  by (simp add: talks_def)

lemma fm_keeps_handle:
  "uc_handle (snd (usb_fm_cmd_power lib on s)) = uc_handle s"
  "uc_handle (snd (snd (usb_fm_cmd_get_device lib v s))) = uc_handle s"
  "uc_handle (snd (snd (usb_fm_cmd_band lib v set1 s))) = uc_handle s"
  "uc_handle (snd (snd (usb_fm_cmd_channel lib v set1 s))) = uc_handle s"
  by (rule talks_handle, rule fm_ops_talk, rule talks_refl)+

lemma fm_command:
  assumes bound: "uc_bind s \<noteq> 0" and len: "2 < length args"
    and p: "fm_packet (args ! 2) (if 3 < length args then Some (strtoul_u16 (args ! 3)) else None) = Some su"
  shows "\<exists>s'. usb_handle_cmd_fm lib args s = (0, s')
           \<and> ucalls s' = ucalls s @ [Lib_transfer (uc_handle s) su []]"
proof -
  have "args ! 2 \<in> {''on'', ''off'', ''device'', ''volume'', ''channel'', ''band'', ''mute''}"
    using p by (simp add: fm_packet_def split: if_splits)
  then show ?thesis using bound len p
    by (elim insertE emptyE)
       (simp_all add: usb_handle_cmd_fm_def fm_packet_def fm_op_calls split: if_splits)
qed

lemma fm_test_calls:
  "ucalls (snd (usb_fm_cmd_test lib s)) = ucalls s @
     map (\<lambda>su. Lib_transfer (uc_handle s) su [])
       [fm_setup 0xA2 1 0 2, fm_setup 0xA1 0 1 1, fm_setup 0xA1 1 0 1, fm_setup 0xA1 9 9740 1,
        fm_setup 0xA1 5 8 1]"
  by (simp add: usb_fm_cmd_test_def Let_def split_beta fm_op_calls fm_keeps_handle)

end
