(* ===== verification/Usb_Device.thy ===== *)
theory Usb_Device
  imports Usb_Access
begin

text \<open>
  A concrete libusb for the examples: one device that is always there and holds four bytes
  at every 32-bit address. It is not part of the program; it shows that the laws the
  theorems ask of libusb can hold.
\<close>

definition setup_addr :: "ctl_setup \<Rightarrow> u32" where
  "setup_addr su = push_bit 16 (ucast (wIndex su)) OR ucast (wValue su)"

lemma setup_addr_raw: "setup_addr (raw_setup request opcode addr len) = addr"
  using addr_halves [of addr] by (simp add: setup_addr_def raw_setup_def)

definition ram_lib :: "(unit, unit, u32 \<Rightarrow> u8 list) libusb" where
  "ram_lib =
     \<lparr>lu_init = (\<lambda>w. (0, w)), lu_exit = (\<lambda>w. w),
      lu_open_vid_pid = (\<lambda>vid pid w. (Some (), w)), lu_close = (\<lambda>h w. w),
      lu_control_transfer = (\<lambda>h su buf timeout w.
        if bmRequestType su = REQ_TYPE_OTH_RD
        then (uint (wLength su), take (unat (wLength su)) (w (setup_addr su)), w)
        else (uint (wLength su), [], w(setup_addr su := buf))),
      lu_get_device_list = (\<lambda>w. (0, [], w)),
      lu_get_device_descriptor = (\<lambda>d w. (0, None, w)),
      lu_get_active_config = (\<lambda>d w. (0, None, w)),
      lu_bus_number = (\<lambda>d. 0), lu_port_number = (\<lambda>d. 0), lu_device_address = (\<lambda>d. 0),
      lu_device_speed = (\<lambda>d. 0), lu_free_device_list = (\<lambda>ds w. w)\<rparr>"

text \<open>A bound device whose memory holds the bytes 1, 2, 3, 4 everywhere.\<close>

definition ram_usb :: "(unit, u32 \<Rightarrow> u8 list) usb" where
  "ram_usb =
     \<lparr>uc_bind = 1, uc_handle = Some (), uc_vid = 0xBE57, uc_pid = 0x0238,
      uworld = (\<lambda>_. [1, 2, 3, 4]), ucalls = [Lib_init 0, Lib_open 0xBE57 0x0238 (Some ())], uout = []\<rparr>"

lemma ram_usb_ok: "usb_ok ram_usb"
  by (simp add: ram_usb_def usb_ok_def)

lemma raw_wLength: "wLength (raw_setup q c a 4) = 4" "wLength (raw_setup q c a 2) = 2"
  by (simp_all add: raw_setup_def)

lemma ram_serves:
  "(\<And>a. length (w a) = 4) \<Longrightarrow> n = 4 \<or> n = 2 \<Longrightarrow> serves ram_lib h w c n (\<lambda>a. take (unat n) (w a))"
  by (auto simp: serves_def ram_lib_def setup_addr_raw raw_wLength)
     (simp_all add: raw_setup_def)

end
