(* ===== verification/Step_System.thy ===== *)
theory Step_System
  imports C_Prelude
begin

text \<open>
  What the threaded programs share: a program whose threads take turns is a step relation on its state, a
  run is the closure of it. The locales collect what follows from an invariant that every step keeps, from a
  cost that every step lowers, and from steps that a schedule picks.
\<close>

section \<open>Schedules\<close>

text \<open>\<open>move m s\<close> is the step of the mover \<open>m\<close>, if it can move; a step that is undefined ends the schedule.\<close>

fun follow :: "('m \<Rightarrow> 's \<Rightarrow> 's res option) \<Rightarrow> 'm list \<Rightarrow> 's \<Rightarrow> 's res option" where
  "follow move [] s = Some (Inr s)"
| "follow move (m # ms) s =
     (case move m s of
        None \<Rightarrow> None
      | Some (Inl e) \<Rightarrow> Some (Inl e)
      | Some (Inr s') \<Rightarrow> follow move ms s')"

text \<open>What can be seen of the state a schedule ends in.\<close>

definition seen :: "('s \<Rightarrow> 'a) \<Rightarrow> 's res option \<Rightarrow> 'a option" where
  "seen f m = (case m of Some (Inr s) \<Rightarrow> Some (f s) | _ \<Rightarrow> None)"

lemma seenE:
  assumes "seen f m = Some v"
  obtains s where "m = Some (Inr s)" and "f s = v"
  using assms by (auto simp: seen_def split: option.splits sum.splits)

locale scheduled =
  fixes step :: "'s \<Rightarrow> 's \<Rightarrow> bool" and move :: "'m \<Rightarrow> 's \<Rightarrow> 's res option"
  assumes move_step: "move m s = Some (Inr s') \<Longrightarrow> step s s'"
begin

lemma follow_steps: "follow move ms s = Some (Inr s') \<Longrightarrow> (step ^^ length ms) s s'"
proof (induction ms arbitrary: s)
  case (Cons m ms)
  then obtain s1 where s1: "move m s = Some (Inr s1)" "follow move ms s1 = Some (Inr s')"
    by (auto split: option.splits sum.splits)
  have "step s s1" by (rule move_step [OF s1(1)])
  moreover have "(step ^^ length ms) s1 s'" by (rule Cons.IH [OF s1(2)])
  ultimately show ?case unfolding list.size(4) add_Suc_right add_0_right by (rule relpowp_Suc_I2)
qed simp

lemma follow_run: "follow move ms s = Some (Inr s') \<Longrightarrow> step\<^sup>*\<^sup>* s s'"
  using follow_steps relpowp_imp_rtranclp by metis

lemma follow_on: "step\<^sup>*\<^sup>* s0 s \<Longrightarrow> follow move ms s = Some (Inr s') \<Longrightarrow> step\<^sup>*\<^sup>* s0 s'"
  using follow_run by (auto intro: rtranclp_trans)

end

section \<open>Invariants and costs\<close>

locale safe_system =
  fixes step :: "'s \<Rightarrow> 's \<Rightarrow> bool" and inv :: "'s \<Rightarrow> bool"
  assumes step_keeps: "inv s \<Longrightarrow> step s s' \<Longrightarrow> inv s'"
begin

lemma run_keeps: "step\<^sup>*\<^sup>* s s' \<Longrightarrow> inv s \<Longrightarrow> inv s'"
  by (induction rule: rtranclp_induct) (auto intro: step_keeps)

lemma steps_keep: "(step ^^ n) s s' \<Longrightarrow> inv s \<Longrightarrow> inv s'"
  by (metis relpowp_imp_rtranclp run_keeps)

end

locale ending_system = safe_system +
  fixes cost :: "'s \<Rightarrow> nat"
  assumes step_cost: "inv s \<Longrightarrow> step s s' \<Longrightarrow> cost s' < cost s"
begin

lemma steps_bounded: "(step ^^ n) s s' \<Longrightarrow> inv s \<Longrightarrow> n + cost s' \<le> cost s"
proof (induction n arbitrary: s')
  case (Suc n)
  then obtain s1 where s1: "(step ^^ n) s s1" "step s1 s'" by auto
  have "cost s' < cost s1" using steps_keep [OF s1(1) Suc.prems(2)] step_cost s1(2) by blast
  then show ?case using Suc.IH [OF s1(1) Suc.prems(2)] by simp
qed simp

end

text \<open>From every state some step leads nearer to the end: it can always be reached, whatever happened before.\<close>

locale reaching_system = safe_system +
  fixes distance :: "'s \<Rightarrow> nat" and final :: "'s \<Rightarrow> bool"
  assumes nearer: "inv s \<Longrightarrow> \<not> final s \<Longrightarrow> \<exists>s'. step s s' \<and> distance s' < distance s"
begin

lemma reaches_end: "inv s \<Longrightarrow> \<exists>s'. step\<^sup>*\<^sup>* s s' \<and> final s'"
proof (induction "distance s" arbitrary: s rule: less_induct)
  case less
  show ?case
  proof (cases "final s")
    case False
    then obtain s1 where s1: "step s s1" "distance s1 < distance s" using nearer less.prems by blast
    then obtain s' where "step\<^sup>*\<^sup>* s1 s'" "final s'"
      using less.hyps step_keeps [OF less.prems] by blast
    then show ?thesis using s1 by (meson converse_rtranclp_into_rtranclp)
  qed blast
qed

end

text \<open>When every step lowers the cost and one is possible until the end, every run is short and can be completed.\<close>

locale live_system = ending_system +
  fixes final :: "'s \<Rightarrow> bool"
  assumes goes_on: "inv s \<Longrightarrow> \<not> final s \<Longrightarrow> \<exists>s'. step s s'"

sublocale live_system \<subseteq> reaching_system step inv cost final
  by unfold_locales (use goes_on step_cost in blast)

end
