(* ===== verification/Serial_Dev.thy ===== *)
theory Serial_Dev
  imports Step_System
begin

text \<open>
  Models \<^verbatim>\<open>demo-dh/common/island.c\<close> and \<^verbatim>\<open>demo-dh/drivers/serial_thread.c\<close>: a serial device
  whose worker thread walks between islands, and the caller's side of reading, writing and
  destroying it. Both threads are cut at their accesses to shared memory and semaphores; a
  configuration holds the device, the program counters of the two threads and the lines
  printed. \<^verbatim>\<open>memcpy\<close> is one step. The memory that \<^verbatim>\<open>malloc\<close> returns is not initialised: a
  channel field is \<open>None\<close> until the code writes it.
\<close>

section \<open>Islands and tickets (island.c)\<close>

datatype island_t = ISLAND_NULL | ISLAND_IDLE | ISLAND_TX | ISLAND_RX

datatype ticket =
  TK_IDLE_TO_IDLE | TK_IDLE_TO_TX | TK_TX_TO_IDLE | TK_IDLE_TO_RX | TK_RX_TO_RX | TK_RX_TO_IDLE

definition tickets :: "(island_t \<times> island_t \<times> ticket) list" where
  "tickets =
     [(ISLAND_IDLE, ISLAND_IDLE, TK_IDLE_TO_IDLE), (ISLAND_IDLE, ISLAND_TX, TK_IDLE_TO_TX),
      (ISLAND_TX, ISLAND_IDLE, TK_TX_TO_IDLE), (ISLAND_IDLE, ISLAND_RX, TK_IDLE_TO_RX),
      (ISLAND_RX, ISLAND_RX, TK_RX_TO_RX), (ISLAND_RX, ISLAND_IDLE, TK_RX_TO_IDLE)]"

fun find_ticket :: "(island_t \<times> island_t \<times> ticket) list \<Rightarrow> island_t \<Rightarrow> ticket \<Rightarrow> island_t" where
  "find_ticket [] from t = ISLAND_NULL"
| "find_ticket ((f, to, k) # rest) from t = (if f = from \<and> k = t then to else find_ticket rest from t)"

definition take_ship :: "island_t \<Rightarrow> ticket \<Rightarrow> island_t" where
  "take_ship from t = find_ticket tickets from t"

lemma take_ship_simps [simp]:
  "take_ship ISLAND_IDLE TK_IDLE_TO_TX = ISLAND_TX" "take_ship ISLAND_IDLE TK_IDLE_TO_RX = ISLAND_RX"
  "take_ship ISLAND_TX TK_TX_TO_IDLE = ISLAND_IDLE" "take_ship ISLAND_RX TK_RX_TO_IDLE = ISLAND_IDLE"
  by (simp_all add: take_ship_def tickets_def)

section \<open>The device (serial_thread.h)\<close>

abbreviation "SERIAL_CHAN_BUF_SIZE \<equiv> 0x2000 :: nat"
abbreviation "SER_CMD_NULL \<equiv> 0 :: int"
abbreviation "SER_CMD_RD \<equiv> 1 :: int"
abbreviation "SER_CMD_WR \<equiv> 2 :: int"

record serial_conf =
  sc_port :: "string option"
  sc_speed :: int
  sc_data :: u8
  sc_parity :: char
  sc_stop :: u8

record serial_chan =
  ch_buf :: "char list"
  ch_cnt :: "u32 option"
  ch_len :: "u32 option"
  ch_timeout :: "u32 option"

record serial_ctrl =
  ser_cmd :: int
  ser_stop :: int
  ser_status :: int
  ser_fd :: int
  rx_ready :: nat
  tx_ready :: nat
  active :: nat

record serial_dev =
  ser_id :: int
  ser_name :: string
  conf :: serial_conf
  ctrl :: serial_ctrl
  rxchan :: serial_chan
  txchan :: serial_chan

section \<open>The sequential functions\<close>

definition serial_obtain_id :: "int \<Rightarrow> int \<times> int" where
  "serial_obtain_id serial_dev_cnt = (serial_dev_cnt, serial_dev_cnt + 1)"

text \<open>
  \<open>sems\<close> are the results of the three \<^verbatim>\<open>sem_init\<close> calls and \<open>thr\<close> that of
  \<^verbatim>\<open>pthread_create\<close>. The pair holds the result and the device as it is left.
\<close>

definition serial_dev_init ::
  "int \<times> int \<times> int \<Rightarrow> int \<Rightarrow> string \<Rightarrow> int \<Rightarrow> serial_dev \<Rightarrow> int \<times> int \<times> serial_dev"
where
  "serial_dev_init sems thr name serial_dev_cnt dev =
     (let (i, cnt) = serial_obtain_id serial_dev_cnt;
          dev1 = dev\<lparr>ser_id := i, ser_name := name,
            conf := \<lparr>sc_port = None, sc_speed = 921600, sc_data = 8, sc_parity = CHR ''N'', sc_stop = 1\<rparr>,
            ctrl := (ctrl dev)\<lparr>ser_cmd := 0, ser_stop := 0, ser_status := 0, ser_fd := - 1,
                                rx_ready := 0, tx_ready := 0, active := 0\<rparr>\<rparr>;
          r = fst sems + fst (snd sems) + snd (snd sems)
      in if r \<noteq> 0 then (r, cnt, dev1) else if thr \<noteq> 0 then (thr, cnt, dev1) else (0, cnt, dev1))"

text \<open>\<open>mem\<close> is the block \<^verbatim>\<open>malloc\<close> returns, if any.\<close>

definition serial_dev_create ::
  "serial_dev option \<Rightarrow> int \<times> int \<times> int \<Rightarrow> int \<Rightarrow> string \<Rightarrow> int \<Rightarrow> serial_dev option \<times> int"
where
  "serial_dev_create mem sems thr name serial_dev_cnt =
     (case mem of
        None \<Rightarrow> (None, serial_dev_cnt)
      | Some dev \<Rightarrow>
          let (r, cnt, dev1) = serial_dev_init sems thr name serial_dev_cnt dev
          in if r \<noteq> 0 then (None, cnt) else (Some dev1, cnt))"

definition serial_dev_config :: "int \<Rightarrow> int \<Rightarrow> char \<Rightarrow> int \<Rightarrow> serial_dev \<Rightarrow> int \<times> serial_dev" where
  "serial_dev_config baud data parity stop dev =
     (0, dev\<lparr>conf := (conf dev)\<lparr>sc_speed := baud, sc_data := of_int data, sc_parity := parity, sc_stop := of_int stop\<rparr>\<rparr>)"

definition serial_dev_set_baud :: "int \<Rightarrow> serial_dev \<Rightarrow> int \<times> serial_dev" where
  "serial_dev_set_baud baud dev = (0, dev\<lparr>conf := (conf dev)\<lparr>sc_speed := baud\<rparr>\<rparr>)"

definition serial_dev_open :: "serial_dev \<Rightarrow> int \<times> serial_dev" where
  "serial_dev_open dev = (0, dev\<lparr>ctrl := (ctrl dev)\<lparr>ser_status := 1\<rparr>\<rparr>)"

definition serial_dev_close :: "serial_dev \<Rightarrow> serial_dev" where
  "serial_dev_close dev =
     (if ser_status (ctrl dev) \<noteq> 0 then dev\<lparr>ctrl := (ctrl dev)\<lparr>ser_status := 0\<rparr>\<rparr> else dev)"

section \<open>The accesses of the two threads\<close>

definition set_cmd :: "int \<Rightarrow> serial_dev \<Rightarrow> serial_dev" where
  "set_cmd c dev = dev\<lparr>ctrl := (ctrl dev)\<lparr>ser_cmd := c\<rparr>\<rparr>"

definition set_stop :: "int \<Rightarrow> serial_dev \<Rightarrow> serial_dev" where
  "set_stop v dev = dev\<lparr>ctrl := (ctrl dev)\<lparr>ser_stop := v\<rparr>\<rparr>"

definition post_active :: "serial_dev \<Rightarrow> serial_dev" where
  "post_active dev = dev\<lparr>ctrl := (ctrl dev)\<lparr>active := Suc (active (ctrl dev))\<rparr>\<rparr>"

definition post_tx :: "serial_dev \<Rightarrow> serial_dev" where
  "post_tx dev = dev\<lparr>ctrl := (ctrl dev)\<lparr>tx_ready := Suc (tx_ready (ctrl dev))\<rparr>\<rparr>"

definition post_rx :: "serial_dev \<Rightarrow> serial_dev" where
  "post_rx dev = dev\<lparr>ctrl := (ctrl dev)\<lparr>rx_ready := Suc (rx_ready (ctrl dev))\<rparr>\<rparr>"

text \<open>A wait takes one unit, if there is one; otherwise the thread stays where it is.\<close>

definition wait_active :: "serial_dev \<Rightarrow> serial_dev option" where
  "wait_active dev =
     (case active (ctrl dev) of 0 \<Rightarrow> None | Suc n \<Rightarrow> Some (dev\<lparr>ctrl := (ctrl dev)\<lparr>active := n\<rparr>\<rparr>))"

definition wait_tx :: "serial_dev \<Rightarrow> serial_dev option" where
  "wait_tx dev =
     (case tx_ready (ctrl dev) of 0 \<Rightarrow> None | Suc n \<Rightarrow> Some (dev\<lparr>ctrl := (ctrl dev)\<lparr>tx_ready := n\<rparr>\<rparr>))"

definition wait_rx :: "serial_dev \<Rightarrow> serial_dev option" where
  "wait_rx dev =
     (case rx_ready (ctrl dev) of 0 \<Rightarrow> None | Suc n \<Rightarrow> Some (dev\<lparr>ctrl := (ctrl dev)\<lparr>rx_ready := n\<rparr>\<rparr>))"

section \<open>The worker: serial_run\<close>

text \<open>
  Where the worker stands: at the switch, in \<open>serial_idle_process\<close> before the wait, before the
  first stop test, before and after fetching the command, at the stop test of \<open>serial_run\<close>,
  in \<open>serial_rx_process\<close> before reading the length, in its copy loop and before the post,
  and at the end.
\<close>

datatype wpc =
    W_switch | W_wait | W_woken | W_fetch | W_clear int | W_check | W_len | W_copy int int | W_post_rx | W_end

text \<open>
  One step of the worker: \<open>None\<close> means it cannot move (blocked, or ended). \<open>dbg\<close> is the macro
  \<^verbatim>\<open>DEBUG\<close>, with which received data is what was last sent.
\<close>

type_synonym worker_state = "serial_dev \<times> island_t \<times> wpc"

definition serial_idle_process :: "serial_dev \<Rightarrow> island_t \<Rightarrow> wpc \<Rightarrow> worker_state option" where
  "serial_idle_process dev land pc =
     (case pc of
        W_wait \<Rightarrow> map_option (\<lambda>d. (d, land, W_woken)) (wait_active dev)
      | W_woken \<Rightarrow> Some (dev, land, if ser_stop (ctrl dev) \<noteq> 0 then W_check else W_fetch)
      | W_fetch \<Rightarrow> Some (dev, land, W_clear (ser_cmd (ctrl dev)))
      | W_clear c \<Rightarrow>
          Some (set_cmd SER_CMD_NULL dev,
                if c = SER_CMD_WR then take_ship land TK_IDLE_TO_TX
                else if c = SER_CMD_RD then take_ship land TK_IDLE_TO_RX else land,
                W_check)
      | _ \<Rightarrow> None)"

definition serial_tx_process :: "serial_dev \<Rightarrow> island_t \<Rightarrow> worker_state" where
  "serial_tx_process dev land = (post_tx dev, take_ship land TK_TX_TO_IDLE, W_switch)"

text \<open>\<open>W_switch\<close> here is the entry of the function.\<close>

definition serial_rx_process :: "bool \<Rightarrow> serial_dev \<Rightarrow> island_t \<Rightarrow> wpc \<Rightarrow> worker_state res option" where
  "serial_rx_process dbg dev land pc =
     (case pc of
        W_switch \<Rightarrow> Some (Inr (dev, take_ship land TK_RX_TO_IDLE, if dbg then W_len else W_post_rx))
      | W_len \<Rightarrow>
          (case ch_len (txchan dev) of
             None \<Rightarrow> Some (Inl Uninit_Read)
           | Some n \<Rightarrow> Some (Inr (dev, land, W_copy (sint n) 0)))
      | W_copy n i \<Rightarrow>
          if i < n
          then Some (res_bind (rd (ch_buf (txchan dev)) i) (\<lambda>c.
                     res_bind (wr (ch_buf (rxchan dev)) i c) (\<lambda>b.
                     Inr (dev\<lparr>rxchan := (rxchan dev)\<lparr>ch_buf := b\<rparr>\<rparr>, land, W_copy n (i + 1)))))
          else Some (Inr (dev\<lparr>rxchan := (rxchan dev)\<lparr>ch_cnt := Some (of_int i)\<rparr>\<rparr>, land, W_post_rx))
      | W_post_rx \<Rightarrow> Some (Inr (post_rx dev, land, W_switch))
      | _ \<Rightarrow> None)"

definition serial_rst_process :: "serial_dev \<Rightarrow> island_t \<Rightarrow> worker_state" where
  "serial_rst_process dev land = (dev, ISLAND_IDLE, W_switch)"

definition worker_step :: "bool \<Rightarrow> worker_state \<Rightarrow> worker_state res option" where
  "worker_step dbg = (\<lambda>(dev, land, pc).
     case pc of
       W_switch \<Rightarrow>
         (case land of
            ISLAND_IDLE \<Rightarrow> Some (Inr (dev, land, W_wait))
          | ISLAND_TX \<Rightarrow> Some (Inr (serial_tx_process dev land))
          | ISLAND_RX \<Rightarrow> serial_rx_process dbg dev land pc
          | ISLAND_NULL \<Rightarrow> Some (Inr (serial_rst_process dev land)))
     | W_wait \<Rightarrow> map_option Inr (serial_idle_process dev land pc)
     | W_woken \<Rightarrow> map_option Inr (serial_idle_process dev land pc)
     | W_fetch \<Rightarrow> map_option Inr (serial_idle_process dev land pc)
     | W_clear c \<Rightarrow> map_option Inr (serial_idle_process dev land pc)
     | W_check \<Rightarrow> Some (Inr (dev, land, if ser_stop (ctrl dev) \<noteq> 0 then W_end else W_switch))
     | W_len \<Rightarrow> serial_rx_process dbg dev land pc
     | W_copy n i \<Rightarrow> serial_rx_process dbg dev land pc
     | W_post_rx \<Rightarrow> serial_rx_process dbg dev land pc
     | W_end \<Rightarrow> None)"

lemmas worker_defs = worker_step_def serial_idle_process_def serial_tx_process_def serial_rx_process_def
  serial_rst_process_def

section \<open>The caller\<close>

text \<open>
  Where the calling thread stands, between calls or inside one: \<open>serial_dev_read\<close>,
  \<open>serial_dev_write\<close> and \<open>serial_dev_destroy\<close>, each at its next access.
\<close>

datatype cpc =
    C_free
  | C_rd_cmd | C_rd_post | C_rd_wait | C_rd_take
  | C_wr_copy string | C_wr_cmd | C_wr_post | C_wr_wait | C_wr_ret
  | C_de_stop | C_de_post | C_de_join | C_gone

text \<open>A read is given the buffer of its caller, with what that holds, the length and the timeout.\<close>

datatype call = Call_read string u32 u32 | Call_write string | Call_destroy

datatype ret = Ret_read int string | Ret_write int | Ret_destroy

text \<open>The history of calls and returns, which no code reads.\<close>

datatype event = Ev_call call | Ev_ret ret

text \<open>\<open>rd_buf\<close> is the buffer of the caller of the read.\<close>

record serial_state =
  sdev :: serial_dev
  rd_buf :: string
  land :: island_t
  wpc :: wpc
  cpc :: cpc
  evs :: "event list"

definition read_begin :: "u32 \<Rightarrow> u32 \<Rightarrow> serial_dev \<Rightarrow> serial_dev" where
  "read_begin len tm dev =
     dev\<lparr>rxchan := (rxchan dev)\<lparr>ch_cnt := Some 0, ch_len := Some len, ch_timeout := Some tm\<rparr>\<rparr>"

definition write_begin :: "string \<Rightarrow> serial_dev \<Rightarrow> serial_dev" where
  "write_begin data dev =
     dev\<lparr>txchan := (txchan dev)\<lparr>ch_cnt := Some 0, ch_len := Some (of_nat (length data))\<rparr>\<rparr>"

definition begin_call :: "call \<Rightarrow> serial_state \<Rightarrow> serial_state" where
  "begin_call c s0 =
     (let s = s0\<lparr>evs := evs s0 @ [Ev_call c]\<rparr>
      in case c of
        Call_read pbuf len tm \<Rightarrow> s\<lparr>sdev := read_begin len tm (sdev s), rd_buf := pbuf, cpc := C_rd_cmd\<rparr>
      | Call_write data \<Rightarrow> s\<lparr>sdev := write_begin data (sdev s), cpc := C_wr_copy data\<rparr>
      | Call_destroy \<Rightarrow> s\<lparr>cpc := C_de_stop\<rparr>)"

text \<open>
  One step of the caller inside a call. The wait of a read may also end by its timeout, which
  is \<open>read_times_out\<close>. The \<^verbatim>\<open>memcpy\<close> of a read copies as many bytes as the worker has received, whatever
  length the caller gave, into a buffer that may be smaller. The thread joins the worker when that has ended.
\<close>

definition serial_dev_read_step :: "serial_state \<Rightarrow> serial_state res option" where
  "serial_dev_read_step s =
     (let dev = sdev s
      in case cpc s of
           C_rd_cmd \<Rightarrow> Some (Inr (s\<lparr>sdev := set_cmd SER_CMD_RD dev, cpc := C_rd_post\<rparr>))
         | C_rd_post \<Rightarrow> Some (Inr (s\<lparr>sdev := post_active dev, cpc := C_rd_wait\<rparr>))
         | C_rd_wait \<Rightarrow> map_option (\<lambda>d. Inr (s\<lparr>sdev := d, cpc := C_rd_take\<rparr>)) (wait_rx dev)
         | C_rd_take \<Rightarrow>
             (case ch_cnt (rxchan dev) of
                None \<Rightarrow> Some (Inl Uninit_Read)
              | Some n \<Rightarrow>
                  if unat n \<le> length (ch_buf (rxchan dev)) \<and> unat n \<le> length (rd_buf s)
                  then
                    let pbuf = take (unat n) (ch_buf (rxchan dev)) @ drop (unat n) (rd_buf s)
                    in Some (Inr (s\<lparr>rd_buf := pbuf, cpc := C_free,
                                    evs := evs s @ [Ev_ret (Ret_read (sint n) (take (unat n) pbuf))]\<rparr>))
                  else Some (Inl Out_Of_Bounds))
         | _ \<Rightarrow> None)"

definition serial_dev_write_step :: "serial_state \<Rightarrow> serial_state res option" where
  "serial_dev_write_step s =
     (let dev = sdev s
      in case cpc s of
           C_wr_copy data \<Rightarrow>
             if length data \<le> length (ch_buf (txchan dev))
             then Some (Inr (s\<lparr>sdev := dev\<lparr>txchan := (txchan dev)\<lparr>ch_buf :=
                                data @ drop (length data) (ch_buf (txchan dev))\<rparr>\<rparr>, cpc := C_wr_cmd\<rparr>))
             else Some (Inl Out_Of_Bounds)
         | C_wr_cmd \<Rightarrow> Some (Inr (s\<lparr>sdev := set_cmd SER_CMD_WR dev, cpc := C_wr_post\<rparr>))
         | C_wr_post \<Rightarrow> Some (Inr (s\<lparr>sdev := post_active dev, cpc := C_wr_wait\<rparr>))
         | C_wr_wait \<Rightarrow> map_option (\<lambda>d. Inr (s\<lparr>sdev := d, cpc := C_wr_ret\<rparr>)) (wait_tx dev)
         | C_wr_ret \<Rightarrow>
             (case ch_len (txchan dev) of
                None \<Rightarrow> Some (Inl Uninit_Read)
              | Some n \<Rightarrow> Some (Inr (s\<lparr>cpc := C_free, evs := evs s @ [Ev_ret (Ret_write (sint n))]\<rparr>)))
         | _ \<Rightarrow> None)"

definition serial_dev_destroy_step :: "serial_state \<Rightarrow> serial_state res option" where
  "serial_dev_destroy_step s =
     (let dev = sdev s
      in case cpc s of
           C_de_stop \<Rightarrow> Some (Inr (s\<lparr>sdev := set_stop 1 dev, cpc := C_de_post\<rparr>))
         | C_de_post \<Rightarrow> Some (Inr (s\<lparr>sdev := post_active dev, cpc := C_de_join\<rparr>))
         | C_de_join \<Rightarrow>
             if wpc s = W_end
             then Some (Inr (s\<lparr>sdev := serial_dev_close dev, cpc := C_gone, evs := evs s @ [Ev_ret Ret_destroy]\<rparr>))
             else None
         | _ \<Rightarrow> None)"

definition caller_step :: "serial_state \<Rightarrow> serial_state res option" where
  "caller_step s =
     (if cpc s \<in> {C_rd_cmd, C_rd_post, C_rd_wait, C_rd_take} then serial_dev_read_step s
      else if cpc s \<in> {C_de_stop, C_de_post, C_de_join} then serial_dev_destroy_step s
      else serial_dev_write_step s)"

lemmas caller_defs = caller_step_def serial_dev_read_step_def serial_dev_write_step_def serial_dev_destroy_step_def

lemmas begin_defs = begin_call_def read_begin_def write_begin_def

definition read_times_out :: "serial_state \<Rightarrow> serial_state option" where
  "read_times_out s =
     (if cpc s = C_rd_wait then Some (s\<lparr>cpc := C_free, evs := evs s @ [Ev_ret (Ret_read (- 1) [])]\<rparr>) else None)"

section \<open>Interleaving\<close>

text \<open>The steps of the whole system; \<open>tmo\<close> says whether reads may time out.\<close>

inductive s_step :: "bool \<Rightarrow> bool \<Rightarrow> serial_state \<Rightarrow> serial_state \<Rightarrow> bool" for dbg tmo where
  worker: "worker_step dbg (sdev s, land s, wpc s) = Some (Inr (d, l, p)) \<Longrightarrow>
             s_step dbg tmo s (s\<lparr>sdev := d, land := l, wpc := p\<rparr>)"
| call: "cpc s = C_free \<Longrightarrow> s_step dbg tmo s (begin_call c s)"
| caller: "caller_step s = Some (Inr s') \<Longrightarrow> s_step dbg tmo s s'"
| timeout: "tmo \<Longrightarrow> read_times_out s = Some s' \<Longrightarrow> s_step dbg tmo s s'"

inductive_cases s_stepE: "s_step dbg tmo s s'"

abbreviation s_steps :: "bool \<Rightarrow> bool \<Rightarrow> serial_state \<Rightarrow> serial_state \<Rightarrow> bool" where
  "s_steps dbg tmo \<equiv> (s_step dbg tmo)\<^sup>*\<^sup>*"

text \<open>A device just created, with both threads at their start.\<close>

definition serial_start :: "serial_dev \<Rightarrow> serial_state" where
  "serial_start dev = \<lparr>sdev = dev, rd_buf = [], land = ISLAND_IDLE, wpc = W_switch, cpc = C_free, evs = []\<rparr>"

text \<open>Two device memories that \<^verbatim>\<open>malloc\<close> may return: nothing of the channels is initialised.\<close>

definition raw_dev :: "serial_dev \<Rightarrow> bool" where
  "raw_dev dev \<longleftrightarrow> length (ch_buf (rxchan dev)) = SERIAL_CHAN_BUF_SIZE
     \<and> length (ch_buf (txchan dev)) = SERIAL_CHAN_BUF_SIZE
     \<and> ch_len (txchan dev) = None \<and> ch_cnt (rxchan dev) = None"

end
