(* ===== verification/Serial_Inv.thy ===== *)
theory Serial_Inv
  imports Serial_Dev
begin

text \<open>
  What the two threads of a serial device keep: the islands the worker can be on, and, when
  no read times out, the hand-shake between caller and worker (who holds the token, which
  command is pending, what the channels hold).
\<close>

section \<open>Every run\<close>

lemma take_ship_from_idle: "take_ship ISLAND_IDLE t \<in> {ISLAND_NULL, ISLAND_IDLE, ISLAND_TX, ISLAND_RX}"
  by (cases "take_ship ISLAND_IDLE t") simp_all

definition land_ok :: "serial_state \<Rightarrow> bool" where
  "land_ok s \<longleftrightarrow>
     (case wpc s of
        W_switch \<Rightarrow> land s \<noteq> ISLAND_NULL
      | W_check \<Rightarrow> land s \<noteq> ISLAND_NULL
      | W_end \<Rightarrow> land s \<noteq> ISLAND_NULL
      | _ \<Rightarrow> land s = ISLAND_IDLE)"

lemma worker_land:
  assumes "worker_step dbg (sdev s, land s, wpc s) = Some (Inr (d, l, p))" and "land_ok s"
  shows "land_ok (s\<lparr>sdev := d, land := l, wpc := p\<rparr>)"
  using assms
  by (auto simp: worker_defs land_ok_def res_bind_Inr_iff split: wpc.splits island_t.splits option.splits
      if_split_asm)

lemma caller_keeps_worker:
  "caller_step s = Some (Inr s') \<Longrightarrow> land s' = land s \<and> wpc s' = wpc s"
  by (auto simp: caller_defs Let_def split: cpc.splits option.splits if_split_asm)

lemma begin_keeps_worker [simp]: "land (begin_call c s) = land s" "wpc (begin_call c s) = wpc s"
  by (simp_all add: begin_defs Let_def split: call.split)

lemma timeout_keeps_worker: "read_times_out s = Some s' \<Longrightarrow> land s' = land s \<and> wpc s' = wpc s"
  by (auto simp: read_times_out_def split: if_splits)

lemma land_ok_cong: "land s' = land s \<and> wpc s' = wpc s \<Longrightarrow> land_ok s' = land_ok s"
  by (auto simp: land_ok_def split: wpc.split)

lemma step_land: "s_step dbg tmo s s' \<Longrightarrow> land_ok s \<Longrightarrow> land_ok s'"
proof (induction rule: s_step.induct)
  case (worker s d l p)
  then show ?case by (intro worker_land) auto
next
  case (call s c)
  then show ?case using land_ok_cong [of "begin_call c s" s] by simp
next
  case (caller s s')
  then show ?case using land_ok_cong [OF caller_keeps_worker] by blast
next
  case (timeout s s')
  then show ?case using land_ok_cong [OF timeout_keeps_worker] by blast
qed

interpretation land_sys: safe_system "s_step dbg tmo" land_ok for dbg tmo
  by unfold_locales (rule step_land)

section \<open>Debug runs in which no read times out\<close>

text \<open>What the history says was written last, and what the transmit channel holds then.\<close>

definition last_write :: "event list \<Rightarrow> string option" where
  "last_write es = fold (\<lambda>e acc. case e of Ev_call (Call_write d) \<Rightarrow> Some d | _ \<Rightarrow> acc) es None"

lemma last_write_append [simp]:
  "last_write [] = None"
  "last_write (es @ [e]) = (case e of Ev_call (Call_write d) \<Rightarrow> Some d | _ \<Rightarrow> last_write es)"
  by (simp_all add: last_write_def split: event.split call.split)

definition tx_is :: "serial_dev \<Rightarrow> string option \<Rightarrow> bool" where
  "tx_is dev w \<longleftrightarrow>
     (case w of
        None \<Rightarrow> ch_len (txchan dev) = None
      | Some d \<Rightarrow> length d \<le> SERIAL_CHAN_BUF_SIZE \<and> ch_len (txchan dev) = Some (of_nat (length d))
                  \<and> take (length d) (ch_buf (txchan dev)) = d)"

definition rx_is :: "serial_dev \<Rightarrow> string option \<Rightarrow> bool" where
  "rx_is dev w \<longleftrightarrow>
     (\<exists>d. w = Some d \<and> length d \<le> SERIAL_CHAN_BUF_SIZE \<and> ch_cnt (rxchan dev) = Some (of_nat (length d))
        \<and> take (length d) (ch_buf (rxchan dev)) = d)"

definition buf_sizes :: "serial_dev \<Rightarrow> bool" where
  "buf_sizes dev \<longleftrightarrow> length (ch_buf (rxchan dev)) = SERIAL_CHAN_BUF_SIZE
     \<and> length (ch_buf (txchan dev)) = SERIAL_CHAN_BUF_SIZE"

text \<open>The semaphores and the command slot: units of \<open>active\<close>, \<open>rx_ready\<close>, \<open>tx_ready\<close>, the command.\<close>

definition slots_are :: "serial_dev \<Rightarrow> nat \<Rightarrow> nat \<Rightarrow> nat \<Rightarrow> int \<Rightarrow> bool" where
  "slots_are dev a r t c \<longleftrightarrow> active (ctrl dev) = a \<and> rx_ready (ctrl dev) = r \<and> tx_ready (ctrl dev) = t
     \<and> ser_cmd (ctrl dev) = c"

definition idle :: "serial_state \<Rightarrow> nat \<Rightarrow> nat \<Rightarrow> nat \<Rightarrow> int \<Rightarrow> bool" where
  "idle s a r t c \<longleftrightarrow> land s = ISLAND_IDLE \<and> wpc s \<in> {W_switch, W_wait} \<and> slots_are (sdev s) a r t c"

text \<open>The worker on its way from the command \<open>c\<close> to its island.\<close>

definition serving :: "int \<Rightarrow> island_t \<Rightarrow> serial_state \<Rightarrow> bool" where
  "serving c to s \<longleftrightarrow> idle s 1 0 0 c
     \<or> (land s = ISLAND_IDLE \<and> wpc s \<in> {W_woken, W_fetch, W_clear c} \<and> slots_are (sdev s) 0 0 0 c)
     \<or> (land s = to \<and> wpc s \<in> {W_check, W_switch} \<and> slots_are (sdev s) 0 0 0 0)"

text \<open>The worker copying what was written last, \<open>d\<close>, into the receive channel.\<close>

definition receiving :: "serial_state \<Rightarrow> string option \<Rightarrow> bool" where
  "receiving s w \<longleftrightarrow> land s = ISLAND_IDLE \<and> slots_are (sdev s) 0 0 0 0 \<and>
     (case wpc s of
        W_len \<Rightarrow> True
      | W_copy n i \<Rightarrow> \<exists>d. w = Some d \<and> n = int (length d) \<and> 0 \<le> i \<and> i \<le> n
                       \<and> take (nat i) (ch_buf (rxchan (sdev s))) = take (nat i) d
      | W_post_rx \<Rightarrow> rx_is (sdev s) w
      | _ \<Rightarrow> False)"

definition stopping :: "serial_state \<Rightarrow> bool" where
  "stopping s \<longleftrightarrow> land s = ISLAND_IDLE \<and> ser_stop (ctrl (sdev s)) \<noteq> 0
     \<and> (wpc s \<in> {W_switch, W_wait} \<and> active (ctrl (sdev s)) = 1
        \<or> wpc s \<in> {W_woken, W_check, W_end})"

definition running :: "serial_state \<Rightarrow> bool" where
  "running s \<longleftrightarrow> ser_stop (ctrl (sdev s)) = 0"

definition hand_shake :: "serial_state \<Rightarrow> bool" where
  "hand_shake s \<longleftrightarrow> buf_sizes (sdev s) \<and>
     (let w = last_write (evs s); dev = sdev s
      in case cpc s of
           C_free \<Rightarrow> running s \<and> tx_is dev w \<and> idle s 0 0 0 0
         | C_rd_cmd \<Rightarrow> running s \<and> tx_is dev w \<and> idle s 0 0 0 0
         | C_rd_post \<Rightarrow> running s \<and> tx_is dev w \<and> idle s 0 0 0 SER_CMD_RD
         | C_rd_wait \<Rightarrow> running s \<and> tx_is dev w \<and>
             (serving SER_CMD_RD ISLAND_RX s \<or> receiving s w \<or> idle s 0 1 0 0 \<and> rx_is dev w)
         | C_rd_take \<Rightarrow> running s \<and> tx_is dev w \<and> idle s 0 0 0 0 \<and> rx_is dev w
         | C_wr_copy d \<Rightarrow> running s \<and> idle s 0 0 0 0 \<and> w = Some d
             \<and> ch_len (txchan dev) = Some (of_nat (length d))
         | C_wr_cmd \<Rightarrow> running s \<and> tx_is dev w \<and> w \<noteq> None \<and> idle s 0 0 0 0
         | C_wr_post \<Rightarrow> running s \<and> tx_is dev w \<and> w \<noteq> None \<and> idle s 0 0 0 SER_CMD_WR
         | C_wr_wait \<Rightarrow> running s \<and> tx_is dev w \<and> w \<noteq> None \<and>
             (serving SER_CMD_WR ISLAND_TX s \<or> idle s 0 0 1 0)
         | C_wr_ret \<Rightarrow> running s \<and> tx_is dev w \<and> w \<noteq> None \<and> idle s 0 0 0 0
         | C_de_stop \<Rightarrow> running s \<and> idle s 0 0 0 0
         | C_de_post \<Rightarrow> \<not> running s \<and> idle s 0 0 0 0
         | C_de_join \<Rightarrow> stopping s
         | C_gone \<Rightarrow> wpc s = W_end)"

text \<open>What a call may return, given the history before it; and that every return so far was right.\<close>

definition event_ok :: "event list \<Rightarrow> event \<Rightarrow> bool" where
  "event_ok es e \<longleftrightarrow>
     (case e of
        Ev_ret (Ret_read n d) \<Rightarrow> last_write es = Some d \<and> n = int (length d)
      | Ev_ret (Ret_write n) \<Rightarrow> (\<exists>d. last_write es = Some d \<and> n = int (length d))
      | _ \<Rightarrow> True)"

definition good_events :: "event list \<Rightarrow> bool" where
  "good_events es \<longleftrightarrow> (\<forall>xs e ys. es = xs @ e # ys \<longrightarrow> event_ok xs e)"

lemma snoc_split: "es @ [e] = xs @ y # ys \<longleftrightarrow> (ys = [] \<and> xs = es \<and> y = e) \<or> (\<exists>zs. ys = zs @ [e] \<and> es = xs @ y # zs)"
  by (cases ys rule: rev_cases) auto

lemma good_events_snoc [simp]: "good_events (es @ [e]) \<longleftrightarrow> good_events es \<and> event_ok es e"
  unfolding good_events_def snoc_split by blast

lemma good_events_nil [simp]: "good_events []"
  by (simp add: good_events_def)

section \<open>The invariant is kept\<close>

lemma begin_hand_shake:
  assumes "hand_shake s" and "cpc s = C_free"
  shows "hand_shake (begin_call c s)"
proof (cases c)
  case (Call_read pbuf len tm)
  with assms show ?thesis
    by (auto simp: hand_shake_def begin_defs Let_def buf_sizes_def running_def tx_is_def idle_def slots_are_def
        split: option.splits)
next
  case (Call_write d)
  with assms show ?thesis
    by (auto simp: hand_shake_def begin_defs Let_def buf_sizes_def running_def idle_def slots_are_def)
next
  case Call_destroy
  with assms show ?thesis
    by (auto simp: hand_shake_def begin_defs Let_def buf_sizes_def running_def idle_def slots_are_def)
qed

lemma begin_good: "good_events (evs s) \<Longrightarrow> good_events (evs (begin_call c s))"
  by (simp add: begin_defs Let_def event_ok_def split: call.splits)

lemma small_nat_u32: "n \<le> SERIAL_CHAN_BUF_SIZE \<Longrightarrow> unat (of_nat n :: u32) = n"
  by (simp add: unat_of_nat take_bit_nat_eq_self)

lemmas serial_state_defs = hand_shake_def Let_def buf_sizes_def running_def idle_def slots_are_def

lemmas serial_access_defs = set_cmd_def set_stop_def post_active_def post_tx_def post_rx_def
  wait_active_def wait_tx_def wait_rx_def

lemma caller_hand_shake:
  assumes "caller_step s = Some (Inr s')" and "hand_shake s"
  shows "hand_shake s'"
  using assms
  by (cases "cpc s")
    (auto simp: caller_defs serial_state_defs serial_access_defs tx_is_def rx_is_def serving_def receiving_def
      stopping_def serial_dev_close_def split: nat.splits option.splits wpc.splits if_split_asm)

lemma sint_small: "n \<le> SERIAL_CHAN_BUF_SIZE \<Longrightarrow> sint (of_nat n :: u32) = int n"
  by (simp add: signed_of_nat signed_take_bit_int_eq_self)

lemma caller_good:
  assumes "caller_step s = Some (Inr s')" and "hand_shake s" and "good_events (evs s)"
  shows "good_events (evs s')"
  using assms
  by (cases "cpc s")
    (auto simp: caller_defs serial_state_defs tx_is_def rx_is_def small_nat_u32 sint_small event_ok_def
      split: option.splits if_split_asm)

lemma worker_hand_shake:
  assumes "worker_step True (sdev s, land s, wpc s) = Some (Inr (d, l, p))" and "hand_shake s"
    and "\<And>n i. wpc s \<noteq> W_copy n i" and "wpc s \<noteq> W_len"
  shows "hand_shake (s\<lparr>sdev := d, land := l, wpc := p\<rparr>)"
  using assms
  by (cases "wpc s"; cases "cpc s")
    (auto simp: worker_defs serial_state_defs serial_access_defs tx_is_def rx_is_def serving_def receiving_def
      stopping_def split: nat.splits option.splits if_split_asm island_t.splits)

text \<open>The worker is inside its copy only while a read waits, with something written before.\<close>

lemma copying_is_receiving:
  assumes "hand_shake s" and "wpc s = W_len \<or> (\<exists>n i. wpc s = W_copy n i)"
  shows "cpc s = C_rd_wait \<and> receiving s (last_write (evs s)) \<and> tx_is (sdev s) (last_write (evs s))
    \<and> buf_sizes (sdev s) \<and> running s"
  using assms
  by (cases "cpc s") (auto simp: hand_shake_def Let_def idle_def serving_def stopping_def)

lemma worker_len:
  assumes "worker_step True (sdev s, land s, W_len) = Some (Inr (d, l, p))" and "hand_shake s" and "wpc s = W_len"
  shows "hand_shake (s\<lparr>sdev := d, land := l, wpc := p\<rparr>)"
proof -
  have c: "cpc s = C_rd_wait" and r: "receiving s (last_write (evs s))" and t: "tx_is (sdev s) (last_write (evs s))"
    and b: "buf_sizes (sdev s)" and run: "running s"
    using copying_is_receiving [of s] assms by auto
  show ?thesis
  proof (cases "last_write (evs s)")
    case None
    then show ?thesis using t assms(1) by (simp add: worker_defs tx_is_def)
  next
    case (Some w)
    then have "ch_len (txchan (sdev s)) = Some (of_nat (length w))" "length w \<le> SERIAL_CHAN_BUF_SIZE"
      using t by (simp_all add: tx_is_def)
    then have eqs: "d = sdev s" "l = land s" "p = W_copy (int (length w)) 0"
      using assms(1) by (simp_all add: worker_defs sint_small)
    show ?thesis
      using r t b run c Some assms(3)
      unfolding eqs by (simp add: hand_shake_def receiving_def running_def)
  qed
qed

lemma worker_copy:
  assumes "worker_step True (sdev s, land s, W_copy n i) = Some (Inr (d, l, p))" and "hand_shake s"
    and "wpc s = W_copy n i"
  shows "hand_shake (s\<lparr>sdev := d, land := l, wpc := p\<rparr>)"
proof -
  have c: "cpc s = C_rd_wait" and r: "receiving s (last_write (evs s))" and t: "tx_is (sdev s) (last_write (evs s))"
    and b: "buf_sizes (sdev s)" and run: "running s"
    using copying_is_receiving [of s] assms by auto
  from r assms(3) obtain w where w: "last_write (evs s) = Some w" "n = int (length w)" "0 \<le> i" "i \<le> n"
    and pre: "take (nat i) (ch_buf (rxchan (sdev s))) = take (nat i) w"
    and land: "land s = ISLAND_IDLE" "slots_are (sdev s) 0 0 0 0"
    by (auto simp: receiving_def)
  from t w have tx: "length w \<le> SERIAL_CHAN_BUF_SIZE" "take (length w) (ch_buf (txchan (sdev s))) = w"
    "ch_len (txchan (sdev s)) = Some (of_nat (length w))" by (auto simp: tx_is_def)
  show ?thesis
  proof (cases "i < n")
    case True
    have nth: "ch_buf (txchan (sdev s)) ! nat i = w ! nat i"
      using True w(2,3) arg_cong [OF tx(2), of "\<lambda>l. l ! nat i"] by simp
    have "nat i < length (ch_buf (rxchan (sdev s)))" "nat i < length (ch_buf (txchan (sdev s)))"
      using True w tx b by (auto simp: buf_sizes_def)
    then have "take (nat (i + 1)) ((ch_buf (rxchan (sdev s)))[nat i := w ! nat i]) = take (nat (i + 1)) w"
      using True w pre by (simp add: nat_add_distrib take_Suc_conv_app_nth)
    then show ?thesis
      using True w tx b c assms(1) run land nth t
      by (auto simp: worker_defs rd_def wr_def res_bind_Inr_iff hand_shake_def receiving_def buf_sizes_def
          running_def slots_are_def tx_is_def split: if_split_asm)
  next
    case False
    then show ?thesis
      using w tx b c assms(1) run land pre
      by (auto simp: worker_defs hand_shake_def receiving_def buf_sizes_def
          running_def slots_are_def tx_is_def rx_is_def)
  qed
qed

lemma step_hand_shake:
  assumes "s_step True False s s'" and "hand_shake s \<and> good_events (evs s)"
  shows "hand_shake s' \<and> good_events (evs s')"
  using assms
proof (induction rule: s_step.induct)
  case (worker s d l p)
  show ?case
  proof (cases "wpc s")
    case W_len
    with worker show ?thesis by (auto intro: worker_len)
  next
    case (W_copy n i)
    with worker show ?thesis by (auto intro: worker_copy)
  qed (use worker in \<open>auto intro: worker_hand_shake\<close>)
next
  case (call s c)
  then show ?case using begin_hand_shake begin_good by blast
next
  case (caller s s')
  then show ?case using caller_hand_shake caller_good by blast
qed simp

interpretation shake_sys: safe_system "s_step True False" "\<lambda>s. hand_shake s \<and> good_events (evs s)"
  by unfold_locales (auto dest: step_hand_shake)

text \<open>A device as \<open>serial_dev_create\<close> returns it, on memory that is not initialised.\<close>

definition created :: "serial_dev \<Rightarrow> bool" where
  "created dev \<longleftrightarrow> (\<exists>mem sems name cnt cnt'. raw_dev mem
     \<and> serial_dev_create (Some mem) sems 0 name cnt = (Some dev, cnt'))"

lemma created_fields:
  assumes "created dev"
  shows "raw_dev dev" "running (serial_start dev)" "slots_are dev 0 0 0 0" "ser_stop (ctrl dev) = 0"
  using assms
  by (auto simp: created_def serial_dev_create_def serial_dev_init_def serial_obtain_id_def Let_def raw_dev_def
      running_def slots_are_def serial_start_def split: if_splits)

lemma start_hand_shake: "created dev \<Longrightarrow> hand_shake (serial_start dev) \<and> good_events (evs (serial_start dev))"
  using created_fields [of dev]
  by (simp add: hand_shake_def serial_start_def buf_sizes_def running_def tx_is_def idle_def raw_dev_def)

section \<open>Progress and errors without timeouts\<close>

lemma hand_shake_moves:
  assumes "hand_shake s" and "caller_step s = None" and "worker_step True (sdev s, land s, wpc s) = None"
  shows "cpc s = C_free \<or> cpc s = C_gone"
  using assms
  by (cases "cpc s")
    (auto simp: caller_defs worker_defs serial_state_defs wait_active_def wait_tx_def wait_rx_def
      serving_def receiving_def stopping_def
      split: nat.splits option.splits wpc.splits island_t.splits if_split_asm)

lemma caller_errors:
  assumes "hand_shake s" and "caller_step s = Some (Inl e)"
  shows "e = Out_Of_Bounds \<and> ((\<exists>d. cpc s = C_wr_copy d \<and> SERIAL_CHAN_BUF_SIZE < length d)
    \<or> cpc s = C_rd_take \<and> (\<exists>d. last_write (evs s) = Some d \<and> length (rd_buf s) < length d))"
  using assms
  by (cases "cpc s")
    (auto simp: caller_defs serial_state_defs tx_is_def rx_is_def small_nat_u32
      split: option.splits if_split_asm)

text \<open>Each of them is an error: the conditions are exact.\<close>

lemma caller_fails:
  assumes "hand_shake s" and "cpc s = C_wr_copy d \<and> SERIAL_CHAN_BUF_SIZE < length d
    \<or> cpc s = C_rd_take \<and> last_write (evs s) = Some d \<and> length (rd_buf s) < length d"
  shows "caller_step s = Some (Inl Out_Of_Bounds)"
  using assms
  by (auto simp: caller_defs serial_state_defs rx_is_def small_nat_u32 split: option.splits)

lemma worker_fails:
  assumes "hand_shake s" and "wpc s = W_len" and "last_write (evs s) = None"
  shows "worker_step True (sdev s, land s, wpc s) = Some (Inl Uninit_Read)"
  using copying_is_receiving [of s] assms by (auto simp: worker_defs tx_is_def)

lemma worker_errors:
  assumes "hand_shake s" and "worker_step True (sdev s, land s, wpc s) = Some (Inl e)"
  shows "wpc s = W_len \<and> last_write (evs s) = None \<and> e = Uninit_Read"
proof (cases "wpc s")
  case W_len
  with assms copying_is_receiving [of s] show ?thesis
    by (auto simp: worker_defs tx_is_def split: option.splits)
next
  case (W_copy n i)
  then have r: "receiving s (last_write (evs s))" and t: "tx_is (sdev s) (last_write (evs s))" and b: "buf_sizes (sdev s)"
    using copying_is_receiving [of s] assms(1) by auto
  from r W_copy obtain w where "last_write (evs s) = Some w" "n = int (length w)" "0 \<le> i" "i \<le> n"
    by (auto simp: receiving_def)
  with t b have "i < n \<Longrightarrow> nat i < length (ch_buf (rxchan (sdev s))) \<and> nat i < length (ch_buf (txchan (sdev s)))"
    by (auto simp: tx_is_def buf_sizes_def)
  with assms(2) W_copy \<open>0 \<le> i\<close> show ?thesis
    by (auto simp: worker_defs rd_def wr_def split: if_split_asm)
qed (use assms(2) in \<open>auto simp: worker_defs wait_active_def split: nat.splits island_t.splits\<close>)

end
