(* ===== verification/Serial_Runs.thy ===== *)
theory Serial_Runs
  imports Serial_Inv
begin

text \<open>
  Destroying a serial device, in every run; and the runs in which a read times out: schedules
  that are evaluated, and the two ways the hand-shake is lost.
\<close>

section \<open>Destroying\<close>

definition stop_seen :: "wpc \<Rightarrow> bool" where
  "stop_seen p \<longleftrightarrow> p \<in> {W_woken, W_fetch, W_check, W_end} \<or> (\<exists>c. p = W_clear c)"

definition stop_ok :: "serial_state \<Rightarrow> bool" where
  "stop_ok s \<longleftrightarrow>
     (cpc s = C_de_post \<longrightarrow> ser_stop (ctrl (sdev s)) \<noteq> 0)
   \<and> (cpc s = C_de_join \<longrightarrow> ser_stop (ctrl (sdev s)) \<noteq> 0 \<and> (0 < active (ctrl (sdev s)) \<or> stop_seen (wpc s)))
   \<and> (cpc s = C_gone \<longrightarrow> wpc s = W_end)"

lemma worker_keeps_stop:
  "worker_step dbg (sdev s, land s, wpc s) = Some (Inr (d, l, p)) \<Longrightarrow> ser_stop (ctrl d) = ser_stop (ctrl (sdev s))"
  by (auto simp: worker_defs serial_access_defs res_bind_Inr_iff
      split: wpc.splits island_t.splits option.splits nat.splits if_split_asm)

lemma worker_stop_seen:
  assumes "worker_step dbg (sdev s, land s, wpc s) = Some (Inr (d, l, p))"
    and "ser_stop (ctrl (sdev s)) \<noteq> 0" and "0 < active (ctrl (sdev s)) \<or> stop_seen (wpc s)"
  shows "0 < active (ctrl d) \<or> stop_seen p"
  using assms
  by (auto simp: worker_defs stop_seen_def serial_access_defs res_bind_Inr_iff
      split: wpc.splits island_t.splits option.splits nat.splits if_split_asm)

lemma worker_not_ended: "worker_step dbg (sdev s, land s, wpc s) = Some r \<Longrightarrow> wpc s \<noteq> W_end"
  by (auto simp: worker_defs)

lemma step_stop_ok: "s_step dbg tmo s s' \<Longrightarrow> stop_ok s \<Longrightarrow> stop_ok s'"
proof (induction rule: s_step.induct)
  case (worker s d l p)
  then show ?case
    using worker_keeps_stop [OF worker(1)] worker_stop_seen [OF worker(1)] worker_not_ended [OF worker(1)]
    by (simp add: stop_ok_def)
next
  case (call s c)
  then show ?case by (auto simp: stop_ok_def begin_defs Let_def split: call.splits)
next
  case (caller s s')
  then show ?case
    by (auto simp: stop_ok_def caller_defs Let_def serial_access_defs
        split: cpc.splits option.splits nat.splits if_split_asm)
next
  case (timeout s s')
  then show ?case by (auto simp: stop_ok_def read_times_out_def split: if_splits)
qed

interpretation stop_sys: safe_system "s_step dbg tmo" stop_ok for dbg tmo
  by unfold_locales (rule step_stop_ok)

lemma start_stop_ok [simp]: "stop_ok (serial_start dev)"
  by (simp add: stop_ok_def serial_start_def)

lemma gone_is_final:
  assumes "stop_ok s" and "cpc s = C_gone"
  shows "\<not> s_step dbg tmo s s'"
  using assms by (auto elim!: s_stepE simp: stop_ok_def worker_defs caller_defs read_times_out_def)

lemma join_not_stuck:
  assumes "stop_ok s" and "cpc s = C_de_join"
  shows "caller_step s \<noteq> None \<or> worker_step dbg (sdev s, land s, wpc s) \<noteq> None"
  using assms
  by (cases "wpc s")
    (auto simp: stop_ok_def stop_seen_def caller_defs worker_defs wait_active_def
      split: nat.splits island_t.splits option.splits)

section \<open>Schedules\<close>

datatype move = Worker | Call call | Caller | Timeout

fun do_move :: "bool \<Rightarrow> move \<Rightarrow> serial_state \<Rightarrow> serial_state option" where
  "do_move dbg Worker s =
     (case worker_step dbg (sdev s, land s, wpc s) of
        Some (Inr (d, l, p)) \<Rightarrow> Some (s\<lparr>sdev := d, land := l, wpc := p\<rparr>)
      | _ \<Rightarrow> None)"
| "do_move dbg (Call c) s = (if cpc s = C_free then Some (begin_call c s) else None)"
| "do_move dbg Caller s = (case caller_step s of Some (Inr s') \<Rightarrow> Some s' | _ \<Rightarrow> None)"
| "do_move dbg Timeout s = read_times_out s"

fun do_moves :: "bool \<Rightarrow> move list \<Rightarrow> serial_state \<Rightarrow> serial_state option" where
  "do_moves dbg [] s = Some s"
| "do_moves dbg (m # ms) s = (case do_move dbg m s of Some s' \<Rightarrow> do_moves dbg ms s' | None \<Rightarrow> None)"

lemma do_move_step: "do_move dbg m s = Some s' \<Longrightarrow> tmo \<or> m \<noteq> Timeout \<Longrightarrow> s_step dbg tmo s s'"
  by (cases m) (auto intro: s_step.intros split: option.splits sum.splits if_splits)

lemma do_moves_steps:
  "do_moves dbg ms s = Some s' \<Longrightarrow> tmo \<or> Timeout \<notin> set ms \<Longrightarrow> s_steps dbg tmo s s'"
proof (induction ms arbitrary: s)
  case (Cons m ms)
  then obtain s1 where s1: "do_move dbg m s = Some s1" "do_moves dbg ms s1 = Some s'"
    by (auto split: option.splits)
  have "s_steps dbg tmo s1 s'" using Cons.IH [OF s1(2)] Cons.prems(2) by auto
  moreover have "s_step dbg tmo s s1" using do_move_step [OF s1(1)] Cons.prems(2) by auto
  ultimately show ?case by (metis converse_rtranclp_into_rtranclp)
qed simp

lemmas schedule_eval = worker_defs caller_defs begin_defs read_times_out_def Let_def
  serial_access_defs serial_start_def

text \<open>The worker goes round once with nothing to do but the command it finds.\<close>

abbreviation "worker_to_island \<equiv> [Worker, Worker, Worker, Worker, Worker]"

text \<open>A buffer of a caller.\<close>

abbreviation "eight \<equiv> replicate 8 NUL"

text \<open>
  A write of nothing; a read that times out before the worker has served it; a write of \<open>d\<close>;
  another read, which finds the unit of the first one.
\<close>

definition stale_schedule :: "string \<Rightarrow> move list" where
  "stale_schedule d =
     [Call (Call_write []), Caller, Caller, Caller, Worker] @ worker_to_island @ [Worker, Caller, Caller] @
     [Call (Call_read eight 8 1), Caller, Caller, Timeout, Worker] @ worker_to_island @ [Worker, Worker, Worker, Worker] @
     [Call (Call_write d), Caller, Caller, Caller, Worker] @ worker_to_island @ [Worker, Caller, Caller] @
     [Call (Call_read eight 8 1), Caller, Caller, Caller, Caller]"

text \<open>
  A read that times out when the worker has fetched its command but not yet cleared the slot;
  a write whose command is then cleared.
\<close>

definition lost_schedule :: "char \<Rightarrow> move list" where
  "lost_schedule c =
     [Call (Call_read eight 8 1), Caller, Caller, Worker, Worker, Worker, Worker, Timeout,
      Call (Call_write [c]), Caller, Caller, Worker, Caller] @
     [Worker, Worker, Worker, Worker, Worker, Worker, Worker] @ worker_to_island @ [Worker]"

text \<open>A write of one character and a read of it; and a read on a new device.\<close>

definition echo_schedule :: "char \<Rightarrow> move list" where
  "echo_schedule c =
     [Call (Call_write [c]), Caller, Caller, Caller, Worker] @ worker_to_island @ [Worker, Caller, Caller] @
     [Call (Call_read eight 8 1), Caller, Caller, Worker] @ worker_to_island @
     [Worker, Worker, Worker, Worker, Worker, Caller, Caller]"

text \<open>A write of one character, and a read of no more than 0 bytes into a buffer of that size, up to its \<^verbatim>\<open>memcpy\<close>.\<close>

definition short_schedule :: "char \<Rightarrow> move list" where
  "short_schedule c =
     [Call (Call_write [c]), Caller, Caller, Caller, Worker] @ worker_to_island @ [Worker, Caller, Caller] @
     [Call (Call_read [] 0 1), Caller, Caller, Worker] @ worker_to_island @
     [Worker, Worker, Worker, Worker, Worker, Caller]"

definition early_schedule :: "move list" where
  "early_schedule = [Call (Call_read eight 8 1), Caller, Caller, Worker] @ worker_to_island @ [Worker]"

lemma first_put: "length xs = SERIAL_CHAN_BUF_SIZE \<Longrightarrow> take (Suc 0) (xs[0 := c]) = [c]"
  by (cases xs) auto

lemma stale_run:
  assumes "created dev" and "length d \<le> SERIAL_CHAN_BUF_SIZE"
  shows "\<exists>s. do_moves True (stale_schedule d) (serial_start dev) = Some s
    \<and> evs s = [Ev_call (Call_write []), Ev_ret (Ret_write 0), Ev_call (Call_read eight 8 1), Ev_ret (Ret_read (- 1) []),
               Ev_call (Call_write d), Ev_ret (Ret_write (int (length d))),
               Ev_call (Call_read eight 8 1), Ev_ret (Ret_read 0 [])]"
  using created_fields [OF assms(1)] assms(2)
  by (simp add: stale_schedule_def schedule_eval raw_dev_def slots_are_def sint_small)

lemma lost_run:
  assumes "created dev"
  shows "\<exists>s. do_moves True (lost_schedule c) (serial_start dev) = Some s
    \<and> cpc s = C_wr_wait \<and> wpc s = W_wait \<and> slots_are (sdev s) 0 1 0 0"
  using created_fields [OF assms(1)]
  by (simp add: lost_schedule_def schedule_eval raw_dev_def slots_are_def rd_def wr_def first_put)

lemma lost_is_stuck:
  assumes "cpc s = C_wr_wait" and "wpc s = W_wait" and "slots_are (sdev s) 0 r 0 c"
  shows "\<not> s_step dbg tmo s s'"
  using assms
  by (auto elim!: s_stepE
      simp: slots_are_def worker_defs caller_defs read_times_out_def wait_active_def wait_tx_def Let_def)

lemma echo_schedule_run:
  assumes "created dev"
  shows "\<exists>s. do_moves True (echo_schedule c) (serial_start dev) = Some s
    \<and> evs s = [Ev_call (Call_write [c]), Ev_ret (Ret_write 1), Ev_call (Call_read eight 8 1), Ev_ret (Ret_read 1 [c])]"
  using created_fields [OF assms(1)]
  by (simp add: echo_schedule_def schedule_eval raw_dev_def slots_are_def rd_def wr_def first_put)

lemma short_run:
  assumes "created dev"
  shows "\<exists>s. do_moves True (short_schedule c) (serial_start dev) = Some s \<and> caller_step s = Some (Inl Out_Of_Bounds)"
  using created_fields [OF assms(1)]
  by (simp add: short_schedule_def schedule_eval raw_dev_def slots_are_def rd_def wr_def first_put)

lemma early_run:
  assumes "created dev"
  shows "\<exists>s. do_moves True early_schedule (serial_start dev) = Some s
    \<and> worker_step True (sdev s, land s, wpc s) = Some (Inl Uninit_Read)"
  using created_fields [OF assms(1)]
  by (simp add: early_schedule_def schedule_eval raw_dev_def slots_are_def)

text \<open>A device to evaluate with.\<close>

definition example_dev :: serial_dev where
  "example_dev =
     (let ch = \<lparr>ch_buf = replicate SERIAL_CHAN_BUF_SIZE NUL, ch_cnt = None, ch_len = None, ch_timeout = None\<rparr>
      in \<lparr>ser_id = 0, ser_name = ''serial'',
          conf = \<lparr>sc_port = None, sc_speed = 921600, sc_data = 8, sc_parity = CHR ''N'', sc_stop = 1\<rparr>,
          ctrl = \<lparr>ser_cmd = 0, ser_stop = 0, ser_status = 0, ser_fd = - 1, rx_ready = 0, tx_ready = 0, active = 0\<rparr>,
          rxchan = ch, txchan = ch\<rparr>)"

lemma example_dev_created: "created example_dev"
proof -
  have "raw_dev example_dev" by (simp add: raw_dev_def example_dev_def Let_def)
  moreover have "serial_dev_create (Some example_dev) (0, 0, 0) 0 ''serial'' 0 = (Some example_dev, 1)"
    by (simp add: serial_dev_create_def serial_dev_init_def serial_obtain_id_def Let_def example_dev_def)
  ultimately show ?thesis unfolding created_def by blast
qed

end
