(* ===== verification/Serial_Spec.thy ===== *)
theory Serial_Spec
  imports Serial_Runs
begin

text \<open>
  The contract of a serial device built with \<^verbatim>\<open>DEBUG\<close>: a sequential loop-back device, whose
  reads return the whole of what was written last. In the runs in which no read times out the
  two threads refine it; the abstraction forgets the worker, the semaphores and the channels.
\<close>

section \<open>The loop-back device\<close>

datatype pending = P_free | P_read | P_write | P_destroy | P_gone

type_synonym loop_dev = "string option \<times> pending"

fun loop_step :: "loop_dev \<Rightarrow> event \<Rightarrow> loop_dev option" where
  "loop_step (w, P_free) (Ev_call (Call_read pbuf len tm)) = Some (w, P_read)"
| "loop_step (w, P_free) (Ev_call (Call_write d)) = Some (Some d, P_write)"
| "loop_step (w, P_free) (Ev_call Call_destroy) = Some (w, P_destroy)"
| "loop_step (Some d, P_read) (Ev_ret (Ret_read n d')) =
     (if d' = d \<and> n = int (length d) then Some (Some d, P_free) else None)"
| "loop_step (Some d, P_write) (Ev_ret (Ret_write n)) =
     (if n = int (length d) then Some (Some d, P_free) else None)"
| "loop_step (w, P_destroy) (Ev_ret Ret_destroy) = Some (w, P_gone)"
| "loop_step _ _ = None"

fun loop_run :: "loop_dev \<Rightarrow> event list \<Rightarrow> loop_dev option" where
  "loop_run l [] = Some l"
| "loop_run l (e # es) = (case loop_step l e of Some l' \<Rightarrow> loop_run l' es | None \<Rightarrow> None)"

lemma loop_run_snoc:
  "loop_run l (es @ [e]) = (case loop_run l es of Some l' \<Rightarrow> loop_step l' e | None \<Rightarrow> None)"
  by (induction es arbitrary: l) (auto split: option.splits)

section \<open>The refinement\<close>

fun pending_of :: "cpc \<Rightarrow> pending" where
  "pending_of C_free = P_free"
| "pending_of C_rd_cmd = P_read" | "pending_of C_rd_post = P_read"
| "pending_of C_rd_wait = P_read" | "pending_of C_rd_take = P_read"
| "pending_of (C_wr_copy d) = P_write" | "pending_of C_wr_cmd = P_write" | "pending_of C_wr_post = P_write"
| "pending_of C_wr_wait = P_write" | "pending_of C_wr_ret = P_write"
| "pending_of C_de_stop = P_destroy" | "pending_of C_de_post = P_destroy" | "pending_of C_de_join = P_destroy"
| "pending_of C_gone = P_gone"

definition loop_abs :: "serial_state \<Rightarrow> loop_dev" where
  "loop_abs s = (last_write (evs s), pending_of (cpc s))"

text \<open>A step of the threads is a step of the loop-back device, or none.\<close>

definition matched :: "serial_state \<Rightarrow> serial_state \<Rightarrow> bool" where
  "matched s s' \<longleftrightarrow> (evs s' = evs s \<and> loop_abs s' = loop_abs s)
     \<or> (\<exists>e. evs s' = evs s @ [e] \<and> loop_step (loop_abs s) e = Some (loop_abs s'))"

lemma caller_matched:
  assumes "caller_step s = Some (Inr s')" and "hand_shake s"
  shows "matched s s'"
  using assms
  by (cases "cpc s")
    (auto simp: matched_def loop_abs_def caller_defs serial_state_defs serial_access_defs tx_is_def rx_is_def
      small_nat_u32 sint_small split: option.splits nat.splits if_split_asm)

lemma call_matched: "cpc s = C_free \<Longrightarrow> matched s (begin_call c s)"
  by (cases c) (simp_all add: matched_def loop_abs_def begin_defs Let_def)

lemma step_matched:
  assumes "s_step True False s s'" and "hand_shake s"
  shows "matched s s'"
  using assms
proof (induction rule: s_step.induct)
  case (worker s d l p)
  then show ?case by (simp add: matched_def loop_abs_def)
qed (simp_all add: caller_matched call_matched)

interpretation loop_sys: safe_system "s_step True False"
    "\<lambda>s. (hand_shake s \<and> good_events (evs s)) \<and> loop_run l (evs s) = Some (loop_abs s)" for l
proof
  fix s s'
  assume s: "(hand_shake s \<and> good_events (evs s)) \<and> loop_run l (evs s) = Some (loop_abs s)" and st: "s_step True False s s'"
  have "hand_shake s' \<and> good_events (evs s')" using shake_sys.step_keeps s st by blast
  moreover have "matched s s'" using step_matched s st by blast
  ultimately show "(hand_shake s' \<and> good_events (evs s')) \<and> loop_run l (evs s') = Some (loop_abs s')"
    using s by (auto simp: matched_def loop_run_snoc)
qed

end
