(* ===== verification/Xyz_Modem.thy ===== *)
theory Xyz_Modem
  imports C_Prelude
begin

text \<open>
  Models \<^verbatim>\<open>demo-dh/drivers/xyzmodem.c\<close>, the receiving side of XMODEM-CRC over a terminal
  (the file is compiled out by \<^verbatim>\<open>#if 0\<close>). The terminal is the \<open>struct tty\<close> the code is given,
  functions on the state \<open>'w\<close> of the line; \<open>udelay\<close> of the boot ROM is kept beside them. A loop
  that may run for ever is \<open>None\<close> when it does.
\<close>

section \<open>Terminal and state\<close>

record 'w tty =
  tstc :: "'w \<Rightarrow> bool \<times> 'w"
  putc :: "u8 \<Rightarrow> 'w \<Rightarrow> 'w"
  getc :: "'w \<Rightarrow> int \<times> 'w"
  udelay :: "nat \<Rightarrow> 'w \<Rightarrow> 'w"

abbreviation "SOH \<equiv> 0x01 :: u8"
abbreviation "STX \<equiv> 0x02 :: u8"
abbreviation "EOT \<equiv> 0x04 :: u8"
abbreviation "ACK \<equiv> 0x06 :: u8"
abbreviation "BSP \<equiv> 0x08 :: u8"
abbreviation "CAN \<equiv> 0x18 :: u8"
abbreviation "CTRL_Z \<equiv> 0x1A :: u8"
abbreviation "CHR_C \<equiv> 0x43 :: u8"

abbreviation "POLL_INTERVAL \<equiv> 8 :: nat"
abbreviation "xyzModem_CHAR_TIMEOUT \<equiv> 250000 :: nat"
abbreviation "xyzModem_EXIT_TIMEOUT \<equiv> 250000 :: nat"
abbreviation "xyzModem_MAX_RETRIES \<equiv> 200 :: nat"
abbreviation "xyzModem_CAN_COUNT \<equiv> 3 :: nat"

abbreviation "xyzModem_access \<equiv> - 1 :: int"
abbreviation "xyzModem_noZmodem \<equiv> - 2 :: int"
abbreviation "xyzModem_timeout \<equiv> - 3 :: int"
abbreviation "xyzModem_eof \<equiv> - 4 :: int"
abbreviation "xyzModem_cancel \<equiv> - 5 :: int"
abbreviation "xyzModem_frame \<equiv> - 6 :: int"
abbreviation "xyzModem_cksum \<equiv> - 7 :: int"
abbreviation "xyzModem_sequence \<equiv> - 8 :: int"

text \<open>
  \<open>pkt\<close> is the packet buffer (\<open>None\<close>: the pointer is NULL), \<open>bufp\<close> the offset of the
  read pointer in it, \<open>xlen\<close> the field \<^verbatim>\<open>len\<close>.
\<close>

record 'w xyz =
  pkt :: "u8 list option"
  bufp :: "int option"
  blk :: u8
  cblk :: u8
  crc1 :: u8
  crc2 :: u8
  next_blk :: u8
  xlen :: int
  at_eof :: bool
  tx_ack :: bool
  tty_initialized :: bool
  xtty :: "'w tty option"

definition xyz_zero :: "'w xyz" where
  "xyz_zero = \<lparr>pkt = None, bufp = None, blk = 0, cblk = 0, crc1 = 0, crc2 = 0, next_blk = 0, xlen = 0,
     at_eof = False, tx_ack = False, tty_initialized = False, xtty = None\<rparr>"

section \<open>Characters\<close>

text \<open>The polling loop, with the number of polls left.\<close>

fun getc_poll :: "'w tty \<Rightarrow> nat \<Rightarrow> 'w \<Rightarrow> 'w" where
  "getc_poll t n w =
     (let (r, w1) = tstc t w
      in if r then w1
         else case n of 0 \<Rightarrow> w1 | Suc m \<Rightarrow> getc_poll t m (udelay t POLL_INTERVAL w1))"

declare getc_poll.simps [simp del]

definition xyz_getc_timeout :: "'w tty \<Rightarrow> 'w \<Rightarrow> u8 option \<times> 'w" where
  "xyz_getc_timeout t w =
     (let (r, w1) = tstc t (getc_poll t xyzModem_CHAR_TIMEOUT w)
      in if r then let (c, w2) = getc t w1 in (Some (of_int c), w2) else (None, w1))"

partial_function (option) xyz_flush :: "'w tty \<Rightarrow> 'w \<Rightarrow> 'w option" where
  "xyz_flush t w =
     (let (r, w1) = tstc t w
      in if r then xyz_flush t (snd (getc t w1)) else Some w1)"

section \<open>Checksum\<close>

text \<open>One round of the loop: \<^verbatim>\<open>t << 5\<close> and \<^verbatim>\<open>t << 12\<close> are computed on 32 bits and cut to 16 at the end.\<close>

definition crc_round :: "u16 \<Rightarrow> u8 \<Rightarrow> u16" where
  "crc_round cksum b =
     (let s = b XOR ucast (drop_bit 8 cksum);
          t = s XOR drop_bit 4 s;
          r = push_bit 8 (ucast cksum :: u32) XOR ucast t XOR push_bit 5 (ucast t) XOR push_bit 12 (ucast t)
      in ucast r)"

text \<open>The loop, with the number of rounds left and the offset of the pointer in the buffer.\<close>

fun crc_loop :: "u8 list \<Rightarrow> nat \<Rightarrow> int \<Rightarrow> u16 \<Rightarrow> u16 res" where
  "crc_loop buf 0 i cksum = Inr cksum"
| "crc_loop buf (Suc n) i cksum = res_bind (rd buf i) (\<lambda>b. crc_loop buf n (i + 1) (crc_round cksum b))"

definition rda_crc16 :: "u8 list \<Rightarrow> int \<Rightarrow> u16 res" where
  "rda_crc16 buf n = crc_loop buf (nat n) 0 0"

section \<open>One packet: xyzModem_get_hdr\<close>

text \<open>
  The search for the start of a header: \<open>Inl\<close> is a code to return, \<open>Inr\<close> the start character.
\<close>

partial_function (option) hdr_search :: "'w tty \<Rightarrow> nat \<Rightarrow> nat \<Rightarrow> 'w \<Rightarrow> ((int + u8) \<times> 'w) option" where
  "hdr_search t can_total hdr_chars w =
     (case xyz_getc_timeout t w of
        (Some c, w1) \<Rightarrow>
          if c = SOH \<or> c = STX then Some (Inr c, w1)
          else if c = CAN then
            (if can_total + 1 = xyzModem_CAN_COUNT then Some (Inl xyzModem_cancel, w1)
             else hdr_search t (can_total + 1) (hdr_chars + 1) w1)
          else if c = EOT \<and> hdr_chars + 1 = 1 then Some (Inl xyzModem_eof, putc t ACK w1)
          else hdr_search t can_total (hdr_chars + 1) w1
      | (None, w1) \<Rightarrow>
          (case xyz_flush t w1 of
             None \<Rightarrow> None
           | Some w2 \<Rightarrow> Some (Inl xyzModem_timeout, udelay t xyzModem_EXIT_TIMEOUT w2)))"

text \<open>The data loop, with the number of bytes left; the flag says whether all of them came.\<close>

fun get_data :: "'w tty \<Rightarrow> nat \<Rightarrow> int \<Rightarrow> 'w xyz \<Rightarrow> 'w \<Rightarrow> (bool \<times> 'w xyz \<times> 'w) res" where
  "get_data t 0 i x w = Inr (True, x, w)"
| "get_data t (Suc n) i x w =
     (case xyz_getc_timeout t w of
        (None, w1) \<Rightarrow> Inr (False, x, w1)
      | (Some c, w1) \<Rightarrow>
          (case pkt x of
             None \<Rightarrow> Inl Null_Deref
           | Some p \<Rightarrow> res_bind (wr p i c) (\<lambda>p'. get_data t n (i + 1) (x\<lparr>pkt := Some p'\<rparr>) w1)))"

definition get_tail :: "'w tty \<Rightarrow> 'w xyz \<Rightarrow> 'w \<Rightarrow> (int \<times> 'w xyz \<times> 'w) res option" where
  "get_tail t x w =
     (case xyz_getc_timeout t w of
        (None, w1) \<Rightarrow> Some (Inr (xyzModem_timeout, x, w1))
      | (Some c1, w1) \<Rightarrow>
          (case xyz_getc_timeout t w1 of
             (None, w2) \<Rightarrow> Some (Inr (xyzModem_timeout, x\<lparr>crc1 := c1\<rparr>, w2))
           | (Some c2, w2) \<Rightarrow>
               let x1 = x\<lparr>crc1 := c1, crc2 := c2\<rparr>
               in if blk x1 XOR cblk x1 \<noteq> 0xFF
                  then (case xyz_flush t w2 of None \<Rightarrow> None | Some w3 \<Rightarrow> Some (Inr (xyzModem_frame, x1, w3)))
                  else (case pkt x1 of
                     None \<Rightarrow> Some (Inl Null_Deref)
                   | Some p \<Rightarrow>
                       Some (res_bind (rda_crc16 p (xlen x1)) (\<lambda>cksum.
                         if cksum \<noteq> push_bit 8 (ucast (crc1 x1)) OR ucast (crc2 x1)
                         then Inr (xyzModem_cksum, x1, w2)
                         else Inr (0, x1, w2))))))"

definition get_body :: "'w tty \<Rightarrow> u8 \<Rightarrow> 'w xyz \<Rightarrow> 'w \<Rightarrow> (int \<times> 'w xyz \<times> 'w) res option" where
  "get_body t c x w =
     (case xyz_getc_timeout t w of
        (None, w1) \<Rightarrow> Some (Inr (xyzModem_timeout, x, w1))
      | (Some b, w1) \<Rightarrow>
          (case xyz_getc_timeout t w1 of
             (None, w2) \<Rightarrow> Some (Inr (xyzModem_timeout, x\<lparr>blk := b\<rparr>, w2))
           | (Some b', w2) \<Rightarrow>
               let n = if c = SOH then 128 else 1024;
                   x1 = x\<lparr>blk := b, cblk := b', xlen := n, bufp := map_option (\<lambda>_. 0) (pkt x)\<rparr>
               in (case get_data t (nat n) 0 x1 w2 of
                     Inl e \<Rightarrow> Some (Inl e)
                   | Inr (ok, x2, w3) \<Rightarrow>
                       if ok then get_tail t x2 w3 else Some (Inr (xyzModem_timeout, x2, w3)))))"

definition xyzModem_get_hdr :: "'w tty \<Rightarrow> 'w xyz \<Rightarrow> 'w \<Rightarrow> (int \<times> 'w xyz \<times> 'w) res option" where
  "xyzModem_get_hdr t x w =
     (let (x1, w1) = if tx_ack x then (x\<lparr>tx_ack := False\<rparr>, putc t ACK w) else (x, w)
      in case hdr_search t 0 0 w1 of
           None \<Rightarrow> None
         | Some (Inl st, w2) \<Rightarrow> Some (Inr (st, x1, w2))
         | Some (Inr c, w2) \<Rightarrow> get_body t c x1 w2)"

section \<open>The stream\<close>

definition xyzModem_init :: "'w tty option \<Rightarrow> 'w xyz \<Rightarrow> 'w xyz" where
  "xyzModem_init ptty x = x\<lparr>xtty := ptty, tty_initialized := True\<rparr>"

text \<open>
  \<open>pdl_cmd_buf\<close> holds the bytes of the buffer of that name, which is declared elsewhere. The
  result is the return value, the error code where one is stored, and the state.
\<close>

definition xyzModem_stream_open :: "u8 list \<Rightarrow> 'w xyz \<Rightarrow> 'w \<Rightarrow> (int \<times> int option \<times> 'w xyz \<times> 'w) res" where
  "xyzModem_stream_open pdl_cmd_buf x w =
     (if \<not> tty_initialized x then Inr (- 1, Some xyzModem_access, x, w)
      else case xtty x of
        None \<Rightarrow> Inl Null_Deref
      | Some t \<Rightarrow>
          Inr (0, None, x\<lparr>pkt := Some pdl_cmd_buf, xlen := 0, at_eof := False, tx_ack := False, next_blk := 1\<rparr>,
               putc t CHR_C w))"

text \<open>
  The length without the trailing ^Z. \<open>i\<close> is the offset of the read pointer in the packet buffer; every byte the
  test and the loop look at is read through it, in the order of the code. A block has 128 or 1024 bytes here.
\<close>

fun pad_loop :: "u8 list \<Rightarrow> int \<Rightarrow> nat \<Rightarrow> nat res" where
  "pad_loop p i 0 = Inr 0"
| "pad_loop p i (Suc n) = res_bind (rd p (i + int n)) (\<lambda>b. if b = CTRL_Z then pad_loop p i n else Inr (Suc n))"

definition strip_padding :: "'w xyz \<Rightarrow> 'w xyz res" where
  "strip_padding x =
     (case (pkt x, bufp x) of
        (Some p, Some i) \<Rightarrow>
          res_bind (rd p (i + xlen x - 1)) (\<lambda>b1.
          if b1 \<noteq> CTRL_Z then Inr x
          else res_bind (rd p (i + xlen x - 2)) (\<lambda>b2.
          if b2 \<noteq> CTRL_Z then Inr x
          else res_bind (rd p (i + xlen x - 3)) (\<lambda>b3.
          if b3 \<noteq> CTRL_Z then Inr x
          else res_bind (pad_loop p i (nat (xlen x))) (\<lambda>n. Inr (x\<lparr>xlen := int n\<rparr>)))))
      | _ \<Rightarrow> Inl Null_Deref)"

text \<open>The loop over the retries, with the number of them left and the last code.\<close>

fun retry_loop :: "'w tty \<Rightarrow> nat \<Rightarrow> int \<Rightarrow> 'w xyz \<Rightarrow> 'w \<Rightarrow> (int \<times> 'w xyz \<times> 'w) res option" where
  "retry_loop t 0 stat x w = Some (Inr (stat, x, w))"
| "retry_loop t (Suc n) stat x w =
     (case xyzModem_get_hdr t x w of
        None \<Rightarrow> None
      | Some (Inl e) \<Rightarrow> Some (Inl e)
      | Some (Inr (st, x1, w1)) \<Rightarrow>
          if st = 0 \<and> blk x1 = next_blk x1
          then Some (res_bind (strip_padding (x1\<lparr>tx_ack := True, next_blk := next_blk x1 + 1\<rparr>)) (\<lambda>x2. Inr (st, x2, w1)))
          else if st = 0 \<and> blk x1 = next_blk x1 - 1 then retry_loop t n st x1 (putc t ACK w1)
          else let st1 = if st = 0 then xyzModem_sequence else st
               in if st1 = xyzModem_cancel then Some (Inr (st1, x1, w1))
                  else if st1 = xyzModem_eof then Some (Inr (st1, x1\<lparr>at_eof := True\<rparr>, putc t ACK w1))
                  else retry_loop t n st1 x1 (putc t CHR_C w1))"

text \<open>\<^verbatim>\<open>memcpy\<close> from the read pointer: its length is unsigned, so a negative one is out of bounds.\<close>

definition take_out :: "'w xyz \<Rightarrow> int \<Rightarrow> u8 list res" where
  "take_out x n =
     (case (pkt x, bufp x) of
        (Some p, Some i) \<Rightarrow>
          if 0 \<le> n \<and> 0 \<le> i \<and> i + n \<le> int (length p) then Inr (take (nat n) (drop (nat i) p)) else Inl Out_Of_Bounds
      | _ \<Rightarrow> if n = 0 then Inr [] else Inl Null_Deref)"

definition deliver :: "int \<Rightarrow> 'w xyz \<Rightarrow> (u8 list \<times> int \<times> 'w xyz) res" where
  "deliver sz x =
     (let n = if sz < xlen x then sz else xlen x
      in res_bind (take_out x n) (\<lambda>bs.
         Inr (bs, sz - n, x\<lparr>xlen := xlen x - n, bufp := map_option (\<lambda>i. i + n) (bufp x)\<rparr>)))"

text \<open>The outer loop; \<open>out\<close> is what the caller's buffer holds so far.\<close>

partial_function (option) stream_loop ::
  "int \<Rightarrow> u8 list \<Rightarrow> 'w xyz \<Rightarrow> 'w \<Rightarrow> (u8 list \<times> int option \<times> 'w xyz \<times> 'w) res option"
where
  "stream_loop sz out z w =
     (if at_eof z \<or> sz \<le> 0 then Some (Inr (out, None, z, w))
      else if xlen z \<noteq> 0
      then (case deliver sz z of
              Inl e \<Rightarrow> Some (Inl e)
            | Inr (bs, sz', z') \<Rightarrow> stream_loop sz' (out @ bs) z' w)
      else (case xtty z of
              None \<Rightarrow> Some (Inl Null_Deref)
            | Some t \<Rightarrow>
                (case retry_loop t xyzModem_MAX_RETRIES xyzModem_cancel z w of
                   None \<Rightarrow> None
                 | Some (Inl e) \<Rightarrow> Some (Inl e)
                 | Some (Inr (st, z1, w1)) \<Rightarrow>
                     if st < 0 then Some (Inr (out, Some st, z1\<lparr>xlen := - 1\<rparr>, w1))
                     else if at_eof z1 then stream_loop sz out z1 w1
                     else (case deliver sz z1 of
                             Inl e \<Rightarrow> Some (Inl e)
                           | Inr (bs, sz', z') \<Rightarrow> stream_loop sz' (out @ bs) z' w1))))"

text \<open>The bytes read (as many as the call returns), the error code where one is stored, the state.\<close>

definition xyzModem_stream_read ::
  "int \<Rightarrow> 'w xyz \<Rightarrow> 'w \<Rightarrow> (u8 list \<times> int option \<times> 'w xyz \<times> 'w) res option"
where
  "xyzModem_stream_read sz x w = stream_loop sz [] x w"

definition xyzModem_stream_terminate :: "int \<Rightarrow> 'w xyz \<Rightarrow> 'w \<Rightarrow> ('w xyz \<times> 'w) res option" where
  "xyzModem_stream_terminate abort x w =
     (case xtty x of
        None \<Rightarrow> Some (Inl Null_Deref)
      | Some t \<Rightarrow>
          if abort \<noteq> 0
          then map_option (\<lambda>w1. Inr (x\<lparr>at_eof := True\<rparr>, w1))
                 (xyz_flush t (fold (putc t) [CAN, CAN, CAN, CAN, BSP, BSP, BSP, BSP] w))
          else map_option (\<lambda>w1. Inr (x, udelay t xyzModem_EXIT_TIMEOUT w1)) (xyz_flush t w))"

definition xyzModem_error :: "int \<Rightarrow> string" where
  "xyzModem_error err =
     (if err = xyzModem_access then ''Can't access file''
      else if err = xyzModem_noZmodem then ''Sorry, zModem not available yet''
      else if err = xyzModem_timeout then ''Timed out''
      else if err = xyzModem_eof then ''End of file''
      else if err = xyzModem_cancel then ''Cancelled''
      else if err = xyzModem_frame then ''Invalid framing''
      else if err = xyzModem_cksum then ''CRC/checksum error''
      else if err = xyzModem_sequence then ''Block sequence error''
      else ''Unknown error'')"

end
