(* ===== verification/Xyz_Crc.thy ===== *)
theory Xyz_Crc
  imports Xyz_Modem
begin

text \<open>
  The checksum of \<^verbatim>\<open>rda_crc16\<close>, which works a byte at a time without a table, against the
  definition of CRC-16 with the polynomial 0x1021, a bit at a time.
\<close>

definition crc_shift :: "u16 \<Rightarrow> u16" where
  "crc_shift c = (if bit c 15 then push_bit 1 c XOR 0x1021 else push_bit 1 c)"

definition crc_byte :: "u16 \<Rightarrow> u8 \<Rightarrow> u16" where
  "crc_byte c b = (crc_shift ^^ 8) (c XOR push_bit 8 (ucast b))"

definition crc_ccitt :: "u8 list \<Rightarrow> u16" where
  "crc_ccitt bs = foldl crc_byte 0 bs"

lemma bit_twice: "bit (c * 2 :: u16) n \<longleftrightarrow> 0 < n \<and> n < 16 \<and> bit c (n - 1)"
  using bit_push_bit_iff [of 1 c n] by (simp add: push_bit_eq_mult Suc_le_eq)

lemma bit_crc_shift:
  "bit (crc_shift c) 0 \<longleftrightarrow> bit c 15" "bit (crc_shift c) 1 \<longleftrightarrow> bit c 0"
  "bit (crc_shift c) 2 \<longleftrightarrow> bit c 1" "bit (crc_shift c) 3 \<longleftrightarrow> bit c 2"
  "bit (crc_shift c) 4 \<longleftrightarrow> bit c 3" "bit (crc_shift c) 5 \<longleftrightarrow> bit c 4 \<noteq> bit c 15"
  "bit (crc_shift c) 6 \<longleftrightarrow> bit c 5" "bit (crc_shift c) 7 \<longleftrightarrow> bit c 6"
  "bit (crc_shift c) 8 \<longleftrightarrow> bit c 7" "bit (crc_shift c) 9 \<longleftrightarrow> bit c 8"
  "bit (crc_shift c) 10 \<longleftrightarrow> bit c 9" "bit (crc_shift c) 11 \<longleftrightarrow> bit c 10"
  "bit (crc_shift c) 12 \<longleftrightarrow> bit c 11 \<noteq> bit c 15" "bit (crc_shift c) 13 \<longleftrightarrow> bit c 12"
  "bit (crc_shift c) 14 \<longleftrightarrow> bit c 13" "bit (crc_shift c) 15 \<longleftrightarrow> bit c 14"
  by (auto simp: crc_shift_def bit_simps bit_twice)

lemma below_16: "n < 16 \<Longrightarrow> n \<in> {0, 1, 2, 3, 4, 5, 6, 7, 8, 9, 10, 11, 12, 13, 14, 15 :: nat}"
  by (simp only: insert_iff empty_iff) presburger

lemma bits_16: "(\<And>n. n < 16 \<Longrightarrow> bit (a :: u16) n \<longleftrightarrow> bit b n) \<Longrightarrow> a = b"
  by (rule bit_word_eqI) simp

lemma funpow_8: "(f ^^ 8) x = f (f (f (f (f (f (f (f x)))))))"
  by (simp add: numeral_eq_Suc)

lemma bit_u8_high: "8 \<le> n \<Longrightarrow> \<not> bit (b :: u8) n"
  using bit_imp_le_length [of b n] by auto

lemma crc_round_byte: "crc_round c b = crc_byte c b"
proof (rule bits_16)
  fix n :: nat
  assume "n < 16"
  from below_16 [OF this] show "bit (crc_round c b) n \<longleftrightarrow> bit (crc_byte c b) n"
    unfolding crc_byte_def funpow_8
    by (elim insertE emptyE, simp_all add: crc_round_def Let_def bit_simps bit_crc_shift
        bit_crc_shift [unfolded One_nat_def] bit_u8_high, blast+)
qed

text \<open>The loop reads the bytes from its pointer on; it leaves the buffer when there are too few of them.\<close>

lemma crc_loop_bytes: "i + n \<le> length p \<Longrightarrow> crc_loop p n (int i) c = Inr (foldl crc_byte c (take n (drop i p)))"
proof (induction n arbitrary: i c)
  case (Suc n)
  then have "i < length p" by simp
  then have "take (Suc n) (drop i p) = p ! i # take n (drop (Suc i) p)" by (simp add: Cons_nth_drop_Suc [symmetric])
  then show ?case using Suc.IH [of "Suc i" "crc_round c (p ! i)"] Suc.prems \<open>i < length p\<close>
    by (simp add: rd_in crc_round_byte add.commute)
qed simp

lemma crc_loop_outside: "i \<le> length p \<Longrightarrow> length p < i + n \<Longrightarrow> crc_loop p n (int i) c = Inl Out_Of_Bounds"
proof (induction n arbitrary: i c)
  case (Suc n)
  show ?case
  proof (cases "i < length p")
    case True
    then show ?thesis using Suc.IH [of "Suc i"] Suc.prems by (simp add: rd_in add.commute)
  qed (simp add: rd_def)
qed simp

lemma rda_crc16_ccitt: "n \<le> length p \<Longrightarrow> rda_crc16 p (int n) = Inr (crc_ccitt (take n p))"
  using crc_loop_bytes [of 0 n p 0] by (simp add: rda_crc16_def crc_ccitt_def)

lemma rda_crc16_outside: "length p < n \<Longrightarrow> rda_crc16 p (int n) = Inl Out_Of_Bounds"
  using crc_loop_outside [of 0 p n 0] by (simp add: rda_crc16_def)

section \<open>One damaged byte\<close>

lemma xor_cancel: "a XOR p = b XOR p \<longleftrightarrow> a = b" for a b p :: u16
  by (metis xor.assoc xor.right_neutral xor_self_eq)

lemma inj_crc_shift: "inj crc_shift"
proof (rule injI)
  fix c d :: u16
  assume eq: "crc_shift c = crc_shift d"
  have top: "bit c 15 = bit d 15" using bit_crc_shift(1) [of c] bit_crc_shift(1) [of d] eq by simp
  then have "push_bit 1 c = push_bit 1 d" using eq by (auto simp: crc_shift_def xor_cancel split: if_splits)
  then have low: "bit c n = bit d n" if "n < 15" for n
    using that bit_twice [of c "Suc n"] bit_twice [of d "Suc n"] by simp
  show "c = d"
  proof (rule bits_16)
    fix n :: nat
    assume "n < 16"
    then show "bit c n = bit d n" using low [of n] top by (cases "n = 15") auto
  qed
qed

lemma inj_shifts: "(crc_shift ^^ n) c = (crc_shift ^^ n) d \<longleftrightarrow> c = d"
  using inj_fn [OF inj_crc_shift, of n] by (auto dest: injD)

lemma crc_byte_inj_state: "crc_byte c b = crc_byte d b \<longleftrightarrow> c = d"
  by (simp add: crc_byte_def inj_shifts xor_cancel)

lemma crc_byte_inj_byte: "crc_byte c a = crc_byte c b \<longleftrightarrow> a = b"
proof
  assume "crc_byte c a = crc_byte c b"
  then have eq: "c XOR push_bit 8 (ucast a) = c XOR push_bit 8 (ucast b)" by (simp add: crc_byte_def inj_shifts)
  show "a = b"
  proof (rule bit_word_eqI)
    fix n
    assume "n < LENGTH(8)"
    moreover have "bit (c XOR push_bit 8 (ucast a)) (n + 8) = bit (c XOR push_bit 8 (ucast b)) (n + 8)" using eq by simp
    ultimately show "bit a n = bit b n" by (auto simp: bit_simps)
  qed
qed simp

lemma crc_tail_inj: "foldl crc_byte c bs = foldl crc_byte d bs \<longleftrightarrow> c = d"
  by (induction bs arbitrary: c d) (simp_all add: crc_byte_inj_state)

lemma crc_detects_byte: "a \<noteq> b \<Longrightarrow> crc_ccitt (xs @ a # ys) \<noteq> crc_ccitt (xs @ b # ys)"
  by (simp add: crc_ccitt_def crc_tail_inj crc_byte_inj_byte)

end
