(* ===== verification/Xyz_Line.thy ===== *)
theory Xyz_Line
  imports Xyz_Crc
begin

text \<open>
  What the line delivers to the XMODEM receiver: bytes, the packet of a block, and the header
  search and packet reader on it.
\<close>

section \<open>Lines\<close>

text \<open>The line after it has delivered exactly \<open>bs\<close>, each byte before its timeout; \<open>None\<close> if it does not.\<close>

fun feed :: "'w tty \<Rightarrow> u8 list \<Rightarrow> 'w \<Rightarrow> 'w option" where
  "feed t [] w = Some w"
| "feed t (b # bs) w =
     (case xyz_getc_timeout t w of
        (Some c, w1) \<Rightarrow> if c = b then feed t bs w1 else None
      | (None, w1) \<Rightarrow> None)"

lemma feed_append: "feed t (as @ bs) w = (case feed t as w of Some w1 \<Rightarrow> feed t bs w1 | None \<Rightarrow> None)"
  by (induction as arbitrary: w) (auto split: prod.splits option.splits)

lemma feed_Cons_iff: "feed t (b # bs) w = Some w' \<longleftrightarrow> (\<exists>w1. xyz_getc_timeout t w = (Some b, w1) \<and> feed t bs w1 = Some w')"
  by (auto split: prod.splits option.splits)

declare feed.simps(2) [simp del]

text \<open>A line that holds the bytes still to come and the bytes sent, and is silent when it is empty.\<close>

type_synonym wire = "u8 list \<times> u8 list"

definition wire_tty :: "wire tty" where
  "wire_tty = \<lparr>tstc = \<lambda>w. (fst w \<noteq> [], w), putc = \<lambda>c w. (fst w, snd w @ [c]),
     getc = \<lambda>w. (uint (hd (fst w)), (tl (fst w), snd w)), udelay = \<lambda>n w. w\<rparr>"

lemma wire_ops [simp]:
  "tstc wire_tty w = (fst w \<noteq> [], w)" "putc wire_tty c w = (fst w, snd w @ [c])"
  "getc wire_tty w = (uint (hd (fst w)), (tl (fst w), snd w))" "udelay wire_tty n w = w"
  by (simp_all add: wire_tty_def)

lemma wire_poll [simp]: "getc_poll wire_tty n w = w"
proof (induction n)
  case 0
  show ?case by (subst getc_poll.simps) simp
next
  case (Suc n)
  then show ?case by (subst getc_poll.simps) simp
qed

lemma wire_getc [simp]:
  "xyz_getc_timeout wire_tty (b # q, s) = (Some b, (q, s))"
  "xyz_getc_timeout wire_tty ([], s) = (None, ([], s))"
  unfolding xyz_getc_timeout_def wire_poll by simp_all

lemma wire_flush [simp]: "xyz_flush wire_tty (q, s) = Some ([], s)"
proof (induction q)
  case Nil
  show ?case by (subst xyz_flush.simps) simp
next
  case (Cons b q)
  then show ?case by (subst xyz_flush.simps) simp
qed

lemma wire_feed [simp]: "feed wire_tty bs (bs @ q, s) = Some (q, s)" "feed wire_tty bs (bs, s) = Some ([], s)"
proof -
  show *: "feed wire_tty bs (bs @ q, s) = Some (q, s)" for q
    by (induction bs) (simp_all add: feed_Cons_iff)
  show "feed wire_tty bs (bs, s) = Some ([], s)" using * [of "[]"] by simp
qed

section \<open>Packets\<close>

definition frame :: "u8 \<Rightarrow> u8 list \<Rightarrow> u8 list" where
  "frame k d = (if length d = 128 then SOH else STX) # k # NOT k # d
     @ [ucast (drop_bit 8 (crc_ccitt d)), ucast (crc_ccitt d)]"

definition block_size :: "u8 list \<Rightarrow> bool" where
  "block_size d \<longleftrightarrow> length d = 128 \<or> length d = 1024"

lemma block_fits: "block_size d \<Longrightarrow> 1024 \<le> n \<Longrightarrow> length d \<le> n"
  by (auto simp: block_size_def)

lemma crc_split: "push_bit 8 (ucast (ucast (drop_bit 8 c) :: u8)) OR ucast (ucast c :: u8) = (c :: u16)"
proof (rule bits_16)
  fix n :: nat
  assume "n < 16"
  then show "bit (push_bit 8 (ucast (ucast (drop_bit 8 c) :: u8)) OR ucast (ucast c :: u8) :: u16) n = bit c n"
    by (cases "n < 8") (auto simp: bit_simps)
qed

lemma complement: "k XOR NOT k = (0xFF :: u8)"
proof -
  have "k XOR NOT k = - 1" by (rule bit_word_eqI) (simp add: bit_simps)
  then show ?thesis by simp
qed

text \<open>The packet buffer after \<open>d\<close> has been stored at its start.\<close>

definition over :: "u8 list \<Rightarrow> u8 list \<Rightarrow> u8 list" where
  "over d p = d @ drop (length d) p"

lemma length_over [simp]: "length d \<le> length p \<Longrightarrow> length (over d p) = length p"
  by (simp add: over_def)

lemma take_over [simp]: "take (length d) (over d p) = d"
  by (simp add: over_def)

lemma get_data_fed:
  "feed t bs w = Some w' \<Longrightarrow> pkt x = Some (as @ p) \<Longrightarrow> length bs \<le> length p \<Longrightarrow>
   get_data t (length bs) (int (length as)) x w = Inr (True, x\<lparr>pkt := Some (as @ over bs p)\<rparr>, w')"
proof (induction bs arbitrary: w x as p)
  case Nil
  then show ?case by (simp add: over_def)
next
  case (Cons b bs)
  from Cons.prems obtain w1 where w1: "xyz_getc_timeout t w = (Some b, w1)" "feed t bs w1 = Some w'"
    by (auto simp: feed_Cons_iff)
  from Cons.prems(3) obtain c p1 where p: "p = c # p1" "length bs \<le> length p1" by (cases p) auto
  have w: "wr (as @ p) (int (length as)) b = Inr (as @ b # p1)"
    by (simp add: wr_def p)
  have "get_data t (length bs) (int (length (as @ [b]))) (x\<lparr>pkt := Some ((as @ [b]) @ p1)\<rparr>) w1
      = Inr (True, x\<lparr>pkt := Some ((as @ [b]) @ over bs p1)\<rparr>, w')"
    using Cons.IH [OF w1(2), of "x\<lparr>pkt := Some ((as @ [b]) @ p1)\<rparr>" "as @ [b]" p1] p(2) by simp
  then show ?case
    using w w1(1) Cons.prems(2) by (simp add: over_def p(1) add.commute)
qed

lemma hdr_search_start:
  "xyz_getc_timeout t w = (Some c, w1) \<Longrightarrow> c = SOH \<or> c = STX \<Longrightarrow> hdr_search t i j w = Some (Inr c, w1)"
  by (subst hdr_search.simps) simp

text \<open>The receiver after it has taken the packet with block \<open>k\<close> and data \<open>d\<close>.\<close>

definition taken :: "u8 \<Rightarrow> u8 list \<Rightarrow> 'w xyz \<Rightarrow> 'w xyz" where
  "taken k d x = x\<lparr>tx_ack := False, blk := k, cblk := NOT k, xlen := int (length d), bufp := Some 0,
     pkt := Some (over d (the (pkt x))), crc1 := ucast (drop_bit 8 (crc_ccitt d)), crc2 := ucast (crc_ccitt d)\<rparr>"

definition acked :: "'w tty \<Rightarrow> 'w xyz \<Rightarrow> 'w \<Rightarrow> 'w" where
  "acked t x w = (if tx_ack x then putc t ACK w else w)"

lemma get_hdr_taken:
  assumes "feed t (frame k d) (acked t x w) = Some w'" and "block_size d"
    and "pkt x = Some p" and "length d \<le> length p"
  shows "xyzModem_get_hdr t x w = Some (Inr (0, taken k d x, w'))"
proof -
  let ?c = "if length d = 128 then SOH else STX" and ?h = "ucast (drop_bit 8 (crc_ccitt d)) :: u8"
    and ?l = "ucast (crc_ccitt d) :: u8"
  from assms(1) obtain w1 w2 w3 w4 w5 where
    f: "xyz_getc_timeout t (acked t x w) = (Some ?c, w1)" "xyz_getc_timeout t w1 = (Some k, w2)"
       "xyz_getc_timeout t w2 = (Some (NOT k), w3)" "feed t d w3 = Some w4"
       "xyz_getc_timeout t w4 = (Some ?h, w5)" "xyz_getc_timeout t w5 = (Some ?l, w')"
    unfolding frame_def by (auto simp: feed_Cons_iff feed_append split: option.splits)
  have len: "(if ?c = SOH then 128 else 1024) = int (length d)" using assms(2) by (auto simp: block_size_def)
  let ?x1 = "x\<lparr>tx_ack := False\<rparr>"
  let ?x2 = "?x1\<lparr>blk := k, cblk := NOT k, xlen := int (length d), bufp := Some 0\<rparr>"
  have data: "get_data t (length d) 0 ?x2 w3 = Inr (True, ?x2\<lparr>pkt := Some (over d p)\<rparr>, w4)"
    using get_data_fed [OF f(4), of ?x2 "[]" p] assms(3,4) by simp
  have tail: "get_tail t (?x2\<lparr>pkt := Some (over d p)\<rparr>) w4 = Some (Inr (0, taken k d x, w'))"
    using f(5,6) assms(3,4) rda_crc16_ccitt [of "length d" "over d p"]
    by (simp add: get_tail_def Let_def complement crc_split taken_def)
  have body: "get_body t ?c ?x1 w1 = Some (Inr (0, taken k d x, w'))"
    using f(2,3) data tail assms(3) unfolding get_body_def len by (simp add: Let_def)
  have search: "hdr_search t 0 0 (acked t x w) = Some (Inr ?c, w1)"
    by (rule hdr_search_start [OF f(1)]) simp
  show ?thesis
  proof (cases "tx_ack x")
    case False
    then have "?x1 = x" by (cases x) simp
    with body have "get_body t ?c x w1 = Some (Inr (0, taken k d x, w'))" by simp
    with False search show ?thesis
      unfolding xyzModem_get_hdr_def acked_def by (simp del: if_split)
  qed (use search body in \<open>simp add: xyzModem_get_hdr_def acked_def del: if_split\<close>)
qed

end
