(* ===== verification/Xyz_Stream.thy ===== *)
theory Xyz_Stream
  imports Xyz_Line
begin

text \<open>
  \<^verbatim>\<open>xyzModem_stream_read\<close>: the padding of a block, whole transfers, and repeated blocks.
\<close>

section \<open>Padding\<close>

text \<open>The content of a block: at least three ^Z at its end are padding, with those before them.\<close>

definition unpad :: "u8 list \<Rightarrow> u8 list" where
  "unpad d = (if drop (length d - 3) d = [CTRL_Z, CTRL_Z, CTRL_Z]
              then rev (dropWhile (\<lambda>b. b = CTRL_Z) (rev d)) else d)"

text \<open>What the loop leaves of the \<open>n\<close> bytes from \<open>i\<close> on.\<close>

lemma pad_loop_take:
  "i + n \<le> length p \<Longrightarrow> pad_loop p (int i) n = Inr (length (dropWhile (\<lambda>b. b = CTRL_Z) (rev (take n (drop i p)))))"
proof (induction n)
  case (Suc n)
  then have n: "n < length (drop i p)" "drop i p ! n = p ! (i + n)" by simp_all
  have "rd p (int i + int n) = Inr (p ! (i + n))" using rd_in [of "i + n" p] Suc.prems by simp
  then show ?case using Suc n by (simp add: take_Suc_conv_app_nth)
qed simp

lemma last_three:
  assumes "3 \<le> length d"
  shows "drop (length d - 3) d = [d ! (length d - 3), d ! (length d - 2), d ! (length d - 1)]"
proof -
  obtain n where n: "length d = n + 3" using assms by (metis add.commute le_iff_add)
  show ?thesis
  proof (rule nth_equalityI)
    fix i
    assume "i < length (drop (length d - 3) d)"
    then have "i = 0 \<or> i = 1 \<or> i = 2" using n by auto
    then show "drop (length d - 3) d ! i = [d ! (length d - 3), d ! (length d - 2), d ! (length d - 1)] ! i"
      using n by (auto simp: numeral_2_eq_2)
  qed (simp add: n)
qed

lemma unpad_prefix: "\<exists>n \<le> length d. unpad d = take n d"
proof -
  obtain xs where "rev d = xs @ dropWhile (\<lambda>b. b = CTRL_Z) (rev d)" by (metis takeWhile_dropWhile_id)
  then have "d = rev (dropWhile (\<lambda>b. b = CTRL_Z) (rev d)) @ rev xs" by (metis rev_append rev_rev_ident)
  then have "\<exists>n \<le> length d. rev (dropWhile (\<lambda>b. b = CTRL_Z) (rev d)) = take n d" by (metis append_eq_conv_conj length_append le_add1)
  then show ?thesis unfolding unpad_def by (metis order_refl take_all)
qed

lemma length_unpad: "length (unpad d) \<le> length d"
  using unpad_prefix [of d] by auto

text \<open>Every byte that is looked at lies in the block.\<close>

lemma strip_padding_block:
  assumes "pkt x = Some p" and "bufp x = Some 0" and "xlen x = int n" and "3 \<le> n" and "n \<le> length p"
  shows "strip_padding x = Inr (x\<lparr>xlen := int (length (unpad (take n p)))\<rparr>)"
proof -
  define b where "b k = take n p ! (n - k)" for k
  have r: "rd p (int n - int k) = Inr (b k)" if "0 < k" "k \<le> 3" for k
    using rd_in [of "n - k" p] that assms(4,5) by (simp add: of_nat_diff b_def)
  have r1: "rd p (int n - 1) = Inr (b 1)" "rd p (int n - 2) = Inr (b 2)" "rd p (int n - 3) = Inr (b 3)"
    using r [of 1] r [of 2] r [of 3] by simp_all
  have l: "length (take n p) = n" using assms(5) by simp
  have last: "drop (n - 3) (take n p) = [b 3, b 2, b 1]"
    using last_three [of "take n p", unfolded l] assms(4) by (simp add: b_def)
  have pad: "pad_loop p 0 n = Inr (length (rev (dropWhile (\<lambda>b. b = CTRL_Z) (rev (take n p)))))"
    using pad_loop_take [of 0 n p] assms(5) by simp
  have same: "x\<lparr>xlen := int n\<rparr> = x" using assms(3) by (cases x) simp
  have u: "unpad (take n p) = (if b 1 = CTRL_Z \<and> b 2 = CTRL_Z \<and> b 3 = CTRL_Z
      then rev (dropWhile (\<lambda>b. b = CTRL_Z) (rev (take n p))) else take n p)"
    unfolding unpad_def l last by auto
  have "strip_padding x = (if b 1 = CTRL_Z \<and> b 2 = CTRL_Z \<and> b 3 = CTRL_Z
      then Inr (x\<lparr>xlen := int (length (rev (dropWhile (\<lambda>b. b = CTRL_Z) (rev (take n p)))))\<rparr>) else Inr x)"
    unfolding strip_padding_def assms(1-3) by (simp add: r1 pad del: length_rev)
  then show ?thesis unfolding u using l same by simp
qed

lemma strip_padding_unpad:
  assumes "pkt x = Some (over d p)" and "bufp x = Some 0" and "xlen x = int (length d)" and "3 \<le> length d"
    and "length d \<le> length p"
  shows "strip_padding x = Inr (x\<lparr>xlen := int (length (unpad d))\<rparr>)"
  using strip_padding_block [OF assms(1-4)] assms(5) by simp

section \<open>Transfers\<close>

definition stream_ready :: "'w tty \<Rightarrow> 'w xyz \<Rightarrow> bool" where
  "stream_ready t x \<longleftrightarrow> xlen x = 0 \<and> \<not> at_eof x \<and> xtty x = Some t \<and> (\<exists>p. pkt x = Some p \<and> 1024 \<le> length p)"

fun feed_blocks :: "'w tty \<Rightarrow> bool \<Rightarrow> u8 \<Rightarrow> u8 list list \<Rightarrow> 'w \<Rightarrow> 'w option" where
  "feed_blocks t ack k [] w = Some w"
| "feed_blocks t ack k (d # ds) w =
     (case feed t (frame k d) (if ack then putc t ACK w else w) of
        None \<Rightarrow> None
      | Some w1 \<Rightarrow> feed_blocks t True (k + 1) ds w1)"

lemma retry_taken:
  assumes "stream_ready t x" and "feed t (frame (next_blk x) d) (acked t x w) = Some w'" and "block_size d"
  shows "retry_loop t (Suc n) st x w =
    Some (Inr (0, (taken (next_blk x) d x)\<lparr>tx_ack := True, next_blk := next_blk x + 1, xlen := int (length (unpad d))\<rparr>, w'))"
proof -
  obtain p where p: "pkt x = Some p" "1024 \<le> length p" using assms(1) by (auto simp: stream_ready_def)
  have hdr: "xyzModem_get_hdr t x w = Some (Inr (0, taken (next_blk x) d x, w'))"
    by (rule get_hdr_taken [OF assms(2,3) p(1) block_fits [OF assms(3) p(2)]])
  let ?y = "(taken (next_blk x) d x)\<lparr>tx_ack := True, next_blk := next_blk x + 1\<rparr>"
  have "strip_padding ?y = Inr (?y\<lparr>xlen := int (length (unpad d))\<rparr>)"
    by (rule strip_padding_unpad [of _ _ p]) (use assms(3) p in \<open>auto simp: taken_def block_size_def\<close>)
  with hdr show ?thesis by (simp add: taken_def)
qed

lemma stream_block:
  assumes "stream_ready t x" and "feed t (frame (next_blk x) d) (acked t x w) = Some w'" and "block_size d"
    and "0 < sz" and "int (length (unpad d)) \<le> sz"
  shows "\<exists>x'. stream_loop sz out x w = stream_loop (sz - int (length (unpad d))) (out @ unpad d) x' w'
    \<and> stream_ready t x' \<and> next_blk x' = next_blk x + 1 \<and> tx_ack x'"
proof -
  obtain p where p: "pkt x = Some p" "1024 \<le> length p" using assms(1) by (auto simp: stream_ready_def)
  have fits: "length d \<le> length p" by (rule block_fits [OF assms(3) p(2)])
  let ?u = "unpad d"
  let ?y = "(taken (next_blk x) d x)\<lparr>tx_ack := True, next_blk := next_blk x + 1, xlen := int (length ?u)\<rparr>"
  obtain n where n: "n \<le> length d" "?u = take n d" using unpad_prefix by blast
  have "take_out ?y (int (length ?u)) = Inr ?u"
    using n fits p(1) by (auto simp: take_out_def taken_def over_def min_def)
  then have del: "deliver sz ?y = Inr (?u, sz - int (length ?u), ?y\<lparr>xlen := 0, bufp := Some (int (length ?u))\<rparr>)"
    using assms(5) by (auto simp: deliver_def Let_def taken_def)
  let ?z = "?y\<lparr>xlen := 0, bufp := Some (int (length ?u))\<rparr>"
  have "retry_loop t xyzModem_MAX_RETRIES xyzModem_cancel x w = Some (Inr (0, ?y, w'))"
    using retry_taken [OF assms(1-3), of 199 xyzModem_cancel] by simp
  then have "stream_loop sz out x w = stream_loop (sz - int (length ?u)) (out @ ?u) ?z w'"
    using assms(1,4) del by (subst stream_loop.simps) (simp add: stream_ready_def taken_def)
  moreover have "stream_ready t ?z \<and> next_blk ?z = next_blk x + 1 \<and> tx_ack ?z"
    using assms(1) fits p by (auto simp: stream_ready_def taken_def)
  ultimately show ?thesis by blast
qed

lemma stream_done: "stream_loop 0 out x w = Some (Inr (out, None, x, w))"
  by (subst stream_loop.simps) simp

lemma stream_blocks:
  "stream_ready t x \<Longrightarrow> feed_blocks t (tx_ack x) (next_blk x) ds w = Some w' \<Longrightarrow>
   (\<And>d. d \<in> set ds \<Longrightarrow> block_size d \<and> unpad d \<noteq> []) \<Longrightarrow>
   \<exists>x'. stream_loop (int (length (concat (map unpad ds)))) out x w
          = Some (Inr (out @ concat (map unpad ds), None, x', w'))
      \<and> stream_ready t x' \<and> next_blk x' = next_blk x + of_nat (length ds)"
proof (induction ds arbitrary: x w out)
  case Nil
  then show ?case by (simp add: stream_done)
next
  case (Cons d ds)
  let ?rest = "concat (map unpad ds)"
  from Cons.prems(2) obtain w1 where w1: "feed t (frame (next_blk x) d) (acked t x w) = Some w1"
      "feed_blocks t True (next_blk x + 1) ds w1 = Some w'"
    by (auto simp: acked_def split: option.splits if_splits)
  have d: "block_size d" "unpad d \<noteq> []" using Cons.prems(3) [of d] by simp_all
  let ?sz = "int (length (concat (map unpad (d # ds))))"
  have "0 < ?sz" "int (length (unpad d)) \<le> ?sz" using d(2) by (cases "unpad d"; simp)+
  from stream_block [OF Cons.prems(1) w1(1) d(1) this, of out]
  obtain x1 where x1: "stream_loop ?sz out x w = stream_loop (?sz - int (length (unpad d))) (out @ unpad d) x1 w1"
      "stream_ready t x1" "next_blk x1 = next_blk x + 1" "tx_ack x1" by blast
  have IH: "\<exists>x'. stream_loop (int (length ?rest)) (out @ unpad d) x1 w1
          = Some (Inr ((out @ unpad d) @ ?rest, None, x', w'))
      \<and> stream_ready t x' \<and> next_blk x' = next_blk x1 + of_nat (length ds)"
    by (rule Cons.IH) (use x1 w1(2) Cons.prems(3) in auto)
  then show ?case using x1(1,3) by (auto simp: add.assoc [symmetric])
qed

section \<open>Repeated blocks\<close>

fun feed_dups :: "'w tty \<Rightarrow> nat \<Rightarrow> u8 \<Rightarrow> u8 list \<Rightarrow> 'w \<Rightarrow> 'w option" where
  "feed_dups t 0 k d w = Some w"
| "feed_dups t (Suc n) k d w =
     (case feed t (frame k d) w of None \<Rightarrow> None | Some w1 \<Rightarrow> feed_dups t n k d (putc t ACK w1))"

definition holds_block :: "u8 list \<Rightarrow> 'w xyz \<Rightarrow> bool" where
  "holds_block d x \<longleftrightarrow> xlen x = int (length d) \<and> bufp x = Some 0 \<and> \<not> at_eof x
     \<and> (\<exists>p. pkt x = Some (over d p) \<and> length d \<le> length p)"

lemma retry_dups:
  assumes "pkt x = Some p" "length d \<le> length p" "block_size d" "\<not> at_eof x"
    and "feed_dups t (Suc n) (next_blk x - 1) d (acked t x w) = Some w'"
  shows "\<exists>x'. retry_loop t (Suc n) st x w = Some (Inr (0, x', w')) \<and> holds_block d x' \<and> xtty x' = xtty x"
  using assms
proof (induction n arbitrary: x w st p)
  case (0 x w st p)
  from "0.prems"(5) obtain w1 where w1: "feed t (frame (next_blk x - 1) d) (acked t x w) = Some w1" "w' = putc t ACK w1"
    by (auto split: option.splits)
  have hdr: "xyzModem_get_hdr t x w = Some (Inr (0, taken (next_blk x - 1) d x, w1))"
    by (rule get_hdr_taken [OF w1(1) "0.prems"(3,1,2)])
  show ?case using hdr w1(2) "0.prems" by (auto simp: taken_def holds_block_def)
next
  case (Suc n x w st p)
  let ?y = "taken (next_blk x - 1) d x"
  from Suc.prems(5) obtain w1 where w1: "feed t (frame (next_blk x - 1) d) (acked t x w) = Some w1"
    "feed_dups t (Suc n) (next_blk x - 1) d (putc t ACK w1) = Some w'"
    by (auto split: option.splits)
  have hdr: "xyzModem_get_hdr t x w = Some (Inr (0, ?y, w1))"
    by (rule get_hdr_taken [OF w1(1) Suc.prems(3,1,2)])
  have step: "retry_loop t (Suc (Suc n)) st x w = retry_loop t (Suc n) 0 ?y (putc t ACK w1)"
    using hdr by (subst retry_loop.simps) (simp add: taken_def del: retry_loop.simps)
  have "\<exists>x'. retry_loop t (Suc n) 0 ?y (putc t ACK w1) = Some (Inr (0, x', w')) \<and> holds_block d x' \<and> xtty x' = xtty ?y"
    by (rule Suc.IH [of _ "over d p"]) (use Suc.prems w1 in \<open>simp_all add: taken_def acked_def del: feed_dups.simps\<close>)
  then show ?case unfolding step by (simp add: taken_def)
qed

lemma stream_dups:
  assumes "stream_ready t x" and "block_size d"
    and "feed_dups t 200 (next_blk x - 1) d (acked t x w) = Some w'"
  shows "\<exists>x'. stream_loop (int (length d)) [] x w = Some (Inr (d, None, x', w'))"
proof -
  obtain p where p: "pkt x = Some p" "1024 \<le> length p" using assms(1) by (auto simp: stream_ready_def)
  have "\<exists>x'. retry_loop t (Suc 199) xyzModem_cancel x w = Some (Inr (0, x', w')) \<and> holds_block d x' \<and> xtty x' = xtty x"
    by (rule retry_dups [OF p(1) block_fits [OF assms(2) p(2)] assms(2)])
      (use assms in \<open>simp_all add: stream_ready_def del: feed_dups.simps\<close>)
  then obtain x' where x': "retry_loop t xyzModem_MAX_RETRIES xyzModem_cancel x w = Some (Inr (0, x', w'))"
    "holds_block d x'" by auto
  then obtain z where del: "deliver (int (length d)) x' = Inr (d, 0, z)"
    by (auto simp: holds_block_def deliver_def take_out_def over_def)
  have "0 < length d" using assms(2) by (auto simp: block_size_def)
  then have "stream_loop (int (length d)) [] x w = stream_loop 0 d z w'"
    using assms(1) x' del by (subst stream_loop.simps) (simp add: stream_ready_def holds_block_def)
  then show ?thesis by (simp add: stream_done)
qed

end
