(* ===== verification/Xyz_End.thy ===== *)
theory Xyz_End
  imports Xyz_Stream
begin

text \<open>
  How a read ends: what a packet that is accepted must be, the state an error leaves behind, and
  termination on a line that delivers finitely many bytes and then is silent.
\<close>

section \<open>Accepted packets are sound\<close>

lemma get_data_keeps: "get_data t n i x w = Inr (ok, x', w') \<Longrightarrow>
   (\<exists>q. x' = x\<lparr>pkt := q\<rparr>) \<and> (pkt x \<noteq> None \<longrightarrow> pkt x' \<noteq> None \<and> length (the (pkt x')) = length (the (pkt x)))"
proof (induction n arbitrary: i x w)
  case 0
  then show ?case by (cases x) auto
next
  case (Suc n)
  show ?case
  proof (cases "fst (xyz_getc_timeout t w)")
    case None
    with Suc.prems show ?thesis by (cases x) (auto split: prod.splits)
  next
    case (Some c)
    then obtain w1 where w1: "xyz_getc_timeout t w = (Some c, w1)" by (cases "xyz_getc_timeout t w") auto
    with Suc.prems obtain p p' where p: "pkt x = Some p" "wr p i c = Inr p'"
      "get_data t n (i + 1) (x\<lparr>pkt := Some p'\<rparr>) w1 = Inr (ok, x', w')"
      by (auto simp: res_bind_Inr_iff split: option.splits)
    from Suc.IH [OF p(3)] p wr_length [OF p(2)] show ?thesis by auto
  qed
qed

lemma get_data_full:
  "get_data t n i x w = Inr (True, x', w') \<Longrightarrow> 0 < n \<Longrightarrow> 0 \<le> i \<Longrightarrow>
   pkt x \<noteq> None \<and> (\<exists>p. pkt x' = Some p \<and> i + int n \<le> int (length p))"
proof (induction n arbitrary: i x w)
  case (Suc n)
  then obtain c w1 p p' where s: "xyz_getc_timeout t w = (Some c, w1)" "pkt x = Some p" "wr p i c = Inr p'"
      "get_data t n (i + 1) (x\<lparr>pkt := Some p'\<rparr>) w1 = Inr (True, x', w')"
    by (auto simp: res_bind_Inr_iff split: option.splits prod.splits)
  show ?case
  proof (cases "n = 0")
    case True
    with s show ?thesis by (auto simp: wr_def split: if_splits)
  next
    case False
    with Suc.IH [OF s(4)] Suc.prems(3) s(2) show ?thesis by auto
  qed
qed simp

definition sound_packet :: "'w xyz \<Rightarrow> bool" where
  "sound_packet x \<longleftrightarrow> (\<exists>p n. pkt x = Some p \<and> bufp x = Some 0 \<and> xlen x = int n \<and> (n = 128 \<or> n = 1024) \<and> n \<le> length p
     \<and> blk x XOR cblk x = 0xFF \<and> crc_ccitt (take n p) = push_bit 8 (ucast (crc1 x)) OR ucast (crc2 x))"

lemma get_tail_sound:
  assumes "get_tail t x w = Some (Inr (0, x', w'))"
  shows "\<exists>c1 c2. x' = x\<lparr>crc1 := c1, crc2 := c2\<rparr> \<and> blk x XOR cblk x = 0xFF
    \<and> (\<exists>p. pkt x = Some p \<and> rda_crc16 p (xlen x) = Inr (push_bit 8 (ucast c1) OR ucast c2))"
  using assms unfolding get_tail_def Let_def
  by (auto simp: res_bind_Inr_iff split: prod.splits option.splits if_split_asm)

lemma get_body_sound:
  assumes "get_body t c x w = Some (Inr (0, x', w'))"
  shows "sound_packet x'"
proof -
  let ?n = "if c = SOH then 128 else 1024 :: int"
  from assms obtain b b' w2 x2 w3 where
    d: "get_data t (nat ?n) 0 (x\<lparr>blk := b, cblk := b', xlen := ?n, bufp := map_option (\<lambda>_. 0) (pkt x)\<rparr>) w2
      = Inr (True, x2, w3)" (is "get_data _ _ _ ?y _ = _") and tail: "get_tail t x2 w3 = Some (Inr (0, x', w'))"
    unfolding get_body_def Let_def by (auto split: prod.splits option.splits sum.splits if_split_asm)
  from get_tail_sound [OF tail] obtain c1 c2 where tl: "x' = x2\<lparr>crc1 := c1, crc2 := c2\<rparr>" "blk x2 XOR cblk x2 = 0xFF"
    "\<exists>p. pkt x2 = Some p \<and> rda_crc16 p (xlen x2) = Inr (push_bit 8 (ucast c1) OR ucast c2)" by blast
  from get_data_keeps [OF d] obtain q where x2: "x2 = ?y\<lparr>pkt := q\<rparr>" by blast
  have "0 < nat ?n" "0 \<le> (0 :: int)" by simp_all
  from get_data_full [OF d this] obtain p where p: "pkt x2 = Some p" "?n \<le> int (length p)" "pkt x \<noteq> None"
    by (cases "c = SOH") auto
  have x': "pkt x' = Some p" "xlen x' = ?n" "bufp x' = Some 0" "blk x' = blk x2" "cblk x' = cblk x2"
    "crc1 x' = c1" "crc2 x' = c2"
    using p x2 by (auto simp: tl(1))
  have "rda_crc16 p (int (nat ?n)) = Inr (push_bit 8 (ucast c1) OR ucast c2)" using tl(3) x2 p(1) by simp
  moreover have "nat ?n \<le> length p" using p(2) by auto
  ultimately have "crc_ccitt (take (nat ?n) p) = push_bit 8 (ucast c1) OR ucast c2"
    using rda_crc16_ccitt [of "nat ?n" p] by simp
  then show ?thesis
    unfolding sound_packet_def x' using tl(2) p(2)
    by (intro exI [of _ p] exI [of _ "nat ?n"]) (auto split: if_splits)
qed

lemma hdr_search_codes:
  assumes "hdr_search t i j w = Some r"
  shows "case fst r of Inl st \<Rightarrow> st \<in> {xyzModem_timeout, xyzModem_eof, xyzModem_cancel} | Inr c \<Rightarrow> c \<in> {SOH, STX}"
proof (rule hdr_search.raw_induct [OF _ assms,
      where P = "\<lambda>t i j w r. case fst r of Inl st \<Rightarrow> st \<in> {xyzModem_timeout, xyzModem_eof, xyzModem_cancel}
        | Inr c \<Rightarrow> c \<in> {SOH, STX}"], goal_cases)
  case (1 f t i j w r)
  note IH = 1(1)
  show ?case
  proof (cases "fst (xyz_getc_timeout t w)")
    case None
    with 1(2) show ?thesis by (auto split: prod.splits option.splits)
  next
    case (Some c)
    then obtain w1 where w1: "xyz_getc_timeout t w = (Some c, w1)" by (cases "xyz_getc_timeout t w") auto
    show ?thesis
      using 1(2) IH [of t "i + 1" "j + 1" w1 r] IH [of t i "j + 1" w1 r]
      by (auto simp: w1 split: if_split_asm)
  qed
qed

lemma get_hdr_sound:
  assumes "xyzModem_get_hdr t x w = Some (Inr (0, x', w'))"
  shows "sound_packet x'"
proof -
  let ?x = "if tx_ack x then x\<lparr>tx_ack := False\<rparr> else x" and ?w = "if tx_ack x then putc t ACK w else w"
  obtain r w2 where s: "hdr_search t 0 0 ?w = Some (r, w2)"
    using assms by (cases "hdr_search t 0 0 ?w") (auto simp: xyzModem_get_hdr_def Let_def split: if_splits)
  then obtain c where c: "r = Inr c"
    using assms hdr_search_codes [OF s] by (cases r) (auto simp: xyzModem_get_hdr_def Let_def split: if_splits)
  have "get_body t c ?x w2 = Some (Inr (0, x', w'))"
    using assms s unfolding c by (auto simp: xyzModem_get_hdr_def Let_def split: if_splits)
  then show ?thesis by (rule get_body_sound)
qed

section \<open>After an error\<close>

lemma stream_loop_error:
  assumes "stream_loop sz out x w = Some r"
  shows "\<forall>out' e x' w'. r = Inr (out', Some e, x', w') \<longrightarrow> xlen x' = - 1 \<and> e < 0"
proof (rule stream_loop.raw_induct [OF _ assms,
      where P = "\<lambda>sz out x w r. \<forall>out' e x' w'. r = Inr (out', Some e, x', w') \<longrightarrow> xlen x' = - 1 \<and> e < 0"], goal_cases)
  case (1 f sz out x w r)
  note IH = 1(1)
  from 1(2) show ?case
    by (auto split: if_split_asm option.splits sum.splits prod.splits dest: IH)
qed

lemma deliver_after_error: "xlen x = - 1 \<Longrightarrow> 0 < m \<Longrightarrow> \<exists>err. deliver m x = Inl err"
  by (cases "pkt x"; cases "bufp x") (simp_all add: deliver_def take_out_def)

section \<open>Termination on a line that falls silent\<close>

lemma wire_getc_any:
  obtains c q' where "xyz_getc_timeout wire_tty (q, s) = (c, (q', s))" "length q' \<le> length q"
    "c \<noteq> None \<Longrightarrow> length q' < length q"
  by (cases q) auto

text \<open>A call on the wire returns; what is left on the line is no more than before, and \<open>less\<close> where \<open>P\<close> holds.\<close>

definition returns :: "('a \<times> wire xyz \<times> wire) res option \<Rightarrow> wire xyz \<Rightarrow> u8 list \<Rightarrow> ('a \<Rightarrow> bool) \<Rightarrow> bool" where
  "returns m x q P \<longleftrightarrow> (\<exists>r. m = Some r \<and> (\<forall>st x' q' s'. r = Inr (st, x', (q', s')) \<longrightarrow>
     xtty x' = xtty x \<and> length q' \<le> length q \<and> (P st \<longrightarrow> length q' < length q)))"

lemma wire_search:
  "\<exists>r q' s'. hdr_search wire_tty i j (q, s) = Some (r, (q', s')) \<and> length q' \<le> length q
     \<and> ((\<exists>c. r = Inr c) \<longrightarrow> length q' < length q)"
proof (induction q arbitrary: i j)
  case Nil
  show ?case by (subst hdr_search.simps) simp
next
  case (Cons b q)
  have again: "\<exists>r q' s'. hdr_search wire_tty i' j' (q, s) = Some (r, (q', s')) \<and> length q' \<le> Suc (length q)
     \<and> ((\<exists>c. r = Inr c) \<longrightarrow> length q' < Suc (length q))" for i' j'
    using Cons.IH [of i' j'] by (auto intro: le_SucI less_SucI)
  show ?case
    by (subst hdr_search.simps) (use again in \<open>auto simp del: One_nat_def\<close>)
qed

lemma wire_data:
  "get_data wire_tty n i x (q, s) = Inr (ok, x', (q', s')) \<Longrightarrow> length q' \<le> length q \<and> xtty x' = xtty x"
proof (induction n arbitrary: i x q s)
  case (Suc n)
  show ?case
  proof (cases q)
    case Nil
    with Suc.prems show ?thesis by auto
  next
    case (Cons b q1)
    with Suc.prems Suc.IH show ?thesis by (fastforce simp: res_bind_Inr_iff split: option.splits)
  qed
qed auto

lemma wire_tail: "returns (get_tail wire_tty x (q, s)) x q (\<lambda>st. False)"
proof -
  obtain c1 q1 where c1: "xyz_getc_timeout wire_tty (q, s) = (c1, (q1, s))" "length q1 \<le> length q"
    using wire_getc_any by blast
  obtain c2 q2 where c2: "xyz_getc_timeout wire_tty (q1, s) = (c2, (q2, s))" "length q2 \<le> length q1"
    using wire_getc_any by blast
  show ?thesis
    using c1 c2 by (auto simp: returns_def get_tail_def Let_def res_bind_Inr_iff split: option.splits if_splits)
qed

lemma wire_body: "returns (get_body wire_tty c x (q, s)) x q (\<lambda>st. False)"
proof -
  obtain c1 q1 where c1: "xyz_getc_timeout wire_tty (q, s) = (c1, (q1, s))" "length q1 \<le> length q"
    using wire_getc_any by blast
  obtain c2 q2 where c2: "xyz_getc_timeout wire_tty (q1, s) = (c2, (q2, s))" "length q2 \<le> length q1"
    using wire_getc_any by blast
  show ?thesis
  proof (cases "c1 = None \<or> c2 = None")
    case True
    with c1 c2 show ?thesis by (auto simp: returns_def get_body_def split: option.splits)
  next
    case False
    then obtain b b' where b: "c1 = Some b" "c2 = Some b'" by auto
    let ?n = "if c = SOH then 128 else 1024 :: int"
    let ?y = "x\<lparr>blk := b, cblk := b', xlen := ?n, bufp := map_option (\<lambda>_. 0) (pkt x)\<rparr>"
    show ?thesis
    proof (cases "get_data wire_tty (nat ?n) 0 ?y (q2, s)")
      case (Inl e)
      with c1 c2 b show ?thesis by (simp add: returns_def get_body_def Let_def)
    next
      case (Inr r)
      then obtain ok x' q' s' where r: "get_data wire_tty (nat ?n) 0 ?y (q2, s) = Inr (ok, x', (q', s'))"
        by (cases r) auto
      from wire_data [OF r] have len: "length q' \<le> length q" "xtty x' = xtty x" using c1 c2 by auto
      have "returns (get_tail wire_tty x' (q', s')) x q (\<lambda>st. False)"
        using wire_tail [of x' q' s'] len by (fastforce simp: returns_def)
      with r c1 c2 b len show ?thesis by (auto simp: get_body_def Let_def returns_def)
    qed
  qed
qed

lemma wire_hdr: "returns (xyzModem_get_hdr wire_tty x (q, s)) x q (\<lambda>st. 0 \<le> st)"
proof -
  let ?x = "if tx_ack x then x\<lparr>tx_ack := False\<rparr> else x" and ?s = "if tx_ack x then s @ [ACK] else s"
  obtain r q' s' where r: "hdr_search wire_tty 0 0 (q, ?s) = Some (r, (q', s'))" "length q' \<le> length q"
    "\<And>c. r = Inr c \<Longrightarrow> length q' < length q"
    using wire_search [of 0 0 q ?s] by blast
  have hdr: "xyzModem_get_hdr wire_tty x (q, s) =
      (case r of Inl st \<Rightarrow> Some (Inr (st, ?x, (q', s'))) | Inr c \<Rightarrow> get_body wire_tty c ?x (q', s'))"
    using r(1) by (auto simp: xyzModem_get_hdr_def split: sum.split)
  show ?thesis
  proof (cases r)
    case (Inl st)
    then show ?thesis using r(2) hdr_search_codes [OF r(1)] by (auto simp: hdr returns_def)
  next
    case (Inr c)
    have "returns (get_body wire_tty c ?x (q', s')) x q (\<lambda>st. 0 \<le> st)"
      using wire_body [of c ?x q' s'] r(3) [OF Inr] by (fastforce simp: returns_def)
    with Inr show ?thesis by (simp add: hdr)
  qed
qed

lemma strip_padding_tty: "strip_padding x = Inr y \<Longrightarrow> xtty y = xtty x"
  by (auto simp: strip_padding_def res_bind_Inr_iff split: option.splits if_splits)

lemma returns_less:
  assumes "returns m y q' P" and "xtty y = xtty x" and "length q' \<le> length q"
    and "\<And>st. Q st \<Longrightarrow> P st \<or> length q' < length q"
  shows "returns m x q Q"
proof -
  obtain r where r: "m = Some r" "\<And>st x' q1 s'. r = Inr (st, x', (q1, s')) \<Longrightarrow>
      xtty x' = xtty y \<and> length q1 \<le> length q' \<and> (P st \<longrightarrow> length q1 < length q')"
    using assms(1) by (auto simp: returns_def)
  show ?thesis
    unfolding returns_def
  proof (intro exI [of _ r] conjI allI impI)
    fix st x' q1 s'
    assume e: "r = Inr (st, x', (q1, s'))"
    show "xtty x' = xtty x" "length q1 \<le> length q" using r(2) [OF e] assms(2,3) by auto
    show "length q1 < length q" if "Q st" using r(2) [OF e] assms(3) assms(4) [OF that] by auto
  qed (rule r(1))
qed

lemma wire_retry: "returns (retry_loop wire_tty n st x (q, s)) x q (\<lambda>st'. 0 \<le> st' \<and> st < 0)"
proof (induction n arbitrary: st x q s)
  case 0
  show ?case by (simp add: returns_def)
next
  case (Suc n)
  obtain r where r: "xyzModem_get_hdr wire_tty x (q, s) = Some r"
    "\<And>st1 x1 q1 s1. r = Inr (st1, x1, (q1, s1)) \<Longrightarrow>
       xtty x1 = xtty x \<and> length q1 \<le> length q \<and> (0 \<le> st1 \<longrightarrow> length q1 < length q)"
    using wire_hdr [of x q s] by (auto simp: returns_def)
  show ?case
  proof (cases r)
    case (Inl e)
    with r(1) show ?thesis by (simp add: returns_def)
  next
    case (Inr a)
    then obtain st1 x1 q1 s1 where a: "r = Inr (st1, x1, (q1, s1))" by (cases a) auto
    from r(2) [OF a] have q1: "xtty x1 = xtty x" "length q1 \<le> length q" "0 \<le> st1 \<Longrightarrow> length q1 < length q" by auto
    have again: "returns (retry_loop wire_tty n st2 x1 (q1, s2)) x q (\<lambda>st'. 0 \<le> st' \<and> st < 0)"
      if "st2 < 0 \<or> 0 \<le> st1" for st2 s2
      by (rule returns_less [OF Suc.IH q1(1,2)]) (use that q1(3) in auto)
    have same: "returns (retry_loop wire_tty n st1 x1 (q1, s2)) x q (\<lambda>st'. 0 \<le> st' \<and> st < 0)" for s2
      by (rule again) linarith
    show ?thesis
      using r(1) a q1 again same
      by (auto simp: returns_def [where m = "Some _"] Let_def res_bind_Inr_iff dest: strip_padding_tty)
  qed
qed

lemma deliver_less:
  "deliver sz x = Inr (bs, sz', x') \<Longrightarrow> 0 < sz \<Longrightarrow>
   0 \<le> sz' \<and> sz' \<le> sz \<and> (xlen x \<noteq> 0 \<longrightarrow> sz' < sz) \<and> xtty x' = xtty x"
  by (auto simp: deliver_def Let_def res_bind_Inr_iff take_out_def split: if_splits option.splits)

lemma wire_stream: "xtty x = Some wire_tty \<Longrightarrow> \<exists>r. stream_loop sz out x (q, s) = Some r"
proof (induction "nat sz + length q" arbitrary: sz out x q s rule: less_induct)
  case less
  show ?case
  proof (cases "at_eof x \<or> sz \<le> 0")
    case True
    then show ?thesis by (subst stream_loop.simps) simp
  next
    case go: False
    show ?thesis
    proof (cases "xlen x = 0")
      case False
      show ?thesis
      proof (cases "deliver sz x")
        case (Inl e)
        then show ?thesis using go False by (subst stream_loop.simps) simp
      next
        case (Inr a)
        then obtain bs sz' x' where d: "deliver sz x = Inr (bs, sz', x')" by (cases a) auto
        have "\<exists>r. stream_loop sz' (out @ bs) x' (q, s) = Some r"
          by (rule less.hyps) (use deliver_less [OF d] go False less.prems in auto)
        then show ?thesis using go False d by (subst stream_loop.simps) simp
      qed
    next
      case True
      obtain r where r: "retry_loop wire_tty xyzModem_MAX_RETRIES xyzModem_cancel x (q, s) = Some r"
        "\<And>st1 x1 q1 s1. r = Inr (st1, x1, (q1, s1)) \<Longrightarrow>
           xtty x1 = xtty x \<and> length q1 \<le> length q \<and> (0 \<le> st1 \<longrightarrow> length q1 < length q)"
        using wire_retry [of xyzModem_MAX_RETRIES xyzModem_cancel x q s] by (auto simp: returns_def)
      show ?thesis
      proof (cases r)
        case (Inl e)
        then show ?thesis using go True r(1) less.prems by (subst stream_loop.simps) simp
      next
        case (Inr a)
        then obtain st1 x1 q1 s1 where a: "r = Inr (st1, x1, (q1, s1))" by (cases a) auto
        note q1 = r(2) [OF a]
        have again: "\<exists>r. stream_loop sz2 out2 x2 (q1, s1) = Some r"
          if "0 \<le> st1" "sz2 \<le> sz" "xtty x2 = xtty x1" for sz2 out2 x2
          by (rule less.hyps) (use that q1 go less.prems in auto)
        have "\<exists>r'. (if st1 < 0 then Some (Inr (out, Some st1, x1\<lparr>xlen := - 1\<rparr>, (q1, s1)))
                else if at_eof x1 then stream_loop sz out x1 (q1, s1)
                else (case deliver sz x1 of
                        Inl e \<Rightarrow> Some (Inl e)
                      | Inr (bs, sz', x') \<Rightarrow> stream_loop sz' (out @ bs) x' (q1, s1))) = Some r'"
          using again go by (auto split: sum.split dest: deliver_less)
        then show ?thesis using go True r(1) a less.prems by (subst stream_loop.simps) simp
      qed
    qed
  qed
qed

end
