(* ===== verification/Xyz_Safe.thy ===== *)
theory Xyz_Safe
  imports Xyz_End
begin

text \<open>
  Memory safety of the receiver: the pointers and lengths a read leaves behind are well formed, and
  no terminal can make a read of a well-formed stream leave the packet buffer.
\<close>

section \<open>Well-formed streams\<close>

text \<open>The block in hand lies within the first 1024 bytes of the packet buffer.\<close>

definition in_hand :: "'w xyz \<Rightarrow> bool" where
  "in_hand x \<longleftrightarrow> 0 \<le> xlen x \<and> (xlen x \<noteq> 0 \<longrightarrow> (\<exists>i. bufp x = Some i \<and> 0 \<le> i \<and> i + xlen x \<le> 1024))"

definition has_buffer :: "'w xyz \<Rightarrow> bool" where
  "has_buffer x \<longleftrightarrow> (\<exists>p. pkt x = Some p \<and> 1024 \<le> length p) \<and> xtty x \<noteq> None"

definition stream_wf :: "'w xyz \<Rightarrow> bool" where
  "stream_wf x \<longleftrightarrow> has_buffer x \<and> in_hand x"

lemma has_buffer_cong:
  "pkt x = Some p \<Longrightarrow> pkt y = Some q \<Longrightarrow> length q = length p \<Longrightarrow> xtty y = xtty x \<Longrightarrow> has_buffer x \<Longrightarrow> has_buffer y"
  by (auto simp: has_buffer_def)

lemma has_buffer_update [simp]:
  "has_buffer (x\<lparr>blk := a\<rparr>) = has_buffer x" "has_buffer (x\<lparr>cblk := a\<rparr>) = has_buffer x"
  "has_buffer (x\<lparr>crc1 := a\<rparr>) = has_buffer x" "has_buffer (x\<lparr>crc2 := a\<rparr>) = has_buffer x"
  "has_buffer (x\<lparr>next_blk := a\<rparr>) = has_buffer x" "has_buffer (x\<lparr>xlen := n\<rparr>) = has_buffer x"
  "has_buffer (x\<lparr>bufp := b\<rparr>) = has_buffer x" "has_buffer (x\<lparr>at_eof := c\<rparr>) = has_buffer x"
  "has_buffer (x\<lparr>tx_ack := c\<rparr>) = has_buffer x"
  by (simp_all add: has_buffer_def)

section \<open>A packet\<close>

lemma get_data_safe:
  "has_buffer x \<Longrightarrow> 0 \<le> i \<Longrightarrow> i + int n \<le> 1024 \<Longrightarrow> \<exists>ok x' w'. get_data t n i x w = Inr (ok, x', w')"
proof (induction n arbitrary: i x w)
  case (Suc n)
  obtain c w1 where g: "xyz_getc_timeout t w = (c, w1)" by (cases "xyz_getc_timeout t w")
  obtain p where p: "pkt x = Some p" "1024 \<le> length p" using Suc.prems(1) by (auto simp: has_buffer_def)
  show ?case
  proof (cases c)
    case (Some b)
    have "wr p i b = Inr (p[nat i := b])" using Suc.prems(2,3) p(2) by (simp add: wr_def)
    moreover have "has_buffer (x\<lparr>pkt := Some (p[nat i := b])\<rparr>)" using Suc.prems(1) p by (simp add: has_buffer_def)
    ultimately show ?thesis
      using Suc.IH [of "x\<lparr>pkt := Some (p[nat i := b])\<rparr>" "i + 1" w1] Suc.prems(2,3) g Some p(1) by simp
  qed (use g in auto)
qed auto

text \<open>What a packet leaves: a code that is not positive, the buffer, and on success a block in hand.\<close>

definition packet_result :: "'w xyz \<Rightarrow> (int \<times> 'w xyz \<times> 'w) res \<Rightarrow> bool" where
  "packet_result x r \<longleftrightarrow>
     (case r of
        Inl e \<Rightarrow> False
      | Inr (st, x', w') \<Rightarrow> st \<le> 0 \<and> has_buffer x' \<and> at_eof x' = at_eof x
          \<and> (st = 0 \<longrightarrow> bufp x' = Some 0 \<and> 128 \<le> xlen x' \<and> xlen x' \<le> 1024))"

lemma get_tail_safe:
  assumes "get_tail t x w = Some r" and "has_buffer x" and "bufp x = Some 0" "128 \<le> xlen x" "xlen x \<le> 1024"
  shows "packet_result x r"
proof -
  obtain p n where p: "pkt x = Some p" "xlen x = int n" "n \<le> length p"
    using assms(2,4,5) that [of _ "nat (xlen x)"] by (auto simp: has_buffer_def)
  then obtain k where "rda_crc16 p (xlen x) = Inr k" using rda_crc16_ccitt by auto
  then show ?thesis using assms p(1) unfolding get_tail_def Let_def packet_result_def
    by (auto split: prod.splits option.splits if_split_asm)
qed

lemma get_data_state:
  assumes "get_data t n i x w = Inr (ok, x', w')" and "has_buffer x"
  shows "has_buffer x' \<and> at_eof x' = at_eof x \<and> bufp x' = bufp x \<and> xlen x' = xlen x"
  using get_data_keeps [OF assms(1)] assms(2) by (auto simp: has_buffer_def)

lemma get_body_safe:
  assumes "get_body t c x w = Some r" and "has_buffer x"
  shows "packet_result x r"
proof -
  let ?n = "if c = SOH then 128 else 1024 :: int"
  obtain a w1 b w2 where g: "xyz_getc_timeout t w = (a, w1)" "xyz_getc_timeout t w1 = (b, w2)"
    by (cases "xyz_getc_timeout t w"; cases "xyz_getc_timeout t (snd (xyz_getc_timeout t w))") auto
  show ?thesis
  proof (cases "a = None \<or> b = None")
    case True
    then show ?thesis using assms g by (auto simp: get_body_def packet_result_def split: option.splits)
  next
    case False
    then obtain k k' where k: "a = Some k" "b = Some k'" by auto
    define y where "y = x\<lparr>blk := k, cblk := k', xlen := ?n, bufp := map_option (\<lambda>_. 0) (pkt x)\<rparr>"
    have y: "has_buffer y" "bufp y = Some 0" "xlen y = ?n" "at_eof y = at_eof x"
      using assms(2) by (auto simp: y_def has_buffer_def)
    have n: "0 + int (nat ?n) \<le> 1024" by simp
    obtain ok x2 w3 where d: "get_data t (nat ?n) 0 y w2 = Inr (ok, x2, w3)"
      using get_data_safe [OF y(1) order_refl n] by blast
    note s = get_data_state [OF d y(1)]
    have r: "r = (if ok then the (get_tail t x2 w3) else Inr (xyzModem_timeout, x2, w3))"
      "ok \<Longrightarrow> get_tail t x2 w3 = Some r"
      using assms(1) g k d unfolding get_body_def Let_def y_def by (auto split: if_splits)
    show ?thesis
    proof (cases ok)
      case True
      have "packet_result x2 r" using get_tail_safe [OF r(2) [OF True]] s y by auto
      then show ?thesis using s y by (auto simp: packet_result_def split: sum.splits)
    qed (use r(1) s y in \<open>simp add: packet_result_def\<close>)
  qed
qed

lemma get_hdr_safe:
  assumes "xyzModem_get_hdr t x w = Some r" and "has_buffer x"
  shows "packet_result x r"
proof -
  define x1 where "x1 = (if tx_ack x then x\<lparr>tx_ack := False\<rparr> else x)"
  define w1 where "w1 = (if tx_ack x then putc t ACK w else w)"
  have h: "xyzModem_get_hdr t x w = (case hdr_search t 0 0 w1 of None \<Rightarrow> None | Some (Inl st, w2) \<Rightarrow> Some (Inr (st, x1, w2))
      | Some (Inr c, w2) \<Rightarrow> get_body t c x1 w2)"
    unfolding xyzModem_get_hdr_def x1_def w1_def by (cases "tx_ack x") simp_all
  obtain q w2 where s: "hdr_search t 0 0 w1 = Some (q, w2)" using assms(1) h by (auto split: option.splits)
  have x1: "has_buffer x1" "at_eof x1 = at_eof x" using assms(2) by (auto simp: x1_def)
  show ?thesis
  proof (cases q)
    case (Inl st)
    then show ?thesis using hdr_search_codes [OF s] assms(1) h s x1 by (auto simp: packet_result_def)
  next
    case (Inr c)
    then have "get_body t c x1 w2 = Some r" using assms(1) h s by simp
    from get_body_safe [OF this x1(1)] x1(2) show ?thesis by (auto simp: packet_result_def split: sum.splits)
  qed
qed

section \<open>The retries\<close>

lemma strip_padding_safe:
  assumes "has_buffer x" "bufp x = Some 0" "128 \<le> xlen x" "xlen x \<le> 1024"
  shows "\<exists>n \<le> 1024. strip_padding x = Inr (x\<lparr>xlen := int n\<rparr>)"
proof -
  obtain p n where p: "pkt x = Some p" "xlen x = int n" "3 \<le> n" "n \<le> length p" "n \<le> 1024"
    using assms that [of _ "nat (xlen x)"] by (auto simp: has_buffer_def)
  have "length (unpad (take n p)) \<le> 1024" using length_unpad [of "take n p"] p(5) by simp
  then show ?thesis using strip_padding_block [OF p(1) assms(2) p(2-4)] by blast
qed

text \<open>On success the block starts the packet buffer.\<close>

definition block_ready :: "int \<Rightarrow> 'w xyz \<Rightarrow> bool" where
  "block_ready st x \<longleftrightarrow> st < 0 \<or> st = 0 \<and> \<not> at_eof x \<and> bufp x = Some 0 \<and> 0 \<le> xlen x \<and> xlen x \<le> 1024"

lemma retry_safe:
  "retry_loop t n st x w = Some r \<Longrightarrow> has_buffer x \<Longrightarrow> \<not> at_eof x \<Longrightarrow> block_ready st x \<Longrightarrow>
   \<exists>st' x' w'. r = Inr (st', x', w') \<and> has_buffer x' \<and> block_ready st' x'"
proof (induction n arbitrary: st x w)
  case (Suc n)
  obtain q where q: "xyzModem_get_hdr t x w = Some q" using Suc.prems(1) by (cases "xyzModem_get_hdr t x w") auto
  from get_hdr_safe [OF q Suc.prems(2)] obtain a x1 w1 where
    g: "q = Inr (a, x1, w1)" "a \<le> 0" "has_buffer x1" "at_eof x1 = at_eof x"
      "a = 0 \<longrightarrow> bufp x1 = Some 0 \<and> 128 \<le> xlen x1 \<and> xlen x1 \<le> 1024"
    by (auto simp: packet_result_def split: sum.splits)
  have IH: "\<exists>st' x' w'. r = Inr (st', x', w') \<and> has_buffer x' \<and> block_ready st' x'"
    if "retry_loop t n b x1 w2 = Some r" "b < 0 \<or> a = 0 \<and> b = 0" for b w2
    by (rule Suc.IH [OF that(1) g(3)]) (use that(2) g Suc.prems(3) in \<open>auto simp: block_ready_def\<close>)
  show ?case
  proof (cases "a = 0 \<and> blk x1 = next_blk x1")
    case True
    let ?y = "x1\<lparr>tx_ack := True, next_blk := next_blk x1 + 1\<rparr>"
    obtain m where m: "m \<le> 1024" "strip_padding ?y = Inr (?y\<lparr>xlen := int m\<rparr>)"
      using strip_padding_safe [of ?y] g(3,5) True by auto
    then have "r = Inr (a, ?y\<lparr>xlen := int m\<rparr>, w1)" using Suc.prems(1) q g(1) True by simp
    then show ?thesis using g True m(1) Suc.prems(3) by (auto simp: block_ready_def)
  next
    case False
    define b where "b = (if a = 0 then xyzModem_sequence else a)"
    have b: "b < 0" using g(2) by (auto simp: b_def)
    show ?thesis
    proof (cases "a = 0 \<and> blk x1 = next_blk x1 - 1")
      case True
      then have "retry_loop t n a x1 (putc t ACK w1) = Some r" using Suc.prems(1) q g(1) False by auto
      then show ?thesis using IH True by blast
    next
      case no: False
      have e: "(if b = xyzModem_cancel then Some (Inr (b, x1, w1))
          else if b = xyzModem_eof then Some (Inr (b, x1\<lparr>at_eof := True\<rparr>, putc t ACK w1))
          else retry_loop t n b x1 (putc t CHR_C w1)) = Some r"
        using Suc.prems(1) q g(1) False no by (auto simp: b_def Let_def)
      then show ?thesis using IH [OF _ disjI1 [OF b]] g(3) b
        by (auto simp: block_ready_def split: if_split_asm)
    qed
  qed
qed auto

section \<open>A read\<close>

lemma deliver_safe:
  assumes "has_buffer x" and "0 < sz" and "0 \<le> xlen x"
    and "xlen x \<noteq> 0 \<or> bufp x = Some 0" and "xlen x \<noteq> 0 \<longrightarrow> (\<exists>i. bufp x = Some i \<and> 0 \<le> i \<and> i + xlen x \<le> 1024)"
  shows "\<exists>bs sz' x'. deliver sz x = Inr (bs, sz', x') \<and> sz' = sz - int (length bs) \<and> 0 \<le> sz' \<and> stream_wf x'
    \<and> at_eof x' = at_eof x"
proof -
  obtain p where p: "pkt x = Some p" "1024 \<le> length p" using assms(1) by (auto simp: has_buffer_def)
  obtain i where i: "bufp x = Some i" "0 \<le> i" "i + xlen x \<le> 1024" using assms(4,5) by (cases "xlen x = 0") auto
  define n where "n = (if sz < xlen x then sz else xlen x)"
  have n: "0 \<le> n" "n \<le> xlen x" "n \<le> sz" using assms(2,3) by (auto simp: n_def)
  have t: "take_out x n = Inr (take (nat n) (drop (nat i) p))" using p i n by (simp add: take_out_def)
  have d: "deliver sz x = Inr (take (nat n) (drop (nat i) p), sz - n, x\<lparr>xlen := xlen x - n, bufp := Some (i + n)\<rparr>)"
    unfolding deliver_def n_def [symmetric] Let_def t using i(1) by simp
  have "length (take (nat n) (drop (nat i) p)) = nat n" using p(2) i n by auto
  then show ?thesis unfolding d using n assms(1) i by (auto simp: stream_wf_def in_hand_def)
qed

definition read_result :: "int \<Rightarrow> u8 list \<Rightarrow> bool \<Rightarrow> (u8 list \<times> int option \<times> 'w xyz \<times> 'w) res \<Rightarrow> bool" where
  "read_result sz out eof r \<longleftrightarrow>
     (case r of
        Inl e \<Rightarrow> False
      | Inr (out', None, x', w') \<Rightarrow> stream_wf x' \<and> (if eof then out' = out else int (length out') = int (length out) + max 0 sz)
      | Inr (out', Some st, x', w') \<Rightarrow> st < 0 \<and> xlen x' = - 1 \<and> int (length out') < int (length out) + sz)"

lemma read_result_more:
  "read_result sz' (out @ bs) False r \<Longrightarrow> sz' = sz - int (length bs) \<Longrightarrow> 0 \<le> sz' \<Longrightarrow> read_result sz out False r"
  by (auto simp: read_result_def split: sum.splits option.splits)

lemma stream_safe:
  assumes "stream_loop sz out x w = Some r"
  shows "stream_wf x \<longrightarrow> read_result sz out (at_eof x) r"
proof (rule stream_loop.raw_induct [OF _ assms,
      where P = "\<lambda>sz out x w r. stream_wf x \<longrightarrow> read_result sz out (at_eof x) r"], goal_cases)
  case (1 f sz out x w r)
  note IH = mp [OF 1(1)]
  show ?case
  proof
    assume wf: "stream_wf x"
    show "read_result sz out (at_eof x) r"
    proof (cases "at_eof x \<or> sz \<le> 0")
      case True
      then show ?thesis using 1(2) wf by (auto simp: read_result_def)
    next
      case go: False
      show ?thesis
      proof (cases "xlen x = 0")
        case False
        then obtain bs sz' x' where d: "deliver sz x = Inr (bs, sz', x')" "sz' = sz - int (length bs)" "0 \<le> sz'"
            "stream_wf x'" "at_eof x' = at_eof x"
          using deliver_safe [of x sz] wf go by (auto simp: stream_wf_def in_hand_def)
        have "f sz' (out @ bs) x' w = Some r" using 1(2) go False d(1) by simp
        from IH [OF this d(4)] show ?thesis using read_result_more d(2,3,5) go by auto
      next
        case True
        obtain t where t: "xtty x = Some t" using wf by (auto simp: stream_wf_def has_buffer_def)
        obtain q where q: "retry_loop t xyzModem_MAX_RETRIES xyzModem_cancel x w = Some q"
          using 1(2) go True t by (cases "retry_loop t xyzModem_MAX_RETRIES xyzModem_cancel x w") auto
        have "\<exists>st x1 w1. q = Inr (st, x1, w1) \<and> has_buffer x1 \<and> block_ready st x1"
          by (rule retry_safe [OF q]) (use wf go in \<open>auto simp: stream_wf_def block_ready_def\<close>)
        then obtain st x1 w1 where g: "q = Inr (st, x1, w1)" "has_buffer x1" "block_ready st x1" by blast
        show ?thesis
        proof (cases "st < 0")
          case neg: True
          then have "r = Inr (out, Some st, x1\<lparr>xlen := - 1\<rparr>, w1)" using 1(2) go True t q g(1) by simp
          then show ?thesis using neg go by (simp add: read_result_def)
        next
          case False
          then have b: "\<not> at_eof x1" "bufp x1 = Some 0" "0 \<le> xlen x1" "xlen x1 \<le> 1024"
            using g(3) by (auto simp: block_ready_def)
          obtain bs sz' x' where d: "deliver sz x1 = Inr (bs, sz', x')" "sz' = sz - int (length bs)" "0 \<le> sz'"
              "stream_wf x'" "at_eof x' = at_eof x1"
            using deliver_safe [of x1 sz] g(2) b go by auto
          have "f sz' (out @ bs) x' w1 = Some r" using 1(2) go True t q g(1) False b(1) d(1) by simp
          from IH [OF this d(4)] show ?thesis using read_result_more d(2,3,5) go b(1) by auto
        qed
      qed
    qed
  qed
qed

section \<open>Property\<close>

text \<open>C13. A read of a stream whose pointers are in order never leaves the packet buffer, whatever the terminal delivers:
  if it returns, it returns a result, with as many bytes as were asked for and the pointers still in order, or an
  error code with fewer bytes. At the end of the file nothing more is read.\<close>

theorem xmodem_read_keeps_pointers:
  assumes "stream_wf x" and "xyzModem_stream_read n x w = Some r"
  shows "\<exists>out e x' w'. r = Inr (out, e, x', w') \<and>
    (case e of None \<Rightarrow> stream_wf x' \<and> int (length out) = (if at_eof x then 0 else max 0 n)
       | Some st \<Rightarrow> st < 0 \<and> xlen x' = - 1 \<and> int (length out) < n)"
proof -
  have s: "read_result n [] (at_eof x) r"
    using stream_safe [of n "[]" x w r] assms by (simp add: xyzModem_stream_read_def)
  then obtain out e x' w' where r: "r = Inr (out, e, x', w')" by (cases r) (auto simp: read_result_def)
  show ?thesis
  proof (cases e)
    case None
    with s r show ?thesis by (auto simp: read_result_def)
  next
    case (Some st)
    with s r show ?thesis by (auto simp: read_result_def)
  qed
qed

lemma stream_wf_open:
  "xyzModem_stream_open buf x w = Inr (0, None, x', w') \<Longrightarrow> 1024 \<le> length buf \<Longrightarrow> stream_wf x'"
  by (auto simp: xyzModem_stream_open_def stream_wf_def has_buffer_def in_hand_def split: if_splits option.splits)

lemma xmodem_read_keeps_pointers_witness:
  "\<exists>out st x' w'. xyzModem_stream_read 64 (xyz_zero\<lparr>pkt := Some (replicate 1024 0), xtty := Some wire_tty\<rparr>) ([SOH, 7, 9], [])
     = Some (Inr (out, st, x', w')) \<and> length out \<le> 64"
proof -
  let ?x = "xyz_zero\<lparr>pkt := Some (replicate 1024 0), xtty := Some wire_tty\<rparr>"
  have wf: "stream_wf ?x" by (simp add: stream_wf_def has_buffer_def in_hand_def xyz_zero_def)
  have "xtty ?x = Some wire_tty" by simp
  from wire_stream [OF this] obtain r where r: "xyzModem_stream_read 64 ?x ([SOH, 7, 9], []) = Some r"
    unfolding xyzModem_stream_read_def by blast
  from xmodem_read_keeps_pointers [OF wf r] obtain out e x' w' where
    o: "r = Inr (out, e, x', w')" "length out \<le> 64"
    by (auto split: option.splits simp: xyz_zero_def)
  then show ?thesis using r by blast
qed

end
