(* ===== verification/Lib_Number.thy ===== *)
theory Lib_Number
  imports C_Prelude
begin

text \<open>
  Models \<^verbatim>\<open>demo-lib/main.c\<close>: \<^verbatim>\<open>astrtol\<close>, a number parser of its own, and the program that prints
  its results. A string is the list of its characters before the NUL. The debug prints are left
  out.
\<close>

section \<open>astrtol\<close>

definition char_at :: "string \<Rightarrow> nat \<Rightarrow> char" where
  "char_at s i = (if i < length s then s ! i else NUL)"

text \<open>
  The loops of bases 10 and 8 run from the last character to the first: the argument is the
  rest of the string, reversed. \<open>last_digit\<close> is \<^verbatim>\<open>'9'\<close> or \<^verbatim>\<open>'7'\<close>.
\<close>

fun back_loop :: "int \<Rightarrow> nat \<Rightarrow> string \<Rightarrow> int \<Rightarrow> u32 \<Rightarrow> u32 res" where
  "back_loop base last_digit [] pos v = Inr v"
| "back_loop base last_digit (c # cs) pos v =
     (if 0x30 \<le> (of_char c :: nat) \<and> of_char c \<le> last_digit
      then let t = of_nat (of_char c - 0x30); pos' = pos * base
           in if 2 ^ 31 \<le> pos' then Inl Int_Overflow
              else back_loop base last_digit cs pos' (v + t * of_int (pos' div base))
      else Inr v)"

definition hex_digit :: "char \<Rightarrow> nat option" where
  "hex_digit c =
     (let v = of_char c :: nat
      in if 0x30 \<le> v \<and> v \<le> 0x39 then Some (v - 0x30)
         else if 0x61 \<le> v \<and> v \<le> 0x66 then Some (v - 0x57)
         else if 0x41 \<le> v \<and> v \<le> 0x46 then Some (v - 0x37)
         else None)"

text \<open>The loop of base 16, from the first character, with the characters left.\<close>

fun hex_loop :: "int \<Rightarrow> int \<Rightarrow> string \<Rightarrow> u32 \<Rightarrow> u32 res" where
  "hex_loop len i [] v = Inr v"
| "hex_loop len i (c # cs) v =
     (case hex_digit c of
        None \<Rightarrow> Inr v
      | Some t \<Rightarrow>
          let pos = (len - 1 - i) * 4
          in if 32 \<le> pos then Inl Bad_Shift
             else hex_loop len (i + 1) cs (v OR push_bit (nat pos) (of_nat t)))"

definition number_base :: "string \<Rightarrow> int \<Rightarrow> int" where
  "number_base s base =
     (if base = 0
      then if char_at s 0 = CHR ''0''
           then if char_at s 1 = CHR ''x'' \<or> char_at s 1 = CHR ''X'' then 16 else 8
           else 10
      else base)"

definition astrtol :: "string \<Rightarrow> int \<Rightarrow> u32 res" where
  "astrtol s base =
     (let b = number_base s base
      in if b = 10 then back_loop b 0x39 (rev s) 1 0
         else if b = 8
         then back_loop b 0x37 (rev (if char_at s 0 = CHR ''0'' then drop 1 s else s)) 1 0
         else let h = (if char_at s 0 = CHR ''0'' \<and> char_at s 1 = CHR ''x''
                         \<or> char_at s 0 = CHR ''0'' \<and> char_at s 1 = CHR ''X'' then drop 2 s else s)
              in hex_loop (int (length h)) 0 h 0)"

text \<open>\<^verbatim>\<open>main\<close>: the numbers it prints for \<^verbatim>\<open>argv[1]\<close>, \<^verbatim>\<open>argv[2]\<close>, ...\<close>

fun lib_main :: "string list \<Rightarrow> u32 list res" where
  "lib_main [] = Inr []"
| "lib_main (s # ss) = res_bind (astrtol s 0) (\<lambda>tmp. res_bind (lib_main ss) (\<lambda>r. Inr (tmp # r)))"

section \<open>Numerals\<close>

text \<open>The value of a list of digits, the most significant first, and how they are written.\<close>

definition num_of :: "nat \<Rightarrow> nat list \<Rightarrow> nat" where
  "num_of b ds = foldl (\<lambda>v d. b * v + d) 0 ds"

definition digit_char :: "nat \<Rightarrow> char" where
  "digit_char d = (if d < 10 then char_of (d + 0x30) else char_of (d + 0x57))"

fun low_first :: "nat \<Rightarrow> nat list \<Rightarrow> nat" where
  "low_first b [] = 0"
| "low_first b (d # ds) = d + b * low_first b ds"

lemma num_of_snoc: "num_of b (ds @ [d]) = b * num_of b ds + d"
  by (simp add: num_of_def)

lemma num_of_low_first: "num_of b ds = low_first b (rev ds)"
  by (induction ds rule: rev_induct) (simp_all add: num_of_snoc, simp add: num_of_def)

lemma back_loop_digits:
  assumes "\<And>d. d \<in> set ds \<Longrightarrow> d < b" and "0 < b" and "b \<le> 10" and "last_digit = b + 0x2F"
    and "j \<le> limit" and "int b ^ limit < 2 ^ 31" and "2 ^ 31 \<le> int b ^ Suc limit"
  shows "back_loop (int b) last_digit (List.map digit_char ds) (int b ^ j) v =
    (if j + length ds \<le> limit then Inr (v + of_nat (b ^ j * low_first b ds)) else Inl Int_Overflow)"
  using assms(1,5)
proof (induction ds arbitrary: j v)
  case (Cons d ds)
  have d: "d < b" "d < 10" using Cons.prems(1) [of d] assms(3) by auto
  have c: "(of_char (digit_char d) :: nat) = d + 0x30" using d by (simp add: digit_char_def of_char_of)
  show ?case
  proof (cases "j < limit")
    case True
    have "int b ^ Suc j \<le> int b ^ limit" using True assms(2) by (intro power_increasing) auto
    then have fits: "\<not> 2 ^ 31 \<le> int b ^ j * int b" using assms(6) by (simp add: mult.commute)
    have div: "int b ^ j * int b div int b = int b ^ j" using assms(2) by simp
    have IH: "back_loop (int b) last_digit (List.map digit_char ds) (int b ^ Suc j) (v + of_nat d * of_nat (b ^ j)) =
        (if Suc j + length ds \<le> limit then Inr (v + of_nat d * of_nat (b ^ j) + of_nat (b ^ Suc j * low_first b ds))
         else Inl Int_Overflow)"
      by (rule Cons.IH) (use Cons.prems(1) True in auto)
    show ?thesis
      using IH fits c d(1) assms(4) unfolding back_loop.simps list.map Let_def div
      by (simp add: algebra_simps)
  next
    case False
    then have "2 ^ 31 \<le> int b ^ j * int b" using assms(7) Cons.prems(2) by (simp add: mult.commute)
    then show ?thesis using False c d(1) assms(4) Cons.prems(2) by simp
  qed
qed simp

lemma hex_digit_char: "d < 16 \<Longrightarrow> hex_digit (digit_char d) = Some d"
  by (simp add: hex_digit_def digit_char_def of_char_of Let_def)

lemma push_or_nat: "d < 16 \<Longrightarrow> push_bit 4 n OR d = 16 * n + (d :: nat)"
proof -
  assume "d < 16"
  then have "take_bit 4 d = d" by (simp add: take_bit_nat_eq_self)
  then have "\<not> bit d k" if "4 \<le> k" for k using that by (metis bit_take_bit_iff not_le)
  then have "push_bit 4 n AND d = 0" by (auto simp: bit_eq_iff bit_simps)
  then have "push_bit 4 n + d = push_bit 4 n OR d" by (rule disjunctive_add_eq_or)
  then show ?thesis by (simp add: push_bit_eq_mult)
qed

lemma hex_step:
  "d < 16 \<Longrightarrow> push_bit (4 * Suc r) (of_nat n :: u32) OR push_bit (4 * r) (of_nat d) = push_bit (4 * r) (of_nat (16 * n + d))"
proof -
  assume "d < 16"
  then have "(of_nat (16 * n + d) :: u32) = push_bit 4 (of_nat n) OR of_nat d"
    by (simp add: push_or_nat [symmetric] of_nat_or_eq of_nat_push_bit)
  then show ?thesis by (simp add: push_bit_or add.commute)
qed

lemma hex_loop_digits:
  assumes "\<And>d. d \<in> set ds \<Longrightarrow> d < 16" and "len \<le> 8" and "len = length as + length ds"
  shows "hex_loop (int len) (int (length as)) (List.map digit_char ds) (push_bit (4 * length ds) (of_nat (num_of 16 as)))
    = Inr (of_nat (num_of 16 (as @ ds)))"
  using assms(1,3)
proof (induction ds arbitrary: as)
  case (Cons d ds)
  have pos: "(int len - 1 - int (length as)) * 4 = int (4 * length ds)" using Cons.prems(2) by simp
  have small: "\<not> 32 \<le> int (4 * length ds)" using assms(2) Cons.prems(2) by simp
  have IH: "hex_loop (int len) (int (length (as @ [d]))) (List.map digit_char ds)
        (push_bit (4 * length ds) (of_nat (num_of 16 (as @ [d])))) = Inr (of_nat (num_of 16 ((as @ [d]) @ ds)))"
    by (rule Cons.IH) (use Cons.prems in auto)
  have "push_bit (4 * length (d # ds)) (of_nat (num_of 16 as) :: u32) OR push_bit (4 * length ds) (of_nat d)
      = push_bit (4 * length ds) (of_nat (num_of 16 (as @ [d])))"
    using hex_step [of d "length ds" "num_of 16 as"] Cons.prems(1) [of d] by (simp add: num_of_snoc)
  then have "hex_loop (int len) (int (length as)) (List.map digit_char (d # ds))
        (push_bit (4 * length (d # ds)) (of_nat (num_of 16 as)))
      = hex_loop (int len) (int (length as) + 1) (List.map digit_char ds)
          (push_bit (4 * length ds) (of_nat (num_of 16 (as @ [d]))))"
    using Cons.prems(1) [of d] small
    unfolding list.map hex_loop.simps by (simp only: hex_digit_char option.case pos Let_def list.set_intros if_False nat_int)
  with IH show ?case by (simp add: add.commute)
qed simp

lemma back_all:
  assumes "\<And>d. d \<in> set ds \<Longrightarrow> d < b" and "0 < b" and "b \<le> 10" and "last_digit = b + 0x2F"
    and "int b ^ limit < 2 ^ 31" and "2 ^ 31 \<le> int b ^ Suc limit"
  shows "back_loop (int b) last_digit (rev (List.map digit_char ds)) 1 0 =
    (if length ds \<le> limit then Inr (of_nat (num_of b ds)) else Inl Int_Overflow)"
  using back_loop_digits [of "rev ds" b last_digit 0 limit 0] assms
  by (simp add: rev_map num_of_low_first)

lemma hex_all:
  assumes "\<And>d. d \<in> set ds \<Longrightarrow> d < 16"
  shows "hex_loop (int (length ds)) 0 (List.map digit_char ds) 0 =
    (if length ds \<le> 8 then Inr (of_nat (num_of 16 ds)) else Inl Bad_Shift)"
proof (cases "length ds \<le> 8")
  case True
  then show ?thesis using hex_loop_digits [of ds "length ds" "[]"] assms by (simp add: num_of_def)
next
  case False
  then obtain d ds' where "ds = d # ds'" "8 \<le> length ds'" by (cases ds) auto
  then show ?thesis using assms [of d] by (simp add: hex_digit_char Let_def)
qed

lemma digit_chars:
  "d < 10 \<Longrightarrow> digit_char d = CHR ''0'' \<longleftrightarrow> d = 0" "d < 10 \<Longrightarrow> digit_char d \<noteq> CHR ''x'' \<and> digit_char d \<noteq> CHR ''X''"
proof -
  assume d: "d < 10"
  then have c: "(of_char (digit_char d) :: nat) = d + 0x30" by (simp add: digit_char_def of_char_of)
  show "digit_char d = CHR ''0'' \<longleftrightarrow> d = 0"
  proof
    assume "digit_char d = CHR ''0''"
    with c show "d = 0" by simp
  next
    assume "d = 0"
    with c have "(of_char (digit_char d) :: nat) = of_char (CHR ''0'')" by simp
    then show "digit_char d = CHR ''0''" by (simp only: of_char_eq_iff)
  qed
  show "digit_char d \<noteq> CHR ''x'' \<and> digit_char d \<noteq> CHR ''X''"
  proof (intro conjI notI)
    assume "digit_char d = CHR ''x''"
    with c d show False by simp
  next
    assume "digit_char d = CHR ''X''"
    with c d show False by simp
  qed
qed

lemma astrtol_dec:
  assumes "\<And>d. d \<in> set ds \<Longrightarrow> d < 10" and "ds \<noteq> []" and "base = 10 \<or> base = 0 \<and> hd ds \<noteq> 0"
  shows "astrtol (List.map digit_char ds) base =
    (if length ds \<le> 9 then Inr (of_nat (num_of 10 ds)) else Inl Int_Overflow)"
proof -
  have "number_base (List.map digit_char ds) base = 10"
    using assms digit_chars(1) [of "hd ds"] by (cases ds) (auto simp: number_base_def char_at_def)
  then show ?thesis
    using back_all [where ds = ds and b = 10 and limit = 9 and last_digit = "0x39"] assms(1) by (simp add: astrtol_def)
qed

lemma astrtol_oct:
  assumes "\<And>d. d \<in> set ds \<Longrightarrow> d < 8"
  shows "astrtol (CHR ''0'' # List.map digit_char ds) 0 =
    (if length ds \<le> 10 then Inr (of_nat (num_of 8 ds)) else Inl Int_Overflow)"
proof -
  have "number_base (CHR ''0'' # List.map digit_char ds) 0 = 8"
    using assms digit_chars(2) [of "hd ds"] by (cases ds) (force simp: number_base_def char_at_def)+
  then show ?thesis
    using back_all [where ds = ds and b = 8 and limit = 10 and last_digit = "0x37"] assms by (simp add: astrtol_def char_at_def)
qed

lemma astrtol_hex:
  assumes "\<And>d. d \<in> set ds \<Longrightarrow> d < 16"
  shows "astrtol (CHR ''0'' # CHR ''x'' # List.map digit_char ds) 0 =
    (if length ds \<le> 8 then Inr (of_nat (num_of 16 ds)) else Inl Bad_Shift)"
  using hex_all [of ds] assms by (simp add: astrtol_def number_base_def char_at_def)

end
