(* ===== verification/Calc_Cmd.thy ===== *)
theory Calc_Cmd
  imports Comm_Cmd
begin

text \<open>
  Models \<^verbatim>\<open>demo-calc/comm_cmd.c\<close>, the interpreter of the calculator: an earlier form of the one in
  \<^verbatim>\<open>demo-dh\<close>, with plain commands, a line that ends at a carriage return too, and a scan that
  runs every command of the name it finds. The functions and types that the two files share
  word for word (\<open>comm_data\<close>, \<open>comm_data_init\<close>, \<open>comm_parse_command\<close>) are those of \<open>Comm_Cmd\<close>.
\<close>

section \<open>Commands and state\<close>

text \<open>The field \<^verbatim>\<open>priv\<close>, NULL in every object and used by no handler, is left out.\<close>

record ('h, 'c) box_cmd =
  bc_id :: int
  bc_name :: "string option"
  bc_desc :: "string option"
  bc_cdata :: "'c option"
  bc_handler :: "'h option"

text \<open>\<open>'p\<close> names the command objects; the table holds pointers to them.\<close>

record ('p, 'h, 'c) box_table =
  bt_cmds :: "'p option list"
  bt_obj :: "'p \<Rightarrow> ('h, 'c) box_cmd"

definition ioprintf :: "string \<Rightarrow> targ list \<Rightarrow> io \<Rightarrow> io" where
  "ioprintf fmt args s = s\<lparr>io_out := io_out s @ [Trace fmt args]\<rparr>"

definition box_fgetc :: "io \<Rightarrow> (int \<times> io) option" where
  "box_fgetc s = stdin_fgetc s"

definition box_clear_screen :: "io \<Rightarrow> io" where
  "box_clear_screen s = ioprintf [NL] [] s"

definition box_show_screen :: "io \<Rightarrow> io" where
  "box_show_screen s = ioprintf ''CMD>'' [] s"

fun box_show_from :: "('p \<Rightarrow> ('h, 'c) box_cmd) \<Rightarrow> 'p option list \<Rightarrow> io \<Rightarrow> io" where
  "box_show_from obj [] s = s"
| "box_show_from obj (None # rest) s = box_show_from obj rest s"
| "box_show_from obj (Some p # rest) s =
     (let cmd = obj p
      in if bc_id cmd < 0 \<or> bc_name cmd = None then box_show_from obj rest s
         else
           let s1 = ioprintf ''%s - '' [TStr (the (bc_name cmd))] s
           in box_show_from obj rest
                (case bc_desc cmd of None \<Rightarrow> ioprintf [NL] [] s1 | Some d \<Rightarrow> ioprintf (''%s'' @ [NL]) [TStr d] s1))"

definition box_show_command :: "('p, 'h, 'c) box_table \<Rightarrow> io \<Rightarrow> io" where
  "box_show_command t s = box_show_from (bt_obj t) (bt_cmds t) s"

definition box_init_command :: "('p, 'h, 'c) box_table \<Rightarrow> ('p, 'h, 'c) box_table" where
  "box_init_command t = t\<lparr>bt_cmds := replicate COMM_MAX_CMDS None\<rparr>"

section \<open>Reading a line\<close>

partial_function (option) box_get_loop ::
  "int \<Rightarrow> char list \<Rightarrow> int \<Rightarrow> io \<Rightarrow> ((char list \<times> int) res \<times> io) option"
where
  "box_get_loop sz tmp cnt i =
     Option.bind (box_fgetc i) (\<lambda>(c, i').
       if c = 10 \<or> c = 13
       then Some (res_bind (wr tmp cnt NUL) (\<lambda>tmp'. Inr (tmp', cnt + 1)), i')
       else
         (let at = (if cnt \<ge> sz then 0 else cnt)
          in case wr tmp at (char_of_int c) of
               Inl e \<Rightarrow> Some (Inl e, i')
             | Inr tmp' \<Rightarrow> box_get_loop sz tmp' (at + 1) i'))"

definition box_get_command :: "comm_data \<Rightarrow> io \<Rightarrow> ((int \<times> comm_data) res \<times> io) option" where
  "box_get_command d i =
     map_option
       (\<lambda>(r, i'). (res_bind r (\<lambda>(tmp, cnt). Inr (0, d\<lparr>temp := tmp, tmpc := cnt\<rparr>)), i'))
       (box_get_loop (tmpsize d) (temp d) 0 i)"

section \<open>Running commands\<close>

text \<open>
  The scan, with the number of entries left; \<open>tab\<close> reads the table in the current state,
  \<open>copy\<close> is the \<^verbatim>\<open>memcpy\<close> and \<open>call\<close> runs a handler. \<^verbatim>\<open>argv[0]\<close> is compared with every name.
\<close>

fun box_exec_from ::
  "('s \<Rightarrow> ('p, 'h, 'c) box_table) \<Rightarrow> ('c \<Rightarrow> comm_data \<Rightarrow> 's \<Rightarrow> 's) \<Rightarrow> ('h \<Rightarrow> int \<Rightarrow> 'c option \<Rightarrow> 's \<Rightarrow> 's res option) \<Rightarrow>
   comm_data \<Rightarrow> nat \<Rightarrow> int \<Rightarrow> 's \<Rightarrow> 's res option"
where
  "box_exec_from tab copy call d 0 i s = Some (Inr s)"
| "box_exec_from tab copy call d (Suc n) i s =
     (case rd (bt_cmds (tab s)) i of
        Inl e \<Rightarrow> Some (Inl e)
      | Inr None \<Rightarrow> box_exec_from tab copy call d n (i + 1) s
      | Inr (Some p) \<Rightarrow>
          let cmd = bt_obj (tab s) p
          in if bc_id cmd < 0 \<or> bc_name cmd = None then box_exec_from tab copy call d n (i + 1) s
             else case strcmp_arg d 0 (bc_name cmd) of
                    Inl e \<Rightarrow> Some (Inl e)
                  | Inr differ \<Rightarrow>
                      if differ then box_exec_from tab copy call d n (i + 1) s
                      else
                        let s1 = (case bc_cdata cmd of None \<Rightarrow> s | Some c \<Rightarrow> copy c d s)
                        in case bc_handler cmd of
                             None \<Rightarrow> box_exec_from tab copy call d n (i + 1) s1
                           | Some h \<Rightarrow>
                               (case call h (bc_id cmd) (bc_cdata cmd) s1 of
                                  None \<Rightarrow> None
                                | Some (Inl e) \<Rightarrow> Some (Inl e)
                                | Some (Inr s2) \<Rightarrow> box_exec_from tab copy call d n (i + 1) s2))"

definition box_exec_command ::
  "('s \<Rightarrow> ('p, 'h, 'c) box_table) \<Rightarrow> ('c \<Rightarrow> comm_data \<Rightarrow> 's \<Rightarrow> 's) \<Rightarrow> ('h \<Rightarrow> int \<Rightarrow> 'c option \<Rightarrow> 's \<Rightarrow> 's res option) \<Rightarrow>
   comm_data \<Rightarrow> 's \<Rightarrow> (int \<times> 's) res option"
where
  "box_exec_command tab copy call d s =
     (if argc d \<le> 0 then Some (Inr (- 1, s))
      else map_option (\<lambda>m. res_bind m (\<lambda>s'. Inr (0, s'))) (box_exec_from tab copy call d COMM_MAX_CMDS 0 s))"

section \<open>The table\<close>

definition box_check_command :: "'p option \<Rightarrow> ('p, 'h, 'c) box_table \<Rightarrow> int" where
  "box_check_command cmd t =
     (case cmd of
        None \<Rightarrow> - 2
      | Some p \<Rightarrow>
          if bc_id (bt_obj t p) < 0 then - 3 else if bc_name (bt_obj t p) = None then - 4 else 0)"

text \<open>The name of an object is compared with itself.\<close>

fun box_match_from :: "('p \<Rightarrow> ('h, 'c) box_cmd) \<Rightarrow> 'p option \<Rightarrow> int \<Rightarrow> 'p option list \<Rightarrow> int res" where
  "box_match_from obj c i [] = Inr (- 1)"
| "box_match_from obj c i (cmd # rest) =
     (if cmd = c
      then (case c of
              None \<Rightarrow> Inr i
            | Some p \<Rightarrow>
                res_bind (strcmp_names (bc_name (obj p)) (bc_name (obj p)))
                  (\<lambda>differ. if \<not> differ then Inr i else box_match_from obj c (i + 1) rest))
      else box_match_from obj c (i + 1) rest)"

definition box_match_command :: "'p option \<Rightarrow> ('p, 'h, 'c) box_table \<Rightarrow> int res" where
  "box_match_command c t = box_match_from (bt_obj t) c 0 (bt_cmds t)"

definition box_set_command :: "'p option \<Rightarrow> int \<Rightarrow> ('p, 'h, 'c) box_table \<Rightarrow> (int \<times> ('p, 'h, 'c) box_table) res" where
  "box_set_command cmd pos t =
     (if pos \<ge> int COMM_MAX_CMDS then Inr (- 5, t)
      else res_bind (wr (bt_cmds t) pos cmd) (\<lambda>cs. Inr (0, t\<lparr>bt_cmds := cs\<rparr>)))"

definition box_cmd_register :: "'p option \<Rightarrow> ('p, 'h, 'c) box_table \<Rightarrow> (int \<times> ('p, 'h, 'c) box_table) res" where
  "box_cmd_register cmd t =
     (let r = box_check_command cmd t
      in if r \<noteq> 0 then Inr (r, t)
         else res_bind (box_match_command None t)
                (\<lambda>pos. if pos < 0 then Inr (- 1, t) else box_set_command cmd pos t))"

definition box_cmd_unregister :: "'p option \<Rightarrow> ('p, 'h, 'c) box_table \<Rightarrow> (int \<times> ('p, 'h, 'c) box_table) res" where
  "box_cmd_unregister cmd t =
     (let r = box_check_command cmd t
      in if r \<noteq> 0 then Inr (r, t)
         else res_bind (box_match_command cmd t)
                (\<lambda>pos. if pos < 0 then Inr (- 1, t) else box_set_command None pos t))"

end
