(* ===== verification/Calc_Box.thy ===== *)
theory Calc_Box
  imports Calc_Cmd "HOL-Library.Signed_Division"
begin

text \<open>
  Models \<^verbatim>\<open>demo-calc/calc.c\<close> and \<^verbatim>\<open>demo-calc/box.c\<close>: the calculator command, its options, and the
  program around the interpreter of \<open>Calc_Cmd\<close>. \<^verbatim>\<open>getopt_long\<close> is a parameter: a function on a
  state of its own that may also permute \<open>argv\<close>. Standard error is not modelled.
\<close>

section \<open>Objects and memory\<close>

datatype box_ref = Box_quit | Box_help | Box_calc

datatype box_handler = Bh_quit | Bh_help | Bh_calc

datatype box_cdata_ref = Calc_cdata

definition calc_usage_text :: string where
  "calc_usage_text =
     '' -h --help'' @ [TAB, TAB] @ ''Display usage information.'' @ [NL] @
     '' -v --version'' @ [TAB, TAB] @ ''Display version.'' @ [NL] @
     '' -a --add [d1] [d2]'' @ [TAB] @ ''d1 + d2 '' @ [NL] @
     '' -s --sub [d1] [d2]'' @ [TAB] @ ''d1 - d2 '' @ [NL] @
     '' -m --mul [d1] [d2]'' @ [TAB] @ ''d1 * d2 '' @ [NL] @
     '' -d --div [d1] [d2]'' @ [TAB] @ ''d1 / d2 '' @ [NL]"

definition calc_desc :: string where
  "calc_desc =
     ''a calculator'' @ [NL] @ ''usage:'' @ [NL] @
     '' -h --help'' @ [TAB, TAB] @ ''Display usage information'' @ [NL] @
     '' -v --version'' @ [TAB, TAB] @ ''Display version'' @ [NL] @
     '' -a --add [d1] [d2]'' @ [TAB] @ ''d1 + d2'' @ [NL] @
     '' -s --sub [d1] [d2]'' @ [TAB] @ ''d1 - d2'' @ [NL] @
     '' -m --mul [d1] [d2]'' @ [TAB] @ ''d1 * d2'' @ [NL] @
     '' -d --div [d1] [d2]'' @ [TAB] @ ''d1 / d2'' @ [NL]"

fun box_obj :: "box_ref \<Rightarrow> (box_handler, box_cdata_ref) box_cmd" where
  "box_obj Box_quit = \<lparr>bc_id = 99, bc_name = Some ''quit'', bc_desc = Some ''exit the program'',
     bc_cdata = None, bc_handler = Some Bh_quit\<rparr>"
| "box_obj Box_help = \<lparr>bc_id = 100, bc_name = Some ''help'', bc_desc = Some ''show help info'',
     bc_cdata = None, bc_handler = Some Bh_help\<rparr>"
| "box_obj Box_calc = \<lparr>bc_id = 1, bc_name = Some ''calc'', bc_desc = Some calc_desc,
     bc_cdata = Some Calc_cdata, bc_handler = Some Bh_calc\<rparr>"

record 'g box =
  btab :: "(box_ref, box_handler, box_cdata_ref) box_table"
  bquit :: int
  bdata :: comm_data
  calc_cd :: comm_data
  bio :: io
  gopt :: 'g

definition box_boot :: "io \<Rightarrow> 'g \<Rightarrow> 'g box" where
  "box_boot s g = \<lparr>btab = \<lparr>bt_cmds = replicate COMM_MAX_CMDS None, bt_obj = box_obj\<rparr>, bquit = 0,
     bdata = comm_data_zero, calc_cd = comm_data_zero, bio = s, gopt = g\<rparr>"

definition box_io :: "(io \<Rightarrow> io) \<Rightarrow> 'g box \<Rightarrow> 'g box" where
  "box_io f a = a\<lparr>bio := f (bio a)\<rparr>"

section \<open>The calculator\<close>

abbreviation "CALC_CMD_ADD \<equiv> 0 :: int"
abbreviation "CALC_CMD_SUB \<equiv> 1 :: int"
abbreviation "CALC_CMD_DIV \<equiv> 2 :: int"
abbreviation "CALC_CMD_MUL \<equiv> 3 :: int"

definition calc_do_calculate :: "int \<Rightarrow> int \<Rightarrow> int \<Rightarrow> int \<Rightarrow> (int \<times> int) res" where
  "calc_do_calculate a b op res =
     res_bind
       (if op = CALC_CMD_ADD then res_bind (int_ok (a + b)) (\<lambda>s. Inr (0, s))
        else if op = CALC_CMD_SUB then res_bind (int_ok (a - b)) (\<lambda>s. Inr (0, s))
        else if op = CALC_CMD_DIV
        then (let r = (if b = 0 then - 1 else 0)
              in if b = 0 then Inl Div_By_Zero else res_bind (int_ok (a sdiv b)) (\<lambda>s. Inr (r, s)))
        else if op = CALC_CMD_MUL then res_bind (int_ok (a * b)) (\<lambda>s. Inr (0, s))
        else Inr (- 1, 0))
       (\<lambda>(r, s). Inr (r, if r = 0 then s else res))"

text \<open>\<^verbatim>\<open>strtol (s, NULL, 0)\<close> into an \<^verbatim>\<open>int\<close>: clamped to 64 bits, then cut to 32.\<close>

definition strtol_int :: "string \<Rightarrow> int" where
  "strtol_int s =
     (let t = dropWhile is_space s;
          neg = (t \<noteq> [] \<and> hd t = CHR ''-'');
          u = (if t \<noteq> [] \<and> (hd t = CHR ''-'' \<or> hd t = CHR ''+'') then tl t else t);
          m = int (strtoul_mag u);
          v = (if neg then max (- (2 ^ 63)) (- m) else min (2 ^ 63 - 1) m)
      in sint (of_int v :: u32))"

text \<open>\<^verbatim>\<open>argv[k]\<close> of the copy; its pointers lead into the line buffer of the interpreter.\<close>

definition calc_arg :: "'g box \<Rightarrow> int \<Rightarrow> string res" where
  "calc_arg a k =
     res_bind (rd (argv (calc_cd a)) k)
       (\<lambda>p. case p of None \<Rightarrow> Inl Null_Deref | Some q \<Rightarrow> cstr_at (temp (bdata a)) q)"

definition calc_get_param :: "int \<Rightarrow> 'g box \<Rightarrow> (int \<times> int) res" where
  "calc_get_param optind a =
     res_bind (calc_arg a (optind - 1)) (\<lambda>x.
     res_bind (calc_arg a optind) (\<lambda>y. Inr (strtol_int x, strtol_int y)))"

definition calc_print_result :: "int \<Rightarrow> 'g box \<Rightarrow> 'g box" where
  "calc_print_result r a = box_io (ioprintf (''%d'' @ [NL]) [TInt r]) a"

definition calc_print_version :: "'g box \<Rightarrow> 'g box" where
  "calc_print_version a = box_io (ioprintf (''%s version %d.%d'' @ [NL]) [TStr ''calc'', TInt 1, TInt 0]) a"

definition calc_print_usage :: "'g box \<Rightarrow> 'g box" where
  "calc_print_usage a = box_io (ioprintf calc_usage_text []) (box_io (ioprintf (''%s usage:'' @ [NL]) [TStr ''calc'']) a)"

definition calc_apply :: "int \<Rightarrow> int \<Rightarrow> int \<Rightarrow> 'g box \<Rightarrow> (int \<times> 'g box) res" where
  "calc_apply op optind res a =
     res_bind (calc_get_param optind a) (\<lambda>(d1, d2).
     res_bind (calc_do_calculate d1 d2 op res) (\<lambda>(err, res'). Inr (res', calc_print_result res' a)))"

definition calc_option :: "int \<Rightarrow> int \<Rightarrow> int \<Rightarrow> 'g box \<Rightarrow> (int \<times> 'g box) res" where
  "calc_option opt optind res a =
     (if opt = uchar_val CHR ''h'' then Inr (res, calc_print_usage a)
      else if opt = uchar_val CHR ''v'' then Inr (res, calc_print_version a)
      else if opt = uchar_val CHR ''a'' then calc_apply CALC_CMD_ADD optind res a
      else if opt = uchar_val CHR ''s'' then calc_apply CALC_CMD_SUB optind res a
      else if opt = uchar_val CHR ''m'' then calc_apply CALC_CMD_MUL optind res a
      else if opt = uchar_val CHR ''d'' then calc_apply CALC_CMD_DIV optind res a
      else if opt = uchar_val CHR ''?'' then Inr (res, a)
      else if opt = - 1 then Inr (res, a)
      else Inl Aborted)"

text \<open>
  One call of \<^verbatim>\<open>getopt_long\<close>: from its state, \<open>argc\<close>, \<open>argv\<close>, the line buffer and \<open>optind\<close> to the
  option, the new \<open>optind\<close>, \<open>argv\<close> and state.
\<close>

type_synonym 'g getopt = "'g \<Rightarrow> int \<Rightarrow> nat option list \<Rightarrow> char list \<Rightarrow> int \<Rightarrow> int \<times> int \<times> nat option list \<times> 'g"

definition next_option :: "'g getopt \<Rightarrow> int \<Rightarrow> 'g box \<Rightarrow> int \<times> int \<times> 'g box" where
  "next_option getopt optind a =
     (let (opt, oi, av, g) = getopt (gopt a) (argc (calc_cd a)) (argv (calc_cd a)) (temp (bdata a)) optind
      in (opt, oi, a\<lparr>calc_cd := (calc_cd a)\<lparr>argv := av\<rparr>, gopt := g\<rparr>))"

partial_function (option) calc_loop :: "'g getopt \<Rightarrow> int \<Rightarrow> int \<Rightarrow> 'g box \<Rightarrow> 'g box res option" where
  "calc_loop getopt optind res a =
     (case next_option getopt optind a of
        (opt, oi, a1) \<Rightarrow>
          (case calc_option opt oi res a1 of
             Inl e \<Rightarrow> Some (Inl e)
           | Inr (res', a2) \<Rightarrow> if opt \<noteq> - 1 then calc_loop getopt oi res' a2 else Some (Inr a2)))"

definition start_calc :: "'g getopt \<Rightarrow> 'g box \<Rightarrow> 'g box res option" where
  "start_calc getopt a = calc_loop getopt 1 0 a"

section \<open>The program\<close>

definition box_copy :: "box_cdata_ref \<Rightarrow> comm_data \<Rightarrow> 'g box \<Rightarrow> 'g box" where
  "box_copy c d a = a\<lparr>calc_cd := d\<rparr>"

definition box_quit_handler :: "'g box \<Rightarrow> 'g box" where
  "box_quit_handler a = a\<lparr>bquit := 1\<rparr>"

definition box_help_handler :: "'g box \<Rightarrow> 'g box" where
  "box_help_handler a = box_io (box_show_command (btab a)) a"

definition cmd_calc_handler :: "'g getopt \<Rightarrow> 'g box \<Rightarrow> 'g box res option" where
  "cmd_calc_handler getopt a = start_calc getopt a"

definition box_call :: "'g getopt \<Rightarrow> box_handler \<Rightarrow> int \<Rightarrow> box_cdata_ref option \<Rightarrow> 'g box \<Rightarrow> 'g box res option" where
  "box_call getopt h i c a =
     (case h of
        Bh_quit \<Rightarrow> Some (Inr (box_quit_handler a))
      | Bh_help \<Rightarrow> Some (Inr (box_help_handler a))
      | Bh_calc \<Rightarrow> cmd_calc_handler getopt a)"

definition on_btab ::
  "((box_ref, box_handler, box_cdata_ref) box_table \<Rightarrow> (int \<times> (box_ref, box_handler, box_cdata_ref) box_table) res)
   \<Rightarrow> 'g box \<Rightarrow> (int \<times> 'g box) res"
where
  "on_btab f a = res_bind (f (btab a)) (\<lambda>(r, t). Inr (r, a\<lparr>btab := t\<rparr>))"

definition box_trivial_register :: "'g box \<Rightarrow> (int \<times> 'g box) res" where
  "box_trivial_register a =
     res_bind (on_btab (box_cmd_register (Some Box_quit)) a) (\<lambda>(r1, a1).
     res_bind (on_btab (box_cmd_register (Some Box_help)) a1) (\<lambda>(r2, a2). Inr (r1 + r2, a2)))"

definition box_trivial_unregister :: "'g box \<Rightarrow> (int \<times> 'g box) res" where
  "box_trivial_unregister a =
     res_bind (on_btab (box_cmd_unregister (Some Box_quit)) a) (\<lambda>(r1, a1).
     res_bind (on_btab (box_cmd_unregister (Some Box_help)) a1) (\<lambda>(r2, a2). Inr (r1 + r2, a2)))"

definition calc_cmd_register :: "'g box \<Rightarrow> (int \<times> 'g box) res" where
  "calc_cmd_register a = on_btab (box_cmd_register (Some Box_calc)) a"

definition calc_cmd_unregister :: "'g box \<Rightarrow> (int \<times> 'g box) res" where
  "calc_cmd_unregister a = on_btab (box_cmd_unregister (Some Box_calc)) a"

definition box_round :: "'g getopt \<Rightarrow> 'g box \<Rightarrow> 'g box res option" where
  "box_round getopt a =
     (let a0 = box_io box_show_screen a
      in case box_get_command (bdata a0) (bio a0) of
           None \<Rightarrow> None
         | Some (Inl e, s) \<Rightarrow> Some (Inl e)
         | Some (Inr (r, d1), s) \<Rightarrow>
             (case comm_parse_command d1 of
                Inl e \<Rightarrow> Some (Inl e)
              | Inr (r2, d2) \<Rightarrow>
                  map_option (\<lambda>m. res_bind m (\<lambda>(r3, a1). Inr a1))
                    (box_exec_command btab box_copy (box_call getopt) d2 (a0\<lparr>bio := s, bdata := d2\<rparr>))))"

partial_function (option) box_loop :: "'g getopt \<Rightarrow> 'g box \<Rightarrow> 'g box res option" where
  "box_loop getopt a =
     (case box_round getopt a of
        None \<Rightarrow> None
      | Some (Inl e) \<Rightarrow> Some (Inl e)
      | Some (Inr a1) \<Rightarrow> if bquit a1 \<noteq> 0 then Some (Inr a1) else box_loop getopt a1)"

definition box_start :: "'g box \<Rightarrow> (int \<times> 'g box) res" where
  "box_start a =
     (let a1 = a\<lparr>bquit := 0, bdata := comm_data_zero, btab := box_init_command (btab a)\<rparr>;
          a2 = (case snd (comm_data_init (Some (bdata a1))) of None \<Rightarrow> a1 | Some d \<Rightarrow> a1\<lparr>bdata := d\<rparr>);
          a3 = box_io box_clear_screen a2
      in res_bind (box_trivial_register a3) (\<lambda>(r1, a4).
         res_bind (calc_cmd_register a4) (\<lambda>(r2, a5). Inr (r1 + r2, a5))))"

definition box_finish :: "'g box \<Rightarrow> (int \<times> 'g box) res" where
  "box_finish a =
     res_bind (box_trivial_unregister a) (\<lambda>(r1, a1).
     res_bind (calc_cmd_unregister a1) (\<lambda>(r2, a2).
       if r1 + r2 \<noteq> 0
       then Inr (r1 + r2, box_io (ioprintf (''unregister cmd failed %d'' @ [NL]) [TInt (r1 + r2)]) a2)
       else Inr (0, box_io (ioprintf (''See you again.'' @ [NL]) []) (box_io box_clear_screen a2))))"

definition box_main :: "'g getopt \<Rightarrow> 'g box \<Rightarrow> (int \<times> 'g box) res option" where
  "box_main getopt a =
     (case box_start a of
        Inl e \<Rightarrow> Some (Inl e)
      | Inr (r, a1) \<Rightarrow>
          if r \<noteq> 0
          then Some (Inr (r, box_io (ioprintf (''register cmd failed %d'' @ [NL]) [TInt r]) a1))
          else map_option (\<lambda>m. res_bind m box_finish) (box_loop getopt a1))"

end
