(* ===== verification/Calc_Run.thy ===== *)
theory Calc_Run
  imports Calc_Box Comm_Table
begin

text \<open>
  The calculator program: its command table is, operation by operation, the one of \<^verbatim>\<open>demo-dh\<close>, so
  it keeps the contract \<open>command_table\<close>; whole runs; and the arithmetic.
\<close>

section \<open>The table is that of demo-dh\<close>

definition as_comm_cmd :: "('h, 'c) box_cmd \<Rightarrow> ('h, 'c, unit) comm_cmd" where
  "as_comm_cmd c = \<lparr>cmd_id = bc_id c, cmd_name = bc_name c, cmd_group = None, cmd_desc = bc_desc c,
     cmd_priv = None, cmd_cdata = bc_cdata c, cmd_handler = bc_handler c, cmd_nogroup = 1\<rparr>"

definition as_comm :: "('p, 'h, 'c) box_table \<Rightarrow> ('p, 'h, 'c, unit) comm_state" where
  "as_comm t = \<lparr>comm_cmds = bt_cmds t, cmd_obj = (\<lambda>p. as_comm_cmd (bt_obj t p)),
     cio = \<lparr>io_stdin = [], io_reads = [], io_accept = [], io_sent = [], io_out = []\<rparr>\<rparr>"

lemma match_same: "box_match_from obj c i cs = match_from (\<lambda>p. as_comm_cmd (obj p)) c i cs"
proof -
  have name: "cmd_name (as_comm_cmd b) = bc_name b" for b by (simp add: as_comm_cmd_def)
  show ?thesis
  proof (induction cs arbitrary: i)
    case (Cons cmd cs)
    show ?case
    proof (cases c)
      case None
      with Cons.IH show ?thesis by simp
    next
      case (Some p)
      with Cons.IH have eq: "box_match_from obj (Some p) j cs = match_from (\<lambda>p. as_comm_cmd (obj p)) (Some p) j cs" for j
        by simp
      show ?thesis unfolding Some by (simp add: eq name cong: if_cong)
    qed
  qed simp
qed

lemma valid_same: "valid_cmd (as_comm t) p \<longleftrightarrow> box_check_command (Some p) t = 0"
  by (simp add: valid_cmd_def as_comm_def as_comm_cmd_def box_check_command_def)

definition lift_table :: "(int \<times> ('p, 'h, 'c) box_table) res \<Rightarrow> (int \<times> ('p, 'h, 'c, unit) comm_state) res" where
  "lift_table m = res_bind m (\<lambda>(r, t). Inr (r, as_comm t))"

lemma set_same: "comm_set_command c pos (as_comm t) = lift_table (box_set_command c pos t)"
  by (cases "wr (bt_cmds t) pos c")
    (simp_all add: lift_table_def comm_set_command_def box_set_command_def as_comm_def)

lemma match_command_same: "comm_match_command c (as_comm t) = box_match_command c t"
  by (simp add: comm_match_command_def box_match_command_def match_same as_comm_def)

lemma register_same:
  assumes "valid_cmd (as_comm t) p"
  shows "comm_cmd_register (Some p) (as_comm t) = lift_table (box_cmd_register (Some p) t)"
  using assms check_valid [OF assms]
  by (cases "box_match_command None t")
    (auto simp: comm_cmd_register_def box_cmd_register_def match_command_same set_same valid_same lift_table_def)

lemma unregister_same:
  assumes "valid_cmd (as_comm t) p"
  shows "comm_cmd_unregister (Some p) (as_comm t) = lift_table (box_cmd_unregister (Some p) t)"
  using assms check_valid [OF assms]
  by (cases "box_match_command (Some p) t")
    (auto simp: comm_cmd_unregister_def box_cmd_unregister_def match_command_same set_same valid_same lift_table_def)

lemma lift_table_Inr: "lift_table m = Inr (r, s) \<longleftrightarrow> (\<exists>t. m = Inr (r, t) \<and> s = as_comm t)"
  by (cases m) (auto simp: lift_table_def)

interpretation box_tab: command_table
  "\<lambda>p. box_cmd_register (Some p)" "\<lambda>p. box_cmd_unregister (Some p)"
  "\<lambda>t. registered (as_comm t)" "\<lambda>t. free_slots (as_comm t)" "\<lambda>t. valid_cmd (as_comm t)" "\<lambda>t. wf_table (as_comm t)"
proof unfold_locales
  fix s :: "('a, 'b, 'c) box_table" and p
  assume a: "wf_table (as_comm s)" "valid_cmd (as_comm s) p"
  note same = register_same [OF a(2)] unregister_same [OF a(2)] lift_table_Inr
  show "0 < free_slots (as_comm s) \<Longrightarrow> \<exists>s'. box_cmd_register (Some p) s = Inr (0, s') \<and> wf_table (as_comm s')
      \<and> registered (as_comm s') = add_mset p (registered (as_comm s))
      \<and> free_slots (as_comm s) = Suc (free_slots (as_comm s')) \<and> valid_cmd (as_comm s') = valid_cmd (as_comm s)"
    using comm_tab.reg_ok [OF a] by (auto simp: same)
  show "free_slots (as_comm s) = 0 \<Longrightarrow> \<exists>s'. box_cmd_register (Some p) s = Inr (- 1, s')
      \<and> registered (as_comm s') = registered (as_comm s) \<and> free_slots (as_comm s') = free_slots (as_comm s)"
    using comm_tab.reg_full [OF a] by (auto simp: same)
  show "p \<in># registered (as_comm s) \<Longrightarrow> \<exists>s'. box_cmd_unregister (Some p) s = Inr (0, s') \<and> wf_table (as_comm s')
      \<and> registered (as_comm s') = registered (as_comm s) - {#p#}
      \<and> free_slots (as_comm s') = Suc (free_slots (as_comm s)) \<and> valid_cmd (as_comm s') = valid_cmd (as_comm s)"
    using comm_tab.unreg_ok [OF a] by (auto simp: same)
  show "p \<notin># registered (as_comm s) \<Longrightarrow> \<exists>s'. box_cmd_unregister (Some p) s = Inr (- 1, s')
      \<and> registered (as_comm s') = registered (as_comm s) \<and> free_slots (as_comm s') = free_slots (as_comm s)"
    using comm_tab.unreg_absent [OF a] by (auto simp: same)
qed

section \<open>Whole runs\<close>

lemma calc_option_table: "calc_option opt oi res a = Inr (res', a') \<Longrightarrow> btab a' = btab a"
  by (auto simp: calc_option_def calc_apply_def calc_print_result_def calc_print_usage_def calc_print_version_def
      box_io_def res_bind_Inr_iff split: if_split_asm)

lemma next_option_table: "next_option getopt oi a = (opt, oi', a') \<Longrightarrow> btab a' = btab a"
  by (auto simp: next_option_def Let_def split: prod.splits)

lemma calc_loop_table:
  assumes "calc_loop getopt oi res a = Some r"
  shows "\<forall>a'. r = Inr a' \<longrightarrow> btab a' = btab a"
proof (rule calc_loop.raw_induct [OF _ assms,
      where P = "\<lambda>getopt oi res a r. \<forall>a'. r = Inr a' \<longrightarrow> btab a' = btab a"], goal_cases)
  case (1 f getopt oi res a r)
  obtain opt oi1 a1 where n: "next_option getopt oi a = (opt, oi1, a1)" by (cases "next_option getopt oi a") auto
  note t1 = next_option_table [OF n]
  show ?case
  proof (cases "calc_option opt oi1 res a1")
    case (Inl e)
    with 1(2) n show ?thesis by auto
  next
    case (Inr p)
    then obtain res' a2 where o: "calc_option opt oi1 res a1 = Inr (res', a2)" by (cases p) auto
    note t2 = calc_option_table [OF o]
    show ?thesis
    proof (cases "opt = - 1")
      case True
      with 1(2) n o t1 t2 show ?thesis by auto
    next
      case False
      with 1(2) n o have "f getopt oi1 res' a2 = Some r" by simp
      from 1(1) [OF this] t1 t2 show ?thesis by metis
    qed
  qed
qed

lemma box_call_table: "box_call getopt h i c a = Some (Inr a') \<Longrightarrow> btab a' = btab a"
  using calc_loop_table [of getopt 1 0 a]
  by (auto simp: box_call_def box_quit_handler_def box_help_handler_def box_io_def cmd_calc_handler_def start_calc_def
      split: box_handler.splits)

lemma box_exec_table:
  "box_exec_from btab box_copy (box_call getopt) d n i a = Some (Inr a') \<Longrightarrow> btab a' = btab a"
proof (induction n arbitrary: i a)
  case (Suc n)
  note again = Suc.IH
  have copy: "btab (box_copy c d b) = btab b" for c d and b :: "'a box" by (simp add: box_copy_def)
  obtain e where e: "rd (bt_cmds (btab a)) i = Inr e" using Suc.prems by (auto split: sum.splits)
  show ?case
  proof (cases e)
    case None
    with Suc.prems e again show ?thesis by simp
  next
    case (Some p)
    let ?c = "bt_obj (btab a) p"
    show ?thesis
    proof (cases "bc_id ?c < 0 \<or> bc_name ?c = None")
      case True
      with Suc.prems e Some have "box_exec_from btab box_copy (box_call getopt) d n (i + 1) a = Some (Inr a')"
        by (simp add: Let_def)
      then show ?thesis by (rule again)
    next
      case named: False
      obtain differ where differ: "strcmp_arg d 0 (bc_name ?c) = Inr differ"
        using Suc.prems e Some named by (auto simp: Let_def split: sum.splits)
      show ?thesis
      proof (cases differ)
        case True
        with Suc.prems e Some named differ
        have "box_exec_from btab box_copy (box_call getopt) d n (i + 1) a = Some (Inr a')"
          by (simp add: Let_def)
        then show ?thesis by (rule again)
      next
      case False
      define a1 where "a1 = (case bc_cdata ?c of None \<Rightarrow> a | Some c \<Rightarrow> box_copy c d a)"
      have a1: "btab a1 = btab a" by (simp add: a1_def copy split: option.split)
      have run: "(case bc_handler ?c of
              None \<Rightarrow> box_exec_from btab box_copy (box_call getopt) d n (i + 1) a1
            | Some h \<Rightarrow> (case box_call getopt h (bc_id ?c) (bc_cdata ?c) a1 of None \<Rightarrow> None | Some (Inl e) \<Rightarrow> Some (Inl e)
                | Some (Inr s2) \<Rightarrow> box_exec_from btab box_copy (box_call getopt) d n (i + 1) s2)) = Some (Inr a')"
        using Suc.prems e Some False named differ unfolding a1_def by (simp add: Let_def)
      show ?thesis
      proof (cases "bc_handler ?c")
        case None
        with run again [of "i + 1" a1] a1 show ?thesis by simp
      next
        case (Some h)
        with run obtain s2 where s2: "box_call getopt h (bc_id ?c) (bc_cdata ?c) a1 = Some (Inr s2)"
            "box_exec_from btab box_copy (box_call getopt) d n (i + 1) s2 = Some (Inr a')"
          by (auto split: option.splits sum.splits)
        show ?thesis using again [OF s2(2)] box_call_table [OF s2(1)] a1 by simp
      qed
      qed
    qed
  qed
qed simp

lemma box_round_table:
  assumes "box_round getopt a = Some (Inr a')"
  shows "btab a' = btab a"
  using assms
  by (auto simp: box_round_def Let_def box_io_def box_exec_command_def res_bind_Inr_iff
      dest!: box_exec_table split: option.splits sum.splits prod.splits if_split_asm)

lemma box_loop_table:
  assumes "box_loop getopt a = Some r"
  shows "\<forall>a'. r = Inr a' \<longrightarrow> btab a' = btab a"
proof (rule box_loop.raw_induct [OF _ assms,
      where P = "\<lambda>getopt a r. \<forall>a'. r = Inr a' \<longrightarrow> btab a' = btab a"], goal_cases)
  case (1 f getopt a r)
  show ?case
  proof (cases "box_round getopt a")
    case None
    with 1(2) show ?thesis by simp
  next
    case (Some m)
    show ?thesis
    proof (cases m)
      case (Inl e)
      with 1(2) Some show ?thesis by auto
    next
      case (Inr a1)
      note same = box_round_table [OF Some [unfolded Inr]]
      show ?thesis
      proof (cases "bquit a1 = 0")
        case True
        with 1(2) Some Inr have "f getopt a1 = Some r" by simp
        from 1(1) [OF this] same show ?thesis by metis
      next
        case False
        with 1(2) Some Inr same show ?thesis by auto
      qed
    qed
  qed
qed

text \<open>The table of the running program, as the contract sees it.\<close>

abbreviation "box_bag a \<equiv> registered (as_comm (btab a))"

definition box_wf :: "'g box \<Rightarrow> bool" where
  "box_wf a \<longleftrightarrow> wf_table (as_comm (btab a)) \<and> (\<forall>p. valid_cmd (as_comm (btab a)) p)"

lemma on_btab_register:
  assumes "box_wf a" and "0 < free_slots (as_comm (btab a))"
  obtains a' where "on_btab (box_cmd_register (Some p)) a = Inr (0, a')" "box_wf a'"
    "box_bag a' = add_mset p (box_bag a)" "free_slots (as_comm (btab a)) = Suc (free_slots (as_comm (btab a')))"
    "bquit a' = bquit a" "bdata a' = bdata a" "bio a' = bio a" "calc_cd a' = calc_cd a" "gopt a' = gopt a"
proof -
  obtain t where t: "box_cmd_register (Some p) (btab a) = Inr (0, t)" "wf_table (as_comm t)"
    "registered (as_comm t) = add_mset p (box_bag a)" "free_slots (as_comm (btab a)) = Suc (free_slots (as_comm t))"
    "valid_cmd (as_comm t) = valid_cmd (as_comm (btab a))"
    using box_tab.reg_ok [of "btab a" p] assms by (auto simp: box_wf_def)
  then show ?thesis using assms(1) by (intro that [of "a\<lparr>btab := t\<rparr>"]) (simp_all add: on_btab_def box_wf_def)
qed

lemma on_btab_unregister:
  assumes "box_wf a" and "p \<in># box_bag a"
  obtains a' where "on_btab (box_cmd_unregister (Some p)) a = Inr (0, a')" "box_wf a'" "box_bag a' = box_bag a - {#p#}"
proof -
  obtain t where t: "box_cmd_unregister (Some p) (btab a) = Inr (0, t)" "wf_table (as_comm t)"
    "registered (as_comm t) = box_bag a - {#p#}" "valid_cmd (as_comm t) = valid_cmd (as_comm (btab a))"
    using box_tab.unreg_ok [of "btab a" p] assms by (auto simp: box_wf_def)
  then show ?thesis using assms(1) by (intro that [of "a\<lparr>btab := t\<rparr>"]) (simp_all add: on_btab_def box_wf_def)
qed

definition box_ready :: "'g box \<Rightarrow> bool" where
  "box_ready a \<longleftrightarrow> box_wf a \<and> box_bag a = {#Box_calc, Box_help, Box_quit#}"

lemma box_start_ok:
  assumes "bt_obj (btab a) = box_obj"
  obtains a1 where "box_start a = Inr (0, a1)" and "box_ready a1" and "bquit a1 = 0"
    and "bdata a1 = the (snd (comm_data_init (Some comm_data_zero)))" and "io_stdin (bio a1) = io_stdin (bio a)"
    and "gopt a1 = gopt a"
proof -
  let ?a = "box_io box_clear_screen (a\<lparr>bquit := 0, btab := box_init_command (btab a),
    bdata := the (snd (comm_data_init (Some comm_data_zero)))\<rparr>)"
  have wf: "box_wf ?a"
  proof -
    have "valid_cmd (as_comm (btab ?a)) p" for p
      using assms by (cases p) (simp_all add: box_io_def box_init_command_def as_comm_def as_comm_cmd_def valid_cmd_def)
    then show ?thesis by (simp add: box_wf_def box_io_def box_init_command_def as_comm_def wf_table_def)
  qed
  have room: "free_slots (as_comm (btab ?a)) = COMM_MAX_CMDS" "box_bag ?a = {#}"
    by (simp_all add: free_slots_def registered_def as_comm_def box_io_def box_init_command_def List.map_filter_def
        filter_replicate)
  obtain b where b: "on_btab (box_cmd_register (Some Box_quit)) ?a = Inr (0, b)" "box_wf b"
    "box_bag b = add_mset Box_quit (box_bag ?a)" "free_slots (as_comm (btab ?a)) = Suc (free_slots (as_comm (btab b)))"
    "bquit b = bquit ?a" "bdata b = bdata ?a" "bio b = bio ?a" "gopt b = gopt ?a"
    using on_btab_register [OF wf, of Box_quit] room by auto
  obtain c where c: "on_btab (box_cmd_register (Some Box_help)) b = Inr (0, c)" "box_wf c"
    "box_bag c = add_mset Box_help (box_bag b)" "free_slots (as_comm (btab b)) = Suc (free_slots (as_comm (btab c)))"
    "bquit c = bquit b" "bdata c = bdata b" "bio c = bio b" "gopt c = gopt b"
    using on_btab_register [OF b(2), of Box_help] b(4) room by auto
  obtain d where d: "on_btab (box_cmd_register (Some Box_calc)) c = Inr (0, d)" "box_wf d"
    "box_bag d = add_mset Box_calc (box_bag c)" "free_slots (as_comm (btab c)) = Suc (free_slots (as_comm (btab d)))"
    "bquit d = bquit c" "bdata d = bdata c" "bio d = bio c" "gopt d = gopt c"
    using on_btab_register [OF c(2), of Box_calc] c(4) b(4) room by auto
  have "box_start a = Inr (0, d)"
    using b(1) c(1) d(1)
    by (simp add: box_start_def Let_def comm_data_init_def box_trivial_register_def calc_cmd_register_def)
  moreover have "box_ready d" using b c d room by (simp add: box_ready_def)
  ultimately show ?thesis
    using b c d by (intro that [of d]) (simp_all add: box_io_def box_clear_screen_def ioprintf_def)
qed

lemma box_finish_ok:
  assumes "box_ready a"
  shows "\<exists>a'. box_finish a = Inr (0, a') \<and> box_bag a' = {#}"
proof -
  obtain b where b: "on_btab (box_cmd_unregister (Some Box_quit)) a = Inr (0, b)" "box_wf b"
    "box_bag b = box_bag a - {#Box_quit#}"
    using on_btab_unregister [of a Box_quit] assms by (auto simp: box_ready_def)
  obtain c where c: "on_btab (box_cmd_unregister (Some Box_help)) b = Inr (0, c)" "box_wf c"
    "box_bag c = box_bag b - {#Box_help#}"
    using on_btab_unregister [of b Box_help] assms b by (auto simp: box_ready_def)
  obtain d where d: "on_btab (box_cmd_unregister (Some Box_calc)) c = Inr (0, d)" "box_wf d"
    "box_bag d = box_bag c - {#Box_calc#}"
    using on_btab_unregister [of c Box_calc] assms b c by (auto simp: box_ready_def)
  have "box_bag d = {#}" using assms b c d by (simp add: box_ready_def)
  then show ?thesis
    using b(1) c(1) d(1) by (simp add: box_finish_def box_trivial_unregister_def calc_cmd_unregister_def box_io_def)
qed

section \<open>Arithmetic\<close>

lemma calculate_cases:
  "calc_do_calculate a b CALC_CMD_ADD res = res_bind (int_ok (a + b)) (\<lambda>s. Inr (0, s))"
  "calc_do_calculate a b CALC_CMD_SUB res = res_bind (int_ok (a - b)) (\<lambda>s. Inr (0, s))"
  "calc_do_calculate a b CALC_CMD_MUL res = res_bind (int_ok (a * b)) (\<lambda>s. Inr (0, s))"
  "b \<noteq> 0 \<Longrightarrow> calc_do_calculate a b CALC_CMD_DIV res = res_bind (int_ok (a sdiv b)) (\<lambda>s. Inr (0, s))"
  "calc_do_calculate a 0 CALC_CMD_DIV res = Inl Div_By_Zero"
  by (auto simp: calc_do_calculate_def res_bind_assoc)

text \<open>What an option computes, on the integers.\<close>

definition exact_value :: "char \<Rightarrow> int \<Rightarrow> int \<Rightarrow> int" where
  "exact_value c x y =
     (if c = CHR ''a'' then x + y else if c = CHR ''s'' then x - y else if c = CHR ''m'' then x * y else x sdiv y)"

lemma option_value:
  assumes "c \<in> {CHR ''a'', CHR ''s'', CHR ''m'', CHR ''d''}"
    and "calc_arg a (oi - 1) = Inr x" and "calc_arg a oi = Inr y"
  shows "calc_option (uchar_val c) oi res a =
    (if c = CHR ''d'' \<and> strtol_int y = 0 then Inl Div_By_Zero
     else res_bind (int_ok (exact_value c (strtol_int x) (strtol_int y))) (\<lambda>v. Inr (v, calc_print_result v a)))"
  using assms
  by (auto simp: calc_option_def uchar_val_def calc_apply_def calc_get_param_def calculate_cases exact_value_def res_bind_assoc)

lemma calc_one_option:
  assumes "next_option getopt 1 a = (uchar_val c, oi, a1)"
    and "c \<in> {CHR ''a'', CHR ''s'', CHR ''m'', CHR ''d''}"
    and "calc_arg a1 (oi - 1) = Inr x" and "calc_arg a1 oi = Inr y"
    and "\<And>v. next_option getopt oi (calc_print_result v a1) = (- 1, oi', calc_print_result v a2)"
  shows "start_calc getopt a =
    (if c = CHR ''d'' \<and> strtol_int y = 0 then Some (Inl Div_By_Zero)
     else Some (res_bind (int_ok (exact_value c (strtol_int x) (strtol_int y))) (\<lambda>v. Inr (calc_print_result v a2))))"
proof -
  have c: "uchar_val c \<noteq> - 1" using assms(2) by (auto simp: uchar_val_def)
  have last: "calc_loop getopt oi v (calc_print_result v a1) = Some (Inr (calc_print_result v a2))" for v
    using assms(5) [of v] by (subst calc_loop.simps) (simp add: calc_option_def uchar_val_def)
  show ?thesis
    unfolding start_calc_def
    using assms(1) c last option_value [OF assms(2-4), of 0]
    by (subst calc_loop.simps) (auto split: sum.split simp: int_ok_def)
qed

section \<open>The line quit\<close>

lemma quit_buffer: "replicate 4096 NUL = NUL # NUL # NUL # NUL # NUL # replicate 4091 NUL"
  by (simp add: replicate_add [of 5 4091, simplified] eval_nat_numeral(2,3) numeral_Bit1)

definition quit_data :: comm_data where
  "quit_data = \<lparr>temp = ''quit'' @ NUL # replicate 4091 NUL, argv = (replicate 2048 None)[0 := Some 0], argc = 1, tmpc = 5,
     tmpsize = 4096, argsize = 2048\<rparr>"

lemma quit_command:
  assumes "io_stdin s = ''quit'' @ [NL]"
  shows "box_get_command (the (snd (comm_data_init (Some comm_data_zero)))) s
    = Some (Inr (0, quit_data\<lparr>argv := replicate 2048 None, argc := 0\<rparr>), s\<lparr>io_stdin := []\<rparr>)"
  using assms
  by (simp add: box_get_command_def comm_data_init_def comm_data_zero_def quit_buffer quit_data_def
     box_get_loop.simps box_fgetc_def stdin_fgetc_def uchar_val_def wr_def Let_def char_of_int_def) (simp add: char_of_def)

lemma quit_parse: "comm_parse_command (quit_data\<lparr>argv := replicate 2048 None, argc := 0\<rparr>) = Inr (0, quit_data)"
  by (simp add: comm_parse_command_def quit_data_def parse_loop.simps parse_word.simps is_sep_def)

lemma quit_arg: "strcmp_arg quit_data 0 (Some t) = Inr (''quit'' \<noteq> t)"
  by (simp add: strcmp_arg_def arg_str_def quit_data_def rd_def cstr_at_def)

text \<open>Entries other than the object named by the line are passed over; the object \<open>quit\<close> sets the flag.\<close>

lemma exec_quit:
  assumes "bt_obj (btab a) = box_obj" and "0 \<le> i" and "nat i + n \<le> length (bt_cmds (btab a))"
  shows "\<exists>a'. box_exec_from btab box_copy (box_call getopt) quit_data n i a = Some (Inr a')
    \<and> bquit a' = (if Some Box_quit \<in> set (take n (drop (nat i) (bt_cmds (btab a)))) then 1 else bquit a)"
  using assms
proof (induction n arbitrary: i a)
  case (Suc n)
  let ?cs = "bt_cmds (btab a)"
  have i: "nat i < length ?cs" "nat (i + 1) = Suc (nat i)" using Suc.prems by auto
  then have drop: "drop (nat i) ?cs = ?cs ! nat i # drop (nat (i + 1)) ?cs" by (simp add: Cons_nth_drop_Suc)
  have rd: "rd ?cs i = Inr (?cs ! nat i)" using i Suc.prems(2) by (simp add: rd_def)
  have IH: "\<exists>a'. box_exec_from btab box_copy (box_call getopt) quit_data n (i + 1) b = Some (Inr a')
    \<and> bquit a' = (if Some Box_quit \<in> set (take n (drop (nat (i + 1)) ?cs)) then 1 else bquit b)"
    if "btab b = btab a" for b
    using Suc.IH [of b "i + 1"] Suc.prems that i by auto
  show ?case
  proof (cases "?cs ! nat i")
    case None
    then show ?thesis using IH [of a] by (simp add: rd drop)
  next
    case (Some p)
    have call: "box_call getopt Bh_quit j c b = Some (Inr (box_quit_handler b))" for j c and b :: "'a box"
      by (simp add: box_call_def)
    have q: "btab (box_quit_handler a) = btab a" "bquit (box_quit_handler a) = 1" by (simp_all add: box_quit_handler_def)
    show ?thesis
      using IH [of a] IH [OF q(1)] Some Suc.prems(1)
      by (cases p) (auto simp: rd drop quit_arg call q)
  qed
qed simp

lemma register_obj: "box_cmd_register c t = Inr (r, t') \<Longrightarrow> bt_obj t' = bt_obj t"
  by (auto simp: box_cmd_register_def Let_def box_set_command_def res_bind_Inr_iff split: if_split_asm)

lemma start_obj: "box_start a = Inr (r, a1) \<Longrightarrow> bt_obj (btab a1) = bt_obj (btab a)"
  by (auto simp: box_start_def box_trivial_register_def calc_cmd_register_def on_btab_def Let_def res_bind_Inr_iff
      box_io_def box_init_command_def comm_data_init_def dest!: register_obj)

lemma quit_run:
  assumes "bt_obj (btab a) = box_obj" and "io_stdin (bio a) = ''quit'' @ [NL]"
  shows "\<exists>a'. box_main getopt a = Some (Inr (0, a'))"
proof -
  obtain a1 where a1: "box_start a = Inr (0, a1)" "box_ready a1" "bquit a1 = 0"
    "bdata a1 = the (snd (comm_data_init (Some comm_data_zero)))" "io_stdin (bio a1) = ''quit'' @ [NL]"
    using box_start_ok [OF assms(1)] assms(2) by metis
  let ?s = "box_show_screen (bio a1)"
  let ?b = "(box_io box_show_screen a1)\<lparr>bio := ?s\<lparr>io_stdin := []\<rparr>, bdata := quit_data\<rparr>"
  have s: "io_stdin ?s = ''quit'' @ [NL]" using a1(5) by (simp add: box_show_screen_def ioprintf_def)
  have tab: "btab ?b = btab a1" by (simp add: box_io_def)
  have obj: "bt_obj (btab ?b) = box_obj" using start_obj [OF a1(1)] assms(1) tab by simp
  have len: "length (bt_cmds (btab ?b)) = COMM_MAX_CMDS"
    using a1(2) tab by (simp add: box_ready_def box_wf_def wf_table_def as_comm_def)
  have "Box_quit \<in># box_bag a1" using a1(2) by (simp add: box_ready_def)
  then have "Some Box_quit \<in> set (bt_cmds (btab a1))" by (simp add: registered_def map_filter_mem as_comm_def)
  then obtain a2 where a2: "box_exec_from btab box_copy (box_call getopt) quit_data COMM_MAX_CMDS 0 ?b = Some (Inr a2)"
    "bquit a2 = 1"
    using exec_quit [OF obj, of 0 COMM_MAX_CMDS getopt] len tab by auto
  have "box_exec_command btab box_copy (box_call getopt) quit_data ?b = Some (Inr (0, a2))"
    using a2(1) by (simp add: box_exec_command_def quit_data_def)
  then have round: "box_round getopt a1 = Some (Inr a2)"
    using quit_command [OF s] quit_parse a1(4) by (simp add: box_round_def Let_def box_io_def)
  then have loop: "box_loop getopt a1 = Some (Inr a2)"
    using a2(2) by (subst box_loop.simps) simp
  have "box_ready a2" using box_round_table [OF round] a1(2) by (simp add: box_ready_def box_wf_def)
  from box_finish_ok [OF this] loop a1(1) show ?thesis by (auto simp: box_main_def)
qed

end
