(* ===== verification/Comm_File.thy ===== *)
theory Comm_File
  imports C_Prelude
begin

text \<open>
  Models \<^verbatim>\<open>demo-io/comm_file.c\<close>, a file object over the POSIX calls, and \<^verbatim>\<open>demo-io/main.c\<close>, which writes,
  extends and prints a file with it. The calls are a parameter, functions on a state \<open>'w\<close> of the
  system; \<open>disk\<close> is the one of a single regular file. The debug prints and what \<^verbatim>\<open>perror\<close> writes to standard error
  are left out.
\<close>

section \<open>The system calls\<close>

abbreviation "O_RDONLY \<equiv> 0 :: int"
abbreviation "O_RDWR \<equiv> 2 :: int"
abbreviation "O_CREAT \<equiv> 64 :: int"
abbreviation "SEEK_SET \<equiv> 0 :: int"
abbreviation "SEEK_END \<equiv> 2 :: int"

text \<open>\<open>p_read\<close> returns the result and the bytes stored in the buffer.\<close>

record 'w posix =
  p_open :: "string \<Rightarrow> int \<Rightarrow> int \<Rightarrow> 'w \<Rightarrow> int \<times> 'w"
  p_close :: "int \<Rightarrow> 'w \<Rightarrow> int \<times> 'w"
  p_read :: "int \<Rightarrow> int \<Rightarrow> 'w \<Rightarrow> int \<times> string \<times> 'w"
  p_write :: "int \<Rightarrow> string \<Rightarrow> 'w \<Rightarrow> int \<times> 'w"
  p_lseek :: "int \<Rightarrow> int \<Rightarrow> int \<Rightarrow> 'w \<Rightarrow> int \<times> 'w"
  p_usleep :: "nat \<Rightarrow> 'w \<Rightarrow> 'w"

record comm_file =
  cf_name :: "string option"
  cf_path :: "string option"
  cf_fd :: int
  cf_status :: int
  cf_flag :: int
  cf_mode :: int
  cf_pos :: int

section \<open>The file object\<close>

definition comm_file_open :: "'w posix \<Rightarrow> string option \<Rightarrow> comm_file \<Rightarrow> 'w \<Rightarrow> int \<times> comm_file \<times> 'w" where
  "comm_file_open px path f w =
     (if cf_status f \<noteq> 0 then (0, f, w)
      else case path of
        None \<Rightarrow> (- 1, f, w)
      | Some p \<Rightarrow>
          let (fd, w1) = p_open px p O_RDONLY 0 w;
              find = 0 < fd;
              w2 = (if find then snd (p_close px fd w1) else w1);
              flag = (if find then O_RDWR else O_RDWR + O_CREAT);
              m = (if find then 0 else 436);
              (fd2, w3) = p_open px p flag m w2
          in (0, f\<lparr>cf_fd := fd2, cf_mode := m, cf_path := Some p, cf_flag := flag, cf_status := 1\<rparr>, w3))"

text \<open>The variable \<^verbatim>\<open>r\<close> is set only for a file that is open.\<close>

definition comm_file_close :: "'w posix \<Rightarrow> comm_file \<Rightarrow> 'w \<Rightarrow> (int \<times> comm_file \<times> 'w) res" where
  "comm_file_close px f w =
     (if cf_status f \<noteq> 0
      then let (r, w1) = p_close px (cf_fd f) w in Inr (r, f\<lparr>cf_status := 0\<rparr>, w1)
      else Inl Uninit_Read)"

definition fdelay :: "'w posix \<Rightarrow> 'w \<Rightarrow> 'w" where
  "fdelay px w = p_usleep px 20 w"

text \<open>The loop: \<open>left\<close> bytes to go, \<open>us_cnt\<close> waits to go, \<open>out\<close> what the buffer holds.\<close>

partial_function (option) file_read_loop ::
  "'w posix \<Rightarrow> int \<Rightarrow> int \<Rightarrow> int \<Rightarrow> string \<Rightarrow> 'w \<Rightarrow> (string \<times> 'w) res option"
where
  "file_read_loop px fd left us_cnt out w =
     (if left = 0 then Some (Inr (out, w))
      else case p_read px fd left w of
        (n, bs, w1) \<Rightarrow>
          if n = - 1 then file_read_loop px fd left us_cnt out w1
          else if 0 < n then file_read_loop px fd (left - n) us_cnt (out @ bs) w1
          else if us_cnt = 0 then Some (Inr (out, w1))
          else case int_ok (us_cnt - 1) of
            Inl e \<Rightarrow> Some (Inl e)
          | Inr us' \<Rightarrow> file_read_loop px fd left us' out (fdelay px w1))"

text \<open>The bytes read; the C function returns their number. \<^verbatim>\<open>DLY_CNT\<close> divides a product of \<^verbatim>\<open>int\<close>.\<close>

definition comm_file_read :: "'w posix \<Rightarrow> int \<Rightarrow> int \<Rightarrow> comm_file \<Rightarrow> 'w \<Rightarrow> (string \<times> 'w) res option" where
  "comm_file_read px nbytes tmsec f w =
     (case int_ok (tmsec * 1000) of
        Inl e \<Rightarrow> Some (Inl e)
      | Inr ms \<Rightarrow>
          if cf_status f = 0 then Some (Inr ([], w))
          else file_read_loop px (cf_fd f) nbytes (sgn ms * (\<bar>ms\<bar> div 20)) [] w)"

definition comm_file_write :: "'w posix \<Rightarrow> string \<Rightarrow> comm_file \<Rightarrow> 'w \<Rightarrow> int \<times> 'w" where
  "comm_file_write px buf f w = (if cf_status f = 0 then (0, w) else p_write px (cf_fd f) buf w)"

definition file_seek :: "'w posix \<Rightarrow> int \<Rightarrow> int \<Rightarrow> comm_file \<Rightarrow> 'w \<Rightarrow> int \<times> comm_file \<times> 'w" where
  "file_seek px offs whence f w =
     (if cf_status f = 0 then (- 1, f, w)
      else let (pos, w1) = p_lseek px (cf_fd f) offs whence w in (pos, f\<lparr>cf_pos := pos\<rparr>, w1))"

definition comm_file_at_start :: "'w posix \<Rightarrow> comm_file \<Rightarrow> 'w \<Rightarrow> int \<times> comm_file \<times> 'w" where
  "comm_file_at_start px f w = file_seek px 0 SEEK_SET f w"

definition comm_file_at_end :: "'w posix \<Rightarrow> comm_file \<Rightarrow> 'w \<Rightarrow> int \<times> comm_file \<times> 'w" where
  "comm_file_at_end px f w = file_seek px 0 SEEK_END f w"

definition comm_file_at_mid :: "'w posix \<Rightarrow> int \<Rightarrow> comm_file \<Rightarrow> 'w \<Rightarrow> int \<times> comm_file \<times> 'w" where
  "comm_file_at_mid px offs f w = file_seek px offs SEEK_SET f w"

definition comm_file_append :: "'w posix \<Rightarrow> string \<Rightarrow> comm_file \<Rightarrow> 'w \<Rightarrow> int \<times> comm_file \<times> 'w" where
  "comm_file_append px buf f w =
     (let (r, f1, w1) = comm_file_at_end px f w
      in if r < 0 then (r, f1, w1) else let (n, w2) = comm_file_write px buf f1 w1 in (n, f1, w2))"

definition comm_file_insert :: "'w posix \<Rightarrow> int \<Rightarrow> string \<Rightarrow> comm_file \<Rightarrow> 'w \<Rightarrow> int \<times> comm_file \<times> 'w" where
  "comm_file_insert px pos buf f w =
     (let (r, f1, w1) = comm_file_at_mid px pos f w
      in if r < 0 then (r, f1, w1) else let (n, w2) = comm_file_write px buf f1 w1 in (n, f1, w2))"

definition comm_file_init :: "string \<Rightarrow> comm_file" where
  "comm_file_init name = \<lparr>cf_name = Some name, cf_path = None, cf_fd = 0, cf_status = 0, cf_flag = 0, cf_mode = 0, cf_pos = 0\<rparr>"

text \<open>\<open>mem\<close> says whether \<^verbatim>\<open>malloc\<close> returns a block.\<close>

definition comm_file_create :: "bool \<Rightarrow> string \<Rightarrow> comm_file option" where
  "comm_file_create mem name = (if mem then Some (comm_file_init name) else None)"

definition comm_file_destroy :: "'w posix \<Rightarrow> comm_file option \<Rightarrow> 'w \<Rightarrow> 'w res" where
  "comm_file_destroy px f w =
     (case f of
        None \<Rightarrow> Inr w
      | Some x \<Rightarrow>
          if cf_status x \<noteq> 0 then res_bind (comm_file_close px x w) (\<lambda>(r, x', w1). Inr w1) else Inr w)"

section \<open>A regular file\<close>

text \<open>
  One file, that may exist, and the offset of the one descriptor, 3. Writing at an offset
  replaces the bytes there; the bytes between the end and the offset are NUL.
\<close>

type_synonym disk = "string option \<times> nat"

definition put_at :: "nat \<Rightarrow> string \<Rightarrow> string \<Rightarrow> string" where
  "put_at k bs cs = take k cs @ replicate (k - length cs) NUL @ bs @ drop (k + length bs) cs"

definition disk :: "disk posix" where
  "disk = \<lparr>
     p_open = (\<lambda>p flag m (c, k).
       case c of
         Some cs \<Rightarrow> (3, (Some cs, 0))
       | None \<Rightarrow> if O_CREAT \<le> flag then (3, (Some [], 0)) else (- 1, (None, k))),
     p_close = (\<lambda>fd w. (0, w)),
     p_read = (\<lambda>fd n (c, k).
       case c of
         None \<Rightarrow> (- 1, [], (c, k))
       | Some cs \<Rightarrow> let bs = take (nat n) (drop k cs) in (int (length bs), bs, (c, k + length bs))),
     p_write = (\<lambda>fd bs (c, k).
       case c of None \<Rightarrow> (- 1, (c, k)) | Some cs \<Rightarrow> (int (length bs), (Some (put_at k bs cs), k + length bs))),
     p_lseek = (\<lambda>fd offs whence (c, k).
       let base = (if whence = SEEK_END then int (length (case c of None \<Rightarrow> [] | Some cs \<Rightarrow> cs)) else 0);
           pos = base + offs
       in if pos < 0 then (- 1, (c, k)) else (pos, (c, nat pos))),
     p_usleep = (\<lambda>n w. w)\<rparr>"

lemma disk_ops:
  "p_open disk p flag m (Some cs, k) = (3, (Some cs, 0))"
  "p_open disk p flag m (None, k) = (if O_CREAT \<le> flag then (3, (Some [], 0)) else (- 1, (None, k)))"
  "p_close disk fd w = (0, w)"
  "p_write disk fd bs (Some cs, k) = (int (length bs), (Some (put_at k bs cs), k + length bs))"
  "p_lseek disk fd 0 SEEK_END (Some cs, k) = (int (length cs), (Some cs, length cs))"
  "p_lseek disk fd (int j) SEEK_SET (c, k) = (int j, (c, j))"
  "p_usleep disk n w = w"
  by (simp_all add: disk_def)

lemma disk_read: "p_read disk fd n (Some cs, k) =
    (int (length (take (nat n) (drop k cs))), take (nat n) (drop k cs), (Some cs, k + length (take (nat n) (drop k cs))))"
  by (simp add: disk_def Let_def)

lemma length_put_at: "length (put_at k bs cs) = max (length cs) (k + length bs)"
  by (auto simp: put_at_def)

lemma take_put_at: "take (length bs) (drop k (put_at k bs cs)) = bs"
  by (simp add: put_at_def)

lemma drop_wait: "0 \<le> us \<Longrightarrow> us < 2 ^ 31 \<Longrightarrow> drop k cs = [] \<Longrightarrow> 0 < left \<Longrightarrow>
    file_read_loop disk fd left us out (Some cs, k) = Some (Inr (out, (Some cs, k)))"
proof (induction "nat us" arbitrary: us)
  case 0
  then show ?case by (subst file_read_loop.simps) (simp add: disk_read)
next
  case (Suc m)
  then have pos: "0 < us" by linarith
  have "file_read_loop disk fd left (us - 1) out (Some cs, k) = Some (Inr (out, (Some cs, k)))"
    using Suc pos by (intro Suc.hyps(1)) auto
  then show ?case
    using Suc.prems pos by (subst file_read_loop.simps) (simp add: disk_read int_ok_def fdelay_def disk_ops)
qed

text \<open>Reading a regular file returns what is there, and ends.\<close>

lemma disk_read_loop:
  assumes "0 \<le> us" and "us < 2 ^ 31" and "0 \<le> left"
  shows "file_read_loop disk fd left us out (Some cs, k) =
    Some (Inr (out @ take (nat left) (drop k cs), (Some cs, k + length (take (nat left) (drop k cs)))))"
proof (cases "left = 0 \<or> drop k cs = []")
  case True
  then show ?thesis
  proof
    assume "left = 0"
    then show ?thesis by (subst file_read_loop.simps) simp
  next
    assume "drop k cs = []"
    with assms drop_wait [of us k cs left fd out] show ?thesis
      by (cases "left = 0") (simp_all add: file_read_loop.simps [where left = 0])
  qed
next
  case False
  let ?bs = "take (nat left) (drop k cs)"
  have n: "0 < int (length ?bs)" using False assms(3) by auto
  have rest: "file_read_loop disk fd (left - int (length ?bs)) us (out @ ?bs) (Some cs, k + length ?bs) =
      Some (Inr (out @ ?bs, (Some cs, k + length ?bs)))"
  proof (cases "left - int (length ?bs) = 0")
    case True
    then show ?thesis by (subst file_read_loop.simps) simp
  next
    case False
    then have "drop (k + length ?bs) cs = []" "0 < left - int (length ?bs)" using assms(3) by auto
    with assms(1,2) show ?thesis by (intro drop_wait) auto
  qed
  then show ?thesis
    using False n by (subst file_read_loop.simps) (simp add: disk_read del: length_take length_drop)
qed

section \<open>The program of main.c\<close>

text \<open>The buffer of 512 characters, of which \<^verbatim>\<open>memset\<close> clears the first 100.\<close>

definition cleared_buf :: "char option list" where
  "cleared_buf = replicate 100 (Some NUL) @ replicate 412 None"

text \<open>What \<^verbatim>\<open>printf ("%s", buf)\<close> prints.\<close>

fun buf_str :: "char option list \<Rightarrow> string res" where
  "buf_str [] = Inl Unterminated"
| "buf_str (None # cs) = Inl Uninit_Read"
| "buf_str (Some c # cs) = (if c = NUL then Inr [] else res_bind (buf_str cs) (\<lambda>s. Inr (c # s)))"

definition say :: "string \<Rightarrow> targ list \<Rightarrow> trace" where
  "say fmt args = Trace (fmt @ [NL]) args"

text \<open>
  The three parts of the program; the flag says whether it goes on (it jumps to \<^verbatim>\<open>out\<close>
  otherwise).
\<close>

definition main_write :: "'w posix \<Rightarrow> string \<Rightarrow> comm_file \<Rightarrow> 'w \<Rightarrow> (bool \<times> trace list \<times> comm_file \<times> 'w) res" where
  "main_write px path f w =
     (let (r, f1, w1) = comm_file_open px (Some path) f w; out = [say ''create new file ...'' []]
      in if r \<noteq> 0 then Inr (False, out @ [say ''open file failed'' []], f1, w1)
         else
           let (r2, w2) = comm_file_write px ''helloworld'' f1 w1
           in res_bind (comm_file_close px f1 w2) (\<lambda>(r3, f3, w3).
                Inr (r3 = 0, out @ [say ''write %d bytes to file'' [TInt r2]], f3, w3)))"

definition main_extend :: "'w posix \<Rightarrow> string \<Rightarrow> comm_file \<Rightarrow> 'w \<Rightarrow> (bool \<times> trace list \<times> comm_file \<times> 'w) res" where
  "main_extend px path f w =
     (let (r, f1, w1) = comm_file_open px (Some path) f w; out = [say ''append string to file ...'' []]
      in if r \<noteq> 0 then Inr (False, out @ [say ''open file failed'' []], f1, w1)
         else
           let (r2, f2, w2) = comm_file_append px ''program'' f1 w1;
               (r3, f3, w3) = comm_file_append px ''program'' f2 w2;
               (r4, f4, w4) = comm_file_insert px 7 ''xyz'' f3 w3
           in res_bind (comm_file_close px f4 w4) (\<lambda>(r5, f5, w5).
                Inr (r5 = 0, out @ [say ''write %d bytes to file'' [TInt (r2 + r3 + r4)]], f5, w5)))"

definition main_print :: "'w posix \<Rightarrow> string \<Rightarrow> comm_file \<Rightarrow> 'w \<Rightarrow> (trace list \<times> comm_file \<times> 'w) res option" where
  "main_print px path f w =
     (let (r, f1, w1) = comm_file_open px (Some path) f w; out = [say ''read string to file ...'' []]
      in if r \<noteq> 0 then Some (Inr (out, f1, w1))
         else
           let (len, f2, w2) = comm_file_at_end px f1 w1;
               (r3, f3, w3) = comm_file_at_start px f2 w2
           in case comm_file_read px len 1 f3 w3 of
                None \<Rightarrow> None
              | Some (Inl e) \<Rightarrow> Some (Inl e)
              | Some (Inr (bs, w4)) \<Rightarrow>
                  if length cleared_buf < length bs then Some (Inl Out_Of_Bounds)
                  else
                    let buf = List.map Some bs @ drop (length bs) cleared_buf;
                        out2 = out @ [say ''len = %d'' [TInt len], say ''read %d bytes'' [TInt (int (length bs))]]
                    in Some (res_bind (comm_file_close px f3 w4) (\<lambda>(r5, f5, w5).
                         if r5 \<noteq> 0 then Inr (out2, f5, w5)
                         else res_bind (buf_str buf) (\<lambda>str.
                           Inr (out2 @ [Trace ([NL] @ ''file data:'' @ [NL]) [], Trace ''%s'' [TStr str], Trace [NL] []],
                                f5, w5)))))"

definition file_main :: "'w posix \<Rightarrow> bool \<Rightarrow> string \<Rightarrow> 'w \<Rightarrow> (trace list \<times> 'w) res option" where
  "file_main px mem path w =
     (case comm_file_create mem ''file1'' of
        None \<Rightarrow> Some (Inl Null_Deref)
      | Some f0 \<Rightarrow>
          (case main_write px path f0 w of
             Inl e \<Rightarrow> Some (Inl e)
           | Inr (go1, out1, f1, w1) \<Rightarrow>
               if \<not> go1 then Some (res_bind (comm_file_destroy px (Some f1) w1) (\<lambda>w'. Inr (out1, w')))
               else case main_extend px path f1 w1 of
                 Inl e \<Rightarrow> Some (Inl e)
               | Inr (go2, out2, f2, w2) \<Rightarrow>
                   if \<not> go2 then Some (res_bind (comm_file_destroy px (Some f2) w2) (\<lambda>w'. Inr (out1 @ out2, w')))
                   else map_option
                          (\<lambda>m. res_bind m (\<lambda>(out3, f3, w3).
                               res_bind (comm_file_destroy px (Some f3) w3) (\<lambda>w'. Inr (out1 @ out2 @ out3, w'))))
                          (main_print px path f2 w2)))"

section \<open>What it does to a regular file\<close>

definition final_text :: "string \<Rightarrow> string" where
  "final_text cs = put_at 7 ''xyz'' (put_at 0 ''helloworld'' cs @ ''programprogram'')"

lemma put_at_end: "put_at (length cs) bs cs = cs @ bs"
  by (simp add: put_at_def)

lemma disk_seek_7: "p_lseek disk fd 7 SEEK_SET (c, k) = (7, (c, 7))"
  using disk_ops(6) [of fd 7 c k] by simp

lemma disk_seek_0: "p_lseek disk fd 0 SEEK_SET (c, k) = (0, (c, 0))"
  using disk_ops(6) [of fd 0 c k] by simp

lemmas file_defs = comm_file_open_def comm_file_close_def comm_file_write_def comm_file_append_def comm_file_insert_def
  comm_file_at_end_def comm_file_at_start_def comm_file_at_mid_def file_seek_def Let_def

definition old_text :: "string option \<Rightarrow> string" where
  "old_text c = (case c of None \<Rightarrow> [] | Some cs \<Rightarrow> cs)"

lemma write_disk:
  assumes "cf_status f = 0"
  shows "\<exists>f' out. main_write disk path f (c, k) = Inr (True, out, f', (Some (put_at 0 ''helloworld'' (old_text c)), 10))
    \<and> cf_status f' = 0"
  using assms by (cases c) (simp_all add: main_write_def file_defs disk_ops old_text_def)

lemma extend_disk:
  assumes "cf_status f = 0"
  shows "\<exists>f' out. main_extend disk path f (Some cs, k) = Inr (True, out, f', (Some (put_at 7 ''xyz'' (cs @ ''programprogram'')), 10))
    \<and> cf_status f' = 0"
proof -
  have "put_at (length (cs @ ''program'')) ''program'' (cs @ ''program'') = cs @ ''programprogram''"
    by (simp only: put_at_end) simp
  then show ?thesis
    using assms by (simp add: main_extend_def file_defs disk_ops disk_seek_7 put_at_end)
qed

lemma buf_str_some: "NUL \<notin> set bs \<Longrightarrow> buf_str (List.map Some bs @ rest) = res_bind (buf_str rest) (\<lambda>s. Inr (bs @ s))"
  by (induction bs) (auto simp: res_bind_assoc, metis res_bind.simps sum.exhaust)

lemma drop_cleared:
  "n < 100 \<Longrightarrow> buf_str (drop n cleared_buf) = Inr []"
  "100 \<le> n \<Longrightarrow> n < 512 \<Longrightarrow> buf_str (drop n cleared_buf) = Inl Uninit_Read"
  "n = 512 \<Longrightarrow> buf_str (drop n cleared_buf) = Inl Unterminated"
proof -
  show "buf_str (drop n cleared_buf) = Inr []" if "n < 100"
  proof -
    have "100 - n = Suc (99 - n)" using that by linarith
    then show ?thesis using that by (simp add: cleared_buf_def)
  qed
  show "buf_str (drop n cleared_buf) = Inl Uninit_Read" if "100 \<le> n" "n < 512"
  proof -
    have "412 - (n - 100) = Suc (511 - n)" using that by linarith
    then show ?thesis using that by (simp add: cleared_buf_def)
  qed
qed (simp add: cleared_buf_def)

text \<open>What the last part prints for a file that holds \<open>cs\<close>.\<close>

definition shown :: "string \<Rightarrow> string res" where
  "shown cs = (if length cs < 100 then Inr cs
               else if length cs < 512 then Inl Uninit_Read
               else if length cs = 512 then Inl Unterminated else Inl Out_Of_Bounds)"

lemma print_disk:
  assumes "cf_status f = 0" and "NUL \<notin> set cs"
  shows "\<exists>f' out. main_print disk path f (Some cs, k) =
      Some (res_bind (shown cs) (\<lambda>str. Inr (out @ [Trace ''%s'' [TStr str], Trace [NL] []], f', (Some cs, length cs))))
    \<and> cf_status f' = 0"
proof -
  have read: "file_read_loop disk 3 (int (length cs)) 50 [] (Some cs, 0) = Some (Inr (cs, (Some cs, length cs)))"
    using disk_read_loop [of 50 "int (length cs)" 3 "[]" cs 0] by simp
  have len: "length cleared_buf = 512" by (simp add: cleared_buf_def)
  show ?thesis
  proof (cases "512 < length cs")
    case True
    then show ?thesis
      using assms(1) read len
      by (simp add: main_print_def file_defs disk_ops disk_seek_0 comm_file_read_def int_ok_def shown_def)
        (rule exI [of _ f], simp)
  next
    case False
    have str: "buf_str (List.map Some cs @ drop (length cs) cleared_buf) = shown cs"
      using False drop_cleared [of "length cs"] by (auto simp: buf_str_some [OF assms(2)] shown_def)
    show ?thesis
      using assms(1) read len False
      by (simp add: main_print_def file_defs disk_ops disk_seek_0 comm_file_read_def int_ok_def str)
        (cases "shown cs"; force)
  qed
qed

end
