(* ===== verification/Echo_Server.thy ===== *)
theory Echo_Server
  imports Sock_IO
begin

text \<open>
  Models \<^verbatim>\<open>c5-4/server.c\<close>: a server that listens on two ports, polls them with \<^verbatim>\<open>select\<close>, and sends
  back the messages of one client at a time. The connection being served is an \<open>io\<close>. The
  results of \<^verbatim>\<open>select\<close> and \<^verbatim>\<open>accept\<close> are lists, like those of \<^verbatim>\<open>read\<close>: a call that finds its list
  empty blocks for ever. Standard error is not modelled.
\<close>

section \<open>One client\<close>

definition SERVER_BUF_SIZE :: nat where
  "SERVER_BUF_SIZE = 1024"

definition print_io :: "string \<Rightarrow> targ list \<Rightarrow> io \<Rightarrow> io" where
  "print_io fmt args s = s\<lparr>io_out := io_out s @ [Trace (fmt @ [NL]) args]\<rparr>"

text \<open>
  The inner loop: the buffer and the length of the message, or \<open>None\<close> when a read error has made
  the program exit.
\<close>

function echo_read :: "char list \<Rightarrow> int \<Rightarrow> io \<Rightarrow> ((char list \<times> int) option \<times> io) res option" where
  "echo_read ps len s =
     (case sys_read 1 (io_reads s) of
        None \<Rightarrow> None
      | Some (cnt, bs, es) \<Rightarrow>
          let s1 = s\<lparr>io_reads := es\<rparr>
          in if cnt < 0 then Some (Inr (None, print_io ''read error, exit'' [] s1))
             else if cnt > 0
             then let t = hd bs; s2 = print_io ''get char: %2x'' [TInt (uchar_val t)] s1
                  in if t = NL
                     then Some (res_bind (wr ps (len - 1) NUL) (\<lambda>ps'. Inr (Some (ps', len - 1), s2)))
                     else (case wr ps len t of
                             Inl e \<Rightarrow> Some (Inl e)
                           | Inr ps' \<Rightarrow> echo_read ps' (len + 1) s2)
             else echo_read ps len s1)"
  by pat_completeness auto
termination
  by (relation "measure (\<lambda>(ps, len, s). reads_size (io_reads s))") (auto simp: print_io_def dest: sys_read_size)

declare echo_read.simps [simp del]

text \<open>The answer; \<^verbatim>\<open>start\<close> is sent with its terminating NUL.\<close>

definition echo_reply :: "string \<Rightarrow> char list \<Rightarrow> int \<Rightarrow> io \<Rightarrow> io" where
  "echo_reply msg ps len s =
     (let s1 = print_io ''msg:%s'' [TStr msg] s;
          (n1, s2) = sys_write [CHR ''>'', NUL] s1;
          (n2, s3) = sys_write (take (nat len) ps) s2;
          (n3, s4) = sys_write [CR, NL] s3
      in print_io ''write %d bytes'' [TInt (n1 + n2 + n3)] s4)"

text \<open>The outer loop: the value of \<^verbatim>\<open>quit\<close>, or \<open>None\<close> when the program exits.\<close>

partial_function (option) echo_loop :: "io \<Rightarrow> (int option \<times> io) res option" where
  "echo_loop s =
     (case echo_read (replicate SERVER_BUF_SIZE NUL) 0 s of
        None \<Rightarrow> None
      | Some (Inl e) \<Rightarrow> Some (Inl e)
      | Some (Inr (None, s1)) \<Rightarrow> Some (Inr (None, s1))
      | Some (Inr (Some (ps, len), s1)) \<Rightarrow>
          if len = 0 then echo_loop s1
          else case cstr_at ps 0 of
            Inl e \<Rightarrow> Some (Inl e)
          | Inr msg \<Rightarrow>
              let s2 = echo_reply msg ps len s1
              in if msg = ''quit'' then Some (Inr (Some 1, s2)) else echo_loop s2)"

text \<open>\<open>mem\<close> says whether \<^verbatim>\<open>malloc\<close> returns a block; the code does not look.\<close>

definition echo_run :: "bool \<Rightarrow> io \<Rightarrow> (int option \<times> io) res option" where
  "echo_run mem s = (if mem then echo_loop s else Some (Inl Null_Deref))"

section \<open>The two ports\<close>

record server_info =
  si_fd :: int
  si_port :: int
  si_ip :: u32
  si_sa :: "u16 \<times> u32"
  si_fds :: "int list"

datatype net_call = Net_bind int "u16 \<times> u32" | Net_listen int int | Net_accept int | Net_close int

text \<open>
  \<open>ec_accepts\<close>: the results of \<^verbatim>\<open>accept\<close>, each with what the client will send and how much of what
  it is sent its socket takes; \<open>ec_selects\<close>: the results of \<^verbatim>\<open>select\<close> with the descriptors that
  are ready.
\<close>

record echo =
  ec_info :: "server_info list"
  ec_accepts :: "(int \<times> rd_ev list \<times> int list) list"
  ec_selects :: "(int \<times> int list) list"
  ec_calls :: "net_call list"
  ec_io :: io

definition ser_info :: "server_info list" where
  "ser_info =
     [\<lparr>si_fd = 0, si_port = 1234, si_ip = 0, si_sa = (0, 0), si_fds = []\<rparr>,
      \<lparr>si_fd = 0, si_port = 3333, si_ip = 0, si_sa = (0, 0), si_fds = []\<rparr>]"

definition net :: "net_call \<Rightarrow> echo \<Rightarrow> echo" where
  "net c e = e\<lparr>ec_calls := ec_calls e @ [c]\<rparr>"

definition echo_print :: "string \<Rightarrow> targ list \<Rightarrow> echo \<Rightarrow> echo" where
  "echo_print fmt args e = e\<lparr>ec_io := print_io fmt args (ec_io e)\<rparr>"

fun accept_loop :: "bool \<Rightarrow> int \<Rightarrow> (int \<times> rd_ev list \<times> int list) list \<Rightarrow> echo \<Rightarrow> (int option \<times> echo) res option" where
  "accept_loop mem fd [] e = None"
| "accept_loop mem fd ((cli_fd, reads, takes) # later) e =
     (let e1 = net (Net_accept fd) (echo_print ''wait client connection ...'' [] (e\<lparr>ec_accepts := later\<rparr>))
      in if cli_fd < 0 then accept_loop mem fd later e1
         else
           let e2 = echo_print ''client fd=%d'' [TInt cli_fd] e1
           in case echo_run mem ((ec_io e2)\<lparr>io_reads := reads, io_accept := takes\<rparr>) of
                None \<Rightarrow> None
              | Some (Inl err) \<Rightarrow> Some (Inl err)
              | Some (Inr (None, s)) \<Rightarrow> Some (Inr (None, e2\<lparr>ec_io := s\<rparr>))
              | Some (Inr (Some q, s)) \<Rightarrow>
                  let e3 = e2\<lparr>ec_io := s\<rparr>
                  in if q = 0 then accept_loop mem fd later e3
                     else Some (Inr (Some 0, net (Net_close cli_fd) (echo_print ''server exit'' [] e3))))"

definition echo_accept :: "bool \<Rightarrow> int \<Rightarrow> echo \<Rightarrow> (int option \<times> echo) res option" where
  "echo_accept mem fd e =
     accept_loop mem fd (ec_accepts e) (echo_print ''%s, fd=%d'' [TStr ''server_accept'', TInt fd] e)"

text \<open>The results of \<^verbatim>\<open>socket\<close>, \<^verbatim>\<open>bind\<close> and \<^verbatim>\<open>listen\<close> are \<open>env\<close>. A descriptor that \<^verbatim>\<open>FD_SET\<close> has no bit for leaves the set.\<close>

definition FD_SETSIZE :: int where
  "FD_SETSIZE = 1024"

definition net_short :: "u16 \<Rightarrow> u16" where
  "net_short p = push_bit 8 p OR drop_bit 8 p"

definition net_long :: "u32 \<Rightarrow> u32" where
  "net_long a = push_bit 24 a OR (push_bit 8 a AND 0xFF0000) OR (drop_bit 8 a AND 0xFF00) OR drop_bit 24 a"

definition server_setup :: "int \<times> int \<times> int \<Rightarrow> nat \<Rightarrow> echo \<Rightarrow> (int \<times> echo) res" where
  "server_setup env i e =
     (case env of
        (fd, bound, listens) \<Rightarrow>
          if fd < 0 then Inr (- 1, e)
          else
            let info = (ec_info e ! i)\<lparr>si_fd := fd, si_sa := (net_short (of_int (si_port (ec_info e ! i))), net_long (si_ip (ec_info e ! i)))\<rparr>;
                e1 = net (Net_bind fd (si_sa info)) (e\<lparr>ec_info := (ec_info e)[i := info]\<rparr>)
            in if bound \<noteq> 0 then Inr (- 1, e1)
               else
                 let e2 = net (Net_listen fd 5) e1
                 in if listens \<noteq> 0 then Inr (- 1, e2)
                    else if FD_SETSIZE \<le> fd then Inl Out_Of_Bounds
                    else Inr (0, echo_print ''setup server: fd=%d, ip=%x, port=%d''
                                   [TInt fd, TInt (uint (si_ip info)), TInt (si_port info)]
                                   (e2\<lparr>ec_info := (ec_info e2)[i := info\<lparr>si_fds := [fd]\<rparr>]\<rparr>)))"

text \<open>The polling loop; \<^verbatim>\<open>select\<close> leaves in the set the descriptors of the set that are ready.\<close>

fun scan_loop :: "bool \<Rightarrow> (int \<times> int list) list \<Rightarrow> nat \<Rightarrow> echo \<Rightarrow> (int option \<times> echo) res option" where
  "scan_loop mem [] i e = None"
| "scan_loop mem ((r, ready) # later) i e =
     (let info = ec_info e ! i;
          tmp = filter (\<lambda>fd. fd \<in> set (si_fds info)) ready;
          e1 = e\<lparr>ec_selects := later\<rparr>
      in if r < 0
         then Some (Inr (Some 0, net (Net_close (si_fd (ec_info e1 ! 1))) (net (Net_close (si_fd (ec_info e1 ! 0))) e1)))
         else if r = 0 then scan_loop mem later (1 - i) e1
         else if si_fd info \<in> set tmp
         then (case echo_accept mem (si_fd info) e1 of
                 None \<Rightarrow> None
               | Some (Inl err) \<Rightarrow> Some (Inl err)
               | Some (Inr (None, e2)) \<Rightarrow> Some (Inr (None, e2))
               | Some (Inr (Some r2, e2)) \<Rightarrow> scan_loop mem later i e2)
         else
           let act = filter (\<lambda>fd. int fd \<in> set tmp) [0..<nat FD_SETSIZE]
           in scan_loop mem later i (fold (\<lambda>fd. echo_print ''another fd %d is active'' [TInt (int fd)]) act e1))"

definition server_scan :: "bool \<Rightarrow> int \<times> int \<times> int \<Rightarrow> int \<times> int \<times> int \<Rightarrow> echo \<Rightarrow> (int option \<times> echo) res option" where
  "server_scan mem env0 env1 e =
     (case res_bind (server_setup env0 0 e) (\<lambda>(r0, e0). res_bind (server_setup env1 1 e0) (\<lambda>(r1, e1). Inr (r0 + r1, e1))) of
        Inl err \<Rightarrow> Some (Inl err)
      | Inr (r, e1) \<Rightarrow> if r \<noteq> 0 then Some (Inr (Some (- 1), e1)) else scan_loop mem (ec_selects e1) 0 e1)"

text \<open>The exit code of the program: 0, or -1 after a read error.\<close>

definition echo_main :: "bool \<Rightarrow> int \<times> int \<times> int \<Rightarrow> int \<times> int \<times> int \<Rightarrow> echo \<Rightarrow> (int \<times> echo) res option" where
  "echo_main mem env0 env1 e =
     map_option (\<lambda>m. res_bind m (\<lambda>(r, e'). Inr (case r of None \<Rightarrow> - 1 | Some _ \<Rightarrow> 0, e'))) (server_scan mem env0 env1 e)"

section \<open>One line\<close>

definition pad :: "string \<Rightarrow> char list" where
  "pad m = m @ replicate (SERVER_BUF_SIZE - length m) NUL"

lemma length_pad: "length m \<le> SERVER_BUF_SIZE \<Longrightarrow> length (pad m) = SERVER_BUF_SIZE"
  by (simp add: pad_def)

lemma wr_pad:
  assumes "length m \<le> SERVER_BUF_SIZE"
  shows "wr (pad m) (int (length m)) c =
    (if length m < SERVER_BUF_SIZE then Inr (pad (m @ [c])) else Inl Out_Of_Bounds)"
proof (cases "SERVER_BUF_SIZE - length m")
  case 0
  then show ?thesis using assms by (simp add: wr_def pad_def)
next
  case (Suc n)
  then have "SERVER_BUF_SIZE - Suc (length m) = n" by simp
  with Suc show ?thesis using assms by (simp add: wr_def pad_def)
qed

lemma wr_pad_last:
  assumes "length m < SERVER_BUF_SIZE"
  shows "wr (pad (m @ [c])) (int (length m)) NUL = Inr (pad m)"
proof -
  have "SERVER_BUF_SIZE - length m = Suc (SERVER_BUF_SIZE - Suc (length m))" using assms by simp
  then show ?thesis using assms by (simp add: wr_def pad_def)
qed

lemma cstr_pad:
  assumes "length m < SERVER_BUF_SIZE" and "NUL \<notin> set m"
  shows "cstr_at (pad m) 0 = Inr m" and "take (length m) (pad m) = m"
proof -
  have "SERVER_BUF_SIZE - length m = Suc (SERVER_BUF_SIZE - Suc (length m))" using assms(1) by simp
  then show "cstr_at (pad m) 0 = Inr m" using cstr_append [OF assms(2)] by (simp add: cstr_at_def pad_def)
  show "take (length m) (pad m) = m" by (simp add: pad_def)
qed

text \<open>What the serving of a connection does not change, besides the output.\<close>

definition same_writes :: "io \<Rightarrow> io \<Rightarrow> bool" where
  "same_writes s s' \<longleftrightarrow> io_sent s' = io_sent s \<and> io_accept s' = io_accept s"

lemma read_line:
  assumes "reads_bytes (io_reads s) = cs @ NL # rest" and "NL \<notin> set cs" and "Rd_err \<notin> set (io_reads s)"
    and "length m \<le> SERVER_BUF_SIZE"
  shows "if m @ cs = [] \<or> SERVER_BUF_SIZE < length (m @ cs)
    then echo_read (pad m) (int (length m)) s = Some (Inl Out_Of_Bounds)
    else \<exists>s'. echo_read (pad m) (int (length m)) s =
             Some (Inr (Some (pad (butlast (m @ cs)), int (length (m @ cs)) - 1), s'))
           \<and> reads_bytes (io_reads s') = rest \<and> Rd_err \<notin> set (io_reads s') \<and> same_writes s s'"
  using assms
proof (induction "reads_size (io_reads s)" arbitrary: s cs m rule: less_induct)
  case less
  have "io_reads s \<noteq> []" using less.prems(1) by auto
  then obtain n bs es where r: "sys_read 1 (io_reads s) = Some (n, bs, es)" using sys_read_some by blast
  have n: "0 \<le> n" "Rd_err \<notin> set es" using sys_read_no_err [OF r less.prems(3)] by auto
  have bs: "length bs = nat n" "n \<le> 1" using sys_read_cnt [OF r n(1)] by auto
  have bytes: "bs @ reads_bytes es = cs @ NL # rest" using sys_read_bytes [OF r] less.prems(1) by simp
  have size: "reads_size es < reads_size (io_reads s)" using sys_read_size [OF r] by simp
  show ?case
  proof (cases "n = 0")
    case True
    then have "echo_read (pad m) (int (length m)) s = echo_read (pad m) (int (length m)) (s\<lparr>io_reads := es\<rparr>)"
      using r by (subst echo_read.simps) simp
    with less.hyps [of "s\<lparr>io_reads := es\<rparr>" cs m] True bytes bs n size less.prems(2,4)
    show ?thesis by (auto simp: same_writes_def split: if_splits)
  next
    case False
    then have one: "n = 1" using n(1) bs(2) by simp
    then obtain t where t: "bs = [t]" using bs(1) by (cases bs) auto
    let ?s2 = "print_io ''get char: %2x'' [TInt (uchar_val t)] (s\<lparr>io_reads := es\<rparr>)"
    have step: "echo_read (pad m) (int (length m)) s =
      (if t = NL then Some (res_bind (wr (pad m) (int (length m) - 1) NUL) (\<lambda>ps'. Inr (Some (ps', int (length m) - 1), ?s2)))
       else case wr (pad m) (int (length m)) t of Inl e \<Rightarrow> Some (Inl e) | Inr ps' \<Rightarrow> echo_read ps' (int (length m) + 1) ?s2)"
      using r one t by (subst echo_read.simps) (simp add: Let_def split: sum.split)
    show ?thesis
    proof (cases "t = NL")
      case True
      then have cs: "cs = []" "reads_bytes es = rest" using bytes t less.prems(2) by (cases cs; auto)+
      show ?thesis
      proof (cases m rule: rev_cases)
        case Nil
        then show ?thesis using cs step True by (simp add: wr_def)
      next
        case (snoc m' c)
        then have "wr (pad m) (int (length m) - 1) NUL = Inr (pad m')"
          using wr_pad_last [of m' c] less.prems(4) by simp
        then show ?thesis
          using cs step True snoc less.prems(4) n(2) by (simp add: same_writes_def print_io_def)
      qed
    next
      case False
      then obtain cs' where cs: "cs = t # cs'" "reads_bytes es = cs' @ NL # rest"
        using bytes t by (cases cs) auto
      show ?thesis
      proof (cases "length m < SERVER_BUF_SIZE")
        case True
        define s2 where "s2 = ?s2"
        have s2: "io_reads s2 = es" "same_writes s s' = same_writes s2 s'" for s'
          by (simp_all add: s2_def same_writes_def print_io_def)
        have nxt: "echo_read (pad m) (int (length m)) s = echo_read (pad (m @ [t])) (int (length (m @ [t]))) s2"
          using step False True wr_pad [OF less.prems(4), of t] by (simp add: s2_def add.commute)
        have "length (m @ [t]) \<le> SERVER_BUF_SIZE" "NL \<notin> set cs'" using True less.prems(2) cs(1) by auto
        from less.hyps [of s2 cs' "m @ [t]", OF _ _ this(2) _ this(1)] cs size n(2)
        show ?thesis unfolding nxt s2(2) by (simp add: s2(1) cs(1) cong: if_cong)
      next
        case full: False
        then show ?thesis using step False wr_pad [OF less.prems(4), of t] cs by simp
      qed
    qed
  qed
qed

section \<open>Sessions\<close>

definition answer :: "string \<Rightarrow> string" where
  "answer m = (if m = [] then [] else [CHR ''>'', NUL] @ m @ [CR, NL])"

definition plain_msg :: "string \<Rightarrow> char \<Rightarrow> bool" where
  "plain_msg m c \<longleftrightarrow> NL \<notin> set m \<and> NUL \<notin> set m \<and> c \<noteq> NL \<and> length m < SERVER_BUF_SIZE"

lemma reply_sends:
  assumes "io_accept s = []"
  shows "io_sent (echo_reply msg ps len s) = io_sent s @ [CHR ''>'', NUL] @ take (nat len) ps @ [CR, NL]"
    and "io_accept (echo_reply msg ps len s) = []" and "io_reads (echo_reply msg ps len s) = io_reads s"
  using assms by (auto simp: echo_reply_def print_io_def sys_write_def Let_def min_def)

lemma pad_Nil: "replicate SERVER_BUF_SIZE NUL = pad []"
  by (simp add: pad_def)

lemma loop_line:
  assumes "reads_bytes (io_reads s) = m @ [c, NL] @ rest" and "plain_msg m c" and "Rd_err \<notin> set (io_reads s)"
    and "io_accept s = []"
  obtains s' where "echo_loop s = (if m = ''quit'' then Some (Inr (Some 1, s')) else echo_loop s')"
    and "reads_bytes (io_reads s') = rest" and "Rd_err \<notin> set (io_reads s')" and "io_accept s' = []"
    and "io_sent s' = io_sent s @ answer m"
proof -
  have m: "length m < SERVER_BUF_SIZE" "NUL \<notin> set m" using assms(2) by (simp_all add: plain_msg_def)
  obtain s1 where s1: "echo_read (pad []) 0 s = Some (Inr (Some (pad m, int (length m)), s1))"
      "reads_bytes (io_reads s1) = rest" "Rd_err \<notin> set (io_reads s1)" "same_writes s s1"
    using read_line [of s "m @ [c]" rest "[]"] assms m(1) by (auto simp: plain_msg_def split: if_splits)
  show ?thesis
  proof (cases "m = []")
    case True
    then have "echo_loop s = echo_loop s1" using s1(1) by (subst echo_loop.simps) (simp add: pad_Nil)
    then show ?thesis using s1 True assms(4) by (intro that [of s1]) (simp_all add: same_writes_def answer_def)
  next
    case False
    let ?s2 = "echo_reply m (pad m) (int (length m)) s1"
    have "echo_loop s = (if m = ''quit'' then Some (Inr (Some 1, ?s2)) else echo_loop ?s2)"
      using s1(1) False cstr_pad(1) [OF m] by (subst echo_loop.simps) (simp add: pad_Nil Let_def)
    then show ?thesis
      using s1(2-4) False assms(4) cstr_pad(2) [OF m] reply_sends [of s1 m "pad m" "int (length m)"]
      by (intro that [of ?s2]) (simp_all add: same_writes_def answer_def)
  qed
qed

lemma loop_session:
  assumes "reads_bytes (io_reads s) = concat (List.map (\<lambda>(m, c). m @ [c, NL]) ls) @ ''quit'' @ [c, NL] @ rest"
    and "c \<noteq> NL" and "\<And>m c. (m, c) \<in> set ls \<Longrightarrow> plain_msg m c \<and> m \<noteq> ''quit''"
    and "Rd_err \<notin> set (io_reads s)" and "io_accept s = []"
  shows "\<exists>s'. echo_loop s = Some (Inr (Some 1, s')) \<and> reads_bytes (io_reads s') = rest
    \<and> io_sent s' = io_sent s @ concat (List.map (answer o fst) ls) @ answer ''quit''"
  using assms(1,3-)
proof (induction ls arbitrary: s)
  case Nil
  have "plain_msg ''quit'' c" using assms(2) by (simp add: plain_msg_def SERVER_BUF_SIZE_def)
  from loop_line [of s "''quit''" c rest, OF _ this] Nil show ?case by fastforce
next
  case (Cons l ls)
  obtain m d where l: "l = (m, d)" by (cases l)
  then have m: "plain_msg m d" "m \<noteq> ''quit''" using Cons.prems(2) by auto
  obtain s1 where s1: "echo_loop s = echo_loop s1"
      "reads_bytes (io_reads s1) = concat (List.map (\<lambda>(m, c). m @ [c, NL]) ls) @ ''quit'' @ [c, NL] @ rest"
      "Rd_err \<notin> set (io_reads s1)" "io_accept s1 = []" "io_sent s1 = io_sent s @ answer m"
    by (rule loop_line [of s m d "concat (List.map (\<lambda>(m, c). m @ [c, NL]) ls) @ ''quit'' @ [c, NL] @ rest"])
      (use Cons.prems m l in auto)
  from Cons.IH [OF s1(2) _ s1(3,4)] Cons.prems(2) s1 l show ?case by auto
qed

section \<open>The whole program\<close>

lemma net_print_info [simp]:
  "ec_info (net c e) = ec_info e" "ec_info (echo_print fmt args e) = ec_info e"
  by (simp_all add: net_def echo_print_def)

lemma fold_print_info [simp]: "ec_info (fold (\<lambda>fd. echo_print fmt (args fd)) fds e) = ec_info e"
  by (induction fds arbitrary: e) simp_all

lemma accept_loop_info: "accept_loop mem fd acc e = Some (Inr (r, e')) \<Longrightarrow> ec_info e' = ec_info e"
proof (induction acc arbitrary: e)
  case (Cons a later)
  then show ?case
    by (cases a) (auto simp: Let_def dest!: Cons.IH split: if_split_asm option.split_asm sum.split_asm prod.split_asm)
qed simp

lemma echo_accept_info: "echo_accept mem fd e = Some (Inr (r, e')) \<Longrightarrow> ec_info e' = ec_info e"
  unfolding echo_accept_def by (drule accept_loop_info) simp

lemma scan_loop_ends:
  "scan_loop mem sel i e = Some (Inr (Some r, e')) \<Longrightarrow>
   r = 0 \<and> (\<exists>before. ec_calls e' = before @ [Net_close (si_fd (ec_info e ! 0)), Net_close (si_fd (ec_info e ! 1))])"
proof (induction sel arbitrary: i e)
  case (Cons a later)
  obtain n ready where a: "a = (n, ready)" by (cases a)
  let ?e1 = "e\<lparr>ec_selects := later\<rparr>" and ?info = "ec_info e ! i"
  let ?tmp = "filter (\<lambda>fd. fd \<in> set (si_fds ?info)) ready"
  have again: ?case if "scan_loop mem later j e2 = Some (Inr (Some r, e'))" "ec_info e2 = ec_info e" for j e2
    using Cons.IH [OF that(1)] that(2) by simp
  consider "n < 0" | "n = 0" | "0 < n" "si_fd ?info \<in> set ?tmp" | "0 < n" "si_fd ?info \<notin> set ?tmp" by linarith
  then show ?case
  proof cases
    case 1
    with Cons.prems a show ?thesis by (auto simp: net_def)
  next
    case 2
    with Cons.prems a have "scan_loop mem later (1 - i) ?e1 = Some (Inr (Some r, e'))" by (simp add: Let_def)
    from again [OF this] show ?thesis by simp
  next
    case 3
    with Cons.prems a obtain r2 e2 where e2: "echo_accept mem (si_fd ?info) ?e1 = Some (Inr (Some r2, e2))"
        "scan_loop mem later i e2 = Some (Inr (Some r, e'))"
      by (auto simp: Let_def split: option.split_asm sum.split_asm)
    from again [OF e2(2)] echo_accept_info [OF e2(1)] show ?thesis by simp
  next
    case 4
    with Cons.prems a obtain fds where "scan_loop mem later i (fold (\<lambda>fd. echo_print ''another fd %d is active'' [TInt (int fd)]) fds ?e1)
        = Some (Inr (Some r, e'))"
      by (auto simp: Let_def simp del: set_filter)
    from again [OF this] show ?thesis by simp
  qed
qed simp

lemma setup_ok:
  assumes "server_setup (fd, bound, listens) i e = Inr (0, e')" and "i < length (ec_info e)"
  shows "si_fd (ec_info e' ! i) = fd" and "j \<noteq> i \<Longrightarrow> ec_info e' ! j = ec_info e ! j"
    and "length (ec_info e') = length (ec_info e)"
  using assms by (auto simp: server_setup_def Let_def split: if_split_asm)

lemma setup_zero: "server_setup (fd, 0, 0) i e = Inr (r, e') \<Longrightarrow> 0 \<le> fd \<Longrightarrow> r = 0"
  by (auto simp: server_setup_def Let_def split: if_split_asm)

lemma server_scan_ends:
  assumes "server_scan mem (fd0, 0, 0) (fd1, 0, 0) e = Some (Inr (Some r, e'))" and "length (ec_info e) = 2"
    and "0 \<le> fd0" and "0 \<le> fd1"
  shows "r = 0 \<and> (\<exists>before. ec_calls e' = before @ [Net_close fd0, Net_close fd1])"
proof -
  obtain r0 e0 r1 e1 where s: "server_setup (fd0, 0, 0) 0 e = Inr (r0, e0)" "server_setup (fd1, 0, 0) 1 e0 = Inr (r1, e1)"
      "(if r0 + r1 \<noteq> 0 then Some (Inr (Some (- 1), e1)) else scan_loop mem (ec_selects e1) 0 e1) = Some (Inr (Some r, e'))"
    using assms(1) by (auto simp: server_scan_def res_bind_Inr_iff split: sum.split_asm)
  have z: "r0 = 0" "r1 = 0" using setup_zero s(1,2) assms(3,4) by blast+
  have "si_fd (ec_info e1 ! 0) = fd0" "si_fd (ec_info e1 ! 1) = fd1"
    using setup_ok [OF s(1) [unfolded z]] setup_ok [OF s(2) [unfolded z]] assms(2) by auto
  with scan_loop_ends [of mem "ec_selects e1" 0 e1 r e'] s(3) z show ?thesis by auto
qed

text \<open>Once both ports are open, a run of the echo server that ends gives 0 and has closed both
  listening sockets last, or gives -1, after a read error.\<close>

theorem echo_main_ends:
  assumes "echo_main mem (fd0, 0, 0) (fd1, 0, 0) e = Some (Inr (r, e'))" and "0 \<le> fd0" and "0 \<le> fd1"
    and "length (ec_info e) = 2"
  shows "r = - 1 \<or> r = 0 \<and> (\<exists>before. ec_calls e' = before @ [Net_close fd0, Net_close fd1])"
proof -
  obtain o' where o': "server_scan mem (fd0, 0, 0) (fd1, 0, 0) e = Some (Inr (o', e'))"
      "r = (case o' of None \<Rightarrow> - 1 | Some _ \<Rightarrow> 0)"
    using assms(1) by (auto simp: echo_main_def res_bind_Inr_iff)
  then show ?thesis
    using server_scan_ends [of mem fd0 fd1 e _ e'] assms(2-4) by (cases o') auto
qed

end
