(* ===== verification/Usb_Test.thy ===== *)
theory Usb_Test
  imports Usb_List
begin

text \<open>
  Models \<^verbatim>\<open>demo-dh/tests/usb_test.c\<close>, a test program over libusb: it lists the devices, or opens one and
  tries its four modules. The functions of libusb that \<^verbatim>\<open>usb_cmd.c\<close> does not call are a second
  parameter, \<open>libusb_more\<close>. What the stack holds before \<^verbatim>\<open>recv_buf\<close> is written is an argument.
\<close>

section \<open>Interface and printing\<close>

text \<open>
  A variable that a call does not store into stays \<open>None\<close>; a stored pointer may be NULL. A string
  descriptor is the string it stores in the buffer.
\<close>

record ('d, 'h, 'w) libusb_more =
  lu_open :: "'d \<Rightarrow> 'w \<Rightarrow> int \<times> 'h option \<times> 'w"
  lu_string_ascii :: "'h option \<Rightarrow> u8 \<Rightarrow> nat \<Rightarrow> 'w \<Rightarrow> int \<times> string \<times> 'w"
  lu_get_config :: "'d \<Rightarrow> u8 \<Rightarrow> 'w \<Rightarrow> int \<times> config_desc option option \<times> 'w"
  lu_free_config :: "config_desc option \<Rightarrow> 'w \<Rightarrow> 'w"

definition test_print :: "string \<Rightarrow> targ list \<Rightarrow> ('h, 'w) usb \<Rightarrow> ('h, 'w) usb" where
  "test_print fmt args s = s\<lparr>uout := uout s @ [Trace fmt args]\<rparr>"

definition test_println :: "string \<Rightarrow> targ list \<Rightarrow> ('h, 'w) usb \<Rightarrow> ('h, 'w) usb" where
  "test_println fmt args s = test_print (fmt @ [NL]) args s"

definition test_add :: "int \<Rightarrow> int \<Rightarrow> int res" where
  "test_add a c = int_ok (a + c)"

definition print_config_desc :: "config_desc option \<Rightarrow> ('h, 'w) usb \<Rightarrow> ('h, 'w) usb" where
  "print_config_desc desc s =
     (case desc of
        None \<Rightarrow> s
      | Some d \<Rightarrow>
          test_println ''MaxPower:    %d'' [TInt (uint (MaxPower d))]
            (test_println ''bmAttrbutes: %d'' [TInt (uint (bmAttributes d))]
              (test_println ''config desc info: '' [] s)))"

section \<open>Transfers\<close>

abbreviation "OP_RW_ANA \<equiv> 1 :: u8"
abbreviation "OP_RW_PMU \<equiv> 2 :: u8"
abbreviation "OP_RW_DIG \<equiv> 3 :: u8"
abbreviation "OP_RW_MEM \<equiv> 4 :: u8"
abbreviation "OP_RESET_CDC \<equiv> 7 :: u8"

definition REQ_TYPE_WR :: u8 where "REQ_TYPE_WR = 0x00 OR 0x40 OR 0x03"
definition REQ_TYPE_RD :: u8 where "REQ_TYPE_RD = 0x80 OR 0x40 OR 0x03"

text \<open>The bytes of \<open>data\<close> that the transfer sends are its first \<open>len\<close>.\<close>

definition test_raw_write ::
  "('d, 'h, 'w) libusb \<Rightarrow> 'h \<Rightarrow> u8 \<Rightarrow> u32 \<Rightarrow> u8 list \<Rightarrow> u32 \<Rightarrow> ('h, 'w) usb \<Rightarrow> int \<times> ('h, 'w) usb"
where
  "test_raw_write lib h opcode addr data len s =
     (let (r, buf, s1) = call_transfer lib (Some h) (raw_setup REQ_TYPE_WR opcode addr len) (take (unat len) data) s
      in (r, s1))"

definition test_raw_read ::
  "('d, 'h, 'w) libusb \<Rightarrow> 'h \<Rightarrow> u8 \<Rightarrow> u32 \<Rightarrow> u8 list \<Rightarrow> u32 \<Rightarrow> ('h, 'w) usb \<Rightarrow> int \<times> u8 list \<times> ('h, 'w) usb"
where
  "test_raw_read lib h opcode addr data len s =
     call_transfer lib (Some h) (raw_setup REQ_TYPE_RD opcode addr len) data s"

text \<open>The words of \<^verbatim>\<open>recv_buf\<close>, as bytes in memory.\<close>

definition word_at :: "u8 list \<Rightarrow> nat \<Rightarrow> u32" where
  "word_at buf i = le_word4 (buf ! (4 * i)) (buf ! (4 * i + 1)) (buf ! (4 * i + 2)) (buf ! (4 * i + 3))"

definition put_word :: "u8 list \<Rightarrow> nat \<Rightarrow> u32 \<Rightarrow> u8 list" where
  "put_word buf i v = take (4 * i) buf @ le_bytes4 v @ drop (4 * i + 4) buf"

text \<open>\<^verbatim>\<open>recv_buf[0] = 0\<close> and a read into the buffer; a write of a word.\<close>

definition dev_get ::
  "('d, 'h, 'w) libusb \<Rightarrow> 'h \<Rightarrow> u8 \<Rightarrow> u32 \<Rightarrow> u32 \<Rightarrow> u8 list \<times> ('h, 'w) usb \<Rightarrow> u8 list \<times> ('h, 'w) usb"
where
  "dev_get lib h opcode addr len m =
     (let (r, buf, s1) = test_raw_read lib h opcode addr (put_word (fst m) 0 0) len (snd m) in (buf, s1))"

definition dev_put ::
  "('d, 'h, 'w) libusb \<Rightarrow> 'h \<Rightarrow> u8 \<Rightarrow> u32 \<Rightarrow> u32 \<Rightarrow> u32 \<Rightarrow> u8 list \<times> ('h, 'w) usb \<Rightarrow> u8 list \<times> ('h, 'w) usb"
where
  "dev_put lib h opcode addr data len m =
     (fst m, snd (test_raw_write lib h opcode addr (le_bytes4 data) len (snd m)))"

definition dev_show :: "string \<Rightarrow> u32 \<Rightarrow> nat \<Rightarrow> u8 list \<times> ('h, 'w) usb \<Rightarrow> u8 list \<times> ('h, 'w) usb" where
  "dev_show what addr i m =
     (fst m, test_println (what @ ''[%x] = %x'') [TInt (uint addr), TInt (uint (word_at (fst m) i))] (snd m))"

section \<open>Testing a device\<close>

definition test_mem :: "('d, 'h, 'w) libusb \<Rightarrow> 'h \<Rightarrow> u8 list \<times> ('h, 'w) usb \<Rightarrow> u8 list \<times> ('h, 'w) usb" where
  "test_mem lib h m =
     (let addr = 0x20000000;
          m1 = dev_show ''mem 1'' addr 0 (dev_get lib h OP_RW_MEM addr 4 m);
          m2 = dev_get lib h OP_RW_MEM addr 4 (dev_put lib h OP_RW_MEM addr 0x12345678 4 m1);
          m3 = dev_get lib h OP_RW_MEM addr 8 (dev_show ''mem 2'' addr 0 m2)
      in dev_show ''mem 4'' (addr + 4) 1 (dev_show ''mem 3'' addr 0 m3))"

definition test_ana :: "('d, 'h, 'w) libusb \<Rightarrow> 'h \<Rightarrow> u8 list \<times> ('h, 'w) usb \<Rightarrow> u8 list \<times> ('h, 'w) usb" where
  "test_ana lib h m =
     (let m1 = dev_show ''ana 1'' 0x60 0 (dev_get lib h OP_RW_ANA 0x60 2 m);
          addr = 0x61;
          m2 = dev_show ''ana 2'' addr 0 (dev_get lib h OP_RW_ANA addr 2 m1);
          m3 = (put_word (fst m2) 1 (word_at (fst m2) 0), snd m2);
          m4 = dev_get lib h OP_RW_ANA addr 2 (dev_put lib h OP_RW_ANA addr (word_at (fst m3) 0 OR 0xF) 2 m3);
          m5 = dev_show ''ana 3'' addr 0 m4;
          m6 = dev_get lib h OP_RW_ANA addr 2 (dev_put lib h OP_RW_ANA addr (word_at (fst m5) 1) 2 m5)
      in dev_show ''ana 4'' addr 0 m6)"

definition test_pmu :: "('d, 'h, 'w) libusb \<Rightarrow> 'h \<Rightarrow> u8 list \<times> ('h, 'w) usb \<Rightarrow> u8 list \<times> ('h, 'w) usb" where
  "test_pmu lib h m =
     (let m1 = dev_show ''pmu 1'' 0 0 (dev_get lib h OP_RW_PMU 0 2 m);
          addr = 1;
          m2 = dev_show ''pmu 2'' addr 0 (dev_get lib h OP_RW_PMU addr 2 m1);
          m3 = dev_get lib h OP_RW_PMU addr 2 (dev_put lib h OP_RW_PMU addr (word_at (fst m2) 0 OR 0x7) 2 m2)
      in dev_show ''pmu 3'' addr 0 m3)"

definition test_dig :: "('d, 'h, 'w) libusb \<Rightarrow> 'h \<Rightarrow> u8 list \<times> ('h, 'w) usb \<Rightarrow> u8 list \<times> ('h, 'w) usb" where
  "test_dig lib h m =
     (let addr = 0x40300000;
          m1 = dev_show ''dig 1'' addr 0 (dev_get lib h OP_RW_DIG addr 4 m);
          data = word_at (fst m1) 0 OR 1;
          m2 = dev_get lib h OP_RW_DIG addr 4 (dev_put lib h OP_RW_DIG addr data 4 m1)
      in dev_put lib h OP_RESET_CDC addr data 4 (dev_show ''dig 2'' addr 0 m2))"

definition test_device :: "('d, 'h, 'w) libusb \<Rightarrow> u8 list \<Rightarrow> u16 \<Rightarrow> u16 \<Rightarrow> ('h, 'w) usb \<Rightarrow> int \<times> ('h, 'w) usb" where
  "test_device lib stack vid pid s =
     (let (r, s1) = call_init lib s
      in if r \<noteq> 0 then (- 1, s1)
         else
           let (handle, s2) = call_open lib vid pid s1
           in case handle of
                None \<Rightarrow> (- 1, s2)
              | Some h \<Rightarrow>
                  let s3 = test_println ''open usb dev okay, vid=%x, pid=%x'' [TInt (uint vid), TInt (uint pid)] s2;
                      m = test_dig lib h (test_pmu lib h (test_ana lib h (test_mem lib h (stack, s3))))
                  in (0, call_exit lib (snd m)))"

section \<open>Listing the devices\<close>

text \<open>A string of the device, printed when it has one; the number of the string is a byte of the descriptor.\<close>

definition show_string ::
  "('d, 'h, 'w) libusb_more \<Rightarrow> 'h option \<Rightarrow> u8 \<Rightarrow> string \<Rightarrow> ('h, 'w) usb \<Rightarrow> ('h, 'w) usb"
where
  "show_string ext h n what s =
     (if n = 0 then s
      else
        let (r, str, w) = lu_string_ascii ext h n 256 (uworld s); s1 = s\<lparr>uworld := w\<rparr>
        in if 0 < r then test_println (what @ '': %s'') [TStr str] s1 else s1)"

definition test_open_device ::
  "('d, 'h, 'w) libusb_more \<Rightarrow> 'd \<Rightarrow> dev_desc \<Rightarrow> ('h, 'w) usb \<Rightarrow> ('h option \<times> ('h, 'w) usb) res"
where
  "test_open_device ext dev desc s =
     (let (r, handle, w) = lu_open ext dev (uworld s); s1 = s\<lparr>uworld := w\<rparr>
      in if r = 0
         then res_bind (rd (desc_bytes desc) 14) (\<lambda>manu.
              res_bind (rd (desc_bytes desc) 15) (\<lambda>prod.
              Inr (handle, show_string ext handle prod ''Product'' (show_string ext handle manu ''Manu'' s1))))
         else Inr (handle, test_println ''open usb dev failed %d'' [TInt r] s1))"

definition test_config_device ::
  "('d, 'h, 'w) libusb_more \<Rightarrow> 'd \<Rightarrow> ('h, 'w) usb \<Rightarrow> ('h, 'w) usb res"
where
  "test_config_device ext dev s =
     (let (r, cfg, w) = lu_get_config ext dev 0 (uworld s); s1 = s\<lparr>uworld := w\<rparr>
      in case cfg of
           None \<Rightarrow> Inl Uninit_Read
         | Some c \<Rightarrow>
             let s2 = (if r \<noteq> 0 then s1 else print_config_desc c s1)
             in Inr (s2\<lparr>uworld := lu_free_config ext c (uworld s2)\<rparr>))"

fun test_list_loop ::
  "('d, 'h, 'w) libusb \<Rightarrow> ('d, 'h, 'w) libusb_more \<Rightarrow> nat \<Rightarrow> 'd list \<Rightarrow> dev_desc option \<Rightarrow> ('h, 'w) usb \<Rightarrow>
   (bool \<times> ('h, 'w) usb) res"
where
  "test_list_loop lib ext i [] desc s = Inr (True, s)"
| "test_list_loop lib ext i (dev # devs) desc s =
     (let (r, desc1, s1) = call_device_descriptor lib dev desc s
      in if r < 0 then Inr (False, test_print ''get dev desc failed %d'' [TInt r] s1)
         else case desc1 of
           None \<Rightarrow> Inl Uninit_Read
         | Some d \<Rightarrow>
             res_bind
               (test_open_device ext dev d
                 (test_println ''devs[%d]: vid=%04x, pid=%04x''
                   [TInt (int i), TInt (uint (idVendor d)), TInt (uint (idProduct d))] s1))
               (\<lambda>(handle, s2). res_bind (test_config_device ext dev s2) (\<lambda>s3.
                  let s4 = (case handle of None \<Rightarrow> s3 | Some h \<Rightarrow> call_close lib h s3)
                  in test_list_loop lib ext (i + 1) devs desc1 (test_println '''' [] s4))))"

definition test_list_device ::
  "('d, 'h, 'w) libusb \<Rightarrow> ('d, 'h, 'w) libusb_more \<Rightarrow> ('h, 'w) usb \<Rightarrow> (int \<times> ('h, 'w) usb) res"
where
  "test_list_device lib ext s =
     (let (r, s1) = call_init lib (test_println ''%s'' [TStr ''list_device''] s)
      in if r \<noteq> 0 then Inr (r, test_println ''init libusb failed %d'' [TInt r] s1)
         else
           let (cnt, devs, s2) = call_device_list lib s1
           in if cnt < 0 then Inr (- 1, test_println ''get libusb dev failed %d'' [TInt r] s2)
              else
                res_bind (test_list_loop lib ext 0 devs None (test_println ''usb devs cnt=%d'' [TInt cnt] s2))
                  (\<lambda>(done, s3). if done then Inr (0, call_exit lib (call_free_list lib devs s3)) else Inr (- 1, s3)))"

section \<open>The program\<close>

definition test_libusb ::
  "('d, 'h, 'w) libusb \<Rightarrow> ('d, 'h, 'w) libusb_more \<Rightarrow> u8 list \<Rightarrow> string list \<Rightarrow> ('h, 'w) usb \<Rightarrow> (int \<times> ('h, 'w) usb) res"
where
  "test_libusb lib ext stack args s =
     (if length args \<le> 1 then Inr (- 1, test_println ''no cmds'' [] s)
      else if args ! 1 = ''-l'' then res_bind (test_list_device lib ext s) (\<lambda>(r, s1). Inr (0, s1))
      else if args ! 1 = ''-o''
      then if length args < 4 then Inr (- 1, test_println ''no vid pid'' [] s)
           else
             let vid = strtoul_u16 (args ! 2); pid = strtoul_u16 (args ! 3);
                 s1 = test_println ''vid=%x, pid=%x'' [TInt (uint vid), TInt (uint pid)] s
             in Inr (0, snd (test_device lib stack vid pid s1))
      else Inr (- 1, test_println ''unknown cmd'' [] s))"

section \<open>What it sends\<close>

abbreviation rd_call :: "'h \<Rightarrow> u8 \<Rightarrow> u32 \<Rightarrow> u32 \<Rightarrow> 'h lib_call" where
  "rd_call h opcode addr len \<equiv> Lib_transfer (Some h) (raw_setup REQ_TYPE_RD opcode addr len) []"

abbreviation wr_call :: "'h \<Rightarrow> u8 \<Rightarrow> u32 \<Rightarrow> u32 \<Rightarrow> u32 \<Rightarrow> 'h lib_call" where
  "wr_call h opcode addr data len \<equiv>
     Lib_transfer (Some h) (raw_setup REQ_TYPE_WR opcode addr len) (take (unat len) (le_bytes4 data))"

definition shows_word :: "string \<Rightarrow> u32 \<Rightarrow> u32 \<Rightarrow> ('h, 'w) usb \<Rightarrow> bool" where
  "shows_word what addr v s \<longleftrightarrow> Trace (what @ ''[%x] = %x'' @ [NL]) [TInt (uint addr), TInt (uint v)] \<in> set (uout s)"

lemma setup_type: "bmRequestType (raw_setup q op addr len) = q" "wLength (raw_setup q op addr len) = ucast len"
  by (simp_all add: raw_setup_def)

lemma dev_get_log [simp]:
  "ucalls (snd (dev_get lib h op addr len m)) = ucalls (snd m) @ [rd_call h op addr len]"
  "uout (snd (dev_get lib h op addr len m)) = uout (snd m)"
  by (auto simp: dev_get_def test_raw_read_def call_transfer_def REQ_TYPE_RD_def setup_type split: prod.splits)

lemma dev_put_log [simp]:
  "ucalls (snd (dev_put lib h op addr data len m)) = ucalls (snd m) @ [wr_call h op addr data len]"
  "uout (snd (dev_put lib h op addr data len m)) = uout (snd m)" "fst (dev_put lib h op addr data len m) = fst m"
  by (auto simp: dev_put_def test_raw_write_def call_transfer_def REQ_TYPE_WR_def setup_type split: prod.splits)

lemma dev_show_log [simp]:
  "ucalls (snd (dev_show what addr i m)) = ucalls (snd m)" "fst (dev_show what addr i m) = fst m"
  "shows_word what' addr' v (snd (dev_show what addr i m)) \<longleftrightarrow>
     shows_word what' addr' v (snd m) \<or> what' = what \<and> addr' = addr \<and> v = word_at (fst m) i"
  by (auto simp: dev_show_def test_println_def test_print_def shows_word_def word_uint_eq_iff)

lemma talk_shows_word [simp]:
  "shows_word what a v (snd (dev_get lib h op addr len m)) \<longleftrightarrow> shows_word what a v (snd m)"
  "shows_word what a v (snd (dev_put lib h op addr data len m)) \<longleftrightarrow> shows_word what a v (snd m)"
  by (simp_all add: shows_word_def)

lemma length_put_word [simp]: "4 * i + 4 \<le> length buf \<Longrightarrow> length (put_word buf i v) = length buf"
  by (simp add: put_word_def le_bytes4_def)

lemma length_dev_get [simp]: "4 \<le> length (fst m) \<Longrightarrow> length (fst (dev_get lib h op addr len m)) = length (fst m)"
  by (auto simp: dev_get_def test_raw_read_def call_transfer_def Let_def split: prod.splits)

lemma word_at_put: "8 \<le> length buf \<Longrightarrow> word_at (put_word buf 1 v) 1 = v"
  using le_word4_bytes4 [of v] by (simp add: word_at_def put_word_def le_bytes4_def nth_append)

text \<open>libusb stores no more than the bytes asked for.\<close>

definition fits_request :: "('d, 'h, 'w) libusb \<Rightarrow> bool" where
  "fits_request lib \<longleftrightarrow>
     (\<forall>h su buf t w. length (fst (snd (lu_control_transfer lib h su buf t w))) \<le> unat (wLength su))"

lemma dev_get_keeps_word:
  assumes "fits_request lib" and "8 \<le> length (fst m)" and "len = 2"
  shows "word_at (fst (dev_get lib h op addr len m)) 1 = word_at (fst m) 1"
proof -
  obtain r bs w where l: "lu_control_transfer lib (Some h) (raw_setup REQ_TYPE_RD op addr len) (put_word (fst m) 0 0) 1000 (uworld (snd m)) = (r, bs, w)"
    by (metis prod.exhaust)
  have "length bs \<le> unat (wLength (raw_setup REQ_TYPE_RD op addr len))"
    using assms(1) l unfolding fits_request_def by (metis fst_conv snd_conv)
  then have bs: "length bs \<le> 2" using assms(3) by (simp add: setup_type)
  have "fst (dev_get lib h op addr len m) = overlay bs (put_word (fst m) 0 0)"
    using l by (simp add: dev_get_def test_raw_read_def call_transfer_def REQ_TYPE_RD_def setup_type)
  moreover have "overlay bs (put_word (fst m) 0 0) ! k = fst m ! k" if "4 \<le> k" "k < 8" for k
    using that bs assms(2) by (simp add: overlay_def put_word_def le_bytes4_def nth_append)
  ultimately show ?thesis by (simp add: word_at_def)
qed

text \<open>The four modules: the transfers made, and the words read that decide what is written.\<close>

lemma test_mem_log:
  "ucalls (snd (test_mem lib h m)) = ucalls (snd m) @
     [rd_call h OP_RW_MEM 0x20000000 4, wr_call h OP_RW_MEM 0x20000000 0x12345678 4,
      rd_call h OP_RW_MEM 0x20000000 4, rd_call h OP_RW_MEM 0x20000000 8]"
  "4 \<le> length (fst m) \<Longrightarrow> length (fst (test_mem lib h m)) = length (fst m)"
  by (simp_all add: test_mem_def Let_def)

lemma test_ana_log:
  assumes "fits_request lib" and "8 \<le> length (fst m)"
  shows "\<exists>v. ucalls (snd (test_ana lib h m)) = ucalls (snd m) @
     [rd_call h OP_RW_ANA 0x60 2, rd_call h OP_RW_ANA 0x61 2, wr_call h OP_RW_ANA 0x61 (v OR 0xF) 2,
      rd_call h OP_RW_ANA 0x61 2, wr_call h OP_RW_ANA 0x61 v 2, rd_call h OP_RW_ANA 0x61 2]
     \<and> shows_word ''ana 2'' 0x61 v (snd (test_ana lib h m))"
    and "length (fst (test_ana lib h m)) = length (fst m)"
proof -
  let ?m2 = "dev_get lib h OP_RW_ANA 0x61 2 (dev_show ''ana 1'' 0x60 0 (dev_get lib h OP_RW_ANA 0x60 2 m))"
  let ?v = "word_at (fst ?m2) 0"
  have len: "8 \<le> length (fst ?m2)" using assms(2) by simp
  have low: "word_at (put_word (fst ?m2) 1 ?v) 0 = ?v"
    using len by (simp add: word_at_def [of _ 0] put_word_def nth_append)
  show "\<exists>v. ucalls (snd (test_ana lib h m)) = ucalls (snd m) @
     [rd_call h OP_RW_ANA 0x60 2, rd_call h OP_RW_ANA 0x61 2, wr_call h OP_RW_ANA 0x61 (v OR 0xF) 2,
      rd_call h OP_RW_ANA 0x61 2, wr_call h OP_RW_ANA 0x61 v 2, rd_call h OP_RW_ANA 0x61 2]
     \<and> shows_word ''ana 2'' 0x61 v (snd (test_ana lib h m))"
    using len low
    by (intro exI [of _ ?v])
      (simp add: test_ana_def Let_def dev_get_keeps_word [OF assms(1)] word_at_put del: One_nat_def)
  show "length (fst (test_ana lib h m)) = length (fst m)"
    using assms(2) by (simp add: test_ana_def Let_def)
qed

lemma test_pmu_log:
  "\<exists>v. ucalls (snd (test_pmu lib h m)) = ucalls (snd m) @
     [rd_call h OP_RW_PMU 0 2, rd_call h OP_RW_PMU 1 2, wr_call h OP_RW_PMU 1 (v OR 0x7) 2, rd_call h OP_RW_PMU 1 2]
   \<and> shows_word ''pmu 2'' 1 v (snd (test_pmu lib h m))"
  by (rule exI [of _ "word_at (fst (dev_get lib h OP_RW_PMU 1 2 (dev_show ''pmu 1'' 0 0 (dev_get lib h OP_RW_PMU 0 2 m)))) 0"])
    (simp add: test_pmu_def Let_def)

lemma test_dig_log:
  "\<exists>v. ucalls (snd (test_dig lib h m)) = ucalls (snd m) @
     [rd_call h OP_RW_DIG 0x40300000 4, wr_call h OP_RW_DIG 0x40300000 (v OR 1) 4,
      rd_call h OP_RW_DIG 0x40300000 4, wr_call h OP_RESET_CDC 0x40300000 (v OR 1) 4]
   \<and> shows_word ''dig 1'' 0x40300000 v (snd (test_dig lib h m))"
  by (rule exI [of _ "word_at (fst (dev_get lib h OP_RW_DIG 0x40300000 4 m)) 0"]) (simp add: test_dig_def Let_def)

text \<open>What is printed stays printed.\<close>

lemma prints_kept:
  "set (uout (snd m)) \<subseteq> set (uout (snd (test_pmu lib h m)))"
  "set (uout (snd m)) \<subseteq> set (uout (snd (test_dig lib h m)))"
  by (auto simp: test_pmu_def test_dig_def Let_def dev_show_def test_println_def test_print_def)

lemma exit_log:
  "ucalls (call_exit lib s) = ucalls s @ [Lib_exit]"
  "shows_word what a v (call_exit lib s) \<longleftrightarrow> shows_word what a v s"
  by (simp_all add: call_exit_def shows_word_def)

lemma test_device_opens:
  assumes "lu_init lib (uworld s) = (0, w1)" and "lu_open_vid_pid lib vid pid w1 = (Some h, w2)"
  obtains s3 where "ucalls s3 = ucalls s @ [Lib_init 0, Lib_open vid pid (Some h)]"
    and "test_device lib stack vid pid s =
      (0, call_exit lib (snd (test_dig lib h (test_pmu lib h (test_ana lib h (test_mem lib h (stack, s3)))))))"
proof
  let ?s3 = "test_println ''open usb dev okay, vid=%x, pid=%x'' [TInt (uint vid), TInt (uint pid)]
    (snd (call_open lib vid pid (snd (call_init lib s))))"
  show "ucalls ?s3 = ucalls s @ [Lib_init 0, Lib_open vid pid (Some h)]"
    using assms by (simp add: call_init_def call_open_def test_println_def test_print_def)
  show "test_device lib stack vid pid s =
      (0, call_exit lib (snd (test_dig lib h (test_pmu lib h (test_ana lib h (test_mem lib h (stack, ?s3)))))))"
    using assms by (simp add: test_device_def call_init_def call_open_def)
qed

end
