(* ===== verification/Test_Keys.thy ===== *)
theory Test_Keys
  imports C_Prelude
begin

text \<open>
  Models the part of \<^verbatim>\<open>demo-dh/tests/main.c\<close> that is compiled: \<^verbatim>\<open>test1\<close> reads keys up to a newline and
  looks for the escape sequences of the arrow keys. The characters that \<^verbatim>\<open>getch\<close> of curses returns
  are a list; a call that finds it empty blocks for ever. \<open>stack\<close> is what \<^verbatim>\<open>buf\<close> holds at first.
\<close>

section \<open>The arrow keys\<close>

definition AK_SIZE :: nat where
  "AK_SIZE = 3"

definition arrow_key_val :: "char list list" where
  "arrow_key_val =
     [[CHR 0x1B, CHR 0x5B, CHR 0x41], [CHR 0x1B, CHR 0x5B, CHR 0x42],
      [CHR 0x1B, CHR 0x5B, CHR 0x43], [CHR 0x1B, CHR 0x5B, CHR 0x44]]"

text \<open>The conjunction of the three comparisons, from left to right.\<close>

definition key_here :: "char list \<Rightarrow> char list \<Rightarrow> int \<Rightarrow> bool res" where
  "key_here buf key j =
     res_bind (rd buf j) (\<lambda>a.
       if a \<noteq> key ! 0 then Inr False
       else res_bind (rd buf (j + 1)) (\<lambda>b.
         if b \<noteq> key ! 1 then Inr False
         else res_bind (rd buf (j + 2)) (\<lambda>c. Inr (c = key ! 2))))"

function key_search :: "char list \<Rightarrow> char list \<Rightarrow> int \<Rightarrow> int \<Rightarrow> bool res" where
  "key_search buf key cnt j =
     (if j < cnt
      then (case key_here buf key j of
              Inl e \<Rightarrow> Inl e
            | Inr hit \<Rightarrow> if hit then Inr True else key_search buf key cnt (j + int AK_SIZE))
      else Inr False)"
  by pat_completeness auto
termination
  by (relation "measure (\<lambda>(buf, key, cnt, j). nat (cnt - j))") (auto simp: AK_SIZE_def)

declare key_search.simps [simp del]

fun key_loop :: "char list \<Rightarrow> int \<Rightarrow> int \<Rightarrow> int \<Rightarrow> char list list \<Rightarrow> int res" where
  "key_loop buf cnt i k [] = Inr k"
| "key_loop buf cnt i k (key # keys) =
     res_bind (key_search buf key cnt 0) (\<lambda>hit. key_loop buf cnt (i + 1) (if hit then i else k) keys)"

definition akey_match :: "char list \<Rightarrow> int \<Rightarrow> int res" where
  "akey_match buf cnt =
     (if cnt < int AK_SIZE then Inr (- 1) else key_loop buf (cnt div int AK_SIZE) 0 (- 1) arrow_key_val)"

section \<open>The test\<close>

fun keys_loop :: "char list \<Rightarrow> int \<Rightarrow> int list \<Rightarrow> (char list \<times> int \<times> int) res option" where
  "keys_loop buf j [] = None"
| "keys_loop buf j (c # cs) =
     (let ch = char_of_int c
      in case wr buf j ch of
           Inl e \<Rightarrow> Some (Inl e)
         | Inr buf' \<Rightarrow>
             (case akey_match buf' (j + 1) of
                Inl e \<Rightarrow> Some (Inl e)
              | Inr k \<Rightarrow> if ch = NL then Some (Inr (buf', j + 1, k)) else keys_loop buf' (j + 1) cs))"

definition key_report :: "char list \<Rightarrow> int \<Rightarrow> trace list" where
  "key_report cs k =
     List.map (\<lambda>i. Trace (''buf[%d] = %x'' @ [NL]) [TInt (int i), TInt (schar_val (cs ! i))]) [0..<length cs]
     @ [Trace (''k=%d'' @ [NL]) [TInt k]]"

definition test1 :: "char list \<Rightarrow> int list \<Rightarrow> trace list res option" where
  "test1 stack typed =
     map_option (\<lambda>m. res_bind m (\<lambda>(buf, j, k). Inr (Trace (''CMD>'' @ [NL]) [] # key_report (take (nat j) buf) k)))
       (keys_loop stack 0 typed)"

definition test_main :: "char list \<Rightarrow> int list \<Rightarrow> (int \<times> trace list) res option" where
  "test_main stack typed =
     map_option (\<lambda>m. res_bind m (\<lambda>out. Inr (0, Trace (''%s'' @ [NL]) [TStr ''test_main''] # out))) (test1 stack typed)"

section \<open>Which key is found\<close>

text \<open>
  The positions looked at are the multiples of 3 below a third of the length; the last key of
  the table that stands at one of them is the result.
\<close>

definition key_seen :: "char list \<Rightarrow> nat \<Rightarrow> char list \<Rightarrow> bool" where
  "key_seen buf third key \<longleftrightarrow> list_ex (\<lambda>j. 3 dvd j \<and> take 3 (drop j buf) = key) [0..<third]"

definition found_key :: "char list \<Rightarrow> int" where
  "found_key cs =
     (case filter (\<lambda>i. key_seen cs (length cs div 3) (arrow_key_val ! i)) [3, 2, 1, 0] of
        [] \<Rightarrow> - 1
      | i # _ \<Rightarrow> int i)"

lemma take3: "j + 2 < length buf \<Longrightarrow> take 3 (drop j buf) = [buf ! j, buf ! (j + 1), buf ! (j + 2)]"
  by (simp add: take_Suc_conv_app_nth numeral_3_eq_3 numeral_2_eq_2 take_drop nth_append flip: Cons_nth_drop_Suc)

lemma key_here_ok:
  assumes "j + 2 < length buf" and "length key = 3"
  shows "key_here buf key (int j) = Inr (take 3 (drop j buf) = key)"
proof -
  obtain a b c where k: "key = [a, b, c]" using assms(2) by (auto simp: numeral_3_eq_3 length_Suc_conv)
  have "rd buf (int j) = Inr (buf ! j)" "rd buf (int j + 1) = Inr (buf ! (j + 1))" "rd buf (int j + 2) = Inr (buf ! (j + 2))"
    using assms(1) rd_in [of "j + 1" buf] rd_in [of "j + 2" buf] by (simp_all add: rd_in add.commute)
  then show ?thesis using take3 [OF assms(1)] k by (simp add: key_here_def)
qed

lemma key_search_ok:
  assumes "3 * c \<le> length buf" and "length key = 3"
  shows "key_search buf key (int c) (int j) = Inr (\<exists>i. j \<le> i \<and> i < c \<and> 3 dvd (i - j) \<and> take 3 (drop i buf) = key)"
proof (induction "c - j" arbitrary: j rule: less_induct)
  case less
  show ?case
  proof (cases "j < c")
    case False
    then show ?thesis by (subst key_search.simps) auto
  next
    case True
    then have here: "key_here buf key (int j) = Inr (take 3 (drop j buf) = key)"
      using assms by (intro key_here_ok) auto
    have nxt: "key_search buf key (int c) (int j + 3) =
        Inr (\<exists>i. j + 3 \<le> i \<and> i < c \<and> 3 dvd (i - (j + 3)) \<and> take 3 (drop i buf) = key)"
      using less [of "j + 3"] True by (simp add: add.commute)
    have split: "(\<exists>i. j \<le> i \<and> i < c \<and> 3 dvd (i - j) \<and> P i) \<longleftrightarrow> P j \<or> (\<exists>i. j + 3 \<le> i \<and> i < c \<and> 3 dvd (i - (j + 3)) \<and> P i)" for P
    proof -
      have "j \<le> i \<and> 3 dvd (i - j) \<longleftrightarrow> i = j \<or> j + 3 \<le> i \<and> 3 dvd (i - (j + 3))" for i
        by (auto simp: dvd_def) presburger+
      then show ?thesis using True by metis
    qed
    show ?thesis
      using True here nxt by (subst key_search.simps) (simp add: AK_SIZE_def split [of "\<lambda>i. take 3 (drop i buf) = key"])
  qed
qed

lemma akey_match_ok:
  assumes "n \<le> length buf"
  shows "akey_match buf (int n) = Inr (found_key (take n buf))"
proof -
  let ?seen = "key_seen (take n buf) (n div 3)"
  have hit: "key_search buf key (int (n div 3)) 0 = Inr (?seen key)" if "length key = 3" for key
  proof -
    have "take 3 (drop i (take n buf)) = take 3 (drop i buf)" if "i < n div 3" for i
      using that by (simp add: drop_take)
    then have "(\<exists>i. i < n div 3 \<and> 3 dvd i \<and> take 3 (drop i buf) = key) \<longleftrightarrow> ?seen key"
      by (auto simp: key_seen_def list_ex_iff Bex_def)
    then show ?thesis using key_search_ok [of "n div 3" buf key 0] assms that by simp
  qed
  show ?thesis
  proof (cases "n < 3")
    case True
    then show ?thesis using assms by (simp add: akey_match_def AK_SIZE_def found_key_def key_seen_def)
  next
    case False
    then have "akey_match buf (int n) = key_loop buf (int (n div 3)) 0 (- 1) arrow_key_val"
      by (simp add: akey_match_def AK_SIZE_def zdiv_int)
    also have "\<dots> = Inr (found_key (take n buf))"
      using assms by (simp add: arrow_key_val_def hit found_key_def)
    finally show ?thesis .
  qed
qed

text \<open>Typing \<open>cs\<close> and a newline: the buffer holds 100 characters.\<close>

lemma keys_loop_ok:
  assumes "NL \<notin> set cs" and "length buf = 100" and "j \<le> 100"
  shows "if j + length cs < 100
    then \<exists>buf'. keys_loop buf (int j) (List.map uchar_val cs @ 10 # rest) =
           Some (Inr (buf', int (j + length cs + 1), found_key (take (j + length cs + 1) buf')))
         \<and> take (j + length cs + 1) buf' = take j buf @ cs @ [NL]
    else keys_loop buf (int j) (List.map uchar_val cs @ 10 # rest) = Some (Inl Out_Of_Bounds)"
  using assms
proof (induction cs arbitrary: buf j)
  case Nil
  show ?case
  proof (cases "j < 100")
    case True
    then have "akey_match (buf[j := NL]) (int j + 1) = Inr (found_key (take (j + 1) (buf[j := NL])))"
      using akey_match_ok [of "j + 1" "buf[j := NL]"] Nil by (simp add: add.commute)
    moreover have "take (j + 1) (buf[j := NL]) = take j buf @ [NL]"
      using True Nil(2) by (simp add: take_Suc_conv_app_nth)
    ultimately show ?thesis using True Nil(2) by (simp add: wr_in Let_def add.commute)
  qed (use Nil in \<open>simp add: wr_def Let_def\<close>)
next
  case (Cons c cs)
  show ?case
  proof (cases "j < 100")
    case True
    have m: "akey_match (buf[j := c]) (int j + 1) = Inr (found_key (take (j + 1) (buf[j := c])))"
      using akey_match_ok [of "j + 1" "buf[j := c]"] Cons True by (simp add: add.commute)
    have t: "take (Suc j) (buf[j := c]) = take j buf @ [c]" using True Cons(3) by (simp add: take_Suc_conv_app_nth)
    have nl: "c \<noteq> NL" using Cons.prems(1) by auto
    have step: "keys_loop buf (int j) (List.map uchar_val (c # cs) @ 10 # rest)
        = keys_loop (buf[j := c]) (int (Suc j)) (List.map uchar_val cs @ 10 # rest)"
      using True Cons.prems(2) m nl by (simp add: wr_in add.commute)
    show ?thesis
      using Cons.IH [of "buf[j := c]" "Suc j"] Cons.prems True unfolding step by (simp add: t cong: if_cong)
  qed (use Cons in \<open>simp add: wr_def Let_def\<close>)
qed

end
