(* ===== verification/Dir_Walk.thy ===== *)
theory Dir_Walk
  imports C_Prelude
begin

text \<open>
  Models \<^verbatim>\<open>demo-env/main.c\<close>: a listing of a directory tree and a search for a file in it, both by
  \<^verbatim>\<open>chdir\<close> into every directory and back. The file system is a tree that no one changes meanwhile;
  the state is the working directory, the number of open directory streams, the buffer for the
  path found and the text printed. Standard error is not modelled.
\<close>

section \<open>The file system\<close>

text \<open>
  A directory has a flag that lets \<^verbatim>\<open>opendir\<close> read it and one that lets its entries be looked up. A
  symbolic link holds the path it stands for. Whatever is neither is \<open>Plain\<close>.
\<close>

datatype fnode = Plain | Link string | Dir bool bool "(string \<times> fnode) list"

record walk =
  root :: fnode
  cwd :: "string list"
  open_dirs :: nat
  abs_path :: string
  printed :: string

fun lookup :: "fnode \<Rightarrow> string list \<Rightarrow> fnode option" where
  "lookup t [] = Some t"
| "lookup Plain (n # ns) = None"
| "lookup (Link tg) (n # ns) = None"
| "lookup (Dir r x es) (n # ns) = (case map_of es n of None \<Rightarrow> None | Some t \<Rightarrow> lookup t ns)"

text \<open>The components of a path; empty ones do not count.\<close>

fun path_split :: "string \<Rightarrow> string \<Rightarrow> string list" where
  "path_split acc [] = (if acc = [] then [] else [acc])"
| "path_split acc (c # cs) =
     (if c = CHR ''/'' then (if acc = [] then [] else [acc]) @ path_split [] cs else path_split (acc @ [c]) cs)"

text \<open>
  The walk along the components of a path from the directory \<open>at\<close>. A link on the way is replaced by its
  path; one at the end only if \<open>follow\<close> holds. \<open>k\<close> is the number of links that may still be followed: Linux
  follows 40.
\<close>

fun resolve :: "nat \<Rightarrow> bool \<Rightarrow> fnode \<Rightarrow> string list \<Rightarrow> string list \<Rightarrow> string list option" where
  "resolve k follow t at [] = Some at"
| "resolve k follow t at (c # cs) =
     (case lookup t at of
        Some (Dir r x es) \<Rightarrow>
          if \<not> x then None
          else if c = ''.'' then resolve k follow t at cs
          else if c = ''..'' then resolve k follow t (butlast at) cs
          else
            (case map_of es c of
               None \<Rightarrow> None
             | Some (Link tg) \<Rightarrow>
                 if cs = [] \<and> \<not> follow then Some (at @ [c])
                 else (case k of
                         0 \<Rightarrow> None
                       | Suc j \<Rightarrow>
                           if tg = [] then None
                           else resolve j follow t (if hd tg = CHR ''/'' then [] else at) (path_split [] tg @ cs))
             | Some node \<Rightarrow> resolve k follow t (at @ [c]) cs)
      | _ \<Rightarrow> None)"

abbreviation "max_links \<equiv> 40 :: nat"

definition sys_walk :: "bool \<Rightarrow> string \<Rightarrow> walk \<Rightarrow> string list option" where
  "sys_walk follow name s =
     (if name = [] then None
      else resolve max_links follow (root s) (if hd name = CHR ''/'' then [] else cwd s) (path_split [] name))"

definition sys_node :: "bool \<Rightarrow> string \<Rightarrow> walk \<Rightarrow> fnode option" where
  "sys_node follow name s = Option.bind (sys_walk follow name s) (lookup (root s))"

definition opendir :: "string \<Rightarrow> walk \<Rightarrow> string list option" where
  "opendir name s =
     (case sys_node True name s of
        Some (Dir r x es) \<Rightarrow> if r then Some (''.'' # ''..'' # List.map fst es) else None
      | _ \<Rightarrow> None)"

definition chdir :: "string \<Rightarrow> walk \<Rightarrow> walk" where
  "chdir name s =
     (case (sys_walk True name s, sys_node True name s) of
        (Some p, Some (Dir r x es)) \<Rightarrow> if x then s\<lparr>cwd := p\<rparr> else s
      | _ \<Rightarrow> s)"

text \<open>
  \<^verbatim>\<open>lstat\<close>, which does not follow a link, and \<^verbatim>\<open>S_ISDIR\<close>: a call that fails leaves the variable as it was.
\<close>

definition lstat_isdir :: "string \<Rightarrow> walk \<Rightarrow> bool option \<Rightarrow> bool option" where
  "lstat_isdir name s ds =
     (case sys_node False name s of None \<Rightarrow> ds | Some (Dir r x es) \<Rightarrow> Some True | Some node \<Rightarrow> Some False)"

definition path_str :: "string list \<Rightarrow> string" where
  "path_str p = (if p = [] then ''/'' else concat (List.map (\<lambda>n. CHR ''/'' # n) p))"

text \<open>
  \<^verbatim>\<open>realpath\<close> into the buffer of 256 characters: the path of what the name stands for when all links have been
  followed. When it fails the contents of the buffer are undefined, and all its callers print them.
\<close>

definition realpath :: "string \<Rightarrow> walk \<Rightarrow> walk res" where
  "realpath name s =
     (case sys_walk True name s of
        None \<Rightarrow> Inl Uninit_Read
      | Some p \<Rightarrow> if 256 \<le> length (path_str p) then Inl Out_Of_Bounds else Inr (s\<lparr>abs_path := path_str p\<rparr>))"

definition say_text :: "string \<Rightarrow> walk \<Rightarrow> walk" where
  "say_text str s = s\<lparr>printed := printed s @ str\<rparr>"

section \<open>Listing\<close>

definition print_indent :: "nat \<Rightarrow> char \<Rightarrow> string \<Rightarrow> char \<Rightarrow> walk \<Rightarrow> walk" where
  "print_indent depth prefix name postfix s =
     (let s1 = say_text (replicate depth prefix) s
      in if postfix \<noteq> NUL then say_text (name @ [postfix, NL]) s1 else say_text (name @ [NL]) s1)"

text \<open>
  The loop of \<^verbatim>\<open>scan_dir\<close> over the entries that are left, with the call of \<^verbatim>\<open>scan_dir\<close> for a directory
  written out (lemma \<open>scan_loop_dir\<close>). \<open>ds\<close> is the variable that \<^verbatim>\<open>lstat\<close> fills.
\<close>

partial_function (option) dir_loop :: "string list \<Rightarrow> nat \<Rightarrow> bool option \<Rightarrow> walk \<Rightarrow> walk res option" where
  "dir_loop names depth ds s =
     (case names of
        [] \<Rightarrow> Some (Inr s)
      | dn # rest \<Rightarrow>
          if dn = ''.'' \<or> dn = ''..'' then dir_loop rest depth ds s
          else
            (let ds1 = lstat_isdir dn s ds
             in case ds1 of
                  None \<Rightarrow> Some (Inl Uninit_Read)
                | Some isdir \<Rightarrow>
                    if isdir
                    then
                      (let s1 = print_indent (depth + 4) SPACE dn (CHR ''/'') s
                       in case opendir dn s1 of
                            None \<Rightarrow> dir_loop rest depth ds1 s1
                          | Some es \<Rightarrow>
                              Option.bind (dir_loop es (depth + 4) None (chdir dn (s1\<lparr>open_dirs := open_dirs s1 + 1\<rparr>)))
                                (\<lambda>r. case r of
                                   Inl e \<Rightarrow> Some (Inl e)
                                 | Inr s2 \<Rightarrow>
                                     (let s3 = chdir ''..'' s2
                                      in dir_loop rest depth ds1 (s3\<lparr>open_dirs := open_dirs s3 - 1\<rparr>))))
                    else dir_loop rest depth ds1 (print_indent (depth + 4) SPACE dn NUL s)))"

definition scan_dir :: "string \<Rightarrow> nat \<Rightarrow> walk \<Rightarrow> (int \<times> walk) res option" where
  "scan_dir name depth s =
     (case opendir name s of
        None \<Rightarrow> Some (Inr (- 1, s))
      | Some es \<Rightarrow>
          map_option
            (\<lambda>m. res_bind m (\<lambda>s2. let s3 = chdir ''..'' s2 in Inr (0, s3\<lparr>open_dirs := open_dirs s3 - 1\<rparr>)))
            (dir_loop es depth None (chdir name (s\<lparr>open_dirs := open_dirs s + 1\<rparr>))))"

lemma scan_loop_dir:
  assumes "dn \<noteq> ''.''" and "dn \<noteq> ''..''" and "lstat_isdir dn s ds = Some True"
  shows "dir_loop (dn # rest) depth ds s =
    Option.bind (scan_dir dn (depth + 4) (print_indent (depth + 4) SPACE dn (CHR ''/'') s))
      (\<lambda>r. case r of Inl e \<Rightarrow> Some (Inl e) | Inr (_, s2) \<Rightarrow> dir_loop rest depth (Some True) s2)"
  using assms
  by (subst dir_loop.simps)
    (auto simp: scan_dir_def Let_def Option.bind_map_option o_def intro!: arg_cong [where f = "Option.bind _"]
      split: option.split sum.split)

section \<open>Searching\<close>

text \<open>The loop of \<^verbatim>\<open>search_dir\<close>, in the same way; the first value is \<^verbatim>\<open>r\<close>. No stream is closed.\<close>

partial_function (option) search_loop :: "string list \<Rightarrow> string \<Rightarrow> bool option \<Rightarrow> walk \<Rightarrow> (int \<times> walk) res option" where
  "search_loop names file ds s =
     (case names of
        [] \<Rightarrow> Some (Inr (0, s))
      | dn # rest \<Rightarrow>
          if dn = ''.'' \<or> dn = ''..'' then search_loop rest file ds s
          else if dn = file
          then Some (res_bind (realpath dn s)
                 (\<lambda>s1. Inr (1, say_text (''find '' @ file @ '': '' @ abs_path s1 @ [NL]) s1)))
          else
            (let ds1 = lstat_isdir dn s ds
             in case ds1 of
                  None \<Rightarrow> Some (Inl Uninit_Read)
                | Some isdir \<Rightarrow>
                    if isdir
                    then (case opendir dn s of
                            None \<Rightarrow> Some (Inr (- 1, s))
                          | Some es \<Rightarrow>
                              Option.bind (search_loop es file None (chdir dn (s\<lparr>open_dirs := open_dirs s + 1\<rparr>)))
                                (\<lambda>m. case m of
                                   Inl e \<Rightarrow> Some (Inl e)
                                 | Inr (r, s2) \<Rightarrow>
                                     (let s3 = chdir ''..'' s2
                                      in if r \<noteq> 0 then Some (Inr (r, s3)) else search_loop rest file ds1 s3)))
                    else search_loop rest file ds1 s))"

definition search_dir :: "string \<Rightarrow> string \<Rightarrow> walk \<Rightarrow> (int \<times> walk) res option" where
  "search_dir dir_name file_name s =
     (case opendir dir_name s of
        None \<Rightarrow> Some (Inr (- 1, s))
      | Some es \<Rightarrow>
          map_option (\<lambda>m. res_bind m (\<lambda>(r, s2). Inr (r, chdir ''..'' s2)))
            (search_loop es file_name None (chdir dir_name (s\<lparr>open_dirs := open_dirs s + 1\<rparr>))))"

section \<open>The program\<close>

definition get_path :: "walk \<Rightarrow> (int \<times> walk) res" where
  "get_path s =
     (let s0 = s\<lparr>abs_path := []\<rparr>
      in res_bind (realpath ''.'' s0) (\<lambda>s1.
           let s2 = say_text (''abs_path: '' @ abs_path s1 @ [NL]) s1;
               s3 = (chdir ''..'' s2)\<lparr>abs_path := []\<rparr>
           in res_bind (realpath ''.'' s3) (\<lambda>s4. Inr (0, say_text (''abs_path: '' @ abs_path s4 @ [NL]) s4))))"

definition env_main :: "string list \<Rightarrow> walk \<Rightarrow> (int \<times> walk) res option" where
  "env_main args s0 =
     (let s = s0\<lparr>abs_path := []\<rparr>;
          dir_name = (if length args > 1 then args ! 1 else ''./abc'');
          file_name = (if length args > 2 then args ! 2 else ''c.c'')
      in if length args = 3
         then map_option (\<lambda>m. res_bind m (\<lambda>(r, s1).
                Inr (r, say_text (if r = 0 then ''not find '' @ file_name @ [NL]
                                  else ''file path: '' @ abs_path s1 @ [NL]) s1)))
                (search_dir dir_name file_name s)
         else map_option (\<lambda>m. res_bind m (\<lambda>(r, s1).
                Inr (r, say_text (''scan dir '' @ dir_name @ (if r \<noteq> 0 then '' failed'' else '' okay'') @ [NL]) s1)))
                (scan_dir dir_name 0 s))"

section \<open>Names and directories\<close>

definition name_ok :: "string \<Rightarrow> bool" where
  "name_ok n \<longleftrightarrow> n \<noteq> [] \<and> CHR ''/'' \<notin> set n \<and> n \<noteq> ''.'' \<and> n \<noteq> ''..''"

text \<open>The entries of a directory: proper names, each once, and every readable directory below can be entered.\<close>

fun good_entries :: "(string \<times> fnode) list \<Rightarrow> bool" where
  "good_entries [] = True"
| "good_entries ((n, Plain) # es) \<longleftrightarrow> name_ok n \<and> n \<notin> fst ` set es \<and> good_entries es"
| "good_entries ((n, Link tg) # es) \<longleftrightarrow> name_ok n \<and> n \<notin> fst ` set es \<and> good_entries es"
| "good_entries ((n, Dir r x sub) # es) \<longleftrightarrow>
     name_ok n \<and> n \<notin> fst ` set es \<and> (r \<longrightarrow> x) \<and> good_entries sub \<and> good_entries es"

lemma good_entries_distinct: "good_entries es \<Longrightarrow> distinct (List.map fst es)"
  by (induction es rule: good_entries.induct) auto

lemma good_entries_mem: "good_entries es \<Longrightarrow> (n, t) \<in> set es \<Longrightarrow> name_ok n"
  by (induction es rule: good_entries.induct) auto

lemma good_entries_sub: "good_entries es \<Longrightarrow> (n, Dir r x sub) \<in> set es \<Longrightarrow> (r \<longrightarrow> x) \<and> good_entries sub"
  by (induction es rule: good_entries.induct) auto

lemma path_split_name: "CHR ''/'' \<notin> set n \<Longrightarrow> path_split acc n = (if acc @ n = [] then [] else [acc @ n])"
  by (induction n arbitrary: acc) auto

lemma lookup_append: "lookup t (p @ q) = Option.bind (lookup t p) (\<lambda>u. lookup u q)"
  by (induction t p rule: lookup.induct) (auto split: option.split)

definition in_dir :: "walk \<Rightarrow> (string \<times> fnode) list \<Rightarrow> bool" where
  "in_dir s es \<longleftrightarrow> (\<exists>r. lookup (root s) (cwd s) = Some (Dir r True es))"

definition is_link :: "fnode \<Rightarrow> bool" where
  "is_link t \<longleftrightarrow> (case t of Link tg \<Rightarrow> True | _ \<Rightarrow> False)"

lemma is_link_simps [simp]: "\<not> is_link Plain" "is_link (Link tg)" "\<not> is_link (Dir r x es)"
  by (simp_all add: is_link_def)

text \<open>An entry of the working directory is found there, if it is not a link to be followed.\<close>

lemma sys_walk_name:
  assumes "in_dir s es" and "name_ok n" and "(n, t) \<in> set es" and "distinct (List.map fst es)"
    and "follow \<Longrightarrow> \<not> is_link t"
  shows "sys_walk follow n s = Some (cwd s @ [n])" and "sys_node follow n s = Some t"
proof -
  obtain r where d: "lookup (root s) (cwd s) = Some (Dir r True es)" using assms(1) by (auto simp: in_dir_def)
  have p: "path_split [] n = [n]" using assms(2) path_split_name [of n "[]"] by (simp add: name_ok_def)
  have n: "n \<noteq> []" "hd n \<noteq> CHR ''/''" "n \<noteq> ''.''" "n \<noteq> ''..''"
    using assms(2) by (auto simp: name_ok_def) (metis hd_in_set)
  have m: "map_of es n = Some t" using assms(3,4) by simp
  show w: "sys_walk follow n s = Some (cwd s @ [n])"
    using d p n m assms(5) by (cases t; cases follow) (simp_all add: sys_walk_def)
  show "sys_node follow n s = Some t" unfolding sys_node_def w using d m by (simp add: lookup_append)
qed

lemma enter_dir:
  assumes "in_dir s es" and "name_ok n" and "(n, Dir r True sub) \<in> set es" and "distinct (List.map fst es)"
  shows "chdir n s = s\<lparr>cwd := cwd s @ [n]\<rparr>" and "in_dir (s\<lparr>cwd := cwd s @ [n]\<rparr>) sub"
proof -
  have m: "n \<in> fst ` set es" "map_of es n = Some (Dir r True sub)" using assms(3,4) by force+
  then show "chdir n s = s\<lparr>cwd := cwd s @ [n]\<rparr>"
    using sys_walk_name [OF assms, of True] by (simp add: chdir_def)
  show "in_dir (s\<lparr>cwd := cwd s @ [n]\<rparr>) sub"
    using assms(1) m by (auto simp: in_dir_def lookup_append)
qed

lemma leave_dir:
  assumes "in_dir s es" and "in_dir s' sub" and "root s' = root s" and "cwd s' = cwd s @ [n]"
  shows "chdir ''..'' s' = s'\<lparr>cwd := cwd s\<rparr>"
  using assms by (auto simp: chdir_def sys_node_def sys_walk_def in_dir_def)

section \<open>What is listed\<close>

fun listing :: "nat \<Rightarrow> (string \<times> fnode) list \<Rightarrow> string" where
  "listing depth [] = []"
| "listing depth ((n, Plain) # es) = replicate (depth + 4) SPACE @ n @ [NL] @ listing depth es"
| "listing depth ((n, Link tg) # es) = replicate (depth + 4) SPACE @ n @ [NL] @ listing depth es"
| "listing depth ((n, Dir r x sub) # es) =
     replicate (depth + 4) SPACE @ n @ [CHR ''/'', NL] @ (if r then listing (depth + 4) sub else []) @ listing depth es"

lemma scan_dots: "dir_loop (''.'' # ''..'' # names) depth ds s = dir_loop names depth ds s"
  by (subst dir_loop.simps, simp, subst dir_loop.simps, simp)

lemma print_indent_eq:
  "print_indent depth c name NUL s = say_text (replicate depth c @ name @ [NL]) s"
  "print_indent depth c name (CHR ''/'') s = say_text (replicate depth c @ name @ [CHR ''/'', NL]) s"
  by (simp_all add: print_indent_def say_text_def)

lemma say_text_fields [simp]:
  "root (say_text str s) = root s" "cwd (say_text str s) = cwd s" "in_dir (say_text str s) es = in_dir s es"
  "open_dirs (say_text str s) = open_dirs s" "abs_path (say_text str s) = abs_path s"
  "say_text str (say_text str' s) = say_text (str' @ str) s"
  by (simp_all add: say_text_def in_dir_def)

text \<open>An entry that is no directory, in the working directory.\<close>

lemma no_dir_entry:
  assumes "good_entries all" and "in_dir s all" and "(n, t) \<in> set all" and "t = Plain \<or> is_link t"
  shows "name_ok n" and "lstat_isdir n s ds = Some False"
proof -
  show n: "name_ok n" using good_entries_mem assms by blast
  from sys_walk_name(2) [OF assms(2) n assms(3) good_entries_distinct [OF assms(1)], of False] assms(4)
  show "lstat_isdir n s ds = Some False" by (cases t) (auto simp: lstat_isdir_def)
qed

lemma scan_loop_plain:
  assumes "good_entries all" and "in_dir s all" and "(n, t) \<in> set all" and "t = Plain \<or> is_link t"
  shows "dir_loop (n # names) depth ds s =
    dir_loop names depth (Some False) (say_text (replicate (depth + 4) SPACE @ n @ [NL]) s)"
  using no_dir_entry [OF assms]
  by (subst dir_loop.simps) (simp add: name_ok_def print_indent_eq)

lemma scan_loop_lists:
  assumes "good_entries all" and "in_dir s all" and "set rest \<subseteq> set all"
  shows "dir_loop (List.map fst rest) depth ds s = Some (Inr (say_text (listing depth rest) s))"
  using assms
proof (induction depth rest arbitrary: all s ds rule: listing.induct)
  case (1 depth)
  show ?case by (subst dir_loop.simps) (simp add: say_text_def)
next
  case (2 depth n es)
  then show ?case using scan_loop_plain [OF 2(2,3), of n Plain "List.map fst es" depth ds] by simp
next
  case (3 depth n tg es)
  then show ?case using scan_loop_plain [OF 3(2,3), of n "Link tg" "List.map fst es" depth ds] by simp
next
  case (4 depth n r x sub es)
  let ?line = "replicate (depth + 4) SPACE @ n @ [CHR ''/'', NL]"
  let ?s1 = "say_text ?line s"
  have mem: "(n, Dir r x sub) \<in> set all" using 4 by auto
  have n: "name_ok n" using good_entries_mem [OF 4(3) mem] .
  have node: "sys_node follow n s = Some (Dir r x sub)" "sys_node follow n ?s1 = Some (Dir r x sub)" for follow
    using 4 mem n sys_walk_name(2) [of _ all] good_entries_distinct by auto
  have sub: "r \<longrightarrow> x" "good_entries sub" using good_entries_sub [OF 4(3) mem] by auto
  have isdir: "lstat_isdir n s ds = Some True" using node by (simp add: lstat_isdir_def)
  have scan: "scan_dir n (depth + 4) ?s1 =
      Some (Inr (if r then 0 else - 1, say_text (if r then listing (depth + 4) sub else []) ?s1))"
  proof (cases r)
    case False
    then show ?thesis using node by (simp add: scan_dir_def opendir_def say_text_def)
  next
    case True
    let ?s2 = "?s1\<lparr>open_dirs := open_dirs ?s1 + 1\<rparr>" and ?s3 = "?s1\<lparr>open_dirs := open_dirs ?s1 + 1, cwd := cwd s @ [n]\<rparr>"
    have here: "in_dir ?s2 all" "in_dir ?s1 all" using 4(4) by (simp_all add: in_dir_def)
    have mem': "(n, Dir True True sub) \<in> set all" using mem True sub(1) by simp
    have into: "chdir n ?s2 = ?s3" "in_dir ?s3 sub"
      using enter_dir [OF here(1) n mem' good_entries_distinct [OF 4(3)]] by simp_all
    have "dir_loop (List.map fst sub) (depth + 4) None ?s3 = Some (Inr (say_text (listing (depth + 4) sub) ?s3))"
      using 4(1) [OF True sub(2) into(2)] by simp
    moreover have "chdir ''..'' (say_text (listing (depth + 4) sub) ?s3) = (say_text (listing (depth + 4) sub) ?s3)\<lparr>cwd := cwd s\<rparr>"
      using leave_dir [OF here(2), of "say_text (listing (depth + 4) sub) ?s3" sub n] into(2) by simp
    ultimately show ?thesis
      using True node into(1) by (simp add: scan_dir_def opendir_def scan_dots Let_def say_text_def)
  qed
  show ?case
    using scan_loop_dir [OF _ _ isdir, of "List.map fst es" depth] scan n 4(2) [OF 4(3), of "say_text _ _"] 4(4,5)
    by (simp add: name_ok_def print_indent_eq)
qed

lemma scan_dir_lists:
  assumes "in_dir s all" and "good_entries all" and "(n, Dir True x sub) \<in> set all"
  shows "scan_dir n depth s = Some (Inr (0, say_text (listing depth sub) s))"
proof -
  let ?s2 = "s\<lparr>open_dirs := open_dirs s + 1\<rparr>" and ?s3 = "s\<lparr>open_dirs := open_dirs s + 1, cwd := cwd s @ [n]\<rparr>"
  have sub: "x" "good_entries sub" using good_entries_sub [OF assms(2,3)] by auto
  then have mem: "(n, Dir True True sub) \<in> set all" using assms(3) by simp
  have n: "name_ok n" "distinct (List.map fst all)" using good_entries_mem good_entries_distinct assms by blast+
  have here: "in_dir ?s2 all" using assms(1) by (simp add: in_dir_def)
  have into: "chdir n ?s2 = ?s3" "in_dir ?s3 sub" using enter_dir [OF here n(1) mem n(2)] by simp_all
  have "chdir ''..'' (say_text (listing depth sub) ?s3) = (say_text (listing depth sub) ?s3)\<lparr>cwd := cwd s\<rparr>"
    using leave_dir [OF assms(1), of "say_text (listing depth sub) ?s3" sub n] into(2) by simp
  then show ?thesis
    using sys_walk_name(2) [OF assms(1) n(1) mem n(2)] into scan_loop_lists [OF sub(2) into(2)]
    by (simp add: scan_dir_def opendir_def scan_dots Let_def say_text_def)
qed

section \<open>What is found\<close>

text \<open>
  The first entry of that name, depth first, with its path; -1 when an unreadable directory comes
  before it.
\<close>

fun first_named :: "string \<Rightarrow> string list \<Rightarrow> (string \<times> fnode) list \<Rightarrow> int \<times> string list" where
  "first_named f p [] = (0, [])"
| "first_named f p ((n, Plain) # es) = (if n = f then (1, p @ [n]) else first_named f p es)"
| "first_named f p ((n, Link tg) # es) = (if n = f then (1, p @ [n]) else first_named f p es)"
| "first_named f p ((n, Dir r x sub) # es) =
     (if n = f then (1, p @ [n])
      else if \<not> r then (- 1, [])
      else case first_named f (p @ [n]) sub of
             (k, q) \<Rightarrow> if k \<noteq> 0 then (k, q) else first_named f p es)"

lemma search_dots: "search_loop (''.'' # ''..'' # names) f ds s = search_loop names f ds s"
  by (subst search_loop.simps, simp, subst search_loop.simps, simp)

text \<open>
  What \<^verbatim>\<open>realpath\<close> makes of the entry at \<open>q\<close>: the entry itself, or what it stands for if it is a link; and what goes
  wrong when that does not exist or is too long.
\<close>

definition real_path :: "fnode \<Rightarrow> string list \<Rightarrow> string list option" where
  "real_path t q = resolve max_links True t (butlast q) [last q]"

definition no_path :: "fnode \<Rightarrow> string list \<Rightarrow> c_error option" where
  "no_path t q =
     (case real_path t q of
        None \<Rightarrow> Some Uninit_Read
      | Some p \<Rightarrow> if 256 \<le> length (path_str p) then Some Out_Of_Bounds else None)"

lemma realpath_entry:
  assumes "name_ok n"
  shows "realpath n s =
    (case no_path (root s) (cwd s @ [n]) of
       Some e \<Rightarrow> Inl e
     | None \<Rightarrow> Inr (s\<lparr>abs_path := path_str (the (real_path (root s) (cwd s @ [n])))\<rparr>))"
proof -
  have "sys_walk True n s = real_path (root s) (cwd s @ [n])"
    using assms path_split_name [of n "[]"]
    by (auto simp: sys_walk_def real_path_def name_ok_def) (metis hd_in_set)
  then show ?thesis by (simp add: realpath_def no_path_def split: option.split)
qed

text \<open>How a search that gives \<open>(k, q)\<close> leaves the state.\<close>

definition searched :: "int \<Rightarrow> string list \<Rightarrow> string \<Rightarrow> walk \<Rightarrow> walk \<Rightarrow> bool" where
  "searched k q f s s' \<longleftrightarrow> root s' = root s \<and> cwd s' = cwd s
     \<and> (let path = path_str (the (real_path (root s) q))
        in if k = 1 then abs_path s' = path \<and> printed s' = printed s @ ''find '' @ f @ '': '' @ path @ [NL]
           else abs_path s' = abs_path s \<and> printed s' = printed s)"

definition outcome :: "(int \<times> walk) res option \<Rightarrow> int \<times> string list \<Rightarrow> string \<Rightarrow> walk \<Rightarrow> bool" where
  "outcome m kq f s =
     (case kq of
        (k, q) \<Rightarrow>
          (case if k = 1 then no_path (root s) q else None of
             Some e \<Rightarrow> m = Some (Inl e)
           | None \<Rightarrow> \<exists>s'. m = Some (Inr (k, s')) \<and> searched k q f s s'))"

lemma outcome_bad:
  "k = 1 \<Longrightarrow> no_path (root s) q = Some e \<Longrightarrow> outcome m (k, q) f s \<longleftrightarrow> m = Some (Inl e)"
  by (simp add: outcome_def)

lemma outcome_fine:
  "\<not> (k = 1 \<and> no_path (root s) q \<noteq> None) \<Longrightarrow>
   outcome m (k, q) f s \<longleftrightarrow> (\<exists>s'. m = Some (Inr (k, s')) \<and> searched k q f s s')"
  by (cases "k = 1") (simp_all add: outcome_def)

lemma outcome_cong:
  "outcome m kq f s \<Longrightarrow> root s' = root s \<Longrightarrow> cwd s' = cwd s \<Longrightarrow> abs_path s' = abs_path s \<Longrightarrow> printed s' = printed s \<Longrightarrow>
   outcome m kq f s'"
proof -
  assume eq: "root s' = root s" "cwd s' = cwd s" "abs_path s' = abs_path s" "printed s' = printed s"
  then have sr: "searched k q f s' = searched k q f s" for k q by (simp add: searched_def fun_eq_iff)
  show "outcome m kq f s \<Longrightarrow> outcome m kq f s'" unfolding outcome_def eq(1) sr .
qed

lemma search_hit:
  assumes "name_ok n"
  shows "outcome (search_loop (n # names) n ds s) (1, cwd s @ [n]) n s"
  using assms realpath_entry [OF assms, of s]
  by (subst search_loop.simps) (auto simp: outcome_def searched_def name_ok_def say_text_def Let_def split: option.split)

lemma search_skip:
  assumes "good_entries all" and "in_dir s all" and "(n, t) \<in> set all" and "t = Plain \<or> is_link t" and "n \<noteq> f"
  shows "search_loop (n # names) f ds s = search_loop names f (Some False) s"
  using no_dir_entry [OF assms(1-4)] assms(5) by (subst search_loop.simps) (simp add: name_ok_def)

lemma search_plain:
  assumes "good_entries all" and "in_dir s all" and "(n, t) \<in> set all" and "t = Plain \<or> is_link t" and "cwd s = p"
    and "n \<noteq> f \<Longrightarrow> outcome (search_loop names f (Some False) s) kq f s"
  shows "outcome (search_loop (n # names) f ds s) (if n = f then (1, p @ [n]) else kq) f s"
proof (cases "n = f")
  case True
  then show ?thesis using search_hit [OF no_dir_entry(1) [OF assms(1-4)], of names ds s] assms(5) by simp
next
  case False
  then show ?thesis using search_skip [OF assms(1-4) False] assms(6) by simp
qed

lemma search_loop_finds:
  assumes "good_entries all" and "in_dir s all" and "set rest \<subseteq> set all" and "cwd s = p"
  shows "outcome (search_loop (List.map fst rest) f ds s) (first_named f p rest) f s"
  using assms
proof (induction f p rest arbitrary: all s ds rule: first_named.induct)
  case (1 f p)
  show ?case by (subst search_loop.simps) (simp add: outcome_def searched_def)
next
  case (2 f p n es)
  show ?case
    using search_plain [OF 2(2,3) _ _ 2(5), of n Plain f "List.map fst es" "first_named f p es" ds] 2(1) [OF _ 2(2,3) _ 2(5)] 2(4)
    by simp
next
  case (3 f p n tg es)
  show ?case
    using search_plain [OF 3(2,3) _ _ 3(5), of n "Link tg" f "List.map fst es" "first_named f p es" ds] 3(1) [OF _ 3(2,3) _ 3(5)] 3(4)
    by simp
next
  case (4 f p n r x sub es)
  have mem: "(n, Dir r x sub) \<in> set all" using 4 by auto
  have n: "name_ok n" and d: "distinct (List.map fst all)"
    using good_entries_mem [OF 4(3) mem] good_entries_distinct [OF 4(3)] by simp_all
  have node: "sys_node follow n s = Some (Dir r x sub)" for follow using sys_walk_name(2) [OF 4(4) n mem d] by simp
  have sub: "r \<longrightarrow> x" "good_entries sub" using good_entries_sub [OF 4(3) mem] by auto
  have isdir: "lstat_isdir n s ds = Some True" using node by (simp add: lstat_isdir_def)
  show ?case
  proof (cases "n = f")
    case True
    then show ?thesis using search_hit [OF n, of "List.map fst es" ds s] 4(6) by simp
  next
    case other: False
    show ?thesis
    proof (cases r)
      case False
      then show ?thesis using other n node isdir
        by (subst search_loop.simps) (simp add: name_ok_def opendir_def outcome_def searched_def)
    next
      case True
      let ?s2 = "s\<lparr>open_dirs := open_dirs s + 1\<rparr>" and ?s3 = "s\<lparr>open_dirs := open_dirs s + 1, cwd := cwd s @ [n]\<rparr>"
      have here: "in_dir ?s2 all" using 4(4) by (simp add: in_dir_def)
      have into: "chdir n ?s2 = ?s3" "in_dir ?s3 sub"
        using enter_dir [OF here n _ d, of True sub] mem True sub(1) by simp_all
      obtain k q where kq: "first_named f (p @ [n]) sub = (k, q)" by fastforce
      have inner: "outcome (search_loop (List.map fst sub) f None ?s3) (k, q) f ?s3"
        using 4(1) [OF other _ sub(2) into(2)] True 4(6) kq by simp
      have step: "search_loop (n # List.map fst es) f ds s =
          Option.bind (search_loop (List.map fst sub) f None ?s3) (\<lambda>m. case m of
            Inl e \<Rightarrow> Some (Inl e)
          | Inr (r, s2) \<Rightarrow> if r \<noteq> 0 then Some (Inr (r, chdir ''..'' s2))
                          else search_loop (List.map fst es) f (Some True) (chdir ''..'' s2))"
        using other n node isdir True into(1)
        by (subst search_loop.simps) (simp add: name_ok_def opendir_def search_dots Let_def)
      show ?thesis
      proof (cases "k = 1 \<and> no_path (root s) q \<noteq> None")
        case True
        then obtain e where "k = 1" "no_path (root s) q = Some e" by auto
        then show ?thesis using inner kq other \<open>r\<close> step by (simp add: outcome_bad)
      next
        case False
        then obtain s4 where s4: "search_loop (List.map fst sub) f None ?s3 = Some (Inr (k, s4))" "searched k q f ?s3 s4"
          using inner outcome_fine [of k ?s3] by auto
        have "in_dir s4 sub" using into(2) s4(2) by (simp add: in_dir_def searched_def)
        then have out: "chdir ''..'' s4 = s4\<lparr>cwd := cwd s\<rparr>"
          using leave_dir [OF 4(4), of s4 sub n] s4(2) by (simp add: searched_def)
        show ?thesis
        proof (cases "k = 0")
          case True
          have t: "in_dir (s4\<lparr>cwd := cwd s\<rparr>) all" "set es \<subseteq> set all"
            using 4(4,5) s4(2) by (auto simp: in_dir_def searched_def)
          have "outcome (search_loop (List.map fst es) f (Some True) (s4\<lparr>cwd := cwd s\<rparr>)) (first_named f p es) f (s4\<lparr>cwd := cwd s\<rparr>)"
            using 4(2) [OF other _ kq [symmetric] _ 4(3) t] True \<open>r\<close> 4(6) by simp
          then show ?thesis
            using s4 step out True other \<open>r\<close> kq by (auto simp: searched_def intro: outcome_cong)
        next
          case no: False
          then show ?thesis
            using s4 step out False other \<open>r\<close> kq by (auto simp: outcome_fine searched_def Let_def)
        qed
      qed
    qed
  qed
qed

lemma search_dir_finds:
  assumes "in_dir s all" and "good_entries all" and "(n, Dir True x sub) \<in> set all"
  shows "outcome (search_dir n f s) (first_named f (cwd s @ [n]) sub) f s"
proof -
  let ?s2 = "s\<lparr>open_dirs := open_dirs s + 1\<rparr>" and ?s3 = "s\<lparr>open_dirs := open_dirs s + 1, cwd := cwd s @ [n]\<rparr>"
  have sub: "x" "good_entries sub" using good_entries_sub [OF assms(2,3)] by auto
  then have mem: "(n, Dir True True sub) \<in> set all" using assms(3) by simp
  have n: "name_ok n" "distinct (List.map fst all)" using good_entries_mem good_entries_distinct assms by blast+
  have here: "in_dir ?s2 all" using assms(1) by (simp add: in_dir_def)
  have into: "chdir n ?s2 = ?s3" "in_dir ?s3 sub" using enter_dir [OF here n(1) mem n(2)] by simp_all
  obtain k q where kq: "first_named f (cwd s @ [n]) sub = (k, q)" by fastforce
  have inner: "outcome (search_loop (List.map fst sub) f None ?s3) (k, q) f ?s3"
    using search_loop_finds [OF sub(2) into(2) subset_refl refl, of f None] kq by simp
  have step: "search_dir n f s = map_option (\<lambda>m. res_bind m (\<lambda>(r, s2). Inr (r, chdir ''..'' s2)))
      (search_loop (List.map fst sub) f None ?s3)"
    using sys_walk_name(2) [OF assms(1) n(1) mem n(2)] into(1)
    by (simp add: search_dir_def opendir_def search_dots)
  show ?thesis
  proof (cases "k = 1 \<and> no_path (root s) q \<noteq> None")
    case True
    then obtain e where "k = 1" "no_path (root s) q = Some e" by auto
    then show ?thesis using inner kq step by (simp add: outcome_bad)
  next
    case False
    then obtain s4 where s4: "search_loop (List.map fst sub) f None ?s3 = Some (Inr (k, s4))" "searched k q f ?s3 s4"
      using inner outcome_fine [of k ?s3] by auto
    have "in_dir s4 sub" using into(2) s4(2) by (simp add: in_dir_def searched_def)
    then have "chdir ''..'' s4 = s4\<lparr>cwd := cwd s\<rparr>"
      using leave_dir [OF assms(1), of s4 sub n] s4(2) by (simp add: searched_def)
    then show ?thesis using s4 step False kq by (auto simp: outcome_fine searched_def Let_def)
  qed
qed

section \<open>Real paths\<close>

lemma lookup_above:
  assumes "lookup t at = Some u"
  shows "at = [] \<or> (\<exists>r x es. lookup t (butlast at) = Some (Dir r x es))"
proof (cases "at = []")
  case False
  then have "lookup t (butlast at @ [last at]) = Some u" using assms by simp
  then obtain v where v: "lookup t (butlast at) = Some v" "lookup v [last at] = Some u"
    by (auto simp: lookup_append bind_eq_Some_conv)
  then show ?thesis by (cases v) auto
qed simp

text \<open>What links are followed to is no link.\<close>

lemma resolve_real:
  "resolve k follow t at cs = Some p \<Longrightarrow> follow \<Longrightarrow> lookup t at = Some u \<Longrightarrow> \<not> is_link u \<Longrightarrow>
   \<exists>v. lookup t p = Some v \<and> \<not> is_link v"
proof (induction k follow t at cs arbitrary: u rule: resolve.induct)
  case (2 k follow t at c cs)
  note eq = "2.prems"(1)
  have follow: "follow" using "2.prems"(2) .
  obtain r x es where d: "lookup t at = Some (Dir r x es)" "\<not> \<not> x"
    using eq by (auto split: option.splits fnode.splits if_splits)
  have top: "\<not> is_link t" using d(1) by (cases t; cases at) auto
  consider (here) "c = ''.''" | (up) "c \<noteq> ''.''" "c = ''..''" | (down) v where "c \<noteq> ''.''" "c \<noteq> ''..''" "map_of es c = Some v"
    using eq d by (cases "map_of es c") (auto split: if_splits)
  then show ?case
  proof cases
    case here
    then show ?thesis using "2.IH"(1) [OF d(1) refl d(2) here _ follow d(1)] eq d by simp
  next
    case up
    obtain v where v: "lookup t (butlast at) = Some v" "\<not> is_link v"
      using lookup_above [OF d(1)] d(1) by (cases "at = []") auto
    then show ?thesis using "2.IH"(2) [OF d(1) refl d(2) up _ follow v] eq d up by simp
  next
    case down
    have there: "lookup t (at @ [c]) = Some v" using d(1) down(3) by (simp add: lookup_append)
    show ?thesis
    proof (cases v)
      case Plain
      then show ?thesis using "2.IH"(3) [OF d(1) refl d(2) down(1,2,3) Plain _ follow there] eq d down by simp
    next
      case (Link tg)
      obtain j where j: "k = Suc j" "tg \<noteq> []"
          "resolve j follow t (if hd tg = CHR ''/'' then [] else at) (path_split [] tg @ cs) = Some p"
        using eq d down Link follow by (cases k) (auto split: if_splits)
      have n: "\<not> (cs = [] \<and> \<not> follow)" using follow by simp
      have "lookup t (if hd tg = CHR ''/'' then [] else at) = Some (if hd tg = CHR ''/'' then t else Dir r x es)"
        "\<not> is_link (if hd tg = CHR ''/'' then t else Dir r x es)"
        using d(1) top by simp_all
      from "2.IH"(4) [OF d(1) refl d(2) down(1,2,3) Link n j(1,2,3) follow this] show ?thesis .
    next
      case (Dir r' x' es')
      then show ?thesis using "2.IH"(5) [OF d(1) refl d(2) down(1,2,3) Dir _ follow there] eq d down by simp
    qed
  qed
qed auto

text \<open>The entry that is found is an entry of a directory below.\<close>

lemma first_named_entry:
  "first_named f p rest = (1, q) \<Longrightarrow> good_entries all \<Longrightarrow> lookup t p = Some (Dir r True all) \<Longrightarrow> set rest \<subseteq> set all \<Longrightarrow>
   \<exists>at r es. q = at @ [f] \<and> name_ok f \<and> f \<in> fst ` set es \<and> lookup t at = Some (Dir r True es)"
proof (induction f p rest arbitrary: all r rule: first_named.induct)
  case (4 f p n r' x sub es)
  have mem: "(n, Dir r' x sub) \<in> set all" using 4(6) by simp
  show ?case
  proof (cases "n = f")
    case True
    then show ?thesis using 4(3,5) good_entries_mem [OF 4(4) mem] mem by force
  next
    case False
    have r': "r'" using False 4(3) by (auto split: if_splits)
    then have sub: "x" "good_entries sub" using good_entries_sub [OF 4(4) mem] by auto
    have "map_of all n = Some (Dir r' x sub)" using mem good_entries_distinct [OF 4(4)] by simp
    then have there: "lookup t (p @ [n]) = Some (Dir r' True sub)" using 4(5) sub(1) by (simp add: lookup_append)
    obtain k q' where kq: "first_named f (p @ [n]) sub = (k, q')" by fastforce
    show ?thesis
    proof (cases "k = 0")
      case True
      then have "first_named f p es = (1, q)" using 4(3) False r' kq by simp
      then show ?thesis using 4(2) [OF False _ kq [symmetric] _ _ 4(4,5)] r' True 4(6) by auto
    next
      case no: False
      then have "first_named f (p @ [n]) sub = (1, q)" using 4(3) False r' kq by simp
      then show ?thesis using 4(1) [OF False _ _ sub(2) there] r' by auto
    qed
  qed
qed (auto split: if_splits dest: good_entries_mem intro!: exI rev_image_eqI)

lemma real_path_end:
  assumes "first_named f p sub = (1, q)" and "good_entries sub" and "lookup t p = Some (Dir r True sub)"
  shows "real_path t q = Some p' \<Longrightarrow> \<exists>v. lookup t p' = Some v \<and> \<not> is_link v"
    and "lookup t q = Some u \<Longrightarrow> \<not> is_link u \<Longrightarrow> real_path t q = Some q"
proof -
  obtain at r es where at: "q = at @ [f]" "name_ok f" "f \<in> fst ` set es" "lookup t at = Some (Dir r True es)"
    using first_named_entry [OF assms subset_refl] by blast
  show "\<exists>v. lookup t p' = Some v \<and> \<not> is_link v" if "real_path t q = Some p'"
    using resolve_real [of max_links True t at "[f]" p'] that at by (simp add: real_path_def)
  show "real_path t q = Some q" if "lookup t q = Some u" "\<not> is_link u"
    using that at by (cases u) (auto simp: real_path_def lookup_append name_ok_def split: option.splits)
qed

section \<open>A directory that cannot be entered\<close>

text \<open>
  When \<^verbatim>\<open>chdir\<close> fails the names of the directory are looked up in the one above. If one of them is
  the name of the directory itself the listing enters it again, for ever.
\<close>

definition self_named :: "string \<Rightarrow> walk \<Rightarrow> bool" where
  "self_named n s \<longleftrightarrow> name_ok n \<and>
     (\<exists>all t sub. in_dir s all \<and> distinct (List.map fst all) \<and> (n, Dir True False ((n, t) # sub)) \<in> set all)"

definition enters :: "string \<Rightarrow> string list \<Rightarrow> bool" where
  "enters n names \<longleftrightarrow> (\<exists>rest. names = n # rest \<or> names = ''..'' # n # rest \<or> names = ''.'' # ''..'' # n # rest)"

lemma self_named_calls:
  assumes "self_named n s"
  shows "lstat_isdir n s ds = Some True" and "chdir n s = s" and "\<exists>es. opendir n s = Some es \<and> enters n es"
proof -
  obtain all t sub where a: "name_ok n" "in_dir s all" "distinct (List.map fst all)"
      "(n, Dir True False ((n, t) # sub)) \<in> set all"
    using assms by (auto simp: self_named_def)
  then have "sys_node follow n s = Some (Dir True False ((n, t) # sub))" for follow by (intro sys_walk_name(2)) auto
  then show "lstat_isdir n s ds = Some True" "chdir n s = s" "\<exists>es. opendir n s = Some es \<and> enters n es"
    by (auto simp: lstat_isdir_def chdir_def opendir_def enters_def split: option.split)
qed

lemma scan_loop_stuck:
  assumes "dir_loop names depth ds s = Some r"
  shows "\<not> (self_named n s \<and> enters n names)"
proof (rule dir_loop.raw_induct [OF _ assms, where P = "\<lambda>names depth ds s r. \<not> (self_named n s \<and> enters n names)"], goal_cases)
  case (1 f names depth ds s r)
  note IH = 1(1) and body = 1(2)
  show ?case
  proof
    assume stuck: "self_named n s \<and> enters n names"
    then obtain rest where "names = n # rest \<or> names = ''..'' # n # rest \<or> names = ''.'' # ''..'' # n # rest"
      by (auto simp: enters_def)
    then consider (name) "names = n # rest" | (dots) tl' where "names = ''.'' # tl' \<or> names = ''..'' # tl'" "enters n tl'"
      by (auto simp: enters_def)
    then show False
    proof cases
      case dots
      then have "f tl' depth ds s = Some r" using body by auto
      from IH [OF this] dots(2) stuck show ?thesis by blast
    next
      case name
      let ?s1 = "print_indent (depth + 4) SPACE n (CHR ''/'') s"
      let ?s2 = "?s1\<lparr>open_dirs := open_dirs ?s1 + 1\<rparr>"
      have same: "self_named n ?s1" "self_named n ?s2"
        using stuck by (simp_all add: self_named_def in_dir_def print_indent_def say_text_def Let_def)
      obtain es where es: "opendir n ?s1 = Some es" "enters n es" using self_named_calls(3) [OF same(1)] by blast
      have "n \<noteq> ''.''" "n \<noteq> ''..''" using stuck by (auto simp: self_named_def name_ok_def)
      then obtain r' where "f es (depth + 4) None ?s2 = Some r'"
        using body name es(1) self_named_calls(1) [of n s ds] self_named_calls(2) [OF same(2)] stuck
        by (auto simp: Let_def bind_eq_Some_conv)
      from IH [OF this] es(2) same(2) show ?thesis by blast
    qed
  qed
qed

lemma scan_dir_stuck:
  assumes "self_named n s"
  shows "scan_dir n depth s = None"
proof -
  let ?s1 = "s\<lparr>open_dirs := open_dirs s + 1\<rparr>"
  have same: "self_named n ?s1" using assms by (simp add: self_named_def in_dir_def)
  obtain es where es: "opendir n s = Some es" "enters n es" using self_named_calls(3) [OF assms] by blast
  have "dir_loop es depth None ?s1 = None"
    using scan_loop_stuck [of es depth None ?s1] es(2) same by (meson not_Some_eq)
  then show ?thesis using es(1) self_named_calls(2) [OF same] by (simp add: scan_dir_def)
qed

section \<open>Properties\<close>

text \<open>C29. For a directory of the working directory whose readable directories can all be entered, \<^verbatim>\<open>scan_dir\<close>
  prints every entry below it, depth first, each level indented by four, directories with a
  slash and, where they are readable, followed by their contents; it returns 0 in the directory it
  started from, with every directory it opened closed.\<close>

theorem scan_prints_tree:
  assumes "in_dir s all" and "good_entries all" and "(n, Dir True x sub) \<in> set all"
  shows "env_main [prog, n] s = Some (Inr (0, (s\<lparr>abs_path := []\<rparr>)
    \<lparr>printed := printed s @ listing 0 sub @ ''scan dir '' @ n @ '' okay'' @ [NL]\<rparr>))"
proof -
  have "in_dir (s\<lparr>abs_path := []\<rparr>) all" using assms(1) by (simp add: in_dir_def)
  from scan_dir_lists [OF this assms(2,3), of 0] show ?thesis
    by (simp add: env_main_def Let_def say_text_def)
qed

definition demo_tree :: walk where
  "demo_tree = \<lparr>root = Dir True True [(''abc'', Dir True True
       [(''a.txt'', Plain), (''d'', Dir True True [(''c.c'', Plain)]), (''e'', Dir False False [])])],
     cwd = [], open_dirs = 0, abs_path = [], printed = []\<rparr>"

lemma scan_prints_tree_witness:
  "\<exists>s'. env_main [''a.out'', ''abc''] demo_tree = Some (Inr (0, s')) \<and> cwd s' = [] \<and> printed s' =
    ''    a.txt'' @ NL # ''    d/'' @ NL # ''        c.c'' @ NL # ''    e/'' @ NL # ''scan dir abc okay'' @ [NL]"
proof -
  let ?sub = "[(''a.txt'', Plain), (''d'', Dir True True [(''c.c'', Plain)]), (''e'', Dir False False [])]"
  have "in_dir demo_tree [(''abc'', Dir True True ?sub)]" by (auto simp: in_dir_def demo_tree_def)
  moreover have "good_entries [(''abc'', Dir True True ?sub)]" by (simp add: name_ok_def)
  ultimately show ?thesis
    using scan_prints_tree [of demo_tree "[(''abc'', Dir True True ?sub)]" "''abc''" True ?sub "''a.out''"]
    by (simp add: demo_tree_def eval_nat_numeral)
qed

text \<open>C30. With a directory and a file name the program finds the first entry of that name, depth first, and
  prints its absolute path, when that fits the 256 characters of the buffer: the path of the entry itself or,
  when the entry is a symbolic link, the path of what the link leads to, which is no link. A link that leads
  nowhere makes it print a buffer without contents. It reports that there is no such entry when there is none,
  and, wrongly, an empty path when a directory it cannot read comes first.\<close>

theorem search_finds_first:
  assumes "in_dir s all" and "good_entries all" and "(n, Dir True x sub) \<in> set all"
  shows "case first_named f (cwd s @ [n]) sub of (k, q) \<Rightarrow>
    if k = 1 then
      (case real_path (root s) q of
         None \<Rightarrow> env_main [prog, n, f] s = Some (Inl Uninit_Read)
       | Some p \<Rightarrow> (\<exists>t. lookup (root s) p = Some t \<and> \<not> is_link t)
           \<and> (\<forall>t. lookup (root s) q = Some t \<longrightarrow> \<not> is_link t \<longrightarrow> p = q)
           \<and> (if 256 \<le> length (path_str p) then env_main [prog, n, f] s = Some (Inl Out_Of_Bounds)
              else \<exists>s'. env_main [prog, n, f] s = Some (Inr (1, s')) \<and> cwd s' = cwd s \<and> printed s' = printed s @
                ''find '' @ f @ '': '' @ path_str p @ NL # ''file path: '' @ path_str p @ [NL]))
    else \<exists>s'. env_main [prog, n, f] s = Some (Inr (k, s')) \<and> cwd s' = cwd s \<and> printed s' = printed s @
           (if k = 0 then ''not find '' @ f @ [NL] else ''file path: '' @ [NL])"
proof -
  obtain k q where kq: "first_named f (cwd s @ [n]) sub = (k, q)" by fastforce
  have here: "in_dir (s\<lparr>abs_path := []\<rparr>) all" using assms(1) by (simp add: in_dir_def)
  have out: "outcome (search_dir n f (s\<lparr>abs_path := []\<rparr>)) (k, q) f (s\<lparr>abs_path := []\<rparr>)"
    using search_dir_finds [OF here assms(2,3), of f] kq by simp
  have sub: "good_entries sub" "lookup (root s) (cwd s @ [n]) = Some (Dir True True sub)"
    using good_entries_sub [OF assms(2,3)] assms good_entries_distinct [OF assms(2)]
    by (auto simp: in_dir_def lookup_append)
  show ?thesis
  proof (cases "k = 1")
    case True
    note ends = real_path_end [OF kq [unfolded True] sub]
    have "real_path (root s) q = Some p \<Longrightarrow> \<forall>t. lookup (root s) q = Some t \<longrightarrow> \<not> is_link t \<longrightarrow> p = q" for p
      using ends(2) by auto
    with True kq out ends(1) show ?thesis
      by (cases "real_path (root s) q")
        (auto simp: outcome_def no_path_def searched_def env_main_def Let_def say_text_def split: if_splits)
  next
    case False
    with kq out show ?thesis by (auto simp: outcome_def searched_def env_main_def Let_def say_text_def)
  qed
qed

text \<open>A tree with two links: one leads to a file of another directory, the other nowhere.\<close>

definition link_tree :: walk where
  "link_tree = demo_tree\<lparr>root := Dir True True [(''abc'', Dir True True
     [(''l.c'', Link ''../lib/x.c''), (''n.c'', Link ''none''), (''c.c'', Plain)]), (''lib'', Dir True True [(''x.c'', Plain)])]\<rparr>"

lemma search_finds_first_witness:
  "(\<exists>s'. env_main [''a.out'', ''abc'', ''c.c''] link_tree = Some (Inr (1, s'))
     \<and> printed s' = ''find c.c: /abc/c.c'' @ NL # ''file path: /abc/c.c'' @ [NL])
   \<and> (\<exists>s'. env_main [''a.out'', ''abc'', ''l.c''] link_tree = Some (Inr (1, s'))
     \<and> printed s' = ''find l.c: /lib/x.c'' @ NL # ''file path: /lib/x.c'' @ [NL])
   \<and> env_main [''a.out'', ''abc'', ''n.c''] link_tree = Some (Inl Uninit_Read)
   \<and> (\<exists>s'. env_main [''a.out'', ''abc'', ''none''] link_tree = Some (Inr (0, s')) \<and> printed s' = ''not find none'' @ [NL])"
proof -
  let ?sub = "[(''l.c'', Link ''../lib/x.c''), (''n.c'', Link ''none''), (''c.c'', Plain)]"
  let ?all = "[(''abc'', Dir True True ?sub), (''lib'', Dir True True [(''x.c'', Plain)])]"
  have d: "in_dir link_tree ?all" by (auto simp: in_dir_def link_tree_def demo_tree_def)
  have g: "good_entries ?all" by (simp add: name_ok_def)
  have m: "(''abc'', Dir True True ?sub) \<in> set ?all" by simp
  have r: "real_path (root link_tree) [''abc'', ''c.c''] = Some [''abc'', ''c.c'']"
    "real_path (root link_tree) [''abc'', ''l.c''] = Some [''lib'', ''x.c'']"
    "real_path (root link_tree) [''abc'', ''n.c''] = None"
    by (simp_all add: real_path_def link_tree_def)
  have c: "cwd link_tree = []" "printed link_tree = []" by (simp_all add: link_tree_def demo_tree_def)
  note find = search_finds_first [OF d g m, where prog = "''a.out''"]
  show ?thesis
    using find [where f = "''c.c''"] find [where f = "''l.c''"] find [where f = "''n.c''"] find [where f = "''none''"] r c
    by (auto simp: path_str_def)
qed

text \<open>A directory that can be read but not entered, and whose first entry has its own name, is listed
  for ever: \<^verbatim>\<open>chdir\<close> fails unnoticed, and the entry is looked up in the directory above.\<close>

theorem scan_never_ends:
  assumes "in_dir s all" and "good_entries all'" and "all = (n, Dir True False ((n, t) # sub)) # all'"
    and "name_ok n" and "n \<notin> fst ` set all'"
  shows "env_main [prog, n] s = None"
proof -
  have "self_named n (s\<lparr>abs_path := []\<rparr>)"
    using assms good_entries_distinct [OF assms(2)] unfolding self_named_def
    by (intro conjI exI [of _ all] exI [of _ t] exI [of _ sub]) (auto simp: in_dir_def)
  from scan_dir_stuck [OF this, of 0] show ?thesis by (simp add: env_main_def Let_def)
qed

lemma scan_never_ends_witness:
  "env_main [''a.out'', ''x''] (demo_tree\<lparr>root := Dir True True [(''x'', Dir True False [(''x'', Plain)])]\<rparr>) = None"
  by (rule scan_never_ends [where all = "[(''x'', Dir True False [(''x'', Plain)])]" and all' = "[]"
        and t = Plain and sub = "[]"]) (auto simp: in_dir_def demo_tree_def name_ok_def)

end
