(* ===== verification/Prod_Cons.thy ===== *)
theory Prod_Cons
  imports Step_System
begin

text \<open>
  Models \<^verbatim>\<open>c4-2/main.c\<close>: a producer posts a semaphore ten times, two consumers wait for it in
  loops, the main thread joins the producer, cancels the consumers and frees what they share.
  A step is one call or one access to shared memory of one thread. Shown: nothing is used after it is
  freed, the semaphore counts, and every schedule ends.
\<close>

section \<open>Data\<close>

text \<open>
  The mutex is initialised and never used; \<open>sem\<close> is the value of the semaphore. A line of output is
  its format, with the function name put in, and its numbers.
\<close>

record th_data =
  th_id :: int
  th_cmd :: int
  th_cnt :: int
  th_stop :: int
  th_sem :: nat
  th_slot :: "int list"

datatype k_pc = K_none | K_enter | K_first | K_test | K_wait | K_took | K_look | K_sleep | K_stopped | K_end

text \<open>A consumer: where it is, its variable \<open>stop\<close>, and whether it has been cancelled.\<close>

record consumer =
  k_pc :: k_pc
  k_stop :: int
  k_cancel :: bool

datatype p_pc =
  P_none | P_enter | P_first | P_test | P_sleep | P_slot | P_say | P_post | P_dec | P_zero | P_look | P_stopped | P_end

datatype m_pc =
  M_setup | M_create nat | M_join_c | M_cancel_b | M_cancel_a | M_join_b | M_join_a | M_free | M_ret int


record crew =
  ptd :: "th_data option"
  con_a :: consumer
  con_b :: consumer
  p_pc :: p_pc
  p_stop :: int
  m_pc :: m_pc
  crew_out :: "log_line list"

text \<open>Memory is there from \<^verbatim>\<open>malloc\<close> to \<^verbatim>\<open>free\<close>.\<close>

definition shared :: "crew \<Rightarrow> th_data res" where
  "shared s = (case ptd s of None \<Rightarrow> Inl Use_After_Free | Some d \<Rightarrow> Inr d)"

definition put_line :: "string \<Rightarrow> int list \<Rightarrow> crew \<Rightarrow> crew" where
  "put_line f ns s = s\<lparr>crew_out := crew_out s @ [(f, ns)]\<rparr>"

section \<open>The threads\<close>

text \<open>
  One step of a consumer, \<open>None\<close> when it cannot move: the semaphore is 0, or the thread has ended.
  Both consumers sleep for \<^verbatim>\<open>slot[0]\<close>.
\<close>

definition consumer_step :: "string \<Rightarrow> int \<Rightarrow> consumer \<Rightarrow> crew \<Rightarrow> (consumer \<times> crew) res option" where
  "consumer_step name pid k s =
     (case k_pc k of
        K_none \<Rightarrow> None
      | K_enter \<Rightarrow> Some (Inr (k\<lparr>k_stop := 0, k_pc := K_first\<rparr>, put_line (name @ '', process id=%d'') [pid] s))
      | K_first \<Rightarrow> Some (res_bind (shared s) (\<lambda>d. Inr (k\<lparr>k_stop := th_stop d, k_pc := K_test\<rparr>, s)))
      | K_test \<Rightarrow> Some (Inr (k\<lparr>k_pc := if k_stop k = 0 then K_wait else K_stopped\<rparr>, s))
      | K_wait \<Rightarrow>
          (case shared s of
             Inl e \<Rightarrow> Some (Inl e)
           | Inr d \<Rightarrow>
               if 0 < th_sem d
               then Some (Inr (k\<lparr>k_pc := K_took\<rparr>, s\<lparr>ptd := Some (d\<lparr>th_sem := th_sem d - 1\<rparr>)\<rparr>))
               else None)
      | K_took \<Rightarrow> Some (Inr (k\<lparr>k_pc := K_look\<rparr>, put_line (name @ '', take a sem'') [] s))
      | K_look \<Rightarrow> Some (res_bind (shared s) (\<lambda>d. Inr (k\<lparr>k_stop := th_stop d, k_pc := K_sleep\<rparr>, s)))
      | K_sleep \<Rightarrow> Some (res_bind (shared s) (\<lambda>d. res_bind (rd (th_slot d) 0) (\<lambda>_. Inr (k\<lparr>k_pc := K_test\<rparr>, s))))
      | K_stopped \<Rightarrow> Some (Inr (k\<lparr>k_pc := K_end\<rparr>, put_line (name @ '', stoped'') [] s))
      | K_end \<Rightarrow> None)"

definition thread_consumer_a :: "int \<Rightarrow> crew \<Rightarrow> crew res option" where
  "thread_consumer_a pid s =
     map_option (\<lambda>m. res_bind m (\<lambda>(k, s1). Inr (s1\<lparr>con_a := k\<rparr>)))
       (consumer_step ''thread_consumer_a'' pid (con_a s) s)"

definition thread_consumer_b :: "int \<Rightarrow> crew \<Rightarrow> crew res option" where
  "thread_consumer_b pid s =
     map_option (\<lambda>m. res_bind m (\<lambda>(k, s1). Inr (s1\<lparr>con_b := k\<rparr>)))
       (consumer_step ''thread_consumer_b'' pid (con_b s) s)"

text \<open>
  Cancellation is deferred: a cancelled thread ends at \<^verbatim>\<open>sem_wait\<close> or \<^verbatim>\<open>usleep\<close>, and may end at \<^verbatim>\<open>printf\<close>.
\<close>

definition at_cancel_point :: "consumer \<Rightarrow> bool" where
  "at_cancel_point k \<longleftrightarrow> k_cancel k \<and> k_pc k \<in> {K_enter, K_wait, K_took, K_sleep, K_stopped}"

text \<open>\<^verbatim>\<open>rand\<close> gives any two numbers \<open>r0\<close> and \<open>r1\<close> that are not negative.\<close>

definition gen_thread_slot :: "int \<Rightarrow> int \<Rightarrow> th_data \<Rightarrow> th_data" where
  "gen_thread_slot r0 r1 d = d\<lparr>th_slot := [r0 mod 50, r1 mod 50]\<rparr>"

definition thread_producer_c :: "int \<Rightarrow> int \<Rightarrow> int \<Rightarrow> crew \<Rightarrow> crew res option" where
  "thread_producer_c pid r0 r1 s =
     (case p_pc s of
        P_none \<Rightarrow> None
      | P_enter \<Rightarrow> Some (Inr (put_line ''thread_producer_c, process id=%d'' [pid] (s\<lparr>p_stop := 0, p_pc := P_first\<rparr>)))
      | P_first \<Rightarrow> Some (res_bind (shared s) (\<lambda>d. Inr (s\<lparr>p_stop := th_stop d, p_pc := P_test\<rparr>)))
      | P_test \<Rightarrow> Some (Inr (s\<lparr>p_pc := if p_stop s = 0 then P_sleep else P_stopped\<rparr>))
      | P_sleep \<Rightarrow> Some (Inr (s\<lparr>p_pc := P_slot\<rparr>))
      | P_slot \<Rightarrow> Some (res_bind (shared s) (\<lambda>d. Inr (s\<lparr>ptd := Some (gen_thread_slot r0 r1 d), p_pc := P_say\<rparr>)))
      | P_say \<Rightarrow> Some (Inr (put_line ''thread_producer_c, post a sem'' [] (s\<lparr>p_pc := P_post\<rparr>)))
      | P_post \<Rightarrow> Some (res_bind (shared s) (\<lambda>d. Inr (s\<lparr>ptd := Some (d\<lparr>th_sem := th_sem d + 1\<rparr>), p_pc := P_dec\<rparr>)))
      | P_dec \<Rightarrow> Some (res_bind (shared s) (\<lambda>d. res_bind (int_ok (th_cnt d - 1)) (\<lambda>n.
                   Inr (s\<lparr>ptd := Some (d\<lparr>th_cnt := n\<rparr>), p_pc := P_zero\<rparr>))))
      | P_zero \<Rightarrow> Some (res_bind (shared s) (\<lambda>d.
                   Inr (s\<lparr>ptd := Some (if th_cnt d = 0 then d\<lparr>th_stop := 1\<rparr> else d), p_pc := P_look\<rparr>)))
      | P_look \<Rightarrow> Some (res_bind (shared s) (\<lambda>d. Inr (s\<lparr>p_stop := th_stop d, p_pc := P_test\<rparr>)))
      | P_stopped \<Rightarrow> Some (Inr (put_line ''thread_producer_c, stoped'' [] (s\<lparr>p_pc := P_end\<rparr>)))
      | P_end \<Rightarrow> None)"

section \<open>The main thread\<close>

text \<open>What is before the threads: \<open>ok1\<close> and \<open>ok2\<close> say whether the calls of \<^verbatim>\<open>malloc\<close> succeed.\<close>

definition crew_setup :: "int \<Rightarrow> int \<Rightarrow> bool \<Rightarrow> bool \<Rightarrow> int \<Rightarrow> int \<Rightarrow> crew \<Rightarrow> crew" where
  "crew_setup pid tid ok1 ok2 r0 r1 s =
     (let s1 = put_line ''main, process id=%d, thread id=%d'' [pid, tid] s;
          d = gen_thread_slot r0 r1 \<lparr>th_id = 0, th_cmd = 1, th_cnt = 10, th_stop = 0, th_sem = 1, th_slot = []\<rparr>
      in if \<not> ok1 then put_line ''malloc ptd failed'' [] (s1\<lparr>m_pc := M_ret (- 1)\<rparr>)
         else if \<not> ok2 then put_line ''malloc attr failed'' [] (s1\<lparr>ptd := None, m_pc := M_ret (- 1)\<rparr>)
         else s1\<lparr>ptd := Some d, m_pc := M_create 0\<rparr>)"

text \<open>A round of the loop that creates the threads: \<open>r\<close> is the result of \<^verbatim>\<open>pthread_create\<close>, \<open>tid\<close> the identifier.\<close>

definition start_thread :: "nat \<Rightarrow> crew \<Rightarrow> crew" where
  "start_thread i s =
     (if i = 0 then s\<lparr>con_a := (con_a s)\<lparr>k_pc := K_enter\<rparr>\<rparr>
      else if i = 1 then s\<lparr>con_b := (con_b s)\<lparr>k_pc := K_enter\<rparr>\<rparr>
      else s\<lparr>p_pc := P_enter\<rparr>)"

definition crew_create :: "int \<Rightarrow> int \<Rightarrow> nat \<Rightarrow> crew \<Rightarrow> crew" where
  "crew_create r tid i s =
     (if r \<noteq> 0 then put_line ''create thread failed %d'' [r] (s\<lparr>m_pc := M_ret (- 1)\<rparr>)
      else put_line ''thread %d created'' [tid]
             ((start_thread i s)\<lparr>m_pc := if i + 1 < 3 then M_create (i + 1) else M_join_c\<rparr>))"

definition crew_finish :: "crew \<Rightarrow> crew res option" where
  "crew_finish s =
     (case m_pc s of
        M_join_c \<Rightarrow> if p_pc s = P_end then Some (Inr (s\<lparr>m_pc := M_cancel_b\<rparr>)) else None
      | M_cancel_b \<Rightarrow> Some (Inr (s\<lparr>con_b := (con_b s)\<lparr>k_cancel := True\<rparr>, m_pc := M_cancel_a\<rparr>))
      | M_cancel_a \<Rightarrow> Some (Inr (s\<lparr>con_a := (con_a s)\<lparr>k_cancel := True\<rparr>, m_pc := M_join_b\<rparr>))
      | M_join_b \<Rightarrow> if k_pc (con_b s) = K_end then Some (Inr (s\<lparr>m_pc := M_join_a\<rparr>)) else None
      | M_join_a \<Rightarrow> if k_pc (con_a s) = K_end then Some (Inr (s\<lparr>m_pc := M_free\<rparr>)) else None
      | M_free \<Rightarrow> Some (res_bind (shared s) (\<lambda>_. Inr (s\<lparr>ptd := None, m_pc := M_ret 0\<rparr>)))
      | _ \<Rightarrow> None)"

text \<open>The steps of the process until \<^verbatim>\<open>main\<close> returns, which ends all threads.\<close>

definition returned :: "crew \<Rightarrow> bool" where
  "returned s \<longleftrightarrow> (case m_pc s of M_ret r \<Rightarrow> True | _ \<Rightarrow> False)"

inductive c_step :: "crew \<Rightarrow> crew res \<Rightarrow> bool" where
  prepare: "m_pc s = M_setup \<Longrightarrow> 0 \<le> r0 \<Longrightarrow> 0 \<le> r1 \<Longrightarrow> c_step s (Inr (crew_setup pid tid ok1 ok2 r0 r1 s))"
| create: "m_pc s = M_create i \<Longrightarrow> c_step s (Inr (crew_create r tid i s))"
| finish: "crew_finish s = Some x \<Longrightarrow> c_step s x"
| run_a: "\<not> returned s \<Longrightarrow> thread_consumer_a pid s = Some x \<Longrightarrow> c_step s x"
| run_b: "\<not> returned s \<Longrightarrow> thread_consumer_b pid s = Some x \<Longrightarrow> c_step s x"
| run_c: "\<not> returned s \<Longrightarrow> 0 \<le> r0 \<Longrightarrow> 0 \<le> r1 \<Longrightarrow> thread_producer_c pid r0 r1 s = Some x \<Longrightarrow> c_step s x"
| cancel_a: "\<not> returned s \<Longrightarrow> at_cancel_point (con_a s) \<Longrightarrow> c_step s (Inr (s\<lparr>con_a := (con_a s)\<lparr>k_pc := K_end\<rparr>\<rparr>))"
| cancel_b: "\<not> returned s \<Longrightarrow> at_cancel_point (con_b s) \<Longrightarrow> c_step s (Inr (s\<lparr>con_b := (con_b s)\<lparr>k_pc := K_end\<rparr>\<rparr>))"

inductive_cases c_stepE: "c_step s x"

text \<open>The steps that are defined.\<close>

abbreviation c_ok :: "crew \<Rightarrow> crew \<Rightarrow> bool" where
  "c_ok s s' \<equiv> c_step s (Inr s')"

definition no_consumer :: consumer where
  "no_consumer = \<lparr>k_pc = K_none, k_stop = 0, k_cancel = False\<rparr>"

definition crew_start :: crew where
  "crew_start = \<lparr>ptd = None, con_a = no_consumer, con_b = no_consumer, p_pc = P_none, p_stop = 0, m_pc = M_setup, crew_out = []\<rparr>"

lemmas crew_defs = consumer_step_def thread_consumer_a_def thread_consumer_b_def at_cancel_point_def
  gen_thread_slot_def thread_producer_c_def crew_finish_def put_line_def shared_def returned_def

section \<open>The invariant\<close>

definition lines :: "string \<Rightarrow> crew \<Rightarrow> nat" where
  "lines f s = count_list (List.map fst (crew_out s)) f"

text \<open>Units of the semaphore taken by a consumer but not yet reported, posts reported but not made.\<close>

definition unsaid :: "consumer \<Rightarrow> nat" where
  "unsaid k = (if k_pc k = K_took then 1 else 0)"

definition producer_ok :: "crew \<Rightarrow> th_data \<Rightarrow> bool" where
  "producer_ok s d \<longleftrightarrow>
     (case p_pc s of
        P_none \<Rightarrow> th_cnt d = 10 \<and> th_stop d = 0
      | P_enter \<Rightarrow> th_cnt d = 10 \<and> th_stop d = 0
      | P_first \<Rightarrow> th_cnt d = 10 \<and> th_stop d = 0
      | P_test \<Rightarrow> (if p_stop s = 0 then 0 < th_cnt d \<and> th_stop d = 0 else th_cnt d = 0 \<and> th_stop d = 1)
      | P_zero \<Rightarrow> 0 \<le> th_cnt d \<and> th_stop d = 0
      | P_look \<Rightarrow> 0 \<le> th_cnt d \<and> th_stop d = (if th_cnt d = 0 then 1 else 0)
      | P_stopped \<Rightarrow> th_cnt d = 0 \<and> th_stop d = 1
      | P_end \<Rightarrow> th_cnt d = 0 \<and> th_stop d = 1
      | _ \<Rightarrow> 0 < th_cnt d \<and> th_stop d = 0)"

definition posts_said :: "crew \<Rightarrow> th_data \<Rightarrow> int" where
  "posts_said s d = 10 - th_cnt d + (if p_pc s \<in> {P_post, P_dec} then 1 else 0)"

definition said :: "string \<Rightarrow> consumer \<Rightarrow> crew \<Rightarrow> int" where
  "said name k s = int (lines (name @ '', take a sem'') s + unsaid k)"

text \<open>Where every unit of the semaphore is: in it, about to be posted, or taken.\<close>

definition units :: "crew \<Rightarrow> th_data \<Rightarrow> int" where
  "units s d = int (th_sem d) + (if p_pc s = P_post then 1 else 0)
     + said ''thread_consumer_a'' (con_a s) s + said ''thread_consumer_b'' (con_b s) s"

definition tally_ok :: "crew \<Rightarrow> th_data \<Rightarrow> bool" where
  "tally_ok s d \<longleftrightarrow> int (lines ''thread_producer_c, post a sem'' s) = posts_said s d
     \<and> units s d \<le> 1 + posts_said s d
     \<and> (k_cancel (con_a s) \<or> k_cancel (con_b s) \<or> units s d = 1 + posts_said s d)"

definition working :: "crew \<Rightarrow> bool" where
  "working s \<longleftrightarrow> (\<exists>d. ptd s = Some d \<and> length (th_slot d) = 2 \<and> th_cnt d \<le> 10 \<and> producer_ok s d \<and> tally_ok s d)"

definition crew_going :: "crew \<Rightarrow> bool" where
  "crew_going s \<longleftrightarrow> working s \<and> k_pc (con_a s) \<noteq> K_none \<and> k_pc (con_b s) \<noteq> K_none"

definition main_ok :: "crew \<Rightarrow> bool" where
  "main_ok s \<longleftrightarrow>
     (case m_pc s of
        M_setup \<Rightarrow> s = crew_start
      | M_create i \<Rightarrow> working s \<and> i < 3 \<and> p_pc s = P_none \<and> \<not> k_cancel (con_a s) \<and> \<not> k_cancel (con_b s)
          \<and> (i = 0 \<longrightarrow> k_pc (con_a s) = K_none) \<and> (i \<noteq> 0 \<longrightarrow> k_pc (con_a s) \<noteq> K_none)
          \<and> (i \<le> 1 \<longrightarrow> k_pc (con_b s) = K_none) \<and> (i = 2 \<longrightarrow> k_pc (con_b s) \<noteq> K_none)
      | M_join_c \<Rightarrow> crew_going s \<and> p_pc s \<noteq> P_none \<and> \<not> k_cancel (con_a s) \<and> \<not> k_cancel (con_b s)
      | M_cancel_b \<Rightarrow> crew_going s \<and> p_pc s = P_end
      | M_cancel_a \<Rightarrow> crew_going s \<and> p_pc s = P_end \<and> k_cancel (con_b s)
      | M_join_b \<Rightarrow> crew_going s \<and> p_pc s = P_end \<and> k_cancel (con_b s) \<and> k_cancel (con_a s)
      | M_join_a \<Rightarrow> crew_going s \<and> p_pc s = P_end \<and> k_pc (con_b s) = K_end \<and> k_cancel (con_a s)
      | M_free \<Rightarrow> crew_going s \<and> p_pc s = P_end \<and> k_pc (con_b s) = K_end \<and> k_pc (con_a s) = K_end
      | M_ret r \<Rightarrow> r = - 1 \<or> r = 0 \<and> ptd s = None \<and> p_pc s = P_end \<and> k_pc (con_a s) = K_end \<and> k_pc (con_b s) = K_end
          \<and> lines ''thread_producer_c, post a sem'' s = 10
          \<and> lines ''thread_consumer_a, take a sem'' s + lines ''thread_consumer_b, take a sem'' s \<le> 11)"

lemma lines_put [simp]: "lines f (put_line g ns s) = lines f s + (if f = g then 1 else 0)"
  by (simp add: lines_def put_line_def)

lemma lines_cong [simp]:
  "lines f (s\<lparr>ptd := d\<rparr>) = lines f s" "lines f (s\<lparr>con_a := k\<rparr>) = lines f s" "lines f (s\<lparr>con_b := k\<rparr>) = lines f s"
  "lines f (s\<lparr>p_pc := p\<rparr>) = lines f s" "lines f (s\<lparr>p_stop := i\<rparr>) = lines f s" "lines f (s\<lparr>m_pc := m\<rparr>) = lines f s"
  by (simp_all add: lines_def)


lemma put_line_fields [simp]:
  "ptd (put_line f ns s) = ptd s" "con_a (put_line f ns s) = con_a s" "con_b (put_line f ns s) = con_b s"
  "put_line f ns (s\<lparr>m_pc := m\<rparr>) = (put_line f ns s)\<lparr>m_pc := m\<rparr>" "p_pc (put_line f ns s) = p_pc s" "p_stop (put_line f ns s) = p_stop s" "m_pc (put_line f ns s) = m_pc s"
  by (simp_all add: put_line_def)

text \<open>What a step of a consumer does to the rest: it may take a unit, and reports it.\<close>

definition consumer_effect :: "string \<Rightarrow> consumer \<Rightarrow> crew \<Rightarrow> consumer \<Rightarrow> crew \<Rightarrow> bool" where
  "consumer_effect name k s k' s' \<longleftrightarrow>
     (\<exists>d d'. ptd s = Some d \<and> ptd s' = Some d' \<and> th_slot d' = th_slot d \<and> th_cnt d' = th_cnt d \<and> th_stop d' = th_stop d
        \<and> int (th_sem d') + said name k' s' = int (th_sem d) + said name k s)
     \<and> con_a s' = con_a s \<and> con_b s' = con_b s \<and> p_pc s' = p_pc s \<and> p_stop s' = p_stop s \<and> m_pc s' = m_pc s
     \<and> k_cancel k' = k_cancel k \<and> k_pc k \<noteq> K_none \<and> k_pc k \<noteq> K_end \<and> k_pc k' \<noteq> K_none
     \<and> (\<forall>f. f \<noteq> name @ '', take a sem'' \<and> last f = CHR ''m'' \<longrightarrow> lines f s' = lines f s)"

lemma consumer_step_ok:
  assumes "consumer_step name pid k s = Some x" and "ptd s = Some d" and "length (th_slot d) = 2"
  shows "case x of Inl e \<Rightarrow> False | Inr (k', s') \<Rightarrow> consumer_effect name k s k' s'"
proof -
  have r: "rd (th_slot d) 0 = Inr (th_slot d ! 0)" using assms(3) by (simp add: rd_def)
  show ?thesis using assms(1,2) r
    by (cases "k_pc k")
      (auto simp: consumer_step_def consumer_effect_def shared_def said_def unsaid_def of_nat_diff split: if_splits)
qed

text \<open>What a step of one thread leaves to the others.\<close>

definition keeps_a :: "crew \<Rightarrow> crew \<Rightarrow> bool" where
  "keeps_a s s' \<longleftrightarrow> con_b s' = con_b s \<and> p_pc s' = p_pc s \<and> m_pc s' = m_pc s \<and> k_cancel (con_a s') = k_cancel (con_a s)
     \<and> k_pc (con_a s) \<noteq> K_none \<and> k_pc (con_a s) \<noteq> K_end \<and> k_pc (con_a s') \<noteq> K_none"

definition keeps_b :: "crew \<Rightarrow> crew \<Rightarrow> bool" where
  "keeps_b s s' \<longleftrightarrow> con_a s' = con_a s \<and> p_pc s' = p_pc s \<and> m_pc s' = m_pc s \<and> k_cancel (con_b s') = k_cancel (con_b s)
     \<and> k_pc (con_b s) \<noteq> K_none \<and> k_pc (con_b s) \<noteq> K_end \<and> k_pc (con_b s') \<noteq> K_none"

definition keeps_c :: "crew \<Rightarrow> crew \<Rightarrow> bool" where
  "keeps_c s s' \<longleftrightarrow> con_a s' = con_a s \<and> con_b s' = con_b s \<and> m_pc s' = m_pc s
     \<and> p_pc s \<noteq> P_none \<and> p_pc s \<noteq> P_end \<and> p_pc s' \<noteq> P_none"

lemma workingE:
  assumes "working s"
  obtains d where "ptd s = Some d" "length (th_slot d) = 2" "th_cnt d \<le> 10" "producer_ok s d" "tally_ok s d"
  using assms by (auto simp: working_def)

lemma producer_ok_cong:
  "producer_ok s d \<Longrightarrow> p_pc s' = p_pc s \<Longrightarrow> p_stop s' = p_stop s \<Longrightarrow> th_cnt d' = th_cnt d \<Longrightarrow> th_stop d' = th_stop d
   \<Longrightarrow> producer_ok s' d'"
  by (cases "p_pc s") (simp_all add: producer_ok_def)

lemma said_congs [simp]:
  "said n k (s\<lparr>ptd := d\<rparr>) = said n k s" "said n k (s\<lparr>p_pc := p\<rparr>) = said n k s" "said n k (s\<lparr>p_stop := i\<rparr>) = said n k s"
  "said n k (s\<lparr>con_a := ka\<rparr>) = said n k s" "said n k (s\<lparr>con_b := kb\<rparr>) = said n k s" "said n k (s\<lparr>m_pc := m\<rparr>) = said n k s"
  "f \<noteq> n @ '', take a sem'' \<Longrightarrow> said n k (put_line f ns s) = said n k s"
  by (simp_all add: said_def)

lemma working_m_pc [simp]: "working (s\<lparr>m_pc := m\<rparr>) = working s"
proof -
  have "producer_ok (s\<lparr>m_pc := m\<rparr>) d = producer_ok s d" for d
    by (cases "p_pc s") (simp_all add: producer_ok_def)
  then show ?thesis by (simp add: working_def tally_ok_def units_def posts_said_def)
qed

lemma tally_ok_cong:
  "tally_ok s d \<Longrightarrow> units s' d' = units s d \<Longrightarrow> lines ''thread_producer_c, post a sem'' s' = lines ''thread_producer_c, post a sem'' s
   \<Longrightarrow> p_pc s' = p_pc s \<Longrightarrow> th_cnt d' = th_cnt d \<Longrightarrow> k_cancel (con_a s') = k_cancel (con_a s)
   \<Longrightarrow> k_cancel (con_b s') = k_cancel (con_b s) \<Longrightarrow> tally_ok s' d'"
  by (simp add: tally_ok_def posts_said_def)

lemma run_a_ok:
  assumes "thread_consumer_a pid s = Some x" and "working s"
  shows "\<exists>s'. x = Inr s' \<and> working s' \<and> keeps_a s s'"
proof -
  obtain d where d: "ptd s = Some d" "length (th_slot d) = 2" "th_cnt d \<le> 10" "producer_ok s d" "tally_ok s d"
    using workingE [OF assms(2)] .
  obtain k' s1 where k': "x = Inr (s1\<lparr>con_a := k'\<rparr>)"
      and e: "consumer_effect ''thread_consumer_a'' (con_a s) s k' s1"
    using assms(1) consumer_step_ok [OF _ d(1,2), of "''thread_consumer_a''" pid "con_a s"]
    by (auto simp: thread_consumer_a_def split: sum.splits)
  obtain d' where d': "ptd s1 = Some d'" "th_slot d' = th_slot d" "th_cnt d' = th_cnt d" "th_stop d' = th_stop d"
      "int (th_sem d') + said ''thread_consumer_a'' k' s1 = int (th_sem d) + said ''thread_consumer_a'' (con_a s) s"
    using e d(1) by (auto simp: consumer_effect_def)
  have l: "\<And>f. f \<noteq> ''thread_consumer_a, take a sem'' \<Longrightarrow> last f = CHR ''m'' \<Longrightarrow> lines f s1 = lines f s"
    using e by (simp add: consumer_effect_def)
  let ?s' = "s1\<lparr>con_a := k'\<rparr>"
  have k: "keeps_a s ?s'" "p_stop ?s' = p_stop s" using e by (simp_all add: consumer_effect_def keeps_a_def)
  have "producer_ok ?s' d'" using producer_ok_cong [OF d(4)] d'(3,4) k by (simp add: keeps_a_def)
  moreover have "tally_ok ?s' d'"
  proof (rule tally_ok_cong [OF d(5)])
    have "said ''thread_consumer_b'' (con_b ?s') ?s' = said ''thread_consumer_b'' (con_b s) s"
      using l [of "''thread_consumer_b, take a sem''"] k by (simp add: said_def keeps_a_def)
    then show "units ?s' d' = units s d" using d'(5) k by (simp add: units_def keeps_a_def)
  qed (use l [of "''thread_producer_c, post a sem''"] k d'(3) in \<open>simp_all add: keeps_a_def\<close>)
  ultimately show ?thesis using k' k(1) d(2,3) d' by (auto simp: working_def)
qed

lemma run_b_ok:
  assumes "thread_consumer_b pid s = Some x" and "working s"
  shows "\<exists>s'. x = Inr s' \<and> working s' \<and> keeps_b s s'"
proof -
  obtain d where d: "ptd s = Some d" "length (th_slot d) = 2" "th_cnt d \<le> 10" "producer_ok s d" "tally_ok s d"
    using workingE [OF assms(2)] .
  obtain k' s1 where k': "x = Inr (s1\<lparr>con_b := k'\<rparr>)"
      and e: "consumer_effect ''thread_consumer_b'' (con_b s) s k' s1"
    using assms(1) consumer_step_ok [OF _ d(1,2), of "''thread_consumer_b''" pid "con_b s"]
    by (auto simp: thread_consumer_b_def split: sum.splits)
  obtain d' where d': "ptd s1 = Some d'" "th_slot d' = th_slot d" "th_cnt d' = th_cnt d" "th_stop d' = th_stop d"
      "int (th_sem d') + said ''thread_consumer_b'' k' s1 = int (th_sem d) + said ''thread_consumer_b'' (con_b s) s"
    using e d(1) by (auto simp: consumer_effect_def)
  have l: "\<And>f. f \<noteq> ''thread_consumer_b, take a sem'' \<Longrightarrow> last f = CHR ''m'' \<Longrightarrow> lines f s1 = lines f s"
    using e by (simp add: consumer_effect_def)
  let ?s' = "s1\<lparr>con_b := k'\<rparr>"
  have k: "keeps_b s ?s'" "p_stop ?s' = p_stop s" using e by (simp_all add: consumer_effect_def keeps_b_def)
  have "producer_ok ?s' d'" using producer_ok_cong [OF d(4)] d'(3,4) k by (simp add: keeps_b_def)
  moreover have "tally_ok ?s' d'"
  proof (rule tally_ok_cong [OF d(5)])
    have "said ''thread_consumer_a'' (con_a ?s') ?s' = said ''thread_consumer_a'' (con_a s) s"
      using l [of "''thread_consumer_a, take a sem''"] k by (simp add: said_def keeps_b_def)
    then show "units ?s' d' = units s d" using d'(5) k by (simp add: units_def keeps_b_def)
  qed (use l [of "''thread_producer_c, post a sem''"] k d'(3) in \<open>simp_all add: keeps_b_def\<close>)
  ultimately show ?thesis using k' k(1) d(2,3) d' by (auto simp: working_def)
qed

lemma producer_step_ok:
  assumes "thread_producer_c pid r0 r1 s = Some x" and "working s"
  shows "case x of Inl e \<Rightarrow> False | Inr s' \<Rightarrow> working s' \<and> keeps_c s s'"
proof -
  obtain d where d: "ptd s = Some d" "length (th_slot d) = 2" "th_cnt d \<le> 10" "producer_ok s d" "tally_ok s d"
    using workingE [OF assms(2)] .
  define ua where "ua = said ''thread_consumer_a'' (con_a s) s"
  define ub where "ub = said ''thread_consumer_b'' (con_b s) s"
  define n where "n = int (lines ''thread_producer_c, post a sem'' s)"
  note counts = ua_def [symmetric] ub_def [symmetric] n_def [symmetric]
  have t: "n = posts_said s d" "units s d \<le> 1 + posts_said s d"
      "k_cancel (con_a s) \<or> k_cancel (con_b s) \<or> units s d = 1 + posts_said s d"
    using d(5) by (auto simp: tally_ok_def n_def)
  note defs = thread_producer_c_def shared_def keeps_c_def working_def producer_ok_def tally_ok_def units_def
    posts_said_def gen_thread_slot_def counts
  show ?thesis
    using d(1-4) assms(1) t by (cases "p_pc s") (auto simp: defs int_ok_def)
qed

lemma run_c_ok:
  assumes "thread_producer_c pid r0 r1 s = Some x" and "working s"
  shows "\<exists>s'. x = Inr s' \<and> working s' \<and> keeps_c s s'"
  using producer_step_ok [OF assms] by (cases x) auto

lemma cancelled_working:
  assumes "working s"
  shows "at_cancel_point (con_a s) \<Longrightarrow> working (s\<lparr>con_a := (con_a s)\<lparr>k_pc := K_end\<rparr>\<rparr>)"
    and "at_cancel_point (con_b s) \<Longrightarrow> working (s\<lparr>con_b := (con_b s)\<lparr>k_pc := K_end\<rparr>\<rparr>)"
proof -
  obtain d where d: "ptd s = Some d" "length (th_slot d) = 2" "th_cnt d \<le> 10" "producer_ok s d" "tally_ok s d"
    using workingE [OF assms] .
  let ?a = "s\<lparr>con_a := (con_a s)\<lparr>k_pc := K_end\<rparr>\<rparr>" and ?b = "s\<lparr>con_b := (con_b s)\<lparr>k_pc := K_end\<rparr>\<rparr>"
  have p: "producer_ok ?a d" "producer_ok ?b d" using producer_ok_cong [OF d(4)] by simp_all
  have "said n ((k\<lparr>k_pc := K_end\<rparr>)) s \<le> said n k s" for n k by (simp add: said_def unsaid_def)
  then have u: "units ?a d \<le> units s d" "units ?b d \<le> units s d" by (simp_all add: units_def)
  { assume "at_cancel_point (con_a s)"
    then have "tally_ok ?a d" using d(5) u(1) by (auto simp: tally_ok_def at_cancel_point_def posts_said_def)
    then show "working ?a" using p(1) d(1-3) by (auto simp: working_def) }
  { assume "at_cancel_point (con_b s)"
    then have "tally_ok ?b d" using d(5) u(2) by (auto simp: tally_ok_def at_cancel_point_def posts_said_def)
    then show "working ?b" using p(2) d(1-3) by (auto simp: working_def) }
qed

text \<open>Setting the flag of a consumer, or starting a thread, changes no count.\<close>

lemma flag_working:
  assumes "working s"
  shows "working (s\<lparr>con_a := (con_a s)\<lparr>k_cancel := True\<rparr>\<rparr>)" and "working (s\<lparr>con_b := (con_b s)\<lparr>k_cancel := True\<rparr>\<rparr>)"
proof -
  obtain d where d: "ptd s = Some d" "length (th_slot d) = 2" "th_cnt d \<le> 10" "producer_ok s d" "tally_ok s d"
    using workingE [OF assms] .
  let ?a = "s\<lparr>con_a := (con_a s)\<lparr>k_cancel := True\<rparr>\<rparr>" and ?b = "s\<lparr>con_b := (con_b s)\<lparr>k_cancel := True\<rparr>\<rparr>"
  have "producer_ok ?a d" "producer_ok ?b d" using producer_ok_cong [OF d(4)] by simp_all
  moreover have "said n ((k\<lparr>k_cancel := True\<rparr>)) s = said n k s" for n k by (simp add: said_def unsaid_def)
  then have "tally_ok ?a d" "tally_ok ?b d" using d(5) by (auto simp: tally_ok_def posts_said_def units_def)
  ultimately show "working ?a" "working ?b" using d(1-3) by (auto simp: working_def)
qed

lemma created_working:
  assumes "working s" and "main_ok s" and "m_pc s = M_create i"
  shows "working (put_line ''thread %d created'' ns (start_thread i s))"
proof -
  obtain d where d: "ptd s = Some d" "length (th_slot d) = 2" "th_cnt d \<le> 10" "producer_ok s d" "tally_ok s d"
    using workingE [OF assms(1)] .
  have m: "p_pc s = P_none" "i = 0 \<longrightarrow> k_pc (con_a s) = K_none" "i \<le> 1 \<longrightarrow> k_pc (con_b s) = K_none" "i < 3"
    using assms(2,3) by (auto simp: main_ok_def)
  let ?s = "put_line ''thread %d created'' ns (start_thread i s)"
  have "k_pc k = K_none \<Longrightarrow> said n ((k\<lparr>k_pc := K_enter\<rparr>)) s = said n k s" for n k by (simp add: said_def unsaid_def)
  then have "units ?s d = units s d" using m by (auto simp: units_def start_thread_def)
  moreover have "producer_ok ?s d" using d(4) m(1) by (auto simp: producer_ok_def start_thread_def)
  ultimately have "tally_ok ?s d" using d(5) m by (auto simp: tally_ok_def posts_said_def start_thread_def)
  then show ?thesis using \<open>producer_ok ?s d\<close> d(1-3) by (auto simp: working_def start_thread_def)
qed

lemma crew_setup_ok: "main_ok (crew_setup pid tid ok1 ok2 r0 r1 crew_start)"
  by (auto simp: crew_setup_def crew_start_def main_ok_def working_def producer_ok_def tally_ok_def units_def said_def
      posts_said_def gen_thread_slot_def no_consumer_def unsaid_def lines_def put_line_def Let_def)

lemma create_ok:
  assumes "main_ok s" and "m_pc s = M_create i"
  shows "main_ok (crew_create r tid i s)"
proof (cases "r = 0")
  case True
  have m: "working s" "i < 3" using assms by (auto simp: main_ok_def)
  have w: "working (put_line ''thread %d created'' [tid] (start_thread i s))" by (rule created_working [OF m(1) assms])
  then show ?thesis using True assms m(2) w
    by (auto simp: crew_create_def main_ok_def crew_going_def start_thread_def)
qed (simp add: crew_create_def main_ok_def)

text \<open>What the invariant asks of the threads depends on the main thread.\<close>

lemma main_ok_a:
  assumes "main_ok s" and "\<not> returned s" and "working s'" and "keeps_a s s'"
  shows "main_ok s'"
  using assms by (cases "m_pc s") (auto simp: main_ok_def keeps_a_def crew_going_def crew_start_def no_consumer_def returned_def)

lemma main_ok_b:
  assumes "main_ok s" and "\<not> returned s" and "working s'" and "keeps_b s s'"
  shows "main_ok s'"
  using assms by (cases "m_pc s") (auto simp: main_ok_def keeps_b_def crew_going_def crew_start_def no_consumer_def returned_def)

lemma main_ok_c:
  assumes "main_ok s" and "\<not> returned s" and "working s'" and "keeps_c s s'"
  shows "main_ok s'"
  using assms by (cases "m_pc s") (auto simp: main_ok_def keeps_c_def crew_going_def crew_start_def no_consumer_def returned_def)

lemma main_ok_working: "main_ok s \<Longrightarrow> \<not> returned s \<Longrightarrow> m_pc s \<noteq> M_setup \<Longrightarrow> working s"
  by (cases "m_pc s") (auto simp: main_ok_def crew_going_def returned_def)

lemma setup_state: "main_ok s \<Longrightarrow> m_pc s = M_setup \<Longrightarrow> s = crew_start"
  by (simp add: main_ok_def)

lemma nobody_yet:
  "thread_consumer_a pid crew_start = None" "thread_consumer_b pid crew_start = None"
  "thread_producer_c pid r0 r1 crew_start = None" "\<not> at_cancel_point (con_a crew_start)" "\<not> at_cancel_point (con_b crew_start)"
  by (simp_all add: crew_start_def no_consumer_def thread_consumer_a_def thread_consumer_b_def thread_producer_c_def
      consumer_step_def at_cancel_point_def)

lemma finish_ok:
  assumes "crew_finish s = Some x" and "main_ok s"
  shows "case x of Inl e \<Rightarrow> False | Inr s' \<Rightarrow> main_ok s'"
proof (cases "m_pc s = M_free")
  case True
  then have "working s" "p_pc s = P_end" "k_pc (con_a s) = K_end" "k_pc (con_b s) = K_end"
    using assms(2) by (auto simp: main_ok_def crew_going_def)
  moreover obtain d where "ptd s = Some d" "producer_ok s d" "tally_ok s d" using workingE [OF \<open>working s\<close>] .
  ultimately show ?thesis using True assms(1)
    by (auto simp: crew_finish_def shared_def main_ok_def producer_ok_def tally_ok_def posts_said_def units_def said_def)
next
  case False
  then show ?thesis using assms flag_working [of s]
    by (cases "m_pc s") (auto simp: crew_finish_def main_ok_def crew_going_def split: if_splits)
qed

section \<open>Every schedule ends\<close>

text \<open>Each step lowers the cost; a unit of the semaphore pays for a round of a consumer, a post for a unit.\<close>

fun k_cost :: "k_pc \<Rightarrow> nat" where
  "k_cost K_none = 14" | "k_cost K_enter = 13" | "k_cost K_first = 12" | "k_cost K_took = 10" | "k_cost K_look = 9"
| "k_cost K_sleep = 8" | "k_cost K_test = 6" | "k_cost K_wait = 5" | "k_cost K_stopped = 4" | "k_cost K_end = 0"

fun p_cost :: "p_pc \<Rightarrow> nat" where
  "p_cost P_none = 33" | "p_cost P_enter = 32" | "p_cost P_first = 31" | "p_cost P_test = 30" | "p_cost P_sleep = 29"
| "p_cost P_slot = 28" | "p_cost P_say = 27" | "p_cost P_post = 26" | "p_cost P_dec = 19" | "p_cost P_zero = 37"
| "p_cost P_look = 36" | "p_cost P_stopped = 5" | "p_cost P_end = 0"

fun m_cost :: "m_pc \<Rightarrow> nat" where
  "m_cost M_setup = 216" | "m_cost (M_create i) = 9 - i" | "m_cost M_join_c = 6" | "m_cost M_cancel_b = 5"
| "m_cost M_cancel_a = 4" | "m_cost M_join_b = 3" | "m_cost M_join_a = 2" | "m_cost M_free = 1" | "m_cost (M_ret r) = 0"

definition d_cost :: "crew \<Rightarrow> nat" where
  "d_cost s = (case ptd s of None \<Rightarrow> 0 | Some d \<Rightarrow> 20 * nat (th_cnt d) + 6 * th_sem d)"

definition cost :: "crew \<Rightarrow> nat" where
  "cost s = m_cost (m_pc s) + k_cost (k_pc (con_a s)) + k_cost (k_pc (con_b s)) + p_cost (p_pc s) + d_cost s"

lemma d_cost_congs [simp]:
  "d_cost (s\<lparr>con_a := k\<rparr>) = d_cost s" "d_cost (s\<lparr>con_b := k\<rparr>) = d_cost s" "d_cost (s\<lparr>p_pc := p\<rparr>) = d_cost s"
  "d_cost (s\<lparr>p_stop := i\<rparr>) = d_cost s" "d_cost (s\<lparr>m_pc := m\<rparr>) = d_cost s" "d_cost (put_line f ns s) = d_cost s"
  by (simp_all add: d_cost_def put_line_def)

lemma consumer_cost:
  assumes "consumer_step name pid k s = Some (Inr (k', s'))"
  shows "k_cost (k_pc k') + d_cost s' < k_cost (k_pc k) + d_cost s"
  using assms by (cases "k_pc k")
    (auto simp: consumer_step_def shared_def d_cost_def res_bind_Inr_iff split: option.splits if_splits)

lemma run_a_cost: "thread_consumer_a pid s = Some (Inr s') \<Longrightarrow> keeps_a s s' \<Longrightarrow> cost s' < cost s"
  by (auto simp: thread_consumer_a_def res_bind_Inr_iff cost_def keeps_a_def dest!: consumer_cost)

lemma run_b_cost: "thread_consumer_b pid s = Some (Inr s') \<Longrightarrow> keeps_b s s' \<Longrightarrow> cost s' < cost s"
  by (auto simp: thread_consumer_b_def res_bind_Inr_iff cost_def keeps_b_def dest!: consumer_cost)

lemma run_c_cost:
  assumes "thread_producer_c pid r0 r1 s = Some (Inr s')" and "working s"
  shows "cost s' < cost s"
proof -
  obtain d where "ptd s = Some d" "producer_ok s d" using workingE [OF assms(2)] .
  then show ?thesis using assms(1)
    by (cases "p_pc s")
      (auto simp: thread_producer_c_def shared_def producer_ok_def gen_thread_slot_def int_ok_def cost_def d_cost_def
        nat_diff_distrib split: if_splits)
qed

lemma finish_cost:
  assumes "crew_finish s = Some (Inr s')"
  shows "cost s' < cost s"
  using assms by (cases "m_pc s") (auto simp: crew_finish_def shared_def cost_def d_cost_def res_bind_Inr_iff split: if_splits)

lemma cancel_cost: "at_cancel_point k \<Longrightarrow> 0 < k_cost (k_pc k)"
  by (auto simp: at_cancel_point_def)

lemma step_ok:
  assumes "c_step s x" and "main_ok s"
  shows "\<exists>s'. x = Inr s' \<and> main_ok s' \<and> cost s' < cost s"
  using assms
proof (cases rule: c_step.cases)
  case (prepare r0 r1 pid tid ok1 ok2)
  have s: "s = crew_start" using assms(2) prepare(2) by (rule setup_state)
  have "cost (crew_setup pid tid ok1 ok2 r0 r1 crew_start) < cost crew_start"
    by (simp add: crew_setup_def crew_start_def no_consumer_def cost_def d_cost_def gen_thread_slot_def Let_def)
  then show ?thesis using prepare(1) s crew_setup_ok by blast
next
  case (create i r tid)
  have i: "i < 3" using assms(2) create(2) by (simp add: main_ok_def)
  have "main_ok s \<Longrightarrow> m_pc s = M_create i \<Longrightarrow> cost (crew_create r tid i s) < cost s"
    using i by (auto simp: crew_create_def start_thread_def cost_def main_ok_def)
  then show ?thesis using create create_ok [OF assms(2) create(2)] assms(2) by blast
next
  case finish
  then show ?thesis using finish_ok [OF finish assms(2)] finish_cost by (cases x) auto
next
  case (run_a pid)
  then have w: "working s" using main_ok_working [OF assms(2)] setup_state [OF assms(2)] nobody_yet by fastforce
  from run_a_ok [OF run_a(2) w] show ?thesis using main_ok_a [OF assms(2) run_a(1)] run_a_cost run_a(2) by blast
next
  case (run_b pid)
  then have w: "working s" using main_ok_working [OF assms(2)] setup_state [OF assms(2)] nobody_yet by fastforce
  from run_b_ok [OF run_b(2) w] show ?thesis using main_ok_b [OF assms(2) run_b(1)] run_b_cost run_b(2) by blast
next
  case (run_c r0 r1 pid)
  then have w: "working s" using main_ok_working [OF assms(2)] setup_state [OF assms(2)] nobody_yet by fastforce
  from run_c_ok [OF run_c(4) w] show ?thesis using main_ok_c [OF assms(2) run_c(1)] run_c_cost [OF _ w] run_c(4) by blast
next
  case cancel_a
  then have w: "working s" using main_ok_working [OF assms(2)] setup_state [OF assms(2)] nobody_yet by fastforce
  let ?s = "s\<lparr>con_a := (con_a s)\<lparr>k_pc := K_end\<rparr>\<rparr>"
  have "keeps_a s ?s" using cancel_a(3) by (auto simp: keeps_a_def at_cancel_point_def)
  then show ?thesis
    using main_ok_a [OF assms(2) cancel_a(2) cancelled_working(1) [OF w cancel_a(3)]] cancel_a cancel_cost by (simp add: cost_def)
next
  case cancel_b
  then have w: "working s" using main_ok_working [OF assms(2)] setup_state [OF assms(2)] nobody_yet by fastforce
  let ?s = "s\<lparr>con_b := (con_b s)\<lparr>k_pc := K_end\<rparr>\<rparr>"
  have "keeps_b s ?s" using cancel_b(3) by (auto simp: keeps_b_def at_cancel_point_def)
  then show ?thesis
    using main_ok_b [OF assms(2) cancel_b(2) cancelled_working(2) [OF w cancel_b(3)]] cancel_b cancel_cost by (simp add: cost_def)
qed

lemma progress:
  assumes "main_ok s" and "\<not> returned s"
  shows "\<exists>x. c_step s x"
proof (cases "m_pc s")
  case M_setup
  then have "c_step s (Inr (crew_setup 0 0 True True 0 0 s))" by (intro c_step.prepare) simp_all
  then show ?thesis by blast
next
  case M_create
  then show ?thesis using c_step.create by blast
next
  case M_join_c
  show ?thesis
  proof (cases "p_pc s = P_end")
    case True
    then show ?thesis using M_join_c c_step.finish [of s] by (auto simp: crew_finish_def)
  next
    case False
    then have "\<exists>x. thread_producer_c 0 0 0 s = Some x"
      using assms(1) M_join_c by (cases "p_pc s") (simp_all add: thread_producer_c_def main_ok_def)
    then show ?thesis using assms(2) c_step.run_c [of s 0 0 0] by auto
  qed
next
  case M_join_b
  then have k: "k_cancel (con_b s)" "k_pc (con_b s) \<noteq> K_none" using assms(1) by (simp_all add: main_ok_def crew_going_def)
  consider "k_pc (con_b s) = K_end" | "at_cancel_point (con_b s)" | "\<exists>x. thread_consumer_b 0 s = Some x"
    using k by (cases "k_pc (con_b s)") (auto simp: thread_consumer_b_def consumer_step_def at_cancel_point_def)
  then show ?thesis
  proof cases
    case 1
    then show ?thesis using M_join_b c_step.finish [of s] by (auto simp: crew_finish_def)
  qed (use assms(2) c_step.cancel_b c_step.run_b in blast)+
next
  case M_join_a
  then have k: "k_cancel (con_a s)" "k_pc (con_a s) \<noteq> K_none" using assms(1) by (simp_all add: main_ok_def crew_going_def)
  consider "k_pc (con_a s) = K_end" | "at_cancel_point (con_a s)" | "\<exists>x. thread_consumer_a 0 s = Some x"
    using k by (cases "k_pc (con_a s)") (auto simp: thread_consumer_a_def consumer_step_def at_cancel_point_def)
  then show ?thesis
  proof cases
    case 1
    then show ?thesis using M_join_a c_step.finish [of s] by (auto simp: crew_finish_def)
  qed (use assms(2) c_step.cancel_a c_step.run_a in blast)+
next
  case (M_ret r)
  then show ?thesis using assms(2) by (simp add: returned_def)
qed (use c_step.finish [of s] in \<open>auto simp: crew_finish_def\<close>)

interpretation crew: live_system c_ok main_ok cost returned
proof
  show "main_ok s'" "cost s' < cost s" if "main_ok s" "c_ok s s'" for s s'
    using step_ok [OF that(2,1)] by simp_all
  show "\<exists>s'. c_ok s s'" if "main_ok s" "\<not> returned s" for s
    using progress [OF that] step_ok [OF _ that(1)] by blast
qed

lemma crew_start_ok: "main_ok crew_start" "cost crew_start = 277"
  by (simp_all add: main_ok_def crew_start_def cost_def d_cost_def no_consumer_def)

section \<open>An example schedule\<close>

text \<open>Whoever can move first in the order consumers, producer, main thread moves.\<close>

definition demo_move :: "crew \<Rightarrow> crew res option" where
  "demo_move s =
     (case thread_consumer_a 7 s of
        Some x \<Rightarrow> Some x
      | None \<Rightarrow> (case thread_consumer_b 7 s of
          Some x \<Rightarrow> Some x
        | None \<Rightarrow> (case thread_producer_c 7 60 70 s of
            Some x \<Rightarrow> Some x
          | None \<Rightarrow> (case crew_finish s of
              Some x \<Rightarrow> Some x
            | None \<Rightarrow>
                if at_cancel_point (con_b s) then Some (Inr (s\<lparr>con_b := (con_b s)\<lparr>k_pc := K_end\<rparr>\<rparr>))
                else if at_cancel_point (con_a s) then Some (Inr (s\<lparr>con_a := (con_a s)\<lparr>k_pc := K_end\<rparr>\<rparr>))
                else None))))"

lemma demo_move_step: "demo_move s = Some x \<Longrightarrow> \<not> returned s \<Longrightarrow> c_step s x"
  unfolding demo_move_def
  by (auto split: option.splits if_splits intro: c_step.intros c_step.run_c [of s 60 70 7])

definition demo_next :: "crew \<Rightarrow> crew res option" where
  "demo_next s =
     (case m_pc s of
        M_setup \<Rightarrow> Some (Inr (crew_setup 7 1 True True 3 4 s))
      | M_create i \<Rightarrow> Some (Inr (crew_create 0 (int i) i s))
      | M_ret r \<Rightarrow> None
      | _ \<Rightarrow> demo_move s)"

lemma demo_next_step: "demo_next s = Some x \<Longrightarrow> c_step s x"
  by (cases "m_pc s") (auto simp: demo_next_def returned_def intro: c_step.intros demo_move_step)

interpretation demo_order: scheduled c_ok "\<lambda>_::unit. demo_next"
  by unfold_locales (rule demo_next_step)

lemma demo_run_ends: "seen m_pc (follow (\<lambda>_. demo_next) (replicate 157 ()) crew_start) = Some (M_ret 0)"
  by code_simp

lemma demo_ends: "\<exists>s. (c_ok ^^ 157) crew_start s \<and> m_pc s = M_ret 0"
proof -
  obtain s where "follow (\<lambda>_. demo_next) (replicate 157 ()) crew_start = Some (Inr s)" "m_pc s = M_ret 0"
    using seenE [OF demo_run_ends] .
  then show ?thesis using demo_order.follow_steps [of "replicate 157 ()" crew_start s] by auto
qed

section \<open>Properties\<close>

text \<open>C31. However the threads are scheduled, the program ends after at most 277 steps: no step is undefined,
  and a step is possible until the main thread has returned.\<close>

theorem crew_always_ends:
  assumes "(c_ok ^^ n) crew_start s"
  shows "n \<le> 277 \<and> (\<forall>e. \<not> c_step s (Inl e)) \<and> (returned s \<or> (\<exists>s'. c_step s (Inr s')))"
proof -
  have s: "main_ok s" "n \<le> 277"
    using crew.steps_keep [OF assms crew_start_ok(1)] crew.steps_bounded [OF assms crew_start_ok(1)] crew_start_ok(2) by auto
  then show ?thesis using progress [OF s(1)] step_ok [OF _ s(1)] by blast
qed

lemma crew_always_ends_witness:
  "\<exists>s. (c_ok ^^ 157) crew_start s \<and> m_pc s = M_ret 0 \<and> (\<forall>e. \<not> c_step s (Inl e))"
  using demo_ends crew_always_ends by blast

text \<open>C32. A run that ends with 0 has posted the semaphore ten times, after which the consumers have taken at
  most eleven units, the first included, and the shared memory is freed; otherwise it ends with -1.
  While the main thread waits for
  the producer every unit is in the semaphore, about to be posted, or taken by a consumer.\<close>

theorem crew_counts:
  assumes "(c_ok ^^ n) crew_start s"
  shows "(case m_pc s of
      M_ret r \<Rightarrow> r = - 1 \<or> r = 0 \<and> ptd s = None \<and> lines ''thread_producer_c, post a sem'' s = 10
        \<and> lines ''thread_consumer_a, take a sem'' s + lines ''thread_consumer_b, take a sem'' s \<le> 11
    | M_join_c \<Rightarrow> (\<exists>d. ptd s = Some d \<and> units s d = 1 + posts_said s d)
    | _ \<Rightarrow> True)"
proof -
  have "main_ok s" using crew.steps_keep [OF assms crew_start_ok(1)] .
  then show ?thesis by (cases "m_pc s") (auto simp: main_ok_def crew_going_def working_def tally_ok_def)
qed

lemma crew_counts_witness:
  "\<exists>s. (c_ok ^^ 157) crew_start s \<and> m_pc s = M_ret 0 \<and> lines ''thread_producer_c, post a sem'' s = 10"
proof -
  obtain s where s: "(c_ok ^^ 157) crew_start s" "m_pc s = M_ret 0" using demo_ends by blast
  then show ?thesis using crew_counts [OF s(1)] by auto
qed

end
