(* ===== verification/Thread_Demo.thy ===== *)
theory Thread_Demo
  imports Step_System
begin

text \<open>
  Models \<^verbatim>\<open>thread/thread.c\<close>: after a \<^verbatim>\<open>fork\<close> the child posts a semaphore for three threads, the parent
  broadcasts a condition to two. A step is one call or one access to shared memory. Shown: every take
  has its post, the mutex excludes, nothing blocks for ever, each worker works at most once for a broadcast;
  and that \<^verbatim>\<open>if\<close> around \<^verbatim>\<open>pthread_cond_wait\<close> lets two threads use up one activation.
\<close>

section \<open>Output\<close>


definition prints :: "string \<Rightarrow> log_line list \<Rightarrow> nat" where
  "prints f ls = count_list (List.map fst ls) f"

lemma prints_simps [simp]:
  "prints f [] = 0" "prints f (ls @ [(g, ns)]) = prints f ls + (if f = g then 1 else 0)"
  by (simp_all add: prints_def)

section \<open>The child: a semaphore\<close>

datatype t_pc = T_none | T_enter | T_wait | T_took

datatype q_pc = Q_init | Q_create nat | Q_created | Q_sleep | Q_say | Q_post

record sem_demo =
  sem1_cnt :: nat
  takers :: "t_pc list"
  q_pc :: q_pc
  sem_out :: "log_line list"

definition enter_text :: "nat \<Rightarrow> string" where
  "enter_text i = (if i = 0 then ''thread1'' else if i = 1 then ''thread2'' else ''thread3'') @ '' enter,pid=%d''"

definition take_text :: "nat \<Rightarrow> string" where
  "take_text i = (if i = 0 then ''THREAD1'' else if i = 1 then ''THREAD2'' else ''THREAD3'') @ '' take one signal''"

text \<open>The body the three thread functions share.\<close>

definition taker_step :: "nat \<Rightarrow> int \<Rightarrow> sem_demo \<Rightarrow> sem_demo option" where
  "taker_step i pid s =
     (case takers s ! i of
        T_none \<Rightarrow> None
      | T_enter \<Rightarrow> Some (s\<lparr>takers := (takers s)[i := T_wait], sem_out := sem_out s @ [(enter_text i, [pid])]\<rparr>)
      | T_wait \<Rightarrow>
          if 0 < sem1_cnt s then Some (s\<lparr>sem1_cnt := sem1_cnt s - 1, takers := (takers s)[i := T_took]\<rparr>) else None
      | T_took \<Rightarrow> Some (s\<lparr>takers := (takers s)[i := T_wait], sem_out := sem_out s @ [(take_text i, [])]\<rparr>))"

definition thread1_func :: "int \<Rightarrow> sem_demo \<Rightarrow> sem_demo option" where "thread1_func = taker_step 0"
definition thread2_func :: "int \<Rightarrow> sem_demo \<Rightarrow> sem_demo option" where "thread2_func = taker_step 1"
definition thread3_func :: "int \<Rightarrow> sem_demo \<Rightarrow> sem_demo option" where "thread3_func = taker_step 2"

definition SEM_VALUE_MAX :: int where "SEM_VALUE_MAX = 2147483647"

text \<open>A post that fails because the semaphore is at its maximum goes unnoticed.\<close>

definition sem_post :: "nat \<Rightarrow> nat" where
  "sem_post n = (if int n < SEM_VALUE_MAX then n + 1 else n)"

text \<open>\<open>ok\<close> says whether \<^verbatim>\<open>pthread_create\<close> succeeds; the code does not look.\<close>

definition test_sem :: "bool \<Rightarrow> sem_demo \<Rightarrow> sem_demo" where
  "test_sem ok s =
     (case q_pc s of
        Q_init \<Rightarrow> s\<lparr>sem1_cnt := 0, q_pc := Q_create 0, sem_out := sem_out s @ [(''init sem done'', [])]\<rparr>
      | Q_create i \<Rightarrow>
          s\<lparr>takers := (if ok then (takers s)[i := T_enter] else takers s),
            q_pc := if i + 1 < 3 then Q_create (i + 1) else Q_created\<rparr>
      | Q_created \<Rightarrow> s\<lparr>q_pc := Q_sleep, sem_out := sem_out s @ [(''create pthread done'', [])]\<rparr>
      | Q_sleep \<Rightarrow> s\<lparr>q_pc := Q_say\<rparr>
      | Q_say \<Rightarrow> s\<lparr>q_pc := Q_post, sem_out := sem_out s @ [(''POST a signal'', [])]\<rparr>
      | Q_post \<Rightarrow> s\<lparr>sem1_cnt := sem_post (sem1_cnt s), q_pc := Q_sleep\<rparr>)"

section \<open>The parent: a condition\<close>

datatype w_pc =
  V_none | V_enter | V_lock | V_read | V_test | V_blocked | V_woken | V_say | V_clear | V_unlock | V_sleep | V_work

datatype b_pc =
  B_init | B_create4 | B_create5 | B_zero | B_hello | B_sleep | B_lock | B_say | B_set | B_broadcast | B_unlock

datatype who = Main | Thread4 | Thread5

record worker =
  w_pc :: w_pc
  act :: int

record cond_demo =
  thread_active :: int
  mutex :: "who option"
  th4 :: worker
  th5 :: worker
  b_pc :: b_pc
  cond_out :: "log_line list"

definition to_pc :: "w_pc \<Rightarrow> worker \<Rightarrow> worker" where
  "to_pc p w = w\<lparr>w_pc := p\<rparr>"

definition cond_say :: "string \<Rightarrow> int list \<Rightarrow> cond_demo \<Rightarrow> cond_demo" where
  "cond_say f ns s = s\<lparr>cond_out := cond_out s @ [(f, ns)]\<rparr>"

text \<open>
  One step of a worker. In \<^verbatim>\<open>pthread_cond_wait\<close> it has released the mutex and is \<open>V_blocked\<close> until
  it is woken, then it takes the mutex again.
\<close>

definition cond_step :: "who \<Rightarrow> string \<Rightarrow> string \<Rightarrow> int \<Rightarrow> worker \<Rightarrow> cond_demo \<Rightarrow> (worker \<times> cond_demo) option" where
  "cond_step me small big pid w s =
     (case w_pc w of
        V_none \<Rightarrow> None
      | V_enter \<Rightarrow> Some (to_pc V_lock w, cond_say (small @ '' enter,pid=%d'') [pid] s)
      | V_lock \<Rightarrow> if mutex s = None then Some (to_pc V_read w, s\<lparr>mutex := Some me\<rparr>) else None
      | V_read \<Rightarrow> Some (to_pc V_test (w\<lparr>act := thread_active s\<rparr>), s)
      | V_test \<Rightarrow> if act w = 0 then Some (to_pc V_blocked w, s\<lparr>mutex := None\<rparr>) else Some (to_pc V_clear w, s)
      | V_blocked \<Rightarrow> None
      | V_woken \<Rightarrow> if mutex s = None then Some (to_pc V_say w, s\<lparr>mutex := Some me\<rparr>) else None
      | V_say \<Rightarrow> Some (to_pc V_clear w, cond_say (big @ '' wait cond done'') [] s)
      | V_clear \<Rightarrow> Some (to_pc V_unlock w, s\<lparr>thread_active := 0\<rparr>)
      | V_unlock \<Rightarrow> Some (to_pc V_sleep w, s\<lparr>mutex := None\<rparr>)
      | V_sleep \<Rightarrow> Some (to_pc V_work w, s)
      | V_work \<Rightarrow> Some (to_pc V_lock w, cond_say (big @ '' work done'') [] s))"

definition thread4_func :: "int \<Rightarrow> cond_demo \<Rightarrow> cond_demo option" where
  "thread4_func pid s =
     map_option (\<lambda>(w, s1). s1\<lparr>th4 := w\<rparr>) (cond_step Thread4 ''thread4'' ''THREAD4'' pid (th4 s) s)"

definition thread5_func :: "int \<Rightarrow> cond_demo \<Rightarrow> cond_demo option" where
  "thread5_func pid s =
     map_option (\<lambda>(w, s1). s1\<lparr>th5 := w\<rparr>) (cond_step Thread5 ''thread5'' ''THREAD5'' pid (th5 s) s)"

definition wake :: "worker \<Rightarrow> worker" where
  "wake w = (if w_pc w = V_blocked then to_pc V_woken w else w)"

definition test_cond :: "bool \<Rightarrow> int \<Rightarrow> cond_demo \<Rightarrow> cond_demo option" where
  "test_cond ok pid s =
     (case b_pc s of
        B_init \<Rightarrow> Some (s\<lparr>mutex := None, b_pc := B_create4\<rparr>)
      | B_create4 \<Rightarrow> Some (s\<lparr>th4 := (if ok then to_pc V_enter (th4 s) else th4 s), b_pc := B_create5\<rparr>)
      | B_create5 \<Rightarrow> Some (s\<lparr>th5 := (if ok then to_pc V_enter (th5 s) else th5 s), b_pc := B_zero\<rparr>)
      | B_zero \<Rightarrow> Some (s\<lparr>thread_active := 0, b_pc := B_hello\<rparr>)
      | B_hello \<Rightarrow> Some (cond_say ''main thread: pid=%d'' [pid] (s\<lparr>b_pc := B_sleep\<rparr>))
      | B_sleep \<Rightarrow> Some (s\<lparr>b_pc := B_lock\<rparr>)
      | B_lock \<Rightarrow> if mutex s = None then Some (s\<lparr>mutex := Some Main, b_pc := B_say\<rparr>) else None
      | B_say \<Rightarrow> Some (cond_say ''broadcast: thread active'' [] (s\<lparr>b_pc := B_set\<rparr>))
      | B_set \<Rightarrow> Some (s\<lparr>thread_active := 1, b_pc := B_broadcast\<rparr>)
      | B_broadcast \<Rightarrow> Some (s\<lparr>th4 := wake (th4 s), th5 := wake (th5 s), b_pc := B_unlock\<rparr>)
      | B_unlock \<Rightarrow> Some (s\<lparr>mutex := None, b_pc := B_sleep\<rparr>))"

section \<open>The two processes\<close>

datatype process = Child sem_demo | Parent cond_demo

text \<open>What \<^verbatim>\<open>main\<close> does with the result of \<^verbatim>\<open>fork\<close>; a failure, -1, is taken for the parent. Neither test returns.\<close>

definition child_start :: "int \<Rightarrow> sem_demo" where
  "child_start pid = \<lparr>sem1_cnt = 0, takers = replicate 3 T_none, q_pc = Q_init,
     sem_out = [(''Im child process,pid=%d'', [pid])]\<rparr>"

definition parent_start :: "int \<Rightarrow> cond_demo" where
  "parent_start pid = \<lparr>thread_active = 0, mutex = None, th4 = \<lparr>w_pc = V_none, act = 0\<rparr>,
     th5 = \<lparr>w_pc = V_none, act = 0\<rparr>, b_pc = B_init, cond_out = [(''Im parent process,pid=%d'', [pid])]\<rparr>"

definition thread_main :: "int \<Rightarrow> int \<Rightarrow> process" where
  "thread_main child pid = (if child = 0 then Child (child_start pid) else Parent (parent_start pid))"

text \<open>\<open>spur\<close> says whether \<^verbatim>\<open>pthread_cond_wait\<close> may return without a broadcast, as POSIX allows.\<close>

inductive t_step :: "bool \<Rightarrow> process \<Rightarrow> process \<Rightarrow> bool" for spur where
  sem_main: "t_step spur (Child s) (Child (test_sem ok s))"
| sem_1: "thread1_func pid s = Some s' \<Longrightarrow> t_step spur (Child s) (Child s')"
| sem_2: "thread2_func pid s = Some s' \<Longrightarrow> t_step spur (Child s) (Child s')"
| sem_3: "thread3_func pid s = Some s' \<Longrightarrow> t_step spur (Child s) (Child s')"
| cond_main: "test_cond ok pid s = Some s' \<Longrightarrow> t_step spur (Parent s) (Parent s')"
| cond_4: "thread4_func pid s = Some s' \<Longrightarrow> t_step spur (Parent s) (Parent s')"
| cond_5: "thread5_func pid s = Some s' \<Longrightarrow> t_step spur (Parent s) (Parent s')"
| spurious_4: "spur \<Longrightarrow> t_step spur (Parent s) (Parent (s\<lparr>th4 := wake (th4 s)\<rparr>))"
| spurious_5: "spur \<Longrightarrow> t_step spur (Parent s) (Parent (s\<lparr>th5 := wake (th5 s)\<rparr>))"

inductive_simps child_step: "t_step spur (Child s) p"
inductive_simps parent_step: "t_step spur (Parent s) p"

abbreviation t_run :: "bool \<Rightarrow> int \<Rightarrow> int \<Rightarrow> process \<Rightarrow> bool" where
  "t_run spur child pid p \<equiv> (t_step spur)\<^sup>*\<^sup>* (thread_main child pid) p"

section \<open>The child keeps count\<close>

definition posts :: "sem_demo \<Rightarrow> nat" where
  "posts s = prints ''POST a signal'' (sem_out s) - (if q_pc s = Q_post then 1 else 0)"

definition units_taken :: "sem_demo \<Rightarrow> nat" where
  "units_taken s = prints (take_text 0) (sem_out s) + prints (take_text 1) (sem_out s) + prints (take_text 2) (sem_out s)
     + count_list (takers s) T_took"

definition sem_count_ok :: "sem_demo \<Rightarrow> bool" where
  "sem_count_ok s \<longleftrightarrow> (q_pc s = Q_post \<longrightarrow> 0 < prints ''POST a signal'' (sem_out s)) \<and> sem1_cnt s + units_taken s \<le> posts s
     \<and> (int (posts s) \<le> SEM_VALUE_MAX \<longrightarrow> sem1_cnt s + units_taken s = posts s)"

text \<open>Threads not yet created do nothing.\<close>

definition created_ok :: "sem_demo \<Rightarrow> bool" where
  "created_ok s \<longleftrightarrow>
     (case q_pc s of
        Q_init \<Rightarrow> takers s = replicate 3 T_none \<and> sem1_cnt s = 0
      | Q_create i \<Rightarrow> i < 3 \<and> drop i (takers s) = replicate (3 - i) T_none
      | _ \<Rightarrow> True)"

definition child_ok :: "sem_demo \<Rightarrow> bool" where
  "child_ok s \<longleftrightarrow> length (takers s) = 3 \<and> sem_count_ok s \<and> created_ok s"

lemma three: "length xs = 3 \<Longrightarrow> \<exists>a b c. xs = [a, b, c]"
  by (auto simp: eval_nat_numeral length_Suc_conv)

lemma less_three: "(i::nat) < 3 \<Longrightarrow> i = 0 \<or> i = 1 \<or> i = 2"
  by auto

lemma texts_differ:
  "take_text 0 \<noteq> take_text (Suc 0)" "take_text 0 \<noteq> take_text 2" "take_text (Suc 0) \<noteq> take_text 2"
  "take_text (Suc 0) \<noteq> take_text 0" "take_text 2 \<noteq> take_text 0" "take_text 2 \<noteq> take_text (Suc 0)"
  "take_text i \<noteq> enter_text j" "take_text i \<noteq> ''init sem done''" "take_text i \<noteq> ''create pthread done''"
  "take_text i \<noteq> ''POST a signal''" "''POST a signal'' \<noteq> take_text i" "''POST a signal'' \<noteq> enter_text i"
  by (simp_all add: take_text_def enter_text_def)

lemma count_ok_cong:
  "sem_count_ok s \<Longrightarrow> q_pc s' = q_pc s \<Longrightarrow> prints ''POST a signal'' (sem_out s') = prints ''POST a signal'' (sem_out s)
   \<Longrightarrow> sem1_cnt s' + units_taken s' = sem1_cnt s + units_taken s \<Longrightarrow> sem_count_ok s'"
  by (simp add: sem_count_ok_def posts_def)

lemma taker_counts:
  assumes "i < 3" and "length (takers s) = 3"
  shows "case taker_step i pid s of None \<Rightarrow> True | Some s' \<Rightarrow>
    q_pc s' = q_pc s \<and> prints ''POST a signal'' (sem_out s') = prints ''POST a signal'' (sem_out s)
    \<and> sem1_cnt s' + units_taken s' = sem1_cnt s + units_taken s \<and> length (takers s') = 3
    \<and> takers s ! i \<noteq> T_none \<and> (\<exists>p. takers s' = (takers s)[i := p])"
proof -
  obtain a b c where t: "takers s = [a, b, c]" using three assms(2) by blast
  have "i = 0 \<or> i = Suc 0 \<or> i = 2" using less_three [OF assms(1)] by simp
  then show ?thesis
    using t by (cases "takers s ! i") (auto simp: taker_step_def units_taken_def texts_differ)
qed

lemma taker_keeps:
  assumes "i < 3" and "child_ok s"
  shows "case taker_step i pid s of None \<Rightarrow> True | Some s' \<Rightarrow> child_ok s'"
proof (cases "taker_step i pid s")
  case (Some s')
  have s: "length (takers s) = 3" "sem_count_ok s" "created_ok s" using assms(2) by (auto simp: child_ok_def)
  from taker_counts [OF assms(1) s(1), of pid] Some
  obtain p where e: "q_pc s' = q_pc s" "prints ''POST a signal'' (sem_out s') = prints ''POST a signal'' (sem_out s)"
      "sem1_cnt s' + units_taken s' = sem1_cnt s + units_taken s" "length (takers s') = 3" "takers s ! i \<noteq> T_none"
      "takers s' = (takers s)[i := p]" by auto
  have "created_ok s'"
  proof (cases "q_pc s")
    case Q_init
    then show ?thesis using s(3) e(5) assms(1) by (simp add: created_ok_def)
  next
    case (Q_create k)
    then have d: "drop k (takers s) = replicate (3 - k) T_none" "k < 3" using s(3) by (auto simp: created_ok_def)
    have "i < k"
    proof (rule ccontr)
      assume "\<not> i < k"
      then have "takers s ! i = drop k (takers s) ! (i - k)" using d(2) s(1) by simp
      then show False using e(5) d assms(1) \<open>\<not> i < k\<close> by simp
    qed
    then show ?thesis using Q_create d e(1,6) by (simp add: created_ok_def)
  qed (use e(1) in \<open>simp_all add: created_ok_def\<close>)
  then show ?thesis using Some e count_ok_cong [OF s(2) e(1,2,3)] by (simp add: child_ok_def)
qed simp

lemma sem_main_keeps:
  assumes "child_ok s"
  shows "child_ok (test_sem ok s)"
proof -
  obtain a b c where t: "takers s = [a, b, c]" using three [of "takers s"] assms by (auto simp: child_ok_def)
  show ?thesis
  proof (cases "q_pc s")
    case (Q_create i)
    then have "i = 0 \<or> i = Suc 0 \<or> i = 2" using assms less_three [of i] by (auto simp: child_ok_def created_ok_def)
    then show ?thesis using Q_create assms t
      by (elim disjE) (auto simp: test_sem_def child_ok_def sem_count_ok_def created_ok_def posts_def units_taken_def numeral_3_eq_3)
  next
    case Q_post
    then show ?thesis using assms
      by (auto simp: test_sem_def child_ok_def sem_count_ok_def created_ok_def posts_def units_taken_def sem_post_def)
  qed (use assms in \<open>auto simp: test_sem_def child_ok_def sem_count_ok_def created_ok_def posts_def units_taken_def texts_differ\<close>)
qed

section \<open>The parent's mutex\<close>

text \<open>Where a thread holds the mutex.\<close>

fun inside :: "w_pc \<Rightarrow> bool" where
  "inside V_read = True" | "inside V_test = True" | "inside V_say = True" | "inside V_clear = True"
| "inside V_unlock = True" | "inside _ = False"

fun b_inside :: "b_pc \<Rightarrow> bool" where
  "b_inside B_say = True" | "b_inside B_set = True" | "b_inside B_broadcast = True" | "b_inside B_unlock = True"
| "b_inside _ = False"

definition mutex_ok :: "cond_demo \<Rightarrow> bool" where
  "mutex_ok s \<longleftrightarrow> b_inside (b_pc s) = (mutex s = Some Main) \<and> inside (w_pc (th4 s)) = (mutex s = Some Thread4)
     \<and> inside (w_pc (th5 s)) = (mutex s = Some Thread5)
     \<and> (b_pc s \<in> {B_init, B_create4} \<longrightarrow> w_pc (th4 s) = V_none)
     \<and> (b_pc s \<in> {B_init, B_create4, B_create5} \<longrightarrow> w_pc (th5 s) = V_none)"

lemmas cond_defs = to_pc_def cond_say_def

lemma wake_simps [simp]: "inside (w_pc (wake w)) = inside (w_pc w)" "w_pc (wake w) = V_none \<longleftrightarrow> w_pc w = V_none"
  by (simp_all add: wake_def to_pc_def)

lemma th4_mutex: "mutex_ok s \<Longrightarrow> case thread4_func pid s of None \<Rightarrow> True | Some s' \<Rightarrow> mutex_ok s'"
  by (cases "w_pc (th4 s)") (simp_all add: thread4_func_def cond_step_def mutex_ok_def cond_defs)

lemma th5_mutex: "mutex_ok s \<Longrightarrow> case thread5_func pid s of None \<Rightarrow> True | Some s' \<Rightarrow> mutex_ok s'"
  by (cases "w_pc (th5 s)") (simp_all add: thread5_func_def cond_step_def mutex_ok_def cond_defs)

lemma main_mutex: "mutex_ok s \<Longrightarrow> case test_cond ok pid s of None \<Rightarrow> True | Some s' \<Rightarrow> mutex_ok s'"
  by (cases "b_pc s") (auto simp: test_cond_def mutex_ok_def cond_defs)

lemma wake_mutex: "mutex_ok s \<Longrightarrow> mutex_ok (s\<lparr>th4 := wake (th4 s)\<rparr>) \<and> mutex_ok (s\<lparr>th5 := wake (th5 s)\<rparr>)"
  by (simp add: mutex_ok_def cond_defs)

section \<open>Work and broadcasts\<close>

text \<open>A worker that has cleared the flag but not yet reported, and one that will clear it.\<close>

fun cleared :: "w_pc \<Rightarrow> nat" where
  "cleared V_unlock = 1" | "cleared V_sleep = 1" | "cleared V_work = 1" | "cleared _ = 0"

fun going :: "w_pc \<Rightarrow> int \<Rightarrow> bool" where
  "going V_woken a = True" | "going V_say a = True" | "going V_clear a = True" | "going V_test a = (a \<noteq> 0)" | "going _ a = False"

definition bcast_text :: string where
  "bcast_text = ''broadcast: thread active''"

definition work_ok :: "string \<Rightarrow> worker \<Rightarrow> cond_demo \<Rightarrow> bool" where
  "work_ok big w s \<longleftrightarrow>
     prints (big @ '' work done'') (cond_out s) + cleared (w_pc w)
       + (if going (w_pc w) (act w) \<or> thread_active s \<noteq> 0 then 1 else 0) + (if b_pc s = B_set then 1 else 0)
     \<le> prints bcast_text (cond_out s)"

definition parent_ok :: "cond_demo \<Rightarrow> bool" where
  "parent_ok s \<longleftrightarrow> mutex_ok s \<and> (b_pc s = B_broadcast \<longrightarrow> thread_active s \<noteq> 0)
     \<and> work_ok ''THREAD4'' (th4 s) s \<and> work_ok ''THREAD5'' (th5 s) s"

lemma cond_step_work:
  assumes "work_ok big w s" and "b_pc s \<noteq> B_broadcast \<or> w_pc w \<noteq> V_clear"
    and "work_ok other v s" and "(big, small, other) \<in> {(''THREAD4'', ''thread4'', ''THREAD5''), (''THREAD5'', ''thread5'', ''THREAD4'')}"
  shows "case cond_step me small big pid w s of None \<Rightarrow> True
    | Some (w', s') \<Rightarrow> work_ok big w' s' \<and> work_ok other v s' \<and> b_pc s' = b_pc s
        \<and> (b_pc s = B_broadcast \<longrightarrow> thread_active s' = thread_active s)"
proof -
  have t: "bcast_text \<noteq> small @ '' enter,pid=%d''" "bcast_text \<noteq> big @ '' wait cond done''" "bcast_text \<noteq> big @ '' work done''"
      "x @ '' work done'' \<noteq> small @ '' enter,pid=%d''" "x @ '' work done'' \<noteq> big @ '' wait cond done''"
      "other @ '' work done'' \<noteq> big @ '' work done''" if "x \<in> {big, other}" for x
    using assms(4) that by (auto simp: bcast_text_def)
  show ?thesis
    using assms(1,2,3) t [of big] t [of other]
    by (cases "w_pc w") (auto simp: cond_step_def work_ok_def cond_defs split: if_splits)
qed

lemma work_ok_cong:
  "work_ok big w s \<Longrightarrow> cond_out s' = cond_out s \<Longrightarrow> thread_active s' = thread_active s \<Longrightarrow> b_pc s' = b_pc s
   \<Longrightarrow> work_ok big w s'"
  by (simp add: work_ok_def)

lemma clear_inside: "mutex_ok s \<Longrightarrow> b_pc s = B_broadcast \<Longrightarrow> w_pc (th4 s) \<noteq> V_clear \<and> w_pc (th5 s) \<noteq> V_clear"
  by (auto simp: mutex_ok_def)

lemma th4_parent:
  assumes "parent_ok s"
  shows "case thread4_func pid s of None \<Rightarrow> True | Some s' \<Rightarrow> parent_ok s'"
proof (cases "thread4_func pid s")
  case (Some s')
  then obtain w s1 where c: "cond_step Thread4 ''thread4'' ''THREAD4'' pid (th4 s) s = Some (w, s1)" "s' = s1\<lparr>th4 := w\<rparr>"
    by (auto simp: thread4_func_def)
  have p: "mutex_ok s" "work_ok ''THREAD4'' (th4 s) s" "work_ok ''THREAD5'' (th5 s) s" using assms by (auto simp: parent_ok_def)
  have b: "b_pc s \<noteq> B_broadcast \<or> w_pc (th4 s) \<noteq> V_clear" using clear_inside [OF p(1)] by blast
  have "th5 s1 = th5 s" using c(1) by (cases "w_pc (th4 s)") (auto simp: cond_step_def cond_say_def split: if_splits)
  then show ?thesis
    using Some c cond_step_work [OF p(2) b p(3), of "''thread4''" Thread4 pid] th4_mutex [OF p(1), of pid] assms
    by (auto simp: parent_ok_def work_ok_def)
qed simp

lemma th5_parent:
  assumes "parent_ok s"
  shows "case thread5_func pid s of None \<Rightarrow> True | Some s' \<Rightarrow> parent_ok s'"
proof (cases "thread5_func pid s")
  case (Some s')
  then obtain w s1 where c: "cond_step Thread5 ''thread5'' ''THREAD5'' pid (th5 s) s = Some (w, s1)" "s' = s1\<lparr>th5 := w\<rparr>"
    by (auto simp: thread5_func_def)
  have p: "mutex_ok s" "work_ok ''THREAD4'' (th4 s) s" "work_ok ''THREAD5'' (th5 s) s" using assms by (auto simp: parent_ok_def)
  have b: "b_pc s \<noteq> B_broadcast \<or> w_pc (th5 s) \<noteq> V_clear" using clear_inside [OF p(1)] by blast
  have "th4 s1 = th4 s" using c(1) by (cases "w_pc (th5 s)") (auto simp: cond_step_def cond_say_def split: if_splits)
  then show ?thesis
    using Some c cond_step_work [OF p(3) b p(2), of "''thread5''" Thread5 pid] th5_mutex [OF p(1), of pid] assms
    by (auto simp: parent_ok_def work_ok_def)
qed simp

text \<open>A broadcast comes after the flag is set, so it makes no worker go that would not have gone.\<close>

lemma wake_work:
  assumes "work_ok big w s" and "thread_active s \<noteq> 0"
  shows "work_ok big (wake w) s"
  using assms by (auto simp: work_ok_def wake_def to_pc_def)

lemma main_parent:
  assumes "parent_ok s"
  shows "case test_cond ok pid s of None \<Rightarrow> True | Some s' \<Rightarrow> parent_ok s'"
proof (cases "b_pc s = B_broadcast")
  case True
  let ?s = "s\<lparr>th4 := wake (th4 s), th5 := wake (th5 s), b_pc := B_unlock\<rparr>"
  have p: "mutex_ok s" "thread_active s \<noteq> 0" "work_ok ''THREAD4'' (th4 s) s" "work_ok ''THREAD5'' (th5 s) s"
    using assms True by (auto simp: parent_ok_def)
  have "mutex_ok ?s" using main_mutex [OF p(1), of ok pid] True by (simp add: test_cond_def)
  moreover have "work_ok big w ?s" if "work_ok big w s" for big w
    using that True by (simp add: work_ok_def)
  ultimately show ?thesis
    using True wake_work [OF p(3,2)] wake_work [OF p(4,2)] by (simp add: test_cond_def parent_ok_def)
next
  case False
  have "case test_cond ok pid s of None \<Rightarrow> True | Some s' \<Rightarrow> mutex_ok s'"
    using main_mutex assms by (simp add: parent_ok_def)
  then show ?thesis using False assms
    by (cases "b_pc s")
      (auto simp: test_cond_def parent_ok_def work_ok_def bcast_text_def cond_defs mutex_ok_def split: if_splits)
qed

section \<open>Runs\<close>

definition process_ok :: "process \<Rightarrow> bool" where
  "process_ok p \<longleftrightarrow> (case p of Child s \<Rightarrow> child_ok s | Parent s \<Rightarrow> mutex_ok s)"

lemma start_ok: "process_ok (thread_main child pid)"
  by (simp add: thread_main_def child_start_def parent_start_def process_ok_def child_ok_def sem_count_ok_def created_ok_def units_taken_def posts_def mutex_ok_def
      take_text_def prints_def numeral_3_eq_3)

lemma t_step_ok: "t_step spur p p' \<Longrightarrow> process_ok p \<Longrightarrow> process_ok p'"
proof (induction rule: t_step.induct)
  case (sem_main s ok)
  then show ?case using sem_main_keeps by (simp add: process_ok_def)
next
  case (sem_1 pid s s')
  then show ?case using taker_keeps [of 0 s pid] by (simp add: process_ok_def thread1_func_def)
next
  case (sem_2 pid s s')
  then show ?case using taker_keeps [of 1 s pid] by (simp add: process_ok_def thread2_func_def)
next
  case (sem_3 pid s s')
  then show ?case using taker_keeps [of 2 s pid] by (simp add: process_ok_def thread3_func_def)
next
  case (cond_main ok pid s s')
  then show ?case using main_mutex [of s ok pid] by (simp add: process_ok_def)
next
  case (cond_4 pid s s')
  then show ?case using th4_mutex [of s pid] by (simp add: process_ok_def)
next
  case (cond_5 pid s s')
  then show ?case using th5_mutex [of s pid] by (simp add: process_ok_def)
qed (simp_all add: process_ok_def wake_mutex)

interpretation thread_sys: safe_system "t_step spur" process_ok for spur
  by unfold_locales (rule t_step_ok)

lemma t_run_ok: "t_run spur child pid p \<Longrightarrow> process_ok p"
  by (rule thread_sys.run_keeps [OF _ start_ok])

lemma start_work: "thread_main child pid = Parent s \<Longrightarrow> parent_ok s"
  using start_ok [of child pid]
  by (auto simp: thread_main_def parent_start_def process_ok_def parent_ok_def work_ok_def bcast_text_def prints_def split: if_splits)

interpretation parent_sys: safe_system "t_step False" "\<lambda>p. case p of Child s \<Rightarrow> True | Parent s \<Rightarrow> parent_ok s"
proof
  show "case p' of Child s \<Rightarrow> True | Parent s \<Rightarrow> parent_ok s"
    if "case p of Child s \<Rightarrow> True | Parent s \<Rightarrow> parent_ok s" and "t_step False p p'" for p p'
    using that(2)
  proof (cases rule: t_step.cases)
    case (cond_main ok pid s s')
    then show ?thesis using that(1) main_parent [of s ok pid] by simp
  next
    case (cond_4 pid s s')
    then show ?thesis using that(1) th4_parent [of s pid] by simp
  next
    case (cond_5 pid s s')
    then show ?thesis using that(1) th5_parent [of s pid] by simp
  qed simp_all
qed

lemma parent_run: "t_run False child pid p \<Longrightarrow> case p of Child s \<Rightarrow> True | Parent s \<Rightarrow> parent_ok s"
  by (rule parent_sys.run_keeps) (use start_work in \<open>auto split: process.split\<close>)

text \<open>Whoever holds the mutex can go on; if nobody does the main thread can.\<close>

lemma parent_progress:
  assumes "mutex_ok s"
  shows "\<exists>p'. t_step False (Parent s) p'"
proof -
  consider "inside (w_pc (th4 s))" | "inside (w_pc (th5 s))" | "b_inside (b_pc s) \<or> mutex s = None"
    using assms by (cases "mutex s"; cases "the (mutex s)") (auto simp: mutex_ok_def)
  then show ?thesis
  proof cases
    case 1
    then have "\<exists>s'. thread4_func 0 s = Some s'"
      by (cases "w_pc (th4 s)") (auto simp: thread4_func_def cond_step_def)
    then show ?thesis using t_step.cond_4 by blast
  next
    case 2
    then have "\<exists>s'. thread5_func 0 s = Some s'"
      by (cases "w_pc (th5 s)") (auto simp: thread5_func_def cond_step_def)
    then show ?thesis using t_step.cond_5 by blast
  next
    case 3
    then have "\<exists>s'. test_cond True 0 s = Some s'" by (cases "b_pc s") (auto simp: test_cond_def)
    then show ?thesis using t_step.cond_main by blast
  qed
qed

section \<open>Example schedules\<close>

definition child_move :: "nat \<Rightarrow> sem_demo \<Rightarrow> sem_demo res option" where
  "child_move i s =
     map_option Inr (if i = 0 then Some (test_sem True s) else if i = 1 then thread1_func 9 s else if i = 2 then thread2_func 9 s
       else thread3_func 9 s)"

definition parent_move :: "who \<Rightarrow> cond_demo \<Rightarrow> cond_demo res option" where
  "parent_move w s =
     map_option Inr (case w of Main \<Rightarrow> test_cond True 9 s | Thread4 \<Rightarrow> thread4_func 9 s | Thread5 \<Rightarrow> thread5_func 9 s)"

interpretation child_sched: scheduled "\<lambda>s s'. t_step spur (Child s) (Child s')" child_move for spur
  by unfold_locales (auto simp: child_move_def intro: t_step.intros split: if_splits)

interpretation parent_sched: scheduled "\<lambda>s s'. t_step spur (Parent s) (Parent s')" parent_move for spur
  by unfold_locales (auto simp: parent_move_def intro: t_step.intros split: who.splits)

text \<open>A run of a half of the program is a run of the program.\<close>

lemma half_run: "(\<lambda>s s'. R (f s) (f s'))\<^sup>*\<^sup>* s s' \<Longrightarrow> R\<^sup>*\<^sup>* (f s) (f s')"
  by (induction rule: rtranclp_induct) (auto intro: rtranclp.rtrancl_into_rtrancl)

lemma child_run: "follow child_move ms (child_start 9) = Some (Inr s) \<Longrightarrow> t_run spur 0 9 (Child s)"
  using half_run [where f = Child, OF child_sched.follow_run] by (simp add: thread_main_def)

lemma parent_run_from: "follow parent_move ms (parent_start 9) = Some (Inr s) \<Longrightarrow> t_run spur 5 9 (Parent s)"
  using half_run [where f = Parent, OF parent_sched.follow_run] by (simp add: thread_main_def)

definition child_order :: "nat list" where
  "child_order = [0, 0, 0, 0, 0, 1, 3, 0, 0, 0, 3, 0, 0, 0, 1, 1, 3]"

definition parent_order :: "who list" where
  "parent_order = replicate 5 Main @ replicate 4 Thread4 @ replicate 4 Thread5 @ replicate 6 Main
     @ replicate 6 Thread4 @ replicate 6 Thread5"

lemma child_order_out:
  "seen (\<lambda>s. (sem1_cnt s, List.map fst (sem_out s))) (follow child_move child_order (child_start 9)) =
    Some (0, [''Im child process,pid=%d'', ''init sem done'', ''create pthread done'', enter_text 0, enter_text 2,
      ''POST a signal'', ''POST a signal'', take_text 0, take_text 2])"
  by code_simp

lemma parent_order_out:
  "seen (\<lambda>s. (b_pc s, List.map fst (cond_out s))) (follow parent_move parent_order (parent_start 9)) =
    Some (B_sleep, [''Im parent process,pid=%d'', ''main thread: pid=%d'', ''thread4 enter,pid=%d'', ''thread5 enter,pid=%d'',
      bcast_text, ''THREAD4 wait cond done'', ''THREAD4 work done'', ''THREAD5 wait cond done'', ''THREAD5 work done''])"
  by code_simp

section \<open>Properties\<close>

text \<open>In every run of the child each take printed has its post, and every unit posted is in the semaphore,
  taken and printed, or taken and about to be printed, unless the semaphore has reached its maximum.\<close>

theorem child_counts:
  assumes "t_run spur child pid (Child s)"
  shows "prints (take_text 0) (sem_out s) + prints (take_text 1) (sem_out s) + prints (take_text 2) (sem_out s)
      \<le> prints ''POST a signal'' (sem_out s)
    \<and> (int (posts s) \<le> SEM_VALUE_MAX \<longrightarrow> sem1_cnt s + units_taken s = posts s)"
proof -
  have "child_ok s" using t_run_ok [OF assms] by (simp add: process_ok_def)
  then show ?thesis by (auto simp: child_ok_def sem_count_ok_def units_taken_def posts_def)
qed

lemma child_counts_witness:
  "\<exists>s. t_run False 0 9 (Child s) \<and> prints ''POST a signal'' (sem_out s) = 2 \<and> sem1_cnt s + units_taken s = posts s"
proof -
  obtain s where s: "follow child_move child_order (child_start 9) = Some (Inr s)"
      "prints ''POST a signal'' (sem_out s) = 2"
    by (rule seenE [OF child_order_out]) (auto simp: prints_def take_text_def enter_text_def)
  have r: "t_run False 0 9 (Child s)" by (rule child_run [OF s(1)])
  have "posts s \<le> 2" using s(2) by (simp add: posts_def)
  then show ?thesis using child_counts [OF r] r s(2) by (auto simp: SEM_VALUE_MAX_def)
qed

text \<open>C33. At any time at most one of the three threads of the parent is between taking and releasing the mutex,
  and some thread can always go on without a spurious wake-up.\<close>

theorem parent_mutex:
  assumes "t_run spur child pid (Parent s)"
  shows "\<not> (inside (w_pc (th4 s)) \<and> inside (w_pc (th5 s)))
    \<and> \<not> (b_inside (b_pc s) \<and> (inside (w_pc (th4 s)) \<or> inside (w_pc (th5 s))))
    \<and> (\<exists>p'. t_step False (Parent s) p')"
proof -
  have m: "mutex_ok s" using t_run_ok [OF assms] by (simp add: process_ok_def)
  then show ?thesis using parent_progress [OF m] by (auto simp: mutex_ok_def)
qed

lemma parent_mutex_witness:
  "\<exists>s. t_run True 5 9 (Parent s) \<and> inside (w_pc (th4 s)) \<and> \<not> inside (w_pc (th5 s))"
proof -
  have "seen (\<lambda>s. w_pc (th4 s)) (follow parent_move (replicate 5 Main @ replicate 2 Thread4) (parent_start 9)) = Some V_read"
    by code_simp
  then obtain s where s: "follow parent_move (replicate 5 Main @ replicate 2 Thread4) (parent_start 9) = Some (Inr s)" "w_pc (th4 s) = V_read"
    by (rule seenE)
  have "t_run True 5 9 (Parent s)" by (rule parent_run_from [OF s(1)])
  then show ?thesis using parent_mutex [of True 5 9 s] s(2) by (intro exI [of _ s]) simp
qed

text \<open>Without spurious wake-ups each worker has worked at most once for every broadcast, but not only one of them:
  in the example both work for a single activation, the second after the flag was cleared.\<close>

theorem work_per_broadcast:
  assumes "t_run False child pid (Parent s)"
  shows "prints ''THREAD4 work done'' (cond_out s) \<le> prints ''broadcast: thread active'' (cond_out s)
    \<and> prints ''THREAD5 work done'' (cond_out s) \<le> prints ''broadcast: thread active'' (cond_out s)"
  using parent_run [OF assms] by (auto simp: parent_ok_def work_ok_def bcast_text_def)

lemma work_per_broadcast_witness:
  "\<exists>s. t_run False 5 9 (Parent s) \<and> prints ''broadcast: thread active'' (cond_out s) = 1
    \<and> prints ''THREAD4 work done'' (cond_out s) = 1 \<and> prints ''THREAD5 work done'' (cond_out s) = 1"
proof -
  obtain s where s: "follow parent_move parent_order (parent_start 9) = Some (Inr s)"
      "prints ''broadcast: thread active'' (cond_out s) = 1"
      "1 \<le> prints ''THREAD4 work done'' (cond_out s)" "1 \<le> prints ''THREAD5 work done'' (cond_out s)"
    by (rule seenE [OF parent_order_out]) (auto simp: prints_def bcast_text_def)
  have "t_run False 5 9 (Parent s)" by (rule parent_run_from [OF s(1)])
  then show ?thesis using work_per_broadcast [of 5 9 s] s(2-4) by (intro exI [of _ s]) simp
qed

end
