(* ===== verification/Msg_Server.thy ===== *)
theory Msg_Server
  imports Echo_Server
begin

text \<open>
  Models \<^verbatim>\<open>c5-2/server.c\<close> and \<^verbatim>\<open>c5-2/client.c\<close>: messages sent over a stream as a length of four bytes
  and the text. The calls of the kernel are modelled as in \<open>Echo_Server\<close>. Shown: messages arrive if the
  stream splits no length and no text, however it joins them; a negative length ends the server or fails.
\<close>

section \<open>The length on the wire\<close>

definition char_u8 :: "u8 \<Rightarrow> char" where
  "char_u8 b = char_of (unat b)"

definition u8_char :: "char \<Rightarrow> u8" where
  "u8_char c = of_nat (of_char c)"

definition int_bytes :: "int \<Rightarrow> char list" where
  "int_bytes v = List.map char_u8 (le_bytes4 (of_int v))"

definition int_of_bytes :: "char list \<Rightarrow> int" where
  "int_of_bytes bs = sint (le_word4 (u8_char (bs ! 0)) (u8_char (bs ! 1)) (u8_char (bs ! 2)) (u8_char (bs ! 3)))"

lemma u8_char_u8 [simp]: "u8_char (char_u8 b) = b"
  using unsigned_less [of b, where ?'a = nat] by (simp add: u8_char_def char_u8_def)

lemma length_int_bytes [simp]: "length (int_bytes v) = 4"
  by (simp add: int_bytes_def le_bytes4_def)

lemma int_of_int_bytes:
  assumes "- (2 ^ 31) \<le> v" and "v < 2 ^ 31"
  shows "int_of_bytes (int_bytes v) = v"
proof -
  have "int_of_bytes (int_bytes v) = sint (of_int v :: u32)"
    by (simp add: int_of_bytes_def int_bytes_def le_bytes4_def le_word4_bytes4)
  then show ?thesis using assms by (simp add: signed_of_int signed_take_bit_int_eq_self)
qed

section \<open>The server\<close>

text \<open>The variable \<^verbatim>\<open>len\<close>, byte by byte; a byte never written is \<open>None\<close>.\<close>

definition int_var :: "char option list \<Rightarrow> int res" where
  "int_var v = (if None \<in> set v then Inl Uninit_Read else Inr (int_of_bytes (List.map the v)))"

text \<open>
  What a round does with the length: the value of \<^verbatim>\<open>disconnect\<close>, or \<open>None\<close> when it breaks off the loop.
  \<open>mem\<close> says for which sizes \<^verbatim>\<open>malloc\<close> has a block; it has none for a negative size, which is taken for
  a huge one. A negative length is also a huge size for \<^verbatim>\<open>read\<close>, above \<^verbatim>\<open>SSIZE_MAX\<close>: what \<^verbatim>\<open>read\<close> does then is
  left to the implementation, here to \<open>huge\<close>, which may deliver data or fail.
\<close>

type_synonym big_read = "rd_ev list \<Rightarrow> (int \<times> string \<times> rd_ev list) option"

definition msg_body :: "(int \<Rightarrow> bool) \<Rightarrow> big_read \<Rightarrow> int \<Rightarrow> io \<Rightarrow> (bool option \<times> io) res option" where
  "msg_body mem huge len s =
     (case int_ok (len + 1) of
        Inl e \<Rightarrow> Some (Inl e)
      | Inr sz \<Rightarrow>
          if sz < 0 \<or> \<not> mem sz then Some (Inl Null_Deref)
          else
            let ps = replicate (nat sz) NUL
            in (case if len < 0 then huge (io_reads s) else sys_read (nat len) (io_reads s) of
                  None \<Rightarrow> None
                | Some (r, bs, es) \<Rightarrow>
                    let s1 = s\<lparr>io_reads := es\<rparr>
                    in if r \<le> 0 then Some (Inr (None, print_io ''read error %d'' [TInt r] s1))
                       else if length ps < length bs then Some (Inl Out_Of_Bounds)
                       else case cstr_at (bs @ drop (length bs) ps) 0 of
                         Inl e \<Rightarrow> Some (Inl e)
                       | Inr msg \<Rightarrow> Some (Inr (Some (msg = ''quit''), print_io ''get msg:%s'' [TStr msg] s1))))"

text \<open>The loop; the result is \<^verbatim>\<open>disconnect\<close>.\<close>

partial_function (option) msg_loop :: "(int \<Rightarrow> bool) \<Rightarrow> big_read \<Rightarrow> char option list \<Rightarrow> io \<Rightarrow> (int \<times> io) res option" where
  "msg_loop mem huge v s =
     (case sys_read 4 (io_reads s) of
        None \<Rightarrow> None
      | Some (r, bs, es) \<Rightarrow>
          (let s1 = s\<lparr>io_reads := es\<rparr>; v1 = List.map Some bs @ drop (length bs) v
           in if r \<le> 0 then Some (Inr (0, s1))
              else case int_var v1 of
                Inl e \<Rightarrow> Some (Inl e)
              | Inr len \<Rightarrow>
                  if len = 0 then Some (Inr (0, s1))
                  else (case msg_body mem huge len s1 of
                          None \<Rightarrow> None
                        | Some (Inl e) \<Rightarrow> Some (Inl e)
                        | Some (Inr (None, s2)) \<Rightarrow> Some (Inr (0, s2))
                        | Some (Inr (Some q, s2)) \<Rightarrow> if q then Some (Inr (1, s2)) else msg_loop mem huge v1 s2)))"

definition msg_run :: "(int \<Rightarrow> bool) \<Rightarrow> big_read \<Rightarrow> io \<Rightarrow> (int \<times> io) res option" where
  "msg_run mem huge s = msg_loop mem huge (replicate 4 None) s"

datatype chat_call =
    Bind_path int string | Bind_addr int "u16 \<times> u32" | Listen int int | Accept int | Close int | Unlink string

text \<open>\<open>ch_accepts\<close>: the results of \<^verbatim>\<open>accept\<close>, each with what the client will send.\<close>

record chat =
  ch_accepts :: "(int \<times> rd_ev list) list"
  ch_calls :: "chat_call list"
  ch_io :: io

definition chat_call :: "chat_call \<Rightarrow> chat \<Rightarrow> chat" where
  "chat_call c s = s\<lparr>ch_calls := ch_calls s @ [c]\<rparr>"

definition chat_print :: "string \<Rightarrow> targ list \<Rightarrow> chat \<Rightarrow> chat" where
  "chat_print fmt args s = s\<lparr>ch_io := print_io fmt args (ch_io s)\<rparr>"

text \<open>
  The loop over the clients. The \<^verbatim>\<open>continue\<close> after a failing \<^verbatim>\<open>accept\<close> goes on to the test of \<^verbatim>\<open>quit\<close>,
  which has no value (\<open>None\<close>) before the first client.
\<close>

fun chat_accept :: "(int \<Rightarrow> bool) \<Rightarrow> big_read \<Rightarrow> int \<Rightarrow> int option \<Rightarrow> (int \<times> rd_ev list) list \<Rightarrow> chat \<Rightarrow> chat res option" where
  "chat_accept mem huge fd quit [] s = None"
| "chat_accept mem huge fd quit ((cli, reads) # later) s =
     (let s1 = chat_call (Accept fd) (chat_print ''wait client connection ...'' [] (s\<lparr>ch_accepts := later\<rparr>))
      in if cli < 0
         then (case quit of
                 None \<Rightarrow> Some (Inl Uninit_Read)
               | Some q \<Rightarrow> if q = 0 then chat_accept mem huge fd quit later s1 else Some (Inr s1))
         else
           let s2 = chat_print ''client fd=%d'' [TInt cli] s1
           in case msg_run mem huge ((ch_io s2)\<lparr>io_reads := reads\<rparr>) of
                None \<Rightarrow> None
              | Some (Inl e) \<Rightarrow> Some (Inl e)
              | Some (Inr (q, d)) \<Rightarrow>
                  let s3 = chat_call (Close cli) (chat_print ''server exit'' [] (s2\<lparr>ch_io := d\<rparr>))
                  in if q = 0 then chat_accept mem huge fd (Some q) later s3 else Some (Inr s3))"

text \<open>
  The results of \<^verbatim>\<open>socket\<close>, \<^verbatim>\<open>bind\<close> and \<^verbatim>\<open>listen\<close> are arguments. \<^verbatim>\<open>bind\<close> is given the size of a
  \<^verbatim>\<open>struct sockaddr\<close>, so it sees 14 characters of the path.
\<close>

definition server_socket :: "(int \<Rightarrow> bool) \<Rightarrow> big_read \<Rightarrow> int \<times> int \<times> int \<Rightarrow> string \<Rightarrow> chat \<Rightarrow> (int \<times> chat) res option" where
  "server_socket mem huge env name s =
     (case env of
        (fd, bound, listens) \<Rightarrow>
          if fd < 0 then Some (Inr (- 1, s))
          else
            let s1 = chat_print ''fd=%d'' [TInt fd] s
            in if 108 \<le> length name then Some (Inl Out_Of_Bounds)
               else
                 let s2 = chat_call (Bind_path fd (take 14 name)) s1
                 in if bound \<noteq> 0 then Some (Inr (- 1, s2))
                    else
                      let s3 = chat_call (Listen fd 5) (chat_print ''bind %s okay'' [TStr name] s2)
                      in if listens \<noteq> 0 then Some (Inr (- 1, s3))
                         else map_option (\<lambda>m. res_bind m (\<lambda>s4.
                                Inr (0, chat_print ''server closed'' [] (chat_call (Unlink name) (chat_call (Close fd) s4)))))
                                (chat_accept mem huge fd None (ch_accepts s3) s3))"

definition LOOPBACK :: u32 where
  "LOOPBACK = 0x0100007F"

definition server_socket2 :: "(int \<Rightarrow> bool) \<Rightarrow> big_read \<Rightarrow> int \<times> int \<times> int \<Rightarrow> chat \<Rightarrow> (int \<times> chat) res option" where
  "server_socket2 mem huge env s =
     (case env of
        (fd, bound, listens) \<Rightarrow>
          if fd < 0 then Some (Inr (- 1, s))
          else
            let s2 = chat_call (Bind_addr fd (net_short 1234, LOOPBACK)) (chat_print ''fd=%d'' [TInt fd] s)
            in if bound \<noteq> 0 then Some (Inr (- 1, s2))
               else
                 let s3 = chat_call (Listen fd 5) (chat_print ''bind okay'' [] s2)
                 in if listens \<noteq> 0 then Some (Inr (- 1, s3))
                    else map_option (\<lambda>m. res_bind m (\<lambda>s4.
                           Inr (0, chat_print ''server closed'' [] (chat_call (Close fd) s4))))
                           (chat_accept mem huge fd None (ch_accepts s3) s3))"

definition chat_main :: "(int \<Rightarrow> bool) \<Rightarrow> big_read \<Rightarrow> int \<times> int \<times> int \<Rightarrow> string list \<Rightarrow> chat \<Rightarrow> (int \<times> chat) res option" where
  "chat_main mem huge env args s =
     (if length args < 2 then Some (Inr (- 1, chat_print ''./server [name]'' [] s))
      else map_option (\<lambda>m. res_bind m (\<lambda>(r, s1). Inr (0, s1))) (server_socket mem huge env (args ! 1) s))"

section \<open>The client\<close>

text \<open>\<^verbatim>\<open>strlen\<close> is taken as an \<^verbatim>\<open>int\<close>.\<close>

definition send_message :: "string \<Rightarrow> io \<Rightarrow> int \<times> io" where
  "send_message msg s =
     (let len = sint (of_nat (length msg) :: u32);
          (r1, s1) = sys_write (int_bytes len) s;
          (r2, s2) = sys_write (take (nat len) msg) s1
      in (r1 + r2, s2))"

fun send_loop :: "int \<Rightarrow> string list \<Rightarrow> io \<Rightarrow> io" where
  "send_loop i [] s = s"
| "send_loop i (msg # later) s =
     (let (len, s1) = send_message msg s
      in if len < 1 then print_io ''semd message[%d] failed'' [TInt i] s1 else send_loop (i + 1) later s1)"

text \<open>\<open>fd\<close> and \<open>connected\<close> are the results of \<^verbatim>\<open>socket\<close> and \<^verbatim>\<open>connect\<close>.\<close>

definition client_socket :: "int \<Rightarrow> int \<Rightarrow> string \<Rightarrow> string list \<Rightarrow> io \<Rightarrow> (int \<times> io) res" where
  "client_socket fd connected name args s =
     (if fd < 0 then Inr (- 1, s)
      else
        let s1 = print_io ''socket fd=%d'' [TInt fd] s
        in if 108 \<le> length name then Inl Out_Of_Bounds
           else if connected \<noteq> 0 then Inr (- 1, s1)
           else Inr (0, print_io ''client exit'' [] (send_loop 2 (drop 2 args) s1)))"

definition client_socket2 :: "int \<Rightarrow> int \<Rightarrow> string list \<Rightarrow> io \<Rightarrow> int \<times> io" where
  "client_socket2 fd connected args s =
     (if fd < 0 then (- 1, s)
      else
        let s1 = print_io ''socket fd=%d'' [TInt fd] s
        in if connected \<noteq> 0 then (- 1, s1)
           else (0, print_io ''client exit'' [] (send_loop 2 (drop 2 args) s1)))"

definition client_main :: "int \<Rightarrow> int \<Rightarrow> string list \<Rightarrow> io \<Rightarrow> (int \<times> io) res" where
  "client_main fd connected args s =
     (if length args < 3 then Inr (- 1, print_io ''./client [name] [message]'' [] s)
      else res_bind (client_socket fd connected (args ! 1) args s) (\<lambda>(r, s1). Inr (0, s1)))"

section \<open>Fields and chunks\<close>

text \<open>
  The fields a client writes, and what \<^verbatim>\<open>read\<close> may make of them when the stream joins writes but splits
  none: every chunk holds one or more whole fields.
\<close>

definition fields :: "string list \<Rightarrow> string list" where
  "fields msgs = concat (List.map (\<lambda>m. [int_bytes (int (length m)), m]) msgs)"

definition delivers :: "string list \<Rightarrow> rd_ev list \<Rightarrow> bool" where
  "delivers fs es \<longleftrightarrow> (\<exists>groups. concat groups = fs \<and> [] \<notin> set groups \<and> es = List.map (Rd_bytes \<circ> concat) groups)"

lemma delivers_Nil [simp]: "delivers [] es \<longleftrightarrow> es = []"
proof
  assume "delivers [] es"
  then obtain groups where "concat groups = []" "[] \<notin> set groups" "es = List.map (Rd_bytes \<circ> concat) groups"
    by (auto simp: delivers_def)
  then show "es = []" by (cases groups) auto
qed (auto simp: delivers_def intro: exI [of _ "[]"])

lemma delivers_bytes: "delivers fs es \<Longrightarrow> reads_bytes es = concat fs"
proof -
  have "reads_bytes (List.map (Rd_bytes \<circ> concat) groups) = concat (concat groups)" for groups
    by (induction groups) auto
  then show "delivers fs es \<Longrightarrow> reads_bytes es = concat fs" by (auto simp: delivers_def)
qed

text \<open>A \<^verbatim>\<open>read\<close> of the size of the next field gets just that field.\<close>

lemma read_field:
  assumes "delivers (f # fs) es" and "\<forall>g\<in>set fs. g \<noteq> []"
  shows "\<exists>es'. sys_read (length f) (es @ rest) = Some (int (length f), f, es' @ rest) \<and> delivers fs es'"
proof -
  obtain groups where g: "concat groups = f # fs" "[] \<notin> set groups" "es = List.map (Rd_bytes \<circ> concat) groups"
    using assms(1) by (auto simp: delivers_def)
  then obtain g0 gs where gs: "groups = g0 # gs" "g0 \<noteq> []" by (cases groups) auto
  then obtain g1 where g1: "g0 = f # g1" "fs = g1 @ concat gs" using g(1) by (cases g0) auto
  have e: "es = Rd_bytes (f @ concat g1) # List.map (Rd_bytes \<circ> concat) gs" using g(3) gs(1) g1(1) by simp
  show ?thesis
  proof (cases g1)
    case Nil
    then have "delivers fs (List.map (Rd_bytes \<circ> concat) gs)"
      using g(2) gs(1) g1(2) by (auto simp: delivers_def intro!: exI [of _ gs])
    then show ?thesis using e Nil by auto
  next
    case (Cons h hs)
    then have "concat g1 \<noteq> []" using assms(2) g1(2) by auto
    moreover have "delivers fs (Rd_bytes (concat g1) # List.map (Rd_bytes \<circ> concat) gs)"
      using g(2) gs(1) g1(2) Cons by (auto simp: delivers_def intro!: exI [of _ "g1 # gs"])
    ultimately show ?thesis using e by (auto simp: not_le)
  qed
qed

section \<open>A conversation\<close>

definition msg_ok :: "string \<Rightarrow> bool" where
  "msg_ok m \<longleftrightarrow> m \<noteq> [] \<and> NUL \<notin> set m \<and> length m < 2 ^ 31 - 1"

text \<open>The messages up to and including the first quit.\<close>

fun heard :: "string list \<Rightarrow> string list" where
  "heard [] = []"
| "heard (m # ms) = m # (if m = ''quit'' then [] else heard ms)"

lemma heard_all: "''quit'' \<notin> set ms \<Longrightarrow> heard ms = ms"
  by (induction ms) auto

definition got :: "string \<Rightarrow> trace" where
  "got m = Trace (''get msg:%s'' @ [NL]) [TStr m]"

lemma msg_round:
  assumes "msg_ok m" and "mem (int (length m) + 1)" and "length v = 4"
    and "delivers (int_bytes (int (length m)) # m # fs) es" and "\<forall>g\<in>set fs. g \<noteq> []" and "io_reads s = es @ rest"
  shows "\<exists>es' s'. delivers fs es' \<and> s' = s\<lparr>io_reads := es' @ rest, io_out := io_out s @ [got m]\<rparr> \<and>
    msg_loop mem huge v s =
      (if m = ''quit'' then Some (Inr (1, s')) else msg_loop mem huge (List.map Some (int_bytes (int (length m)))) s')"
proof -
  let ?l = "int_bytes (int (length m))"
  have m: "m \<noteq> []" "NUL \<notin> set m" "int (length m) < 2 ^ 31 - 1" using assms(1) by (auto simp: msg_ok_def)
  obtain es1 where r1: "sys_read 4 (es @ rest) = Some (4, ?l, es1 @ rest)" "delivers (m # fs) es1"
    using read_field [OF assms(4), of rest] assms(5) m(1) by auto
  obtain es2 where r2: "sys_read (length m) (es1 @ rest) = Some (int (length m), m, es2 @ rest)" "delivers fs es2"
    using read_field [OF r1(2), of rest] assms(5) by auto
  have l: "int_var (List.map Some ?l) = Inr (int (length m))"
    using int_of_int_bytes [of "int (length m)"] m(3) by (auto simp: int_var_def o_def)
  have "drop (length m) (replicate (nat (int (length m) + 1)) NUL) = [NUL]"
    by (simp only: drop_replicate) (simp add: nat_add_distrib)
  then have "cstr_at (m @ drop (length m) (replicate (nat (int (length m) + 1)) NUL)) 0 = Inr m"
    using cstr_append [OF m(2), of "[]"] by (simp add: cstr_at_def)
  then have b: "msg_body mem huge (int (length m)) (s\<lparr>io_reads := es1 @ rest\<rparr>) =
      Some (Inr (Some (m = ''quit''), print_io ''get msg:%s'' [TStr m] (s\<lparr>io_reads := es2 @ rest\<rparr>)))"
    using m r2(1) assms(2) by (simp add: msg_body_def int_ok_def Let_def nat_add_distrib)
  show ?thesis
    using assms(3,6) m(1) r1(1) r2(2) l b
    by (intro exI [of _ es2]) (subst msg_loop.simps, simp add: Let_def print_io_def got_def)
qed

lemma conversation:
  assumes "\<forall>m\<in>set msgs. msg_ok m \<and> mem (int (length m) + 1)" and "length v = 4"
    and "delivers (fields msgs) es" and "io_reads s = es @ Rd_zero # later"
  shows "\<exists>rest. msg_loop mem huge v s =
    Some (Inr (if ''quit'' \<in> set msgs then 1 else 0, s\<lparr>io_reads := rest, io_out := io_out s @ List.map got (heard msgs)\<rparr>))"
  using assms
proof (induction msgs arbitrary: v es s)
  case Nil
  then show ?case by (subst msg_loop.simps) (auto simp: fields_def intro: exI [of _ later])
next
  case (Cons m msgs)
  have f: "fields (m # msgs) = int_bytes (int (length m)) # m # fields msgs" by (simp add: fields_def)
  have ne: "\<forall>g\<in>set (fields msgs). g \<noteq> []"
    using Cons.prems(1) by (auto simp: fields_def msg_ok_def int_bytes_def le_bytes4_def)
  obtain es' s' where r: "delivers (fields msgs) es'" "s' = s\<lparr>io_reads := es' @ Rd_zero # later, io_out := io_out s @ [got m]\<rparr>"
      "msg_loop mem huge v s = (if m = ''quit'' then Some (Inr (1, s')) else msg_loop mem huge (List.map Some (int_bytes (int (length m)))) s')"
    using msg_round [where mem = mem and huge = huge and m = m, OF _ _ Cons.prems(2) _ ne Cons.prems(4)] Cons.prems(1,3) f by auto
  show ?case
  proof (cases "m = ''quit''")
    case True
    then show ?thesis using r by auto
  next
    case False
    have "length (List.map Some (int_bytes (int (length m)))) = 4" by simp
    from Cons.IH [OF _ this r(1), of s'] show ?thesis using False r(2,3) Cons.prems(1) by auto
  qed
qed

section \<open>The client's side\<close>

lemma sent_message:
  assumes "length msg < 2 ^ 31 - 1" and "io_accept s = []"
  shows "send_message msg s =
    (4 + int (length msg), s\<lparr>io_sent := io_sent s @ int_bytes (int (length msg)) @ msg\<rparr>)"
proof -
  have "int (length msg) < 2 ^ 31" using assms(1) by simp
  then have "sint (of_nat (length msg) :: u32) = int (length msg)"
    using assms(1) by (simp add: signed_of_nat signed_take_bit_int_eq_self)
  then show ?thesis using assms(2) by (simp add: send_message_def sys_write_def Let_def)
qed

lemma sent_all:
  assumes "\<forall>m\<in>set msgs. length m < 2 ^ 31 - 1" and "io_accept s = []"
  shows "send_loop i msgs s = s\<lparr>io_sent := io_sent s @ concat (fields msgs)\<rparr>"
  using assms by (induction msgs arbitrary: i s) (auto simp: fields_def sent_message)

section \<open>Properties\<close>

text \<open>C34. What the client sends arrives: its arguments, if none is empty, are printed by the server in their order up
  to the first quit, whatever writes the stream joins, as long as it splits none.\<close>

theorem messages_arrive:
  assumes "\<forall>m\<in>set (drop 2 args). msg_ok m \<and> mem (int (length m) + 1)" and "0 \<le> fd" and "length name < 108"
    and "io_accept c = []" and "io_sent c = []"
    and "client_socket fd 0 name args c = Inr (r, c')"
    and "reads_bytes es = io_sent c'" and "delivers (fields (drop 2 args)) es" and "io_reads s = es @ Rd_zero # later"
  shows "r = 0 \<and> io_sent c' = concat (fields (drop 2 args))
    \<and> (\<exists>rest. msg_run mem huge s = Some (Inr (if ''quit'' \<in> set (drop 2 args) then 1 else 0,
          s\<lparr>io_reads := rest, io_out := io_out s @ List.map got (heard (drop 2 args))\<rparr>)))"
proof -
  have "\<forall>m\<in>set (drop 2 args). length m < 2 ^ 31 - 1" using assms(1) by (auto simp: msg_ok_def)
  then have "r = 0 \<and> io_sent c' = concat (fields (drop 2 args))"
    using assms(2-6) sent_all [of "drop 2 args"] by (auto simp: client_socket_def print_io_def Let_def)
  then show ?thesis
    using conversation [OF assms(1) _ assms(8,9), of "replicate 4 None"] by (simp add: msg_run_def)
qed

definition idle_io :: io where
  "idle_io = \<lparr>io_stdin = [], io_reads = [], io_accept = [], io_sent = [], io_out = []\<rparr>"

lemma messages_arrive_witness:
  "\<exists>c'. client_socket 3 0 ''/tmp/sock'' [''./client'', ''/tmp/sock'', ''hi'', ''quit'', ''no''] idle_io = Inr (0, c')
    \<and> (\<exists>s'. msg_run (\<lambda>_. True) (\<lambda>_. None) (idle_io\<lparr>io_reads := [Rd_bytes (take 10 (io_sent c')), Rd_bytes (drop 10 (io_sent c')), Rd_zero]\<rparr>)
         = Some (Inr (1, s')) \<and> io_out s' = [got ''hi'', got ''quit''])"
proof -
  let ?args = "[''./client'', ''/tmp/sock'', ''hi'', ''quit'', ''no'']"
  let ?f = "fields [''hi'', ''quit'', ''no'']"
  obtain r c' where c: "client_socket 3 0 ''/tmp/sock'' ?args idle_io = Inr (r, c')" by (simp add: client_socket_def)
  have ok: "\<forall>m\<in>set (drop 2 ?args). msg_ok m \<and> True" by (simp add: msg_ok_def)
  have sent: "io_sent c' = concat ?f"
    using sent_all [of "drop 2 ?args"] c by (auto simp: client_socket_def print_io_def Let_def idle_io_def)
  let ?es = "[Rd_bytes (take 10 (io_sent c')), Rd_bytes (drop 10 (io_sent c'))]"
  have d: "delivers ?f ?es"
    unfolding delivers_def sent
    by (intro exI [of _ "[take 3 ?f, drop 3 ?f]"]) (simp add: fields_def)
  have "reads_bytes ?es = io_sent c'" by simp
  with messages_arrive [where mem = "\<lambda>_. True" and huge = "\<lambda>_. None", OF ok _ _ _ _ c this, of "idle_io\<lparr>io_reads := ?es @ [Rd_zero]\<rparr>" "[]"] d
  show ?thesis using c by (auto simp: idle_io_def)
qed

text \<open>
  A client that announces a negative length: no block has that size, except for -1, for which the block has
  size 0 and no \<^verbatim>\<open>read\<close> that delivers anything stays in it.
\<close>

theorem negative_length_undefined:
  assumes "length bs = 4" and "int_of_bytes bs < 0" and "io_reads s = Rd_bytes (bs @ text) # later" and "text \<noteq> []"
    and "int_of_bytes bs = - 1 \<Longrightarrow> mem 0 \<and> huge (Rd_bytes text # later) = Some (r, got_bytes, es) \<and> 0 < r \<and> got_bytes \<noteq> []"
  shows "msg_run mem huge s = Some (Inl (if int_of_bytes bs = - 1 then Out_Of_Bounds else Null_Deref))"
proof -
  have r: "sys_read 4 (io_reads s) = Some (4, bs, Rd_bytes text # later)" using assms(1,3,4) by simp
  have "int_ok (int_of_bytes bs + 1) = Inr (int_of_bytes bs + 1)"
    using assms(2) sint_greater_eq [of "le_word4 (u8_char (bs ! 0)) (u8_char (bs ! 1)) (u8_char (bs ! 2)) (u8_char (bs ! 3))"]
    by (simp add: int_ok_def int_of_bytes_def)
  then have "msg_body mem huge (int_of_bytes bs) (s\<lparr>io_reads := Rd_bytes text # later\<rparr>) =
      Some (Inl (if int_of_bytes bs = - 1 then Out_Of_Bounds else Null_Deref))"
    using assms(2,5) by (cases "int_of_bytes bs = - 1") (simp_all add: msg_body_def Let_def)
  moreover have "int_var (List.map Some bs) = Inr (int_of_bytes bs)" by (auto simp: int_var_def o_def)
  ultimately show ?thesis
    using r assms(1,2) unfolding msg_run_def by (subst msg_loop.simps) (simp add: Let_def)
qed

lemma negative_length_undefined_witness:
  "msg_run (\<lambda>_. True) (\<lambda>es. Some (3, ''abc'', [])) (idle_io\<lparr>io_reads := [Rd_bytes (int_bytes (- 1) @ ''abc'')]\<rparr>) = Some (Inl Out_Of_Bounds)"
  by (subst negative_length_undefined [of "int_bytes (- 1)" _ "''abc''" "[]" "\<lambda>_. True" _ 3 "''abc''" "[]"])
    (simp_all add: int_of_int_bytes idle_io_def)

end
