(* ===== verification/Line_Chat.thy ===== *)
theory Line_Chat
  imports Msg_Server
begin

text \<open>
  Models \<^verbatim>\<open>c5-3/server.c\<close> and \<^verbatim>\<open>c5-3/client.c\<close>: lines sent to a server that echoes them. Its \<^verbatim>\<open>server_run\<close>
  is, to the letter, that of \<^verbatim>\<open>c5-4\<close>, so the session of \<open>Echo_Server\<close> is its session: here the client that
  belongs to it is put in front.
\<close>

section \<open>The server\<close>

definition line_server_run :: "bool \<Rightarrow> io \<Rightarrow> (int option \<times> io) res option" where
  "line_server_run = echo_run"

text \<open>The clients; the result is \<open>False\<close> when a read error has made the program exit.\<close>

fun sock_clients :: "bool \<Rightarrow> int \<Rightarrow> int option \<Rightarrow> (int \<times> rd_ev list) list \<Rightarrow> chat \<Rightarrow> (bool \<times> chat) res option" where
  "sock_clients mem fd quit [] s = None"
| "sock_clients mem fd quit ((cli, reads) # later) s =
     (let s1 = chat_call (Accept fd) (chat_print ''wait client connection ...'' [] (s\<lparr>ch_accepts := later\<rparr>))
      in if cli < 0
         then (case quit of
                 None \<Rightarrow> Some (Inl Uninit_Read)
               | Some q \<Rightarrow> if q = 0 then sock_clients mem fd quit later s1 else Some (Inr (True, s1)))
         else
           let s2 = chat_print ''client fd=%d'' [TInt cli] s1
           in case line_server_run mem ((ch_io s2)\<lparr>io_reads := reads\<rparr>) of
                None \<Rightarrow> None
              | Some (Inl e) \<Rightarrow> Some (Inl e)
              | Some (Inr (None, d)) \<Rightarrow> Some (Inr (False, s2\<lparr>ch_io := d\<rparr>))
              | Some (Inr (Some q, d)) \<Rightarrow>
                  let s3 = chat_call (Close cli) (chat_print ''server exit'' [] (s2\<lparr>ch_io := d\<rparr>))
                  in if q = 0 then sock_clients mem fd (Some q) later s3 else Some (Inr (True, s3)))"

text \<open>The result of the function, or \<open>None\<close> when the program has exited.\<close>

definition server_sock :: "bool \<Rightarrow> int \<times> int \<times> int \<Rightarrow> chat \<Rightarrow> (int option \<times> chat) res option" where
  "server_sock mem env s =
     (case env of
        (fd, bound, listens) \<Rightarrow>
          if fd < 0 then Some (Inr (Some (- 1), s))
          else
            let s1 = chat_call (Bind_addr fd (net_short 1234, LOOPBACK)) (chat_print ''fd=%d'' [TInt fd] s)
            in if bound \<noteq> 0 then Some (Inr (Some (- 1), s1))
               else
                 let s2 = chat_call (Listen fd 5)
                            (chat_print ''bind ok, ip: %s, port: %d'' [TStr ''127.0.0.1'', TInt 1234] s1)
                 in if listens \<noteq> 0 then Some (Inr (Some (- 1), s2))
                    else map_option (\<lambda>m. res_bind m (\<lambda>(here, s3).
                           if here then Inr (Some 0, chat_print ''server closed'' [] (chat_call (Close fd) s3))
                           else Inr (None, s3)))
                           (sock_clients mem fd None (ch_accepts s2) s2))"

definition sock_main :: "bool \<Rightarrow> int \<times> int \<times> int \<Rightarrow> chat \<Rightarrow> (int \<times> chat) res option" where
  "sock_main mem env s =
     map_option (\<lambda>m. res_bind m (\<lambda>(r, s1). Inr (case r of None \<Rightarrow> - 1 | Some _ \<Rightarrow> 0, s1))) (server_sock mem env s)"

section \<open>The client\<close>

definition send_line :: "string \<Rightarrow> io \<Rightarrow> int \<times> io" where
  "send_line msg s =
     (let (r1, s1) = sys_write msg s;
          (r2, s2) = sys_write [CR, NL] s1
      in (r2, s2))"

fun send_lines :: "string list \<Rightarrow> io \<Rightarrow> io" where
  "send_lines [] s = s"
| "send_lines (msg # later) s = send_lines later (snd (send_line msg s))"

definition client_sock :: "int \<Rightarrow> int \<Rightarrow> string list \<Rightarrow> io \<Rightarrow> int \<times> io" where
  "client_sock fd connected args s =
     (if fd < 0 then (- 1, s)
      else
        let s1 = print_io ''socket fd=%d'' [TInt fd] s
        in if connected \<noteq> 0 then (- 1, s1)
           else
             let s2 = print_io ''connet server ok, ip: %s, port: %d'' [TStr ''127.0.0.1'', TInt 1234] s1
             in (0, print_io ''client exit'' [] (send_lines (drop 1 args) s2)))"

text \<open>
  What \<^verbatim>\<open>main\<close> runs instead. \<open>host\<close> is \<^verbatim>\<open>gethostbyname\<close>, \<open>myname\<close> the buffer as \<^verbatim>\<open>gethostname\<close> leaves it,
  \<open>ntoa\<close> is \<^verbatim>\<open>inet_ntoa\<close>; \<^verbatim>\<open>AF_INET\<close> and \<^verbatim>\<open>PF_INET\<close> are 2.
\<close>

record hostent =
  h_name :: string
  h_aliases :: "string list"
  h_addrtype :: int
  h_length :: int
  h_addr_list :: "u32 list"

definition show_host_info ::
  "(string \<Rightarrow> hostent option) \<Rightarrow> char list \<Rightarrow> (u32 \<Rightarrow> string) \<Rightarrow> string list \<Rightarrow> io \<Rightarrow> (int \<times> io) res"
where
  "show_host_info host myname ntoa args s =
     res_bind (if 1 < length args then Inr (args ! 1) else cstr_at myname 0) (\<lambda>name.
       let s1 = print_io ''host name: %s'' [TStr name] s
       in case host name of
            None \<Rightarrow> Inr (- 1, print_io ''get host info failed'' [] s1)
          | Some h \<Rightarrow>
              let s2 = print_io ''hinfo, name: %s, addr type: %d, addr len: %d''
                         [TStr (h_name h), TInt (h_addrtype h), TInt (h_length h)] s1;
                  s3 = fold (\<lambda>a. print_io ''hinfo, alias: %s'' [TStr a]) (h_aliases h) s2;
                  s4 = print_io ''AF_INET=%d, PF_INET=%d'' [TInt 2, TInt 2] s3
              in Inr (0, fold (\<lambda>a. print_io ''hinfo, addr: %s'' [TStr (ntoa a)]) (h_addr_list h) s4))"

definition host_main ::
  "(string \<Rightarrow> hostent option) \<Rightarrow> char list \<Rightarrow> (u32 \<Rightarrow> string) \<Rightarrow> string list \<Rightarrow> io \<Rightarrow> (int \<times> io) res"
where
  "host_main host myname ntoa args s = res_bind (show_host_info host myname ntoa args s) (\<lambda>(r, s1). Inr (0, s1))"

section \<open>Properties\<close>

lemma lines_sent:
  assumes "io_accept s = []"
  shows "send_lines msgs s = s\<lparr>io_sent := io_sent s @ concat (List.map (\<lambda>m. m @ [CR, NL]) msgs)\<rparr>"
  using assms by (induction msgs arbitrary: s) (auto simp: send_line_def sys_write_def Let_def)

text \<open>C35. Client and server together: every line of a client that ends with quit is answered, in order, whatever chunks
  the stream makes of them.\<close>

theorem lines_answered:
  assumes "client_sock fd 0 (prog # msgs @ [''quit'']) c = (r, c')" and "0 \<le> fd" and "io_accept c = []" and "io_sent c = []"
    and "\<forall>m\<in>set msgs. plain_msg m CR \<and> m \<noteq> ''quit''"
    and "reads_bytes (io_reads s) = io_sent c'" and "Rd_err \<notin> set (io_reads s)" and "io_accept s = []"
  shows "r = 0 \<and> (\<exists>s'. line_server_run True s = Some (Inr (Some 1, s')) \<and> reads_bytes (io_reads s') = []
    \<and> io_sent s' = io_sent s @ concat (List.map answer msgs) @ answer ''quit'')"
proof -
  have c: "r = 0" "io_sent c' = concat (List.map (\<lambda>m. m @ [CR, NL]) (msgs @ [''quit'']))"
    using assms(1-4) by (auto simp: client_sock_def print_io_def lines_sent Let_def)
  have "reads_bytes (io_reads s) = concat (List.map (\<lambda>(m, c). m @ [c, NL]) (List.map (\<lambda>m. (m, CR)) msgs)) @ ''quit'' @ [CR, NL] @ []"
    using assms(6) c(2) by (simp add: o_def)
  from loop_session [OF this _ _ assms(7,8)] assms(5) c(1) show ?thesis
    by (auto simp: line_server_run_def echo_run_def o_def)
qed

lemma lines_answered_witness:
  "\<exists>s'. line_server_run True (idle_io\<lparr>io_reads := [Rd_bytes ''he'', Rd_zero, Rd_bytes (''y'' @ [CR]), Rd_bytes (NL # ''quit'' @ [CR, NL])]\<rparr>)
      = Some (Inr (Some 1, s')) \<and> io_sent s' = [CHR ''>'', NUL] @ ''hey'' @ [CR, NL] @ [CHR ''>'', NUL] @ ''quit'' @ [CR, NL]"
proof -
  obtain r c' where c: "client_sock 3 0 (''a.out'' # [''hey''] @ [''quit'']) idle_io = (r, c')" by fastforce
  then have "io_sent c' = ''hey'' @ [CR, NL] @ ''quit'' @ [CR, NL]"
    by (auto simp: client_sock_def print_io_def send_line_def sys_write_def idle_io_def Let_def)
  then show ?thesis
    using lines_answered [OF c, of "idle_io\<lparr>io_reads := [Rd_bytes ''he'', Rd_zero, Rd_bytes (''y'' @ [CR]), Rd_bytes (NL # ''quit'' @ [CR, NL])]\<rparr>"]
    by (auto simp: idle_io_def plain_msg_def SERVER_BUF_SIZE_def answer_def)
qed

end
