(* ===== verification/Data_File.thy ===== *)
theory Data_File
  imports C_Prelude
begin

text \<open>
  Models the class of \<^verbatim>\<open>demo-dh/drivers/datafile.cpp\<close>, a file object over the streams of \<^verbatim>\<open>stdio\<close>. The calls of
  \<^verbatim>\<open>stdio\<close> are a parameter, functions on a state \<open>'w\<close>; what is used of them is stated in \<open>stdio_laws\<close>.
  \<open>ram\<close> is an instance. The build does not define \<^verbatim>\<open>DEBUG\<close>, so nothing is traced. Shown: what is written is
  read back, the size, and which calls are undefined without an open file.
\<close>

section \<open>The streams\<close>

abbreviation "SEEK_SET \<equiv> 0 :: int"
abbreviation "SEEK_END \<equiv> 2 :: int"

record ('h, 'w) stdio =
  f_open :: "string \<Rightarrow> string \<Rightarrow> 'w \<Rightarrow> 'h option \<times> 'w"
  f_close :: "'h \<Rightarrow> 'w \<Rightarrow> int \<times> 'w"
  f_read :: "'h \<Rightarrow> nat \<Rightarrow> 'w \<Rightarrow> string \<times> 'w"
  f_write :: "'h \<Rightarrow> string \<Rightarrow> 'w \<Rightarrow> nat \<times> 'w"
  f_flush :: "'h \<Rightarrow> 'w \<Rightarrow> int \<times> 'w"
  f_seek :: "'h \<Rightarrow> int \<Rightarrow> int \<Rightarrow> 'w \<Rightarrow> int \<times> 'w"
  f_tell :: "'h \<Rightarrow> 'w \<Rightarrow> int"
  f_error :: "'h \<Rightarrow> 'w \<Rightarrow> int"
  f_clearerr :: "'h \<Rightarrow> 'w \<Rightarrow> 'w"
  f_eof :: "'h \<Rightarrow> 'w \<Rightarrow> int"

section \<open>The class\<close>

datatype oflag = OFLAG_RO | OFLAG_WO | OFLAG_WR | OFLAG_AP

text \<open>The pointer \<^verbatim>\<open>f_stream\<close>: not yet set, NULL, or what \<^verbatim>\<open>fopen\<close> returned.\<close>

datatype 'h fptr = Unset | Nil_Stream | Stream 'h

record 'h data_file =
  f_name :: "string option"
  f_opened :: int
  f_flag :: oflag
  f_stream :: "'h fptr"

definition clsDataFile :: "'h data_file" where
  "clsDataFile = \<lparr>f_name = None, f_opened = 0, f_flag = OFLAG_RO, f_stream = Unset\<rparr>"

text \<open>Using the pointer; a stream that was closed is no longer there.\<close>

definition the_stream :: "'h data_file \<Rightarrow> 'h res" where
  "the_stream f =
     (case f_stream f of
        Unset \<Rightarrow> Inl Uninit_Read
      | Nil_Stream \<Rightarrow> Inl Null_Deref
      | Stream h \<Rightarrow> if f_opened f = 0 then Inl Use_After_Free else Inr h)"

definition open_mode :: "oflag \<Rightarrow> string" where
  "open_mode flag =
     (case flag of OFLAG_RO \<Rightarrow> ''r'' | OFLAG_WO \<Rightarrow> ''a'' | OFLAG_WR \<Rightarrow> ''r+'' | OFLAG_AP \<Rightarrow> ''a+'')"

definition fileOpen ::
  "('h, 'w) stdio \<Rightarrow> string option \<Rightarrow> oflag \<Rightarrow> 'h data_file \<Rightarrow> 'w \<Rightarrow> int \<times> 'h data_file \<times> 'w"
where
  "fileOpen io pathname flag f w =
     (case pathname of
        None \<Rightarrow> (- 1, f, w)
      | Some p \<Rightarrow>
          if f_opened f \<noteq> 0 then (- 2, f, w)
          else case f_open io p (open_mode flag) w of
            (None, w1) \<Rightarrow> (- 3, f\<lparr>f_stream := Nil_Stream\<rparr>, w1)
          | (Some h, w1) \<Rightarrow> (0, f\<lparr>f_stream := Stream h, f_opened := 1, f_name := Some p, f_flag := flag\<rparr>, w1))"

definition fileClose :: "('h, 'w) stdio \<Rightarrow> 'h data_file \<Rightarrow> 'w \<Rightarrow> ('h data_file \<times> 'w) res" where
  "fileClose io f w =
     (if f_opened f \<noteq> 0
      then res_bind (the_stream f) (\<lambda>h. let (r, w1) = f_close io h w in Inr (f\<lparr>f_opened := 0\<rparr>, w1))
      else Inr (f, w))"

definition destroy_file :: "('h, 'w) stdio \<Rightarrow> 'h data_file \<Rightarrow> 'w \<Rightarrow> 'w res" where
  "destroy_file io f w = res_bind (fileClose io f w) (\<lambda>(f1, w1). Inr w1)"

text \<open>The count returned, the buffer afterwards and the state.\<close>

definition fileRead ::
  "('h, 'w) stdio \<Rightarrow> char list option \<Rightarrow> u32 \<Rightarrow> 'h data_file \<Rightarrow> 'w \<Rightarrow> (u32 \<times> char list option \<times> 'w) res"
where
  "fileRead io buf bytes f w =
     (if bytes = 0 then Inr (0, buf, w)
      else case buf of
        None \<Rightarrow> Inr (0, buf, w)
      | Some b \<Rightarrow>
          if f_opened f = 0 \<or> f_flag f = OFLAG_WO then Inr (0, buf, w)
          else res_bind (the_stream f) (\<lambda>h.
            let (bs, w1) = f_read io h (unat bytes) w
            in if length b < length bs then Inl Out_Of_Bounds
               else Inr (of_nat (length bs), Some (bs @ drop (length bs) b), w1)))"

definition fileWrite ::
  "('h, 'w) stdio \<Rightarrow> char list option \<Rightarrow> u32 \<Rightarrow> 'h data_file \<Rightarrow> 'w \<Rightarrow> (u32 \<times> 'w) res"
where
  "fileWrite io buf bytes f w =
     (if bytes = 0 then Inr (0, w)
      else case buf of
        None \<Rightarrow> Inr (0, w)
      | Some b \<Rightarrow>
          if f_opened f = 0 \<or> f_flag f = OFLAG_RO then Inr (0, w)
          else res_bind (the_stream f) (\<lambda>h.
            if length b < unat bytes then Inl Out_Of_Bounds
            else let (n, w1) = f_write io h (take (unat bytes) b) w in Inr (of_nat n, w1)))"

definition fileFlush :: "('h, 'w) stdio \<Rightarrow> 'h data_file \<Rightarrow> 'w \<Rightarrow> (int \<times> 'w) res" where
  "fileFlush io f w = (if f_opened f \<noteq> 0 then res_bind (the_stream f) (\<lambda>h. Inr (f_flush io h w)) else Inr (0, w))"

definition atStart :: "('h, 'w) stdio \<Rightarrow> 'h data_file \<Rightarrow> 'w \<Rightarrow> (int \<times> 'w) res" where
  "atStart io f w = res_bind (the_stream f) (\<lambda>h. Inr (f_seek io h 0 SEEK_SET w))"

definition atEnd :: "('h, 'w) stdio \<Rightarrow> 'h data_file \<Rightarrow> 'w \<Rightarrow> (int \<times> 'w) res" where
  "atEnd io f w = res_bind (the_stream f) (\<lambda>h. Inr (f_seek io h 0 SEEK_END w))"

definition atPos :: "('h, 'w) stdio \<Rightarrow> u32 \<Rightarrow> 'h data_file \<Rightarrow> 'w \<Rightarrow> (int \<times> 'w) res" where
  "atPos io new_pos f w = res_bind (the_stream f) (\<lambda>h. Inr (f_seek io h (uint new_pos) SEEK_SET w))"

definition getPos :: "('h, 'w) stdio \<Rightarrow> 'h data_file \<Rightarrow> 'w \<Rightarrow> u32 res" where
  "getPos io f w = res_bind (the_stream f) (\<lambda>h. Inr (of_int (f_tell io h w)))"

text \<open>The positions are kept in 32 bits.\<close>

definition getSize :: "('h, 'w) stdio \<Rightarrow> 'h data_file \<Rightarrow> 'w \<Rightarrow> (u32 \<times> 'w) res" where
  "getSize io f w = res_bind (the_stream f) (\<lambda>h.
     let cur_len = of_int (f_tell io h w) :: u32;
         (r1, w1) = f_seek io h 0 SEEK_END w;
         len = of_int (f_tell io h w1);
         (r2, w2) = f_seek io h (uint cur_len) SEEK_SET w1
     in Inr (len, w2))"

definition isError :: "('h, 'w) stdio \<Rightarrow> 'h data_file \<Rightarrow> 'w \<Rightarrow> (int \<times> 'w) res" where
  "isError io f w = res_bind (the_stream f) (\<lambda>h.
     let r = f_error io h w in Inr (r, if r \<noteq> 0 then f_clearerr io h w else w))"

definition isEnd :: "('h, 'w) stdio \<Rightarrow> 'h data_file \<Rightarrow> 'w \<Rightarrow> int res" where
  "isEnd io f w = res_bind (the_stream f) (\<lambda>h. Inr (f_eof io h w))"

section \<open>What streams promise\<close>

text \<open>
  An open stream as the program sees it: its mode, the content of the file, the position, and
  whether the last transfer was a write, after which a stream may not be read before it is
  positioned or flushed (and the same the other way round).
\<close>

datatype transfer = No_Transfer | Was_Read | Was_Write

record view =
  v_mode :: string
  v_data :: string
  v_at :: nat
  v_last :: transfer

definition put_in :: "nat \<Rightarrow> string \<Rightarrow> string \<Rightarrow> string" where
  "put_in p bs d = take p (d @ replicate (p - length d) NUL) @ bs @ drop (p + length bs) d"

definition written :: "string \<Rightarrow> view \<Rightarrow> view" where
  "written bs v =
     (if v_mode v = ''r+''
      then v\<lparr>v_data := put_in (v_at v) bs (v_data v), v_at := v_at v + length bs, v_last := Was_Write\<rparr>
      else v\<lparr>v_data := v_data v @ bs, v_at := length (v_data v) + length bs, v_last := Was_Write\<rparr>)"

definition stdio_laws :: "('h, 'w) stdio \<Rightarrow> ('h \<Rightarrow> 'w \<Rightarrow> view option) \<Rightarrow> bool" where
  "stdio_laws io look \<longleftrightarrow>
     (\<forall>h w v. look h w = Some v \<longrightarrow>
        f_tell io h w = int (v_at v)
      \<and> (\<forall>p\<ge>0. \<exists>w'. f_seek io h p SEEK_SET w = (0, w') \<and> look h w' = Some (v\<lparr>v_at := nat p, v_last := No_Transfer\<rparr>))
      \<and> (\<exists>w'. f_seek io h 0 SEEK_END w = (0, w') \<and> look h w' = Some (v\<lparr>v_at := length (v_data v), v_last := No_Transfer\<rparr>))
      \<and> (v_mode v \<noteq> ''a'' \<longrightarrow> v_last v \<noteq> Was_Write \<longrightarrow>
          (\<forall>n. \<exists>w'. f_read io h n w = (take n (drop (v_at v) (v_data v)), w')
             \<and> look h w' = Some (v\<lparr>v_at := v_at v + min n (length (v_data v) - v_at v), v_last := Was_Read\<rparr>)))
      \<and> (v_mode v \<noteq> ''r'' \<longrightarrow> v_last v \<noteq> Was_Read \<longrightarrow>
          (\<forall>bs. \<exists>w'. f_write io h bs w = (length bs, w') \<and> look h w' = Some (written bs v))))"

text \<open>An instance: one file in memory, its content while no stream is open, and the open stream.\<close>

type_synonym ram_world = "string \<times> view option"

definition ram :: "(unit, ram_world) stdio" where
  "ram = \<lparr>
     f_open = \<lambda>path m w. case w of
         (d, None) \<Rightarrow> (Some (), d, Some \<lparr>v_mode = m, v_data = d, v_at = 0, v_last = No_Transfer\<rparr>)
       | (d, Some v) \<Rightarrow> (None, w),
     f_close = \<lambda>h w. case w of (d, Some v) \<Rightarrow> (0, v_data v, None) | (d, None) \<Rightarrow> (- 1, w),
     f_read = \<lambda>h n w. case w of
         (d, Some v) \<Rightarrow> (take n (drop (v_at v) (v_data v)), d,
            Some (v\<lparr>v_at := v_at v + min n (length (v_data v) - v_at v), v_last := Was_Read\<rparr>))
       | (d, None) \<Rightarrow> ([], w),
     f_write = \<lambda>h bs w. case w of (d, Some v) \<Rightarrow> (length bs, d, Some (written bs v)) | (d, None) \<Rightarrow> (0, w),
     f_flush = \<lambda>h w. case w of (d, Some v) \<Rightarrow> (0, d, Some (v\<lparr>v_last := No_Transfer\<rparr>)) | (d, None) \<Rightarrow> (- 1, w),
     f_seek = \<lambda>h p whence w. case w of
         (d, Some v) \<Rightarrow>
           let q = (if whence = SEEK_END then int (length (v_data v)) + p else p)
           in if q < 0 then (- 1, w) else (0, d, Some (v\<lparr>v_at := nat q, v_last := No_Transfer\<rparr>))
       | (d, None) \<Rightarrow> (- 1, w),
     f_tell = \<lambda>h w. case snd w of Some v \<Rightarrow> int (v_at v) | None \<Rightarrow> - 1,
     f_error = \<lambda>h w. 0, f_clearerr = \<lambda>h w. w,
     f_eof = \<lambda>h w. case snd w of Some v \<Rightarrow> (if v_at v < length (v_data v) then 0 else 1) | None \<Rightarrow> 1\<rparr>"

lemma ram_laws: "stdio_laws ram (\<lambda>h w. snd w)"
  by (auto simp: stdio_laws_def ram_def Let_def split: prod.splits)

section \<open>An open file\<close>

definition file_is :: "('h \<Rightarrow> 'w \<Rightarrow> view option) \<Rightarrow> 'h data_file \<Rightarrow> 'h \<Rightarrow> view \<Rightarrow> 'w \<Rightarrow> bool" where
  "file_is look f h v w \<longleftrightarrow> f_opened f \<noteq> 0 \<and> f_stream f = Stream h \<and> look h w = Some v \<and> v_mode v = open_mode (f_flag f)"

lemma file_is_stream: "file_is look f h v w \<Longrightarrow> the_stream f = Inr h"
  by (simp add: file_is_def the_stream_def)

lemma length_put_in: "length (put_in p bs d) = max (length d) (p + length bs)"
  by (auto simp: put_in_def)

lemma put_in_read: "take (length bs) (drop p (put_in p bs d)) = bs"
  by (simp add: put_in_def)

lemma written_read:
  "take (length bs) (drop (if v_mode v = ''r+'' then v_at v else length (v_data v)) (v_data (written bs v))) = bs"
  by (simp add: written_def put_in_read)

lemma file_write:
  assumes "stdio_laws io look" and "file_is look f h v w" and "f_flag f \<noteq> OFLAG_RO" and "v_last v \<noteq> Was_Read"
    and "length bs < 2 ^ 32" and "bs \<noteq> []"
  shows "\<exists>w'. fileWrite io (Some bs) (of_nat (length bs)) f w = Inr (of_nat (length bs), w') \<and> file_is look f h (written bs v) w'"
proof -
  have u: "unat (of_nat (length bs) :: u32) = length bs" using assms(5) by (simp add: unat_of_nat take_bit_nat_eq_self)
  then have "(of_nat (length bs) :: u32) \<noteq> 0" using assms(6) by (metis length_0_conv unat_0)
  moreover have "v_mode v \<noteq> ''r''" using assms(2,3) by (auto simp: file_is_def open_mode_def split: oflag.splits)
  then obtain w' where "f_write io h bs w = (length bs, w')" "look h w' = Some (written bs v)"
    using assms(1,2,4) unfolding stdio_laws_def file_is_def by blast
  ultimately show ?thesis
    using assms(2,3) u by (auto simp: fileWrite_def file_is_stream file_is_def written_def)
qed

lemma file_at:
  assumes "stdio_laws io look" and "file_is look f h v w"
  shows "\<exists>w'. atPos io p f w = Inr (0, w') \<and> file_is look f h (v\<lparr>v_at := unat p, v_last := No_Transfer\<rparr>) w'"
proof -
  have "0 \<le> uint p" by simp
  then obtain w' where "f_seek io h (uint p) SEEK_SET w = (0, w')" "look h w' = Some (v\<lparr>v_at := nat (uint p), v_last := No_Transfer\<rparr>)"
    using assms unfolding stdio_laws_def file_is_def by blast
  then show ?thesis using assms(2) by (auto simp: atPos_def file_is_stream file_is_def)
qed

lemma file_read:
  assumes "stdio_laws io look" and "file_is look f h v w" and "f_flag f \<noteq> OFLAG_WO" and "v_last v \<noteq> Was_Write"
    and "n \<noteq> 0" and "length b = unat n"
  shows "\<exists>w'. fileRead io (Some b) n f w =
      (let bs = take (unat n) (drop (v_at v) (v_data v)) in Inr (of_nat (length bs), Some (bs @ drop (length bs) b), w'))"
proof -
  have "v_mode v \<noteq> ''a''" using assms(2,3) by (auto simp: file_is_def open_mode_def split: oflag.splits)
  then obtain w' where "f_read io h (unat n) w = (take (unat n) (drop (v_at v) (v_data v)), w')"
    using assms(1,2,4) unfolding stdio_laws_def file_is_def by blast
  then show ?thesis using assms by (auto simp: fileRead_def file_is_stream file_is_def Let_def)
qed

section \<open>Properties\<close>

text \<open>C36. What is written to a file opened for writing and reading is read back from the position it was written at: the
  current one, or the end of the file when it was opened to append.\<close>

theorem data_file_round_trip:
  assumes "stdio_laws io look" and "file_is look f h v w" and "f_flag f \<in> {OFLAG_WR, OFLAG_AP}" and "v_last v \<noteq> Was_Read"
    and "data \<noteq> []" and "length data < 2 ^ 32" and "length b = length data"
    and "p = (if f_flag f = OFLAG_WR then v_at v else length (v_data v))" and "p < 2 ^ 32"
  shows "\<exists>w1 w2 w3. fileWrite io (Some data) (of_nat (length data)) f w = Inr (of_nat (length data), w1)
    \<and> atPos io (of_nat p) f w1 = Inr (0, w2)
    \<and> fileRead io (Some b) (of_nat (length data)) f w2 = Inr (of_nat (length data), Some data, w3)"
proof -
  have fl: "f_flag f \<noteq> OFLAG_RO" "f_flag f \<noteq> OFLAG_WO" using assms(3) by auto
  have u: "unat (of_nat (length data) :: u32) = length data" "unat (of_nat p :: u32) = p"
    using assms(6,9) by (simp_all add: unat_of_nat take_bit_nat_eq_self)
  have n0: "(of_nat (length data) :: u32) \<noteq> 0" using u(1) assms(5) by (metis length_0_conv unat_0)
  obtain w1 where w1: "fileWrite io (Some data) (of_nat (length data)) f w = Inr (of_nat (length data), w1)"
      "file_is look f h (written data v) w1"
    using file_write [OF assms(1,2) fl(1) assms(4,6,5)] by blast
  obtain w2 where w2: "atPos io (of_nat p) f w1 = Inr (0, w2)"
      "file_is look f h ((written data v)\<lparr>v_at := p, v_last := No_Transfer\<rparr>) w2"
    using file_at [OF assms(1) w1(2), of "of_nat p"] u(2) by auto
  have "p = (if v_mode v = ''r+'' then v_at v else length (v_data v))"
    using assms(2,3,8) by (auto simp: file_is_def open_mode_def)
  then have "take (length data) (drop p (v_data (written data v))) = data" using written_read [of data v] by simp
  moreover obtain w3 where "fileRead io (Some b) (of_nat (length data)) f w2 =
      (let bs = take (length data) (drop p (v_data (written data v))) in Inr (of_nat (length bs), Some (bs @ drop (length bs) b), w3))"
    using file_read [OF assms(1) w2(2) fl(2) _ n0, of b] assms(7) u by auto
  ultimately show ?thesis using w1(1) w2(1) assms(7) by (auto simp: Let_def)
qed

lemma data_file_round_trip_witness:
  "\<exists>w1 w2 w3. fileWrite ram (Some ''abc'') 3 \<lparr>f_name = Some ''x'', f_opened = 1, f_flag = OFLAG_AP, f_stream = Stream ()\<rparr>
        ([], Some \<lparr>v_mode = ''a+'', v_data = ''old'', v_at = 1, v_last = No_Transfer\<rparr>) = Inr (3, w1)
    \<and> atPos ram 3 \<lparr>f_name = Some ''x'', f_opened = 1, f_flag = OFLAG_AP, f_stream = Stream ()\<rparr> w1 = Inr (0, w2)
    \<and> fileRead ram (Some ''???'') 3 \<lparr>f_name = Some ''x'', f_opened = 1, f_flag = OFLAG_AP, f_stream = Stream ()\<rparr> w2
        = Inr (3, Some ''abc'', w3)"
  using data_file_round_trip [OF ram_laws, where data = "''abc''" and b = "''???''" and h = "()" and p = 3
      and f = "\<lparr>f_name = Some ''x'', f_opened = 1, f_flag = OFLAG_AP, f_stream = Stream ()\<rparr>"
      and v = "\<lparr>v_mode = ''a+'', v_data = ''old'', v_at = 1, v_last = No_Transfer\<rparr>"
      and w = "([], Some \<lparr>v_mode = ''a+'', v_data = ''old'', v_at = 1, v_last = No_Transfer\<rparr>)"]
  by (simp add: file_is_def open_mode_def)

text \<open>The size of an open file is its length modulo two to the 32, and the position is kept modulo two to the 32: from a
  position of 4 GiB or more \<^verbatim>\<open>getSize\<close> moves the file to another.\<close>

theorem file_size:
  assumes "stdio_laws io look" and "file_is look f h v w"
  shows "\<exists>w'. getSize io f w = Inr (of_nat (length (v_data v)), w')
    \<and> look h w' = Some (v\<lparr>v_at := v_at v mod 2 ^ 32, v_last := No_Transfer\<rparr>)"
proof -
  have t: "f_tell io h w' = int (v_at v')" if "look h w' = Some v'" for w' v'
    using assms(1) that unfolding stdio_laws_def by blast
  have l: "look h w = Some v" using assms(2) by (simp add: file_is_def)
  obtain w1 where w1: "f_seek io h 0 SEEK_END w = (0, w1)"
      "look h w1 = Some (v\<lparr>v_at := length (v_data v), v_last := No_Transfer\<rparr>)"
    using assms(1) l unfolding stdio_laws_def by blast
  let ?p = "uint (of_nat (v_at v) :: u32)"
  have "0 \<le> ?p" by simp
  then obtain w2 where w2: "f_seek io h ?p SEEK_SET w1 = (0, w2)"
      "look h w2 = Some ((v\<lparr>v_at := length (v_data v), v_last := No_Transfer\<rparr>)\<lparr>v_at := nat ?p, v_last := No_Transfer\<rparr>)"
    using assms(1) w1(2) unfolding stdio_laws_def by blast
  have "nat ?p = v_at v mod 2 ^ 32" by (simp add: uint_nat unat_of_nat take_bit_eq_mod)
  then show ?thesis using w1 w2 t [OF l] t [OF w1(2)] file_is_stream [OF assms(2)] by (simp add: getSize_def Let_def)
qed

lemma file_size_witness:
  "\<exists>w'. getSize ram \<lparr>f_name = None, f_opened = 1, f_flag = OFLAG_RO, f_stream = Stream ()\<rparr>
      ([], Some \<lparr>v_mode = ''r'', v_data = ''hello'', v_at = 2, v_last = Was_Read\<rparr>) = Inr (5, w')
    \<and> snd w' = Some \<lparr>v_mode = ''r'', v_data = ''hello'', v_at = 2, v_last = No_Transfer\<rparr>"
  using file_size [OF ram_laws, of "\<lparr>f_name = None, f_opened = 1, f_flag = OFLAG_RO, f_stream = Stream ()\<rparr>" "()"
      "\<lparr>v_mode = ''r'', v_data = ''hello'', v_at = 2, v_last = Was_Read\<rparr>"
      "([], Some \<lparr>v_mode = ''r'', v_data = ''hello'', v_at = 2, v_last = Was_Read\<rparr>)"]
  by (simp add: file_is_def open_mode_def)

text \<open>Without an open file reading, writing, flushing and closing do nothing, while every call that positions the file, asks
  for its position, size or state uses a pointer that is not set, null, or freed.\<close>

theorem no_open_file:
  assumes "f_opened f = 0"
  shows "fileRead io buf n f w = Inr (0, buf, w) \<and> fileWrite io buf n f w = Inr (0, w) \<and> fileFlush io f w = Inr (0, w)
    \<and> fileClose io f w = Inr (f, w)
    \<and> (\<exists>e \<in> {Uninit_Read, Null_Deref, Use_After_Free}. atStart io f w = Inl e \<and> atEnd io f w = Inl e \<and> atPos io p f w = Inl e
        \<and> getPos io f w = Inl e \<and> getSize io f w = Inl e \<and> isError io f w = Inl e \<and> isEnd io f w = Inl e)"
  using assms
  by (cases "f_stream f")
    (auto simp: fileRead_def fileWrite_def fileFlush_def fileClose_def the_stream_def atStart_def atEnd_def atPos_def
      getPos_def getSize_def isError_def isEnd_def split: option.split)

lemma no_open_file_witness:
  "atEnd ram (clsDataFile :: unit data_file) ([], None) = Inl Uninit_Read"
  using no_open_file [of clsDataFile ram None 0 "([], None)" 0] by (auto simp: clsDataFile_def atEnd_def the_stream_def)

end
