(* ===== verification/Arg_Demo.thy ===== *)
theory Arg_Demo
  imports Comm_File
begin

text \<open>
  Models \<^verbatim>\<open>c2/main.c\<close>: demos of options, arguments, the environment and temporary files, of which \<^verbatim>\<open>main\<close> runs the
  last. \<^verbatim>\<open>getopt_long\<close> and the file calls are parameters; the environment is a map. What goes to standard
  error is left out.
\<close>

section \<open>Options\<close>

text \<open>
  One call of \<^verbatim>\<open>getopt_long\<close>: from its state and \<^verbatim>\<open>argv\<close> the option, \<^verbatim>\<open>optarg\<close>, \<^verbatim>\<open>optind\<close>, the permuted
  \<^verbatim>\<open>argv\<close> and the next state.
\<close>

type_synonym 'g get_option = "'g \<Rightarrow> string list \<Rightarrow> int \<times> string option \<times> int \<times> string list \<times> 'g"

text \<open>How a run ends: the function returns, or \<^verbatim>\<open>exit\<close> is called.\<close>

datatype ending = Returned int | Exited int

definition opt_usage :: "string \<Rightarrow> trace list" where
  "opt_usage prg_name =
     [say ''Usage: %s'' [TStr prg_name],
      Trace ('' -h --help'' @ [TAB, TAB] @ ''Display usage information.'' @ [NL] @
             '' -o --output filename'' @ [TAB] @ ''Write output to file.'' @ [NL] @
             '' -v --verbose'' @ [TAB, TAB] @ ''Print verbose messages.'' @ [NL]) []]"

text \<open>The part of \<^verbatim>\<open>print_usage\<close> that is seen: standard output only, and the exit code.\<close>

definition print_usage :: "bool \<Rightarrow> int \<Rightarrow> string \<Rightarrow> trace list \<Rightarrow> ending \<times> trace list" where
  "print_usage to_stdout exit_code prg_name out =
     (Exited exit_code, if to_stdout then out @ opt_usage prg_name else out)"

definition verbose_lines :: "int \<Rightarrow> string list \<Rightarrow> trace list" where
  "verbose_lines optind av =
     List.map (\<lambda>i. say ''argv[%d]: %s'' [TInt i, TStr (av ! nat i)]) [optind..int (length av) - 1]"

partial_function (option) opt_loop ::
  "'g get_option \<Rightarrow> string \<Rightarrow> bool \<Rightarrow> 'g \<Rightarrow> string list \<Rightarrow> trace list \<Rightarrow> (ending \<times> trace list) res option"
where
  "opt_loop getopt prg_name verbose g av out =
     (case getopt g av of
        (opt, optarg, optind, av1, g1) \<Rightarrow>
          if opt = uchar_val (CHR ''h'') then Some (Inr (print_usage True 0 prg_name out))
          else if opt = uchar_val (CHR ''v'') then opt_loop getopt prg_name True g1 av1 out
          else if opt = uchar_val (CHR ''o'')
          then (case optarg of
                  None \<Rightarrow> Some (Inl Null_Deref)
                | Some outfile \<Rightarrow>
                    opt_loop getopt prg_name verbose g1 av1 (out @ [say ''outfile: %s'' [TStr outfile]]))
          else if opt = uchar_val (CHR ''?'') then Some (Inr (print_usage False 1 prg_name out))
          else if opt = - 1
          then (if verbose \<and> optind < 0 then Some (Inl Out_Of_Bounds)
                else Some (Inr (Returned 0, out @ (if verbose then verbose_lines optind av1 else []))))
          else Some (Inl Aborted))"

definition test_opt :: "'g get_option \<Rightarrow> 'g \<Rightarrow> string list \<Rightarrow> (ending \<times> trace list) res option" where
  "test_opt getopt g av = (if av = [] then Some (Inl Null_Deref) else opt_loop getopt (hd av) False g av [])"

section \<open>Arguments and standard output\<close>

definition loop_arg :: "string list \<Rightarrow> int \<times> trace list" where
  "loop_arg av =
     (0, say ''argc=%d'' [TInt (int (length av))] #
         (if 0 < length av
          then say ''file name: %s'' [TStr (av ! 0)] #
               List.map (\<lambda>i. say ''argv[%d]: %s'' [TInt (int i), TStr (av ! i)]) [1..<length av]
          else []))"

text \<open>The loop of dots that is compiled has no end.\<close>

partial_function (option) dots :: "trace list \<Rightarrow> trace list option" where
  "dots out = dots (out @ [Trace ''.'' []])"

definition test_ioe :: "trace list option" where
  "test_ioe = dots [say ''start'' []]"

section \<open>The environment\<close>

type_synonym env = "string \<rightharpoonup> string"

text \<open>\<^verbatim>\<open>setenv\<close> with overwriting; it fails, unnoticed, for a name that is empty or holds an equals sign.\<close>

definition setenv :: "string \<Rightarrow> string \<Rightarrow> env \<Rightarrow> env" where
  "setenv name val e = (if name = [] \<or> CHR ''='' \<in> set name then e else e(name \<mapsto> val))"

text \<open>The string of a pointer that \<^verbatim>\<open>printf\<close> is given.\<close>

definition str_arg :: "string option \<Rightarrow> string res" where
  "str_arg p = (case p of None \<Rightarrow> Inl Null_Deref | Some str \<Rightarrow> Inr str)"

definition test_env :: "string list \<Rightarrow> env \<Rightarrow> (int \<times> trace list \<times> env) res" where
  "test_env av e =
     res_bind (str_arg (e ''USER'')) (\<lambda>user.
     res_bind (str_arg (e ''HOME'')) (\<lambda>home.
     res_bind (str_arg (e ''PATH'')) (\<lambda>path.
       let out = [say ''USER: %s'' [TStr user], say ''HOME: %s'' [TStr home], say ''PATH: %s'' [TStr path]]
                 @ (if 0 < length av then [say ''prg name: %s'' [TStr (av ! 0)]] else []);
           penv = (if 1 < length av then av ! 1 else ''ABCDEF'')
       in res_bind (if 1 < length av
                    then res_bind (str_arg (e penv)) (\<lambda>old. Inr [say ''old env %s = %s'' [TStr penv, TStr old]])
                    else Inr []) (\<lambda>shown.
            let pval = (if 2 < length av then av ! 2 else ''goodcode'');
                e1 = setenv penv pval e
            in res_bind (str_arg (e1 penv)) (\<lambda>new.
                 Inr (0, out @ shown @ [say ''set env %s = %s'' [TStr penv, TStr pval],
                                        say ''get env %s = %s'' [TStr penv, TStr new]], e1))))))"

section \<open>A temporary file\<close>

record 'w tmp_calls =
  t_mkstemp :: "string \<Rightarrow> 'w \<Rightarrow> int \<times> string \<times> 'w"
  t_unlink :: "string \<Rightarrow> 'w \<Rightarrow> 'w"

definition tmp_src :: string where
  "tmp_src = [CHR 0x31, CHR 0x32, CHR 0x33, CHR 0x34, CHR 0x35]"

definition test_tmp :: "'w posix \<Rightarrow> 'w tmp_calls \<Rightarrow> 'w \<Rightarrow> int \<times> trace list \<times> 'w" where
  "test_tmp px tc w =
     (case t_mkstemp tc ''/tmp/temp_file123.XXXXXX'' w of
        (fd, name, w1) \<Rightarrow>
          if fd < 0 then (- 1, [say ''create tmpfile %s failed, %d'' [TStr name, TInt fd]], w1)
          else
            let out1 = [say ''create tmpfile %s okay, %d'' [TStr name, TInt fd]];
                (r, w3) = p_write px fd tmp_src (t_unlink tc name w1)
            in if r < 0 then (- 1, out1 @ [say ''write data to file failed'' []], w3)
               else
                 let (pos, w4) = p_lseek px fd 0 SEEK_SET w3;
                     (n, bs, w5) = p_read px fd 5 w4;
                     out2 = out1 @ [say ''write %d bytes to file done'' [TInt 5], say ''new file pos = %d'' [TInt pos]];
                     dst = bs @ replicate (5 - length bs) NUL
                 in if n \<le> 0 then (- 1, out2 @ [say ''read data from file failed %d'' [TInt n]], w5)
                    else (0, out2 @ [say ''read %d bytes from file:'' [TInt 5]]
                             @ List.map (\<lambda>i. say ''dst[%d] = %2x'' [TInt (int i), TInt (uchar_val (dst ! i))]) [0..<5],
                          snd (p_close px fd w5)))"

definition c2_main :: "'w posix \<Rightarrow> 'w tmp_calls \<Rightarrow> 'w \<Rightarrow> int \<times> trace list \<times> 'w" where
  "c2_main px tc w = (let (r, out, w1) = test_tmp px tc w in (0, out, w1))"

section \<open>Lemmas\<close>

text \<open>The options that \<open>getopt\<close> finds, one after the other, and how it ends.\<close>

fun finds :: "'g get_option \<Rightarrow> 'g \<Rightarrow> string list \<Rightarrow> (int \<times> string option) list \<Rightarrow> int \<Rightarrow> string list \<Rightarrow> bool" where
  "finds getopt g av [] oi av' \<longleftrightarrow> (case getopt g av of (opt, arg, oi', av1, g1) \<Rightarrow> opt = - 1 \<and> oi' = oi \<and> av1 = av')"
| "finds getopt g av ((o1, a1) # os) oi av' \<longleftrightarrow>
     (case getopt g av of (opt, arg, oi', av1, g1) \<Rightarrow> opt = o1 \<and> arg = a1 \<and> finds getopt g1 av1 os oi av')"

definition plain_option :: "int \<times> string option \<Rightarrow> bool" where
  "plain_option x \<longleftrightarrow> fst x = uchar_val (CHR ''v'') \<or> fst x = uchar_val (CHR ''o'') \<and> snd x \<noteq> None"

definition outfiles :: "(int \<times> string option) list \<Rightarrow> trace list" where
  "outfiles os = List.map (\<lambda>x. say ''outfile: %s'' [TStr (the (snd x))]) (filter (\<lambda>x. fst x = uchar_val (CHR ''o'')) os)"

lemma option_codes: "uchar_val (CHR ''h'') = 104" "uchar_val (CHR ''v'') = 118" "uchar_val (CHR ''o'') = 111"
    "uchar_val (CHR ''?'') = 63"
  by (simp_all add: uchar_val_def)

lemma opt_loop_finds:
  assumes "finds getopt g av os oi av'" and "\<forall>x\<in>set os. plain_option x" and "0 \<le> oi"
  shows "opt_loop getopt prg verbose g av out =
    Some (Inr (Returned 0, out @ outfiles os
      @ (if verbose \<or> uchar_val (CHR ''v'') \<in> fst ` set os then verbose_lines oi av' else [])))"
  using assms
proof (induction os arbitrary: g av verbose out)
  case Nil
  then show ?case by (subst opt_loop.simps) (auto simp: outfiles_def option_codes split: prod.splits)
next
  case (Cons x os)
  obtain o1 a1 where x: "x = (o1, a1)" by (cases x)
  obtain arg oi1 av1 g1 where g: "getopt g av = (o1, a1, oi1, av1, g1)" "finds getopt g1 av1 os oi av'"
    using Cons.prems(1) x by (auto split: prod.splits)
  have os: "\<forall>x\<in>set os. plain_option x" using Cons.prems(2) by simp
  consider "o1 = 118" | f where "o1 = 111" "a1 = Some f"
    using Cons.prems(2) x by (auto simp: plain_option_def option_codes)
  then show ?case
    using Cons.IH [OF g(2) os Cons.prems(3)] x g(1)
    by cases (subst opt_loop.simps, simp add: option_codes outfiles_def)+
qed

lemma dots_forever: "dots out \<noteq> Some r"
proof
  assume d: "dots out = Some r"
  show False by (rule dots.raw_induct [OF _ d, where P = "\<lambda>_ _. False"]) blast
qed

lemma test_ioe_forever: "test_ioe = None"
  using dots_forever by (cases test_ioe) (auto simp: test_ioe_def)

section \<open>Properties\<close>

text \<open>When \<^verbatim>\<open>getopt_long\<close> finds only -v and -o options, each -o is reported with its argument, in order, and after a -v
  the arguments that are left are listed; the function returns 0.\<close>

theorem options_reported:
  assumes "finds getopt g (prg # av) os oi av'" and "\<forall>x\<in>set os. plain_option x" and "0 \<le> oi"
  shows "test_opt getopt g (prg # av) =
    Some (Inr (Returned 0, outfiles os @ (if uchar_val (CHR ''v'') \<in> fst ` set os then verbose_lines oi av' else [])))"
  using opt_loop_finds [OF assms] by (simp add: test_opt_def)

text \<open>A \<^verbatim>\<open>getopt_long\<close> for the example, that has a list of what it will find.\<close>

definition listed :: "(int \<times> string option) list get_option" where
  "listed g av = (case g of [] \<Rightarrow> (- 1, None, int (length av) - 1, av, []) | (opt, a) # os \<Rightarrow> (opt, a, 0, av, os))"

lemma options_reported_witness:
  "test_opt listed [(111, Some ''f.txt''), (118, None)] [''prg'', ''-o'', ''f.txt'', ''-v'', ''rest''] =
    Some (Inr (Returned 0, [say ''outfile: %s'' [TStr ''f.txt''], say ''argv[%d]: %s'' [TInt 4, TStr ''rest'']]))"
  using options_reported [of listed "[(111, Some ''f.txt''), (118, None)]" "''prg''" "[''-o'', ''f.txt'', ''-v'', ''rest'']"
      "[(111, Some ''f.txt''), (118, None)]" 4 "[''prg'', ''-o'', ''f.txt'', ''-v'', ''rest'']"]
  by (simp add: listed_def plain_option_def option_codes outfiles_def verbose_lines_def)

text \<open>With the three standard variables set, a run with a name and a value sets and prints the variable, or is
  undefined: when the variable has no old value, which is printed all the same, or when the name
  cannot be set and has no value.\<close>

theorem environment_set:
  assumes "e ''USER'' = Some u" and "e ''HOME'' = Some h" and "e ''PATH'' = Some p"
  shows "case e name of
      None \<Rightarrow> test_env [prg, name, val] e = Inl Null_Deref
    | Some old \<Rightarrow> (\<exists>out. test_env [prg, name, val] e = Inr (0, out @
        [say ''old env %s = %s'' [TStr name, TStr old], say ''set env %s = %s'' [TStr name, TStr val],
         say ''get env %s = %s'' [TStr name, TStr (if name = [] \<or> CHR ''='' \<in> set name then old else val)]],
        setenv name val e))"
proof -
  have "str_arg (setenv name val e name) = Inr (if name = [] \<or> CHR ''='' \<in> set name then old else val)" if "e name = Some old" for old
    using that by (simp add: setenv_def str_arg_def)
  then show ?thesis using assms
    by (cases "e name") (auto simp: test_env_def str_arg_def Let_def numeral_2_eq_2 intro!: exI [where P = "\<lambda>out. _ # _ = out @ _"])
qed

lemma environment_set_witness:
  "\<exists>out. test_env [''a.out'', ''USER'', ''bob''] (\<lambda>n. Some ''x'') = Inr (0, out @
    [say ''old env %s = %s'' [TStr ''USER'', TStr ''x''], say ''set env %s = %s'' [TStr ''USER'', TStr ''bob''],
     say ''get env %s = %s'' [TStr ''USER'', TStr ''bob'']], (\<lambda>n. Some ''x'')(''USER'' \<mapsto> ''bob''))"
  using environment_set [where e = "\<lambda>n. Some ''x''" and u = "''x''" and h = "''x''" and p = "''x''" and name = "''USER''"
      and prg = "''a.out''" and val = "''bob''"] by (simp add: setenv_def)

text \<open>On a file system with one regular file the bytes written to the temporary file are read back and printed.\<close>

definition disk_tmp :: "disk tmp_calls" where
  "disk_tmp = \<lparr>t_mkstemp = (\<lambda>name w. (3, ''/tmp/temp_file123.a1b2c3'', (Some [], 0))), t_unlink = (\<lambda>name w. w)\<rparr>"

theorem tmp_bytes_back:
  "\<exists>out. c2_main disk disk_tmp w = (0, out @
    List.map (\<lambda>i. say ''dst[%d] = %2x'' [TInt (int i), TInt (49 + int i)]) [0..<5], (Some tmp_src, 5))"
  by (simp add: c2_main_def test_tmp_def disk_tmp_def disk_ops disk_seek_0 disk_read put_at_def tmp_src_def Let_def
      uchar_val_def upt_conv_Cons)

end
