(* ===== verification/Magic_File.thy ===== *)
theory Magic_File
  imports Comm_File
begin

text \<open>
  Models \<^verbatim>\<open>apue/e4/main.c\<close>: a program that prints a file, its last word, and on demand puts a magic word in front,
  over the POSIX calls of \<open>Comm_File\<close>. Shown: what it prints of a regular file, that the file is
  changed in its first four bytes and nowhere else, and for which sizes it is undefined.
\<close>

section \<open>The program\<close>

text \<open>The size of the static buffer, which is all zero at first.\<close>

definition BUF_SIZE :: int where
  "BUF_SIZE = 1048576"

text \<open>\<^verbatim>\<open>strtol (s, NULL, 10)\<close> into an \<^verbatim>\<open>int\<close>.\<close>

definition strtol10 :: "string \<Rightarrow> int" where
  "strtol10 s =
     (let t = dropWhile is_space s;
          neg = (t \<noteq> [] \<and> hd t = CHR ''-'');
          u = (if t \<noteq> [] \<and> (hd t = CHR ''-'' \<or> hd t = CHR ''+'') then tl t else t);
          m = int (digits_val 10 0 u);
          v = (if neg then max (- (2 ^ 63)) (- m) else min (2 ^ 63 - 1) m)
      in sint (of_int v :: u32))"

text \<open>One byte of the loops that print data, with the index \<open>i\<close>.\<close>

definition dump_byte :: "nat \<Rightarrow> char \<Rightarrow> trace list" where
  "dump_byte i c =
     [Trace ''%02x '' [TInt (uchar_val c)]] @ (if (i + 1) mod 8 = 0 then [Trace [NL] []] else [])
       @ (if (i + 1) mod 4 = 0 then [Trace '' '' []] else [])"

definition dump_bytes :: "string \<Rightarrow> trace list" where
  "dump_bytes bs = concat (List.map (\<lambda>i. dump_byte i (bs ! i)) [0..<length bs])"

text \<open>A word of the buffer, of which \<open>bs\<close> has been read in.\<close>

definition buf_byte :: "string \<Rightarrow> int \<Rightarrow> char res" where
  "buf_byte bs i =
     (if i < 0 \<or> BUF_SIZE \<le> i then Inl Out_Of_Bounds else Inr (if i < int (length bs) then bs ! nat i else NUL))"

definition buf_word :: "string \<Rightarrow> int \<Rightarrow> u32 res" where
  "buf_word bs i =
     res_bind (buf_byte bs i) (\<lambda>b0. res_bind (buf_byte bs (i + 1)) (\<lambda>b1.
     res_bind (buf_byte bs (i + 2)) (\<lambda>b2. res_bind (buf_byte bs (i + 3)) (\<lambda>b3.
       Inr (le_word4 (of_int (uchar_val b0)) (of_int (uchar_val b1)) (of_int (uchar_val b2)) (of_int (uchar_val b3)))))))"

definition magic_bytes :: string where
  "magic_bytes = List.map (\<lambda>b. char_of (unat b)) (le_bytes4 0xbe57ec1c)"

text \<open>A count as \<^verbatim>\<open>read\<close> and \<^verbatim>\<open>write\<close> take it: a negative one is huge.\<close>

definition count_arg :: "int \<Rightarrow> int" where
  "count_arg n = (if n < 0 then 2 ^ 64 + n else n)"

text \<open>Putting the magic word over the buffer and writing \<open>len\<close> bytes of it back.\<close>

definition write_back :: "'w posix \<Rightarrow> int \<Rightarrow> int \<Rightarrow> string \<Rightarrow> 'w \<Rightarrow> (trace list \<times> 'w) res" where
  "write_back px fd len bs w =
     (let buf = magic_bytes @ drop 4 bs;
          (r, w1) = p_lseek px fd 0 SEEK_SET w
      in if BUF_SIZE < count_arg len then Inl Out_Of_Bounds
         else
           let (n, w2) = p_write px fd (take (nat len) (buf @ replicate (nat len - length buf) NUL)) w1
           in Inr ([say ''write %d B'' [TInt n]], w2))"

text \<open>The second descriptor; it is not closed.\<close>

definition show_again :: "'w posix \<Rightarrow> (int \<Rightarrow> 'w \<Rightarrow> int \<times> 'w) \<Rightarrow> int \<Rightarrow> 'w \<Rightarrow> trace list \<times> 'w" where
  "show_again px p_dup fd w =
     (let (fd2, w1) = p_dup fd w
      in if fd2 < 0 then ([], w1)
         else
           let (r, w2) = p_lseek px fd2 0 SEEK_SET w1;
               (n, bs, w3) = p_read px fd2 32 w2
           in ([say ''fd2=%d'' [TInt fd2]] @ dump_bytes bs, w3))"

definition read_test ::
  "'w posix \<Rightarrow> (int \<Rightarrow> 'w \<Rightarrow> int \<times> 'w) \<Rightarrow> string list \<Rightarrow> 'w \<Rightarrow> (int \<times> trace list \<times> 'w) res"
where
  "read_test px p_dup args w =
     (let out0 = [say ''%s'' [TStr ''read_test'']]
      in if length args < 2 then Inr (- 1, out0 @ [say ''please specify file name'' []], w)
         else
           let arg = (if 2 < length args then strtol10 (args ! 2) else 0);
               (fd, w1) = p_open px (args ! 1) O_RDWR 0 w
           in if fd < 0 then Inr (- 1, out0, w1)
              else
                let (len64, w2) = p_lseek px fd 0 SEEK_END w1;
                    len = sint (of_int len64 :: u32);
                    out1 = out0 @ [say ''fn=%s, fd=%d, len=%d, wr=%d'' [TStr (args ! 1), TInt fd, TInt len, TInt arg]];
                    (r, w3) = p_lseek px fd 0 SEEK_SET w2;
                    (n, bs, w4) = p_read px fd (count_arg len) w3
                in if BUF_SIZE < int (length bs) then Inl Out_Of_Bounds
                   else
                     let out2 = out1 @ [say ''read %d B'' [TInt n]] @ dump_bytes bs @ [Trace [NL] []]
                     in res_bind (buf_word bs (n - 4)) (\<lambda>lma.
                        res_bind (if arg \<noteq> 0 then write_back px fd len bs w4 else Inr ([], w4)) (\<lambda>(out3, w5).
                          let (out4, w6) = show_again px p_dup fd w5;
                              (r, w7) = p_close px fd w6
                          in Inr (0, out2 @ [say ''lma = %x'' [TInt (uint lma)]] @ out3 @ out4, w7))))"

definition e4_main ::
  "'w posix \<Rightarrow> (int \<Rightarrow> 'w \<Rightarrow> int \<times> 'w) \<Rightarrow> string list \<Rightarrow> 'w \<Rightarrow> (int \<times> trace list \<times> 'w) res"
where
  "e4_main px p_dup args w = res_bind (read_test px p_dup args w) (\<lambda>(r, out, w1). Inr (0, out, w1))"

section \<open>On a regular file\<close>

text \<open>\<^verbatim>\<open>dup\<close> on the disk: the second descriptor has the same offset.\<close>

definition disk_dup :: "int \<Rightarrow> disk \<Rightarrow> int \<times> disk" where
  "disk_dup fd w = (4, w)"

lemma small_len: "int (length cs) \<le> BUF_SIZE \<Longrightarrow> sint (of_int (int (length cs)) :: u32) = int (length cs)"
  by (simp add: signed_of_nat signed_take_bit_int_eq_self BUF_SIZE_def)

lemma length_magic [simp]: "length magic_bytes = 4"
  by (simp add: magic_bytes_def le_bytes4_def)

lemma buf_byte_last:
  assumes "i < length bs" and "int (length bs) \<le> BUF_SIZE"
  shows "buf_byte bs (int i) = Inr (bs ! i)"
  using assms by (simp add: buf_byte_def)

text \<open>The last word of a file.\<close>

definition last_word :: "string \<Rightarrow> u32" where
  "last_word cs =
     (let k = length cs - 4; b = (\<lambda>j. of_int (uchar_val (cs ! (k + j))))
      in le_word4 (b 0) (b 1) (b 2) (b 3))"

lemma buf_word_last:
  assumes "4 \<le> length cs" and "int (length cs) \<le> BUF_SIZE"
  shows "buf_word cs (int (length cs) - 4) = Inr (last_word cs)"
proof -
  have i: "int (length cs) - 4 = int (length cs - 4)" "int (length cs - 4) + 1 = int (length cs - 4 + 1)"
      "int (length cs - 4) + 2 = int (length cs - 4 + 2)" "int (length cs - 4) + 3 = int (length cs - 4 + 3)"
    using assms(1) by auto
  have "buf_byte cs (int (length cs - 4 + j)) = Inr (cs ! (length cs - 4 + j))" if "j < 4" for j
    using that assms by (intro buf_byte_last) auto
  from this [of 0] this [of 1] this [of 2] this [of 3] show ?thesis
    unfolding buf_word_def i last_word_def Let_def by simp
qed

lemma buf_word_short: "length cs < 4 \<Longrightarrow> buf_word cs (int (length cs) - 4) = Inl Out_Of_Bounds"
  by (simp add: buf_word_def buf_byte_def)

section \<open>Property\<close>

text \<open>A regular file of 4 bytes to 1 MiB is printed with its last word; with a non-zero third argument its first four
  bytes become the magic word 0xbe57ec1c, little-endian, and the rest stays. Any other size is
  an access outside the buffer.\<close>

theorem magic_word_written:
  assumes "cs' = (if strtol10 arg \<noteq> 0 then magic_bytes @ drop 4 cs else cs)" and "length cs < 2 ^ 31"
  shows "e4_main disk disk_dup [prg, fn, arg] (Some cs, k) =
    (if length cs < 4 \<or> BUF_SIZE < int (length cs) then Inl Out_Of_Bounds
     else Inr (0,
       [say ''%s'' [TStr ''read_test''],
        say ''fn=%s, fd=%d, len=%d, wr=%d'' [TStr fn, TInt 3, TInt (int (length cs)), TInt (strtol10 arg)],
        say ''read %d B'' [TInt (int (length cs))]] @ dump_bytes cs @ [Trace [NL] [], say ''lma = %x'' [TInt (uint (last_word cs))]]
       @ (if strtol10 arg \<noteq> 0 then [say ''write %d B'' [TInt (int (length cs))]] else [])
       @ [say ''fd2=%d'' [TInt 4]] @ dump_bytes (take 32 cs'), (Some cs', min 32 (length cs'))))"
proof -
  have l: "sint (of_int (int (length cs)) :: u32) = int (length cs)"
    using assms(2) by (simp add: signed_of_nat signed_take_bit_int_eq_self)
  have rd: "p_read disk 3 (count_arg (int (length cs))) (Some cs, 0) = (int (length cs), cs, (Some cs, length cs))"
    by (simp add: disk_read count_arg_def)
  consider (short) "length cs < 4" | (big) "BUF_SIZE < int (length cs)" | (fits) "4 \<le> length cs" "int (length cs) \<le> BUF_SIZE"
    by linarith
  then show ?thesis
  proof cases
    case short
    then have "\<not> BUF_SIZE < int (length cs)" by (simp add: BUF_SIZE_def)
    then show ?thesis using short buf_word_short [OF short] l rd
      by (simp add: e4_main_def read_test_def disk_ops disk_seek_0 Let_def numeral_2_eq_2)
  next
    case big
    then show ?thesis using l rd
      by (simp add: e4_main_def read_test_def disk_ops disk_seek_0 Let_def numeral_2_eq_2)
  next
    case fits
    have put: "put_at 0 (magic_bytes @ drop 4 cs) cs = magic_bytes @ drop 4 cs"
      using fits(1) by (simp add: put_at_def)
    have len: "length (magic_bytes @ drop 4 cs) = length cs" using fits(1) by simp
    have wb: "write_back disk 3 (int (length cs)) cs (Some cs, length cs) =
        Inr ([say ''write %d B'' [TInt (int (length cs))]], (Some (magic_bytes @ drop 4 cs), length cs))"
      using fits put len by (simp add: write_back_def count_arg_def disk_seek_0 disk_ops Let_def)
    have again: "show_again disk disk_dup 3 (Some ds, j) =
        ([say ''fd2=%d'' [TInt 4]] @ dump_bytes (take 32 ds), (Some ds, min 32 (length ds)))" for ds j
      by (simp add: show_again_def disk_dup_def disk_seek_0 disk_read min.commute Let_def)
    show ?thesis
      using fits buf_word_last [OF fits] l rd wb again assms(1)
      by (simp add: e4_main_def read_test_def disk_ops disk_seek_0 Let_def numeral_2_eq_2)
  qed
qed

lemma magic_word_written_witness:
  "\<exists>out. e4_main disk disk_dup [''a.out'', ''f.bin'', ''1''] (Some ''abcdef'', 0) =
      Inr (0, out, (Some (magic_bytes @ ''ef''), 6)) \<and> say ''lma = %x'' [TInt 0x66656463] \<in> set out"
proof -
  have w: "strtol10 ''1'' \<noteq> 0" by (simp add: strtol10_def is_space_def digit_val_def Let_def)
  have "uint (last_word ''abcdef'') = 0x66656463"
    by (simp add: last_word_def le_word4_def uchar_val_def Let_def)
  then show ?thesis
    using magic_word_written [of "magic_bytes @ ''ef''" "''1''" "''abcdef''" "''a.out''" "''f.bin''" 0] w
    by (simp add: BUF_SIZE_def)
qed

end
