(* ===== verification/Shm_Signal.thy ===== *)
theory Shm_Signal
  imports Step_System
begin

text \<open>
  Models \<^verbatim>\<open>ipc/ipc.c\<close>: a parent writes messages into shared memory and signals each to its child, which
  copies them out. A step is one call, one access to shared memory, or the delivery of a signal. Shown: the
  child never gets as far as printing a message, as it copies 1024 bytes into an array of 32; a signal can be lost.
\<close>

section \<open>Data\<close>

abbreviation SIGUSR1 :: int where "SIGUSR1 \<equiv> 10"

datatype s_pc = S_sleep | S_pause | S_say | S_clear | S_copy | S_post

datatype r_pc =
  R_none | R_init | R_tick | R_test | R_pause | R_woke | R_take | R_clear | R_say | R_copy | R_killed


text \<open>
  \<open>kills\<close> logs to which process the parent has sent its signals; \<open>pending\<close> is a signal the child has yet to
  get. The text of a message is printed with its format in one string.
\<close>

record ipc =
  shm :: "char list"
  s_pc :: s_pc
  s_tick :: int
  child_pid :: int
  kills :: "int list"
  r_pc :: r_pc
  r_tick :: int
  r_sig :: int
  recv_signal :: int
  installed :: bool
  pending :: bool
  ipc_out :: "log_line list"

definition ipc_print :: "string \<Rightarrow> int list \<Rightarrow> ipc \<Rightarrow> ipc" where
  "ipc_print f ns s = s\<lparr>ipc_out := ipc_out s @ [(f, ns)]\<rparr>"

section \<open>The parent\<close>

definition msg_even :: string where "msg_even = ''parent: hello child''"
definition msg_odd :: string where "msg_odd = ''parent: I am parent process''"

definition user_signal_post :: "ipc \<Rightarrow> ipc" where
  "user_signal_post s =
     (let s1 = ipc_print ''user_signal_post: pid=%d'' [child_pid s] s
      in s1\<lparr>kills := kills s1 @ [child_pid s1],
            pending := pending s1 \<or> r_pc s1 \<noteq> R_none \<and> r_pc s1 \<noteq> R_killed\<rparr>)"

definition ipc_send_message :: "int \<Rightarrow> ipc \<Rightarrow> ipc res" where
  "ipc_send_message pid s =
     (case s_pc s of
        S_sleep \<Rightarrow> Inr (s\<lparr>s_pc := S_pause\<rparr>)
      | S_pause \<Rightarrow> Inr (s\<lparr>s_pc := S_say\<rparr>)
      | S_say \<Rightarrow> res_bind (int_ok (s_tick s + 1)) (\<lambda>t.
                   Inr (ipc_print ''send_message: process(%d): addr=%p, tick=%d'' [pid, t] (s\<lparr>s_tick := t, s_pc := S_clear\<rparr>)))
      | S_clear \<Rightarrow> if length (shm s) < 1024 then Inl Out_Of_Bounds
                   else Inr (s\<lparr>shm := replicate 1024 NUL @ drop 1024 (shm s), s_pc := S_copy\<rparr>)
      | S_copy \<Rightarrow>
          let m = (if s_tick s mod 2 = 0 then msg_even else msg_odd)
          in Inr (s\<lparr>shm := m @ drop (length m) (shm s), s_pc := S_post\<rparr>)
      | S_post \<Rightarrow> Inr ((user_signal_post s)\<lparr>s_pc := S_pause\<rparr>))"

section \<open>The child\<close>

text \<open>\<open>ok\<close> says whether \<^verbatim>\<open>sigaction\<close> succeeds.\<close>

definition user_signal_init :: "bool \<Rightarrow> ipc \<Rightarrow> ipc" where
  "user_signal_init ok s =
     ipc_print ''user_signal_init: done'' []
       (if ok then s\<lparr>installed := True\<rparr> else ipc_print ''user_signal_init: sigaction failed'' [] s)"

definition user_signal_handler :: "int \<Rightarrow> ipc \<Rightarrow> ipc" where
  "user_signal_handler signal s = (ipc_print ''user_signal_handler: signal=%d'' [signal] s)\<lparr>recv_signal := signal\<rparr>"

text \<open>The steps of \<^verbatim>\<open>user_signal_wait\<close>; \<^verbatim>\<open>pause\<close> is left only by a signal.\<close>

definition user_signal_wait :: "int \<Rightarrow> ipc \<Rightarrow> ipc option" where
  "user_signal_wait pid s =
     (case r_pc s of
        R_test \<Rightarrow>
          Some (if recv_signal s = 0 then ipc_print ''suspend process(%d)'' [pid] (s\<lparr>r_pc := R_pause\<rparr>) else s\<lparr>r_pc := R_take\<rparr>)
      | R_woke \<Rightarrow> Some (ipc_print ''wake up process(%d)'' [pid] (s\<lparr>r_pc := R_take\<rparr>))
      | R_take \<Rightarrow> Some (s\<lparr>r_sig := recv_signal s, r_pc := R_clear\<rparr>)
      | R_clear \<Rightarrow> Some (ipc_print ''wait signal(%d) done'' [r_sig s] (s\<lparr>recv_signal := 0, r_pc := R_say\<rparr>))
      | _ \<Rightarrow> None)"

text \<open>\<^verbatim>\<open>s1\<close> has 32 characters; were there room, the message would be printed.\<close>

definition S1_SIZE :: nat where
  "S1_SIZE = 32"

definition recv_copy :: "ipc \<Rightarrow> ipc res" where
  "recv_copy s =
     (if S1_SIZE < 1024 \<or> length (shm s) < 1024 then Inl Out_Of_Bounds
      else res_bind (cstr_at (take 1024 (shm s)) 0) (\<lambda>m. Inr (ipc_print (''message: '' @ m) [] (s\<lparr>r_pc := R_tick\<rparr>))))"

definition recv_message :: "bool \<Rightarrow> int \<Rightarrow> ipc \<Rightarrow> ipc res option" where
  "recv_message ok pid s =
     (case r_pc s of
        R_init \<Rightarrow> Some (Inr ((user_signal_init ok s)\<lparr>r_pc := R_tick\<rparr>))
      | R_tick \<Rightarrow> Some (res_bind (int_ok (r_tick s + 1)) (\<lambda>t. Inr (s\<lparr>r_tick := t, r_pc := R_test\<rparr>)))
      | R_say \<Rightarrow>
          Some (Inr (ipc_print ''recv_message: process=%d: addr=%p, tick=%d, sig=%d'' [pid, r_tick s, r_sig s]
                  (s\<lparr>r_pc := if 0 < r_sig s then R_copy else R_tick\<rparr>)))
      | R_copy \<Rightarrow> Some (recv_copy s)
      | _ \<Rightarrow> map_option Inr (user_signal_wait pid s))"

text \<open>The delivery of a signal: the handler runs, or the child is killed when there is none yet.\<close>

definition signal_in :: "ipc \<Rightarrow> ipc" where
  "signal_in s =
     (let s1 = s\<lparr>pending := False\<rparr>
      in if installed s
         then (user_signal_handler SIGUSR1 s1)\<lparr>r_pc := if r_pc s = R_pause then R_woke else r_pc s\<rparr>
         else s1\<lparr>r_pc := R_killed\<rparr>)"

section \<open>The program\<close>

text \<open>
  \<open>id\<close> is the result of \<^verbatim>\<open>shmget\<close>, \<open>seg\<close> the segment, \<open>child\<close> the result of \<^verbatim>\<open>fork\<close>, -1 included; attaching the segment
  is taken to succeed.
\<close>

definition ipc_main :: "int \<Rightarrow> int \<Rightarrow> char list \<Rightarrow> ipc option" where
  "ipc_main shm_id child seg =
     (if shm_id = - 1 then None
      else Some \<lparr>shm = seg, s_pc = S_sleep, s_tick = 0, child_pid = child, kills = [],
        r_pc = (if child = - 1 then R_none else R_init), r_tick = 0, r_sig = 0, recv_signal = 0, installed = False,
        pending = False, ipc_out = [(''shm_id = %d, shm_size=%d'', [shm_id, int (length seg)])]\<rparr>)"

inductive i_step :: "ipc \<Rightarrow> ipc res \<Rightarrow> bool" where
  parent: "i_step s (ipc_send_message pid s)"
| child: "recv_message ok pid s = Some x \<Longrightarrow> i_step s x"
| signal: "pending s \<Longrightarrow> r_pc s \<noteq> R_none \<Longrightarrow> r_pc s \<noteq> R_killed \<Longrightarrow> i_step s (Inr (signal_in s))"

abbreviation i_ok :: "ipc \<Rightarrow> ipc \<Rightarrow> bool" where
  "i_ok s s' \<equiv> i_step s (Inr s')"

definition i_run :: "int \<Rightarrow> int \<Rightarrow> char list \<Rightarrow> ipc \<Rightarrow> bool" where
  "i_run shm_id child seg s \<longleftrightarrow> (\<exists>s0. ipc_main shm_id child seg = Some s0 \<and> i_ok\<^sup>*\<^sup>* s0 s)"

section \<open>Lemmas\<close>

lemmas ipc_defs = user_signal_post_def ipc_send_message_def user_signal_init_def user_signal_handler_def
  user_signal_wait_def recv_copy_def recv_message_def signal_in_def S1_SIZE_def Let_def

lemma ipc_print_fields [simp]:
  "shm (ipc_print f ns s) = shm s" "child_pid (ipc_print f ns s) = child_pid s" "kills (ipc_print f ns s) = kills s"
  "r_pc (ipc_print f ns s) = r_pc s" "r_sig (ipc_print f ns s) = r_sig s" "recv_signal (ipc_print f ns s) = recv_signal s"
  "ipc_out (ipc_print f ns s) = ipc_out s @ [(f, ns)]"
  by (simp_all add: ipc_print_def)

definition is_message :: "log_line \<Rightarrow> bool" where
  "is_message l \<longleftrightarrow> take 9 (fst l) = ''message: ''"

definition ipc_ok :: "int \<Rightarrow> ipc \<Rightarrow> bool" where
  "ipc_ok child s \<longleftrightarrow> (\<forall>l\<in>set (ipc_out s). \<not> is_message l) \<and> child_pid s = child \<and> set (kills s) \<subseteq> {child}
     \<and> recv_signal s \<in> {0, SIGUSR1} \<and> 1024 \<le> length (shm s)
     \<and> (r_pc s = R_copy \<longrightarrow> r_sig s = SIGUSR1) \<and> (r_pc s \<in> {R_clear, R_say} \<longrightarrow> r_sig s \<in> {0, SIGUSR1})"

lemma length_msgs: "length msg_even = 19" "length msg_odd = 27"
  by (simp_all add: msg_even_def msg_odd_def)

lemma parent_keeps:
  assumes "ipc_ok child s"
  shows "case ipc_send_message pid s of Inl e \<Rightarrow> True | Inr s' \<Rightarrow> ipc_ok child s'"
proof (cases "s_pc s")
  case S_say
  then show ?thesis using assms
    by (cases "int_ok (s_tick s + 1)") (simp_all add: ipc_ok_def ipc_send_message_def is_message_def)
next
  case S_copy
  then show ?thesis using assms by (auto simp: ipc_ok_def ipc_send_message_def length_msgs Let_def)
qed (use assms in \<open>simp_all add: ipc_ok_def ipc_send_message_def user_signal_post_def is_message_def Let_def\<close>)

lemma child_keeps:
  assumes "ipc_ok child s" and "recv_message ok pid s = Some x"
  shows "case x of Inl e \<Rightarrow> True | Inr s' \<Rightarrow> ipc_ok child s'"
proof (cases "r_pc s")
  case R_tick
  then show ?thesis using assms by (cases "int_ok (r_tick s + 1)") (auto simp: ipc_ok_def recv_message_def)
qed (use assms in \<open>auto simp: ipc_ok_def ipc_defs is_message_def\<close>)

lemma signal_in_keeps: "ipc_ok child s \<Longrightarrow> ipc_ok child (signal_in s)"
  by (simp add: ipc_ok_def signal_in_def user_signal_handler_def is_message_def Let_def)

interpretation ipc_sys: safe_system i_ok "ipc_ok child" for child
proof
  show "ipc_ok child s'" if "ipc_ok child s" and "i_ok s s'" for s s'
    using that(2)
  proof (cases rule: i_step.cases)
    case (parent pid)
    show ?thesis using parent_keeps [of child s pid] that(1) parent [symmetric] by simp
  next
    case (child ok pid)
    show ?thesis using child_keeps [OF that(1) child] by simp
  next
    case signal
    then show ?thesis using signal_in_keeps that(1) by simp
  qed
qed

lemma ipc_run_keeps:
  assumes "i_run shm_id child seg s" and "1024 \<le> length seg"
  shows "ipc_ok child s"
proof -
  obtain s0 where s0: "ipc_main shm_id child seg = Some s0" "i_ok\<^sup>*\<^sup>* s0 s" using assms(1) by (auto simp: i_run_def)
  have "ipc_ok child s0" using s0(1) assms(2) by (auto simp: ipc_main_def ipc_ok_def is_message_def split: if_splits)
  then show ?thesis by (rule ipc_sys.run_keeps [OF s0(2)])
qed

section \<open>An example schedule\<close>

datatype mover = Parent_Moves | Child_Moves | Signal_Arrives

definition ipc_move :: "mover \<Rightarrow> ipc \<Rightarrow> ipc res option" where
  "ipc_move m s =
     (case m of
        Parent_Moves \<Rightarrow> Some (ipc_send_message 5 s)
      | Child_Moves \<Rightarrow> recv_message True 7 s
      | Signal_Arrives \<Rightarrow> if pending s \<and> r_pc s \<noteq> R_none \<and> r_pc s \<noteq> R_killed then Some (Inr (signal_in s)) else None)"

interpretation ipc_order: scheduled i_ok ipc_move
  using i_step.parent [of _ 5]
  by unfold_locales (auto simp: ipc_move_def intro: i_step.intros split: mover.splits if_splits dest: sym)

definition ipc_start :: "char list \<Rightarrow> ipc" where
  "ipc_start seg = \<lparr>shm = seg, s_pc = S_sleep, s_tick = 0, child_pid = 7, kills = [], r_pc = R_init, r_tick = 0, r_sig = 0,
     recv_signal = 0, installed = False, pending = False, ipc_out = [(''shm_id = %d, shm_size=%d'', [1, int (length seg)])]\<rparr>"

lemma ipc_start_main: "ipc_main 1 7 seg = Some (ipc_start seg)"
  by (simp add: ipc_main_def ipc_start_def)

definition copy_order :: "mover list" where
  "copy_order =
     [Child_Moves, Child_Moves, Child_Moves, Parent_Moves, Parent_Moves, Parent_Moves, Parent_Moves, Parent_Moves,
      Parent_Moves, Signal_Arrives, Child_Moves, Child_Moves, Child_Moves, Child_Moves]"

lemma reach_copy:
  assumes "1024 \<le> length seg"
  shows "\<exists>s. follow ipc_move copy_order (ipc_start seg) = Some (Inr s) \<and> r_pc s = R_copy \<and> kills s = [7]"
  using assms
  by (simp add: copy_order_def ipc_move_def ipc_start_def ipc_defs ipc_print_def int_ok_def)

section \<open>Property\<close>

text \<open>No message is ever printed: in every run the child that has a signal and goes to copy the message overruns its
  array. Every signal is sent to the process \<^verbatim>\<open>fork\<close> returned: to every process there is, when it returned -1.\<close>

theorem message_never_arrives:
  assumes "i_run shm_id child seg s" and "1024 \<le> length seg"
  shows "(\<forall>l\<in>set (ipc_out s). \<not> is_message l) \<and> set (kills s) \<subseteq> {child}
    \<and> (r_pc s = R_copy \<longrightarrow> r_sig s = SIGUSR1 \<and> recv_message ok pid s = Some (Inl Out_Of_Bounds))"
  using ipc_run_keeps [OF assms] by (auto simp: ipc_ok_def recv_message_def recv_copy_def S1_SIZE_def)

lemma message_never_arrives_witness:
  "\<exists>s. i_run 1 7 (replicate 4096 NUL) s \<and> kills s = [7] \<and> i_step s (Inl Out_Of_Bounds)"
proof -
  have seg: "1024 \<le> length (replicate 4096 NUL)" by simp
  obtain s where s: "follow ipc_move copy_order (ipc_start (replicate 4096 NUL)) = Some (Inr s)" "r_pc s = R_copy" "kills s = [7]"
    using reach_copy [OF seg] by blast
  have r: "i_run 1 7 (replicate 4096 NUL) s" using ipc_start_main ipc_order.follow_run [OF s(1)] by (auto simp: i_run_def)
  have "recv_message True 7 s = Some (Inl Out_Of_Bounds)"
    using message_never_arrives [OF r seg] s(2) by blast
  then show ?thesis using r s(3) i_step.child by blast
qed

end
