(* ===== verification/Sig_Thread.thy ===== *)
theory Sig_Thread
  imports Step_System
begin

text \<open>
  Models \<^verbatim>\<open>c4/main.c\<close>: a thread that counts down, one that runs for ever, and a signal handler that stops
  both. A step is one call or one access to shared memory of a thread, or of the handler that runs on top of
  it. The handler is installed with an empty mask: while it runs for one signal another may interrupt it, on
  the same thread or on another. Shown: the count-down, how it ends, and which steps are undefined: the handler
  uses memory after it is freed, and handlers that nest join a thread twice. \<^verbatim>\<open>printf\<close> is one step; that it may
  not be called by a handler that has interrupted it is left aside.
\<close>

section \<open>Data\<close>

abbreviation SIGUSR2 :: int where "SIGUSR2 \<equiv> 12"
abbreviation EDEADLK :: int where "EDEADLK \<equiv> 35"


text \<open>What \<^verbatim>\<open>ptd\<close> points to; the mutex is taken by the consumer alone.\<close>

record sig_data =
  sd_cmd :: int
  sd_cnt :: int
  sd_locked :: bool

datatype x_pc = X_setup | X_create1 | X_create2 | X_join | X_free | X_ret int

datatype y_pc = Y_none | Y_enter | Y_init | Y_test | Y_sleep | Y_lock | Y_read | Y_check | Y_dec | Y_zero | Y_unlock
  | Y_stopped | Y_end

datatype z_pc = Z_none | Z_sleep | Z_print | Z_end

datatype thread = Main_Thread | Consumer | Deadloop

text \<open>\<open>H_wait\<close> is inside \<^verbatim>\<open>pthread_join\<close>; \<open>H_uncancelled\<close> and \<open>H_unjoined\<close> hold the error that is printed.\<close>

datatype h_pc = H_enter | H_test | H_cancel | H_uncancelled int | H_join | H_wait | H_unjoined int | H_stop | H_clear | H_cmd

text \<open>
  \<open>subid\<close>: whether the variable of that name holds a thread; \<open>z_joined\<close>: that thread was joined, so its id is no
  longer one; \<open>handling\<close>: the handlers that run on a thread, the last to interrupt it first, each with its signal
  and where it is; \<open>y_cmd\<close> and \<open>y_stop\<close>: the variables of the consumer.
\<close>

record sigs =
  sig_ptr :: "sig_data option"
  subid :: bool
  x_pc :: x_pc
  y_pc :: y_pc
  y_cmd :: int
  y_stop :: int
  z_pc :: z_pc
  z_tick :: int
  z_cancel :: bool
  z_joined :: bool
  handled :: "int set"
  handling :: "thread \<Rightarrow> (int \<times> h_pc) list"
  sig_out :: "log_line list"

definition sig_print :: "string \<Rightarrow> int list \<Rightarrow> sigs \<Rightarrow> sigs" where
  "sig_print f ns s = s\<lparr>sig_out := sig_out s @ [(f, ns)]\<rparr>"

definition sig_mem :: "sigs \<Rightarrow> sig_data res" where
  "sig_mem s = (case sig_ptr s of None \<Rightarrow> Inl Use_After_Free | Some d \<Rightarrow> Inr d)"

section \<open>The handler\<close>

text \<open>
  \<open>res i\<close> is the result of \<^verbatim>\<open>sigaction\<close> for signal \<open>i\<close>: the signals for which it is 0 get the handler, and the last
  result is returned.
\<close>

definition setup_signal :: "(int \<Rightarrow> int) \<Rightarrow> sigs \<Rightarrow> int \<times> sigs" where
  "setup_signal res s = (res 30, s\<lparr>handled := handled s \<union> set (filter (\<lambda>i. i \<noteq> 9 \<and> res i = 0) [1..30])\<rparr>)"

text \<open>The kernel refuses to change the action of \<^verbatim>\<open>SIGSTOP\<close>, 19.\<close>

definition linux :: "int \<Rightarrow> int" where
  "linux i = (if i = 9 \<or> i = 19 then - 1 else 0)"

text \<open>The last handler of a thread goes on, or is done; or another interrupts it.\<close>

definition in_handler :: "h_pc \<Rightarrow> thread \<Rightarrow> int \<Rightarrow> sigs \<Rightarrow> sigs" where
  "in_handler p t sig s = s\<lparr>handling := (handling s)(t := (sig, p) # tl (handling s t))\<rparr>"

definition handler_done :: "thread \<Rightarrow> sigs \<Rightarrow> sigs" where
  "handler_done t s = s\<lparr>handling := (handling s)(t := tl (handling s t))\<rparr>"

definition interrupt :: "thread \<Rightarrow> int \<Rightarrow> sigs \<Rightarrow> sigs" where
  "interrupt t sig s = s\<lparr>handling := (handling s)(t := (sig, H_enter) # handling s t)\<rparr>"

text \<open>
  \<^verbatim>\<open>pthread_cancel\<close> and \<^verbatim>\<open>pthread_join\<close> are undefined for a thread that was joined, or that is none;
  \<^verbatim>\<open>pthread_join\<close> also for one that is being joined.
\<close>

definition id_valid :: "sigs \<Rightarrow> bool" where
  "id_valid s \<longleftrightarrow> subid s \<and> \<not> z_joined s"

definition joining :: "sigs \<Rightarrow> bool" where
  "joining s \<longleftrightarrow> list_ex (\<lambda>t. H_wait \<in> set (List.map snd (handling s t))) [Main_Thread, Consumer, Deadloop]"

definition sub_value :: "int \<Rightarrow> sigs \<Rightarrow> int" where
  "sub_value sub s = (if subid s then sub else 0)"

text \<open>
  \<open>sub\<close> is the id of the thread in \<^verbatim>\<open>subid\<close>; \<open>rc\<close> is the result of \<^verbatim>\<open>pthread_cancel\<close> for a thread that has ended and
  was not joined, which differs between libraries.
\<close>

definition sig_handler :: "int \<Rightarrow> int \<Rightarrow> int \<Rightarrow> h_pc \<Rightarrow> thread \<Rightarrow> int \<Rightarrow> sigs \<Rightarrow> sigs res option" where
  "sig_handler tid sub rc p t sig s =
     (case p of
        H_enter \<Rightarrow> Some (Inr (in_handler H_test t sig (sig_print ''sig_handler, sig=%d, thread id=%d'' [sig, tid] s)))
      | H_test \<Rightarrow> Some (Inr (in_handler (if subid s then H_cancel else H_cmd) t sig s))
      | H_cancel \<Rightarrow>
          if \<not> id_valid s then Some (Inl Undefined_Call)
          else
            let r = (if z_pc s = Z_end then rc else 0)
            in Some (Inr (in_handler (if r \<noteq> 0 then H_uncancelled r else H_join) t sig (s\<lparr>z_cancel := True\<rparr>)))
      | H_uncancelled r \<Rightarrow>
          Some (Inr (in_handler H_join t sig (sig_print ''cancel thread %d failed %d'' [sub_value sub s, r] s)))
      | H_join \<Rightarrow>
          if \<not> id_valid s \<or> joining s then Some (Inl Undefined_Call)
          else Some (Inr (in_handler (if t = Deadloop then H_unjoined EDEADLK else H_wait) t sig s))
      | H_wait \<Rightarrow> if z_pc s = Z_end then Some (Inr (in_handler H_stop t sig (s\<lparr>z_joined := True\<rparr>))) else None
      | H_unjoined r \<Rightarrow>
          Some (Inr (in_handler H_stop t sig (sig_print ''join thread %d failed %d'' [sub_value sub s, r] s)))
      | H_stop \<Rightarrow> Some (Inr (in_handler H_clear t sig (sig_print ''stop thread %d'' [sub_value sub s] s)))
      | H_clear \<Rightarrow> Some (Inr (in_handler H_cmd t sig (s\<lparr>subid := False\<rparr>)))
      | H_cmd \<Rightarrow> Some (res_bind (sig_mem s) (\<lambda>d. Inr (handler_done t (s\<lparr>sig_ptr := Some (d\<lparr>sd_cmd := sig\<rparr>)\<rparr>)))))"

section \<open>The threads\<close>

text \<open>\<open>t_num\<close> is the counter \<^verbatim>\<open>tick\<close>; the thread is cancelled at \<^verbatim>\<open>sleep\<close> or \<^verbatim>\<open>printf\<close>.\<close>

definition thread_deadloop :: "sigs \<Rightarrow> sigs res option" where
  "thread_deadloop s =
     (case z_pc s of
        Z_sleep \<Rightarrow> Some (Inr (s\<lparr>z_pc := Z_print\<rparr>))
      | Z_print \<Rightarrow> Some (res_bind (int_ok (z_tick s + 1)) (\<lambda>n.
                     Inr (sig_print ''thread_deadloop, tick %d'' [z_tick s] (s\<lparr>z_tick := n, z_pc := Z_sleep\<rparr>))))
      | _ \<Rightarrow> None)"

definition thread_consumer :: "int \<Rightarrow> int \<Rightarrow> (int \<Rightarrow> int) \<Rightarrow> sigs \<Rightarrow> sigs res option" where
  "thread_consumer pid tid sa s =
     (case y_pc s of
        Y_none \<Rightarrow> None
      | Y_enter \<Rightarrow> Some (Inr (sig_print ''thread_consumer, process id=%d, thread id=%d'' [pid, tid] (s\<lparr>y_stop := 0, y_pc := Y_init\<rparr>)))
      | Y_init \<Rightarrow> Some (Inr ((snd (setup_signal sa s))\<lparr>y_pc := Y_test\<rparr>))
      | Y_test \<Rightarrow> Some (Inr (s\<lparr>y_pc := if y_stop s = 0 then Y_sleep else Y_stopped\<rparr>))
      | Y_sleep \<Rightarrow> Some (Inr (s\<lparr>y_pc := Y_lock\<rparr>))
      | Y_lock \<Rightarrow>
          (case sig_mem s of
             Inl e \<Rightarrow> Some (Inl e)
           | Inr d \<Rightarrow> if sd_locked d then None else Some (Inr (s\<lparr>sig_ptr := Some (d\<lparr>sd_locked := True\<rparr>), y_pc := Y_read\<rparr>)))
      | Y_read \<Rightarrow> Some (res_bind (sig_mem s) (\<lambda>d.
                    Inr (sig_print ''thread_consumer, cmd=%d, cnt=%d, pid=%d'' [sd_cmd d, sd_cnt d, pid]
                           (s\<lparr>y_cmd := sd_cmd d, y_pc := Y_check\<rparr>))))
      | Y_check \<Rightarrow> Some (Inr (s\<lparr>y_stop := if y_cmd s = SIGUSR2 then 1 else y_stop s, y_pc := Y_dec\<rparr>))
      | Y_dec \<Rightarrow> Some (res_bind (sig_mem s) (\<lambda>d. res_bind (int_ok (sd_cnt d - 1)) (\<lambda>n.
                    Inr (s\<lparr>sig_ptr := Some (d\<lparr>sd_cnt := n\<rparr>), y_pc := Y_zero\<rparr>))))
      | Y_zero \<Rightarrow> Some (res_bind (sig_mem s) (\<lambda>d.
                    Inr (s\<lparr>y_stop := if sd_cnt d = 0 then 1 else y_stop s, y_pc := Y_unlock\<rparr>)))
      | Y_unlock \<Rightarrow> Some (res_bind (sig_mem s) (\<lambda>d. Inr (s\<lparr>sig_ptr := Some (d\<lparr>sd_locked := False\<rparr>), y_pc := Y_test\<rparr>)))
      | Y_stopped \<Rightarrow> Some (Inr (sig_print ''thread_consumer, stoped'' [] (s\<lparr>y_pc := Y_end\<rparr>)))
      | Y_end \<Rightarrow> None)"

text \<open>
  \<open>ok1\<close>, \<open>ok2\<close>: whether the calls of \<^verbatim>\<open>malloc\<close> succeed; \<open>r\<close>, \<open>id\<close>: the result of \<^verbatim>\<open>pthread_create\<close> and the thread.
\<close>

definition sig_main :: "int \<Rightarrow> int \<Rightarrow> bool \<Rightarrow> bool \<Rightarrow> int \<Rightarrow> int \<Rightarrow> sigs \<Rightarrow> sigs res option" where
  "sig_main pid tid ok1 ok2 r new s =
     (case x_pc s of
        X_setup \<Rightarrow>
          let s1 = sig_print ''main, process id=%d, thread id=%d'' [pid, tid] s
          in Some (Inr (
               if \<not> ok1 then sig_print ''malloc ptd failed'' [] (s1\<lparr>x_pc := X_ret (- 1)\<rparr>)
               else if \<not> ok2 then sig_print ''malloc attr failed'' [] (s1\<lparr>x_pc := X_ret (- 1)\<rparr>)
               else s1\<lparr>sig_ptr := Some \<lparr>sd_cmd = 1, sd_cnt = 100, sd_locked = False\<rparr>, x_pc := X_create1\<rparr>))
      | X_create1 \<Rightarrow>
          Some (Inr (if r \<noteq> 0 then sig_print ''create thread failed %d'' [r] (s\<lparr>x_pc := X_ret (- 1)\<rparr>)
                     else sig_print ''thread %d created'' [new] (s\<lparr>y_pc := Y_enter, x_pc := X_create2\<rparr>)))
      | X_create2 \<Rightarrow>
          Some (Inr (if r \<noteq> 0 then sig_print ''create thread failed %d'' [r] (s\<lparr>x_pc := X_ret (- 1)\<rparr>)
                     else sig_print ''thread %d created'' [new] (s\<lparr>z_pc := Z_sleep, subid := True, x_pc := X_join\<rparr>)))
      | X_join \<Rightarrow> if y_pc s = Y_end then Some (Inr (s\<lparr>x_pc := X_free\<rparr>)) else None
      | X_free \<Rightarrow> Some (res_bind (sig_mem s) (\<lambda>d. Inr (s\<lparr>sig_ptr := None, x_pc := X_ret 0\<rparr>)))
      | X_ret v \<Rightarrow> None)"

section \<open>Steps\<close>

text \<open>
  A thread moves when no handler runs on it. The result \<open>X_ret\<close> is the state in which \<^verbatim>\<open>main\<close> has only \<^verbatim>\<open>exit\<close>
  to do: the other threads, and handlers, may still go on.
\<close>

definition free_of :: "thread \<Rightarrow> sigs \<Rightarrow> bool" where
  "free_of t s \<longleftrightarrow> handling s t = []"

definition alive :: "thread \<Rightarrow> sigs \<Rightarrow> bool" where
  "alive t s \<longleftrightarrow>
     (case t of Main_Thread \<Rightarrow> True | Consumer \<Rightarrow> y_pc s \<noteq> Y_none \<and> y_pc s \<noteq> Y_end | Deadloop \<Rightarrow> z_pc s \<noteq> Z_none \<and> z_pc s \<noteq> Z_end)"

text \<open>
  A thread that is cancelled ends at its next \<^verbatim>\<open>sleep\<close>, \<^verbatim>\<open>printf\<close> or \<^verbatim>\<open>pthread_join\<close>, in a handler too. A signal arrives
  at any thread, at any time, unless the thread is handling that very signal.
\<close>

inductive g_step :: "sigs \<Rightarrow> sigs res \<Rightarrow> bool" where
  g_main: "free_of Main_Thread s \<Longrightarrow> sig_main pid tid ok1 ok2 r new s = Some x \<Longrightarrow> g_step s x"
| g_consumer: "free_of Consumer s \<Longrightarrow> thread_consumer pid tid linux s = Some x \<Longrightarrow> g_step s x"
| g_deadloop: "free_of Deadloop s \<Longrightarrow> thread_deadloop s = Some x \<Longrightarrow> g_step s x"
| g_cancel: "z_cancel s \<Longrightarrow> free_of Deadloop s \<Longrightarrow> alive Deadloop s \<Longrightarrow> g_step s (Inr (s\<lparr>z_pc := Z_end\<rparr>))"
| g_cancel_inside: "z_cancel s \<Longrightarrow> handling s Deadloop = (sig, p) # hs \<Longrightarrow>
    p \<in> {H_enter, H_uncancelled r, H_join, H_unjoined r, H_stop} \<Longrightarrow>
    g_step s (Inr (s\<lparr>z_pc := Z_end, handling := (handling s)(Deadloop := [])\<rparr>))"
| g_signal: "sig \<in> handled s \<Longrightarrow> alive t s \<Longrightarrow> sig \<notin> set (List.map fst (handling s t)) \<Longrightarrow> g_step s (Inr (interrupt t sig s))"
| g_handler: "handling s t = (sig, p) # hs \<Longrightarrow> sig_handler tid sub rc p t sig s = Some x \<Longrightarrow> g_step s x"

definition sigs_start :: sigs where
  "sigs_start = \<lparr>sig_ptr = None, subid = False, x_pc = X_setup, y_pc = Y_none, y_cmd = 0, y_stop = 0, z_pc = Z_none, z_tick = 0,
     z_cancel = False, z_joined = False, handled = {}, handling = (\<lambda>t. []), sig_out = []\<rparr>"

abbreviation g_ok :: "sigs \<Rightarrow> sigs \<Rightarrow> bool" where
  "g_ok s s' \<equiv> g_step s (Inr s')"

abbreviation g_run :: "sigs \<Rightarrow> bool" where
  "g_run s \<equiv> g_ok\<^sup>*\<^sup>* sigs_start s"

section \<open>The invariant\<close>

definition rounds :: "sigs \<Rightarrow> int" where
  "rounds s = int (count_list (List.map fst (sig_out s)) ''thread_consumer, cmd=%d, cnt=%d, pid=%d'')"

lemma sig_print_fields [simp]:
  "sig_ptr (sig_print f ns s) = sig_ptr s" "subid (sig_print f ns s) = subid s" "x_pc (sig_print f ns s) = x_pc s"
  "y_pc (sig_print f ns s) = y_pc s" "y_cmd (sig_print f ns s) = y_cmd s" "y_stop (sig_print f ns s) = y_stop s"
  "z_pc (sig_print f ns s) = z_pc s" "z_tick (sig_print f ns s) = z_tick s" "z_cancel (sig_print f ns s) = z_cancel s"
  "z_joined (sig_print f ns s) = z_joined s"
  "handled (sig_print f ns s) = handled s" "handling (sig_print f ns s) = handling s"
  by (simp_all add: sig_print_def)

lemma rounds_print [simp]:
  "rounds (sig_print f ns s) = rounds s + (if f = ''thread_consumer, cmd=%d, cnt=%d, pid=%d'' then 1 else 0)"
  by (simp add: rounds_def sig_print_def)

lemma rounds_cong [simp]:
  "rounds (s\<lparr>sig_ptr := a\<rparr>) = rounds s" "rounds (s\<lparr>subid := b\<rparr>) = rounds s" "rounds (s\<lparr>x_pc := c\<rparr>) = rounds s"
  "rounds (s\<lparr>y_pc := d\<rparr>) = rounds s" "rounds (s\<lparr>y_cmd := e\<rparr>) = rounds s" "rounds (s\<lparr>y_stop := e\<rparr>) = rounds s"
  "rounds (s\<lparr>z_pc := f\<rparr>) = rounds s" "rounds (s\<lparr>z_tick := e\<rparr>) = rounds s" "rounds (s\<lparr>z_cancel := b\<rparr>) = rounds s"
  "rounds (s\<lparr>z_joined := b\<rparr>) = rounds s" "rounds (s\<lparr>handled := h\<rparr>) = rounds s" "rounds (s\<lparr>handling := i\<rparr>) = rounds s"
  by (simp_all add: rounds_def)

text \<open>The consumer has a reason to stop: the count-down is over, or it has read the signal.\<close>

definition may_stop :: "sigs \<Rightarrow> int \<Rightarrow> bool" where
  "may_stop s n \<longleftrightarrow> n = 0 \<or> y_cmd s = SIGUSR2"

definition sig_count_ok :: "sigs \<Rightarrow> int \<Rightarrow> bool" where
  "sig_count_ok s n \<longleftrightarrow> n \<le> 100 \<and> rounds s = 100 - n + (if y_pc s \<in> {Y_check, Y_dec} then 1 else 0) \<and>
     (case y_pc s of
        Y_none \<Rightarrow> n = 100
      | Y_enter \<Rightarrow> n = 100
      | Y_init \<Rightarrow> n = 100 \<and> y_stop s = 0
      | Y_test \<Rightarrow> if y_stop s = 0 then 0 < n else 0 \<le> n \<and> may_stop s n
      | Y_dec \<Rightarrow> 0 < n \<and> (y_stop s = 0 \<or> may_stop s n)
      | Y_zero \<Rightarrow> 0 \<le> n \<and> (y_stop s = 0 \<or> may_stop s n)
      | Y_unlock \<Rightarrow> if y_stop s = 0 then 0 < n else 0 \<le> n \<and> may_stop s n
      | Y_stopped \<Rightarrow> 0 \<le> n \<and> may_stop s n
      | Y_end \<Rightarrow> 0 \<le> n \<and> may_stop s n
      | _ \<Rightarrow> 0 < n \<and> y_stop s = 0)"

definition unlocked :: "sigs \<Rightarrow> bool" where
  "unlocked s \<longleftrightarrow> y_pc s \<notin> {Y_read, Y_check, Y_dec, Y_zero, Y_unlock}"

definition sigs_ok :: "sigs \<Rightarrow> bool" where
  "sigs_ok s \<longleftrightarrow>
     (case sig_ptr s of
        None \<Rightarrow> (x_pc s = X_setup \<or> x_pc s = X_ret (- 1)) \<and> y_pc s = Y_none \<and> rounds s = 0
          \<or> x_pc s = X_ret 0 \<and> y_pc s = Y_end \<and> rounds s \<le> 100 \<and> may_stop s (100 - rounds s)
      | Some d \<Rightarrow> (x_pc s \<in> {X_create1, X_create2, X_join, X_ret (- 1)} \<or> x_pc s = X_free \<and> y_pc s = Y_end)
          \<and> (x_pc s = X_create1 \<longrightarrow> y_pc s = Y_none)
          \<and> sig_count_ok s (sd_cnt d) \<and> sd_locked d = (\<not> unlocked s))
     \<and> (handled s \<noteq> {} \<longrightarrow> y_pc s \<notin> {Y_none, Y_enter, Y_init}) \<and> (handled s = {} \<longrightarrow> handling s = (\<lambda>t. []))"

text \<open>What the invariant looks at.\<close>

definition same_consumer :: "sigs \<Rightarrow> sigs \<Rightarrow> bool" where
  "same_consumer s s' \<longleftrightarrow> rounds s' = rounds s \<and> y_pc s' = y_pc s \<and> y_cmd s' = y_cmd s \<and> y_stop s' = y_stop s"

lemma consumer_congs:
  assumes "same_consumer s s'"
  shows "sig_count_ok s' n = sig_count_ok s n" and "unlocked s' = unlocked s" and "may_stop s' n = may_stop s n"
  using assms by (cases "y_pc s"; simp add: same_consumer_def sig_count_ok_def unlocked_def may_stop_def)+

lemma sigs_ok_cong:
  assumes "sigs_ok s" and "same_consumer s s'" and "x_pc s' = x_pc s" and "handled s' = handled s"
    and "handled s = {} \<Longrightarrow> handling s' = (\<lambda>t. [])"
    and "case sig_ptr s of None \<Rightarrow> sig_ptr s' = None
      | Some d \<Rightarrow> \<exists>d'. sig_ptr s' = Some d' \<and> sd_cnt d' = sd_cnt d \<and> sd_locked d' = sd_locked d"
  shows "sigs_ok s'"
proof (cases "sig_ptr s")
  case None
  then show ?thesis
    using assms consumer_congs [OF assms(2)] by (simp add: sigs_ok_def same_consumer_def)
next
  case (Some d)
  then obtain d' where "sig_ptr s' = Some d'" "sd_cnt d' = sd_cnt d" "sd_locked d' = sd_locked d" using assms(6) by auto
  then show ?thesis
    using Some assms consumer_congs [OF assms(2)] by (simp add: sigs_ok_def same_consumer_def)
qed

lemma sigs_ok_next:
  assumes "sigs_ok s" and "sig_ptr s = Some d" and "same_consumer s s'" and "sig_ptr s' = sig_ptr s" and "handled s' = handled s"
    and "handling s' = handling s" and "x_pc s' \<in> {X_create2, X_join, X_ret (- 1)} \<or> x_pc s' = X_free \<and> y_pc s = Y_end"
  shows "sigs_ok s'"
  using assms consumer_congs [OF assms(3)] by (auto simp: sigs_ok_def same_consumer_def)

lemma main_sigs:
  assumes "sigs_ok s" and "sig_main pid tid ok1 ok2 r new s = Some x"
  shows "case x of Inl e \<Rightarrow> False | Inr s' \<Rightarrow> sigs_ok s'"
proof (cases "sig_ptr s")
  case None
  then have "x_pc s = X_setup" "y_pc s = Y_none" "rounds s = 0"
    using assms by (auto simp: sigs_ok_def sig_main_def)
  then show ?thesis using assms None
    by (auto simp: sig_main_def sigs_ok_def sig_count_ok_def unlocked_def Let_def)
next
  case (Some d)
  have c: "sig_count_ok s (sd_cnt d)" "sd_locked d = (\<not> unlocked s)" using assms(1) Some by (auto simp: sigs_ok_def)
  show ?thesis
  proof (cases "x_pc s")
    case X_create1
    then show ?thesis
      using assms Some c by (cases "r = 0") (auto simp: sig_main_def sigs_ok_def sig_count_ok_def unlocked_def)
  next
    case X_create2
    then have "case x of Inl e \<Rightarrow> False | Inr s' \<Rightarrow> same_consumer s s' \<and> sig_ptr s' = sig_ptr s \<and> handled s' = handled s
        \<and> handling s' = handling s \<and> x_pc s' \<in> {X_join, X_ret (- 1)}"
      using assms(2) by (cases "r = 0") (auto simp: sig_main_def same_consumer_def)
    then show ?thesis using sigs_ok_next [OF assms(1) Some] by (auto split: sum.splits)
  next
    case X_join
    then have "y_pc s = Y_end" "x = Inr (s\<lparr>x_pc := X_free\<rparr>)" using assms(2) by (auto simp: sig_main_def split: if_splits)
    then show ?thesis
      using sigs_ok_next [OF assms(1) Some, of "s\<lparr>x_pc := X_free\<rparr>"] by (simp add: same_consumer_def)
  next
    case X_free
    then have "may_stop s (100 - rounds s)" "rounds s \<le> 100" "y_pc s = Y_end"
      using assms(1) Some c(1) by (auto simp: sigs_ok_def sig_count_ok_def)
    then show ?thesis using X_free assms Some
      by (auto simp: sig_main_def sig_mem_def sigs_ok_def may_stop_def)
  qed (use assms Some in \<open>auto simp: sig_main_def sigs_ok_def\<close>)
qed

lemma consumer_sigs:
  assumes "sigs_ok s" and "thread_consumer pid tid sa s = Some x"
  shows "case x of Inl e \<Rightarrow> False | Inr s' \<Rightarrow> sigs_ok s'"
proof (cases "sig_ptr s")
  case None
  then have "y_pc s = Y_none \<or> y_pc s = Y_end" using assms(1) by (auto simp: sigs_ok_def)
  then show ?thesis using assms(2) by (auto simp: thread_consumer_def)
next
  case (Some d)
  note defs = thread_consumer_def sigs_ok_def sig_count_ok_def unlocked_def may_stop_def sig_mem_def setup_signal_def
  show ?thesis
  proof (cases "y_pc s")
    case Y_dec
    then show ?thesis using assms Some by (auto simp: defs int_ok_def split: if_splits)
  qed (use assms Some in \<open>auto simp: defs split: if_splits\<close>)
qed

lemma deadloop_sigs:
  assumes "sigs_ok s" and "thread_deadloop s = Some x"
  shows "case x of Inl e \<Rightarrow> e = Int_Overflow \<and> z_tick s \<notin> {- (2 ^ 31)..<2 ^ 31 - 1} | Inr s' \<Rightarrow> sigs_ok s'"
proof (cases x)
  case (Inl e)
  then show ?thesis using assms(2) by (cases "z_pc s") (auto simp: thread_deadloop_def int_ok_def split: if_splits)
next
  case (Inr s')
  have "same_consumer s s'" "x_pc s' = x_pc s" "handled s' = handled s" "handling s' = handling s" "sig_ptr s' = sig_ptr s"
    using assms(2) Inr by (cases "z_pc s"; auto simp: thread_deadloop_def res_bind_Inr_iff same_consumer_def)+
  then show ?thesis using Inr sigs_ok_cong [OF assms(1), of s'] assms(1)
    by (auto simp: sigs_ok_def [of s] split: option.split)
qed

lemma handler_sigs:
  assumes "sigs_ok s" and "sig_handler tid sub rc p t sig s = Some (Inr s')" and "handling s t = (sig, p) # hs"
  shows "sigs_ok s'"
proof -
  have h: "handled s \<noteq> {}" using assms(1,3) by (auto simp: sigs_ok_def)
  note defs = sig_handler_def in_handler_def handler_done_def Let_def
  have e: "same_consumer s s'" "x_pc s' = x_pc s" "handled s' = handled s"
    using assms(2) by (cases p; auto simp: defs res_bind_Inr_iff same_consumer_def split: if_splits)+
  have "case sig_ptr s of None \<Rightarrow> sig_ptr s' = None
      | Some d \<Rightarrow> \<exists>d'. sig_ptr s' = Some d' \<and> sd_cnt d' = sd_cnt d \<and> sd_locked d' = sd_locked d"
    using assms(2) by (cases p) (auto simp: defs res_bind_Inr_iff sig_mem_def split: if_splits option.splits)
  then show ?thesis using sigs_ok_cong [OF assms(1) e] h by simp
qed


lemma interrupt_sigs: "sigs_ok s \<Longrightarrow> sig \<in> handled s \<Longrightarrow> sigs_ok (interrupt t sig s)"
  by (rule sigs_ok_cong) (auto simp: interrupt_def same_consumer_def split: option.split)

lemma cancel_sigs: "sigs_ok s \<Longrightarrow> sigs_ok (s\<lparr>z_pc := Z_end\<rparr>) \<and> sigs_ok (s\<lparr>z_pc := Z_end, handling := (handling s)(t := [])\<rparr>)"
  by (intro conjI; rule sigs_ok_cong [of s]) (auto simp: same_consumer_def sigs_ok_def split: option.split if_splits)

text \<open>The counter of the other thread.\<close>

definition tick_ok :: "sigs \<Rightarrow> bool" where
  "tick_ok s \<longleftrightarrow> 0 \<le> z_tick s \<and> z_tick s < 2 ^ 31"

lemma step_tick: "g_step s (Inr s') \<Longrightarrow> tick_ok s \<Longrightarrow> tick_ok s'"
proof (cases rule: g_step.cases, assumption)
  fix pid tid ok1 ok2 r new
  assume "sig_main pid tid ok1 ok2 r new s = Some (Inr s')" "tick_ok s"
  then show "tick_ok s'"
    by (cases "x_pc s"; cases "r = 0") (auto simp: sig_main_def tick_ok_def Let_def res_bind_Inr_iff split: if_splits)
next
  fix pid tid
  assume "thread_consumer pid tid linux s = Some (Inr s')" "tick_ok s"
  then show "tick_ok s'"
    by (cases "y_pc s")
      (auto simp: thread_consumer_def tick_ok_def setup_signal_def res_bind_Inr_iff split: if_splits sum.splits)
next
  assume "thread_deadloop s = Some (Inr s')" "tick_ok s"
  then show "tick_ok s'"
    by (cases "z_pc s") (auto simp: thread_deadloop_def tick_ok_def res_bind_Inr_iff int_ok_def split: if_splits)
next
  fix t sig p tid sub rc
  assume "sig_handler tid sub rc p t sig s = Some (Inr s')" "tick_ok s"
  then show "tick_ok s'"
    by (cases p) (auto simp: sig_handler_def tick_ok_def in_handler_def handler_done_def Let_def res_bind_Inr_iff split: if_splits)
qed (auto simp: tick_ok_def interrupt_def)

lemma step_sigs:
  assumes "g_step s (Inr s')" and "sigs_ok s"
  shows "sigs_ok s'"
  using assms(1)
proof (cases rule: g_step.cases)
  case (g_main pid tid ok1 ok2 r new)
  then show ?thesis using main_sigs [OF assms(2) g_main(2)] by simp
next
  case (g_consumer pid tid)
  then show ?thesis using consumer_sigs [OF assms(2) g_consumer(2)] by simp
next
  case g_deadloop
  then show ?thesis using deadloop_sigs [OF assms(2) g_deadloop(2)] by simp
next
  case g_cancel
  then show ?thesis using cancel_sigs [OF assms(2)] by simp
next
  case (g_cancel_inside sig p hs r)
  then show ?thesis using cancel_sigs [OF assms(2)] by simp
next
  case (g_signal sig t)
  then show ?thesis using interrupt_sigs [OF assms(2)] by simp
next
  case (g_handler t sig p hs tid sub rc)
  then show ?thesis using handler_sigs [OF assms(2) g_handler(2,1)] by simp
qed






interpretation sig_sys: safe_system g_ok "\<lambda>s. sigs_ok s \<and> tick_ok s"
proof
  show "sigs_ok s' \<and> tick_ok s'" if "sigs_ok s \<and> tick_ok s" and "g_ok s s'" for s s'
    using that step_sigs [OF that(2)] step_tick [OF that(2)] by simp
qed

lemma sigs_start_ok: "sigs_ok sigs_start \<and> tick_ok sigs_start"
  by (simp add: sigs_ok_def sigs_start_def rounds_def tick_ok_def)

lemma run_sigs: "g_run s \<Longrightarrow> sigs_ok s \<and> tick_ok s"
  by (rule sig_sys.run_keeps [OF _ sigs_start_ok])

section \<open>An example schedule\<close>

datatype g_move = Main_Moves | Consumer_Moves | Cancelled | Arrives int | Handler_Moves

definition g_next :: "g_move \<Rightarrow> sigs \<Rightarrow> sigs res option" where
  "g_next m s =
     (case m of
        Main_Moves \<Rightarrow> if free_of Main_Thread s then sig_main 7 1 True True 0 2 s else None
      | Consumer_Moves \<Rightarrow> if free_of Consumer s then thread_consumer 7 2 linux s else None
      | Cancelled \<Rightarrow> if z_cancel s \<and> free_of Deadloop s \<and> alive Deadloop s then Some (Inr (s\<lparr>z_pc := Z_end\<rparr>)) else None
      | Arrives sig \<Rightarrow>
          if sig \<in> handled s \<and> sig \<notin> set (List.map fst (handling s Main_Thread)) then Some (Inr (interrupt Main_Thread sig s)) else None
      | Handler_Moves \<Rightarrow>
          (case handling s Main_Thread of [] \<Rightarrow> None | (sig, p) # hs \<Rightarrow> sig_handler 1 3 0 p Main_Thread sig s))"

lemma g_next_step: "g_next m s = Some x \<Longrightarrow> g_step s x"
  by (cases m) (auto simp: g_next_def alive_def intro: g_step.intros split: if_splits list.splits)

interpretation sig_order: scheduled g_ok g_next
  by unfold_locales (rule g_next_step)

text \<open>
  \<^verbatim>\<open>SIGUSR2\<close> stops both threads, and after the end of \<^verbatim>\<open>main\<close> another signal comes; and a signal that comes while the
  handler waits for the thread it has cancelled.
\<close>

definition stop_order :: "g_move list" where
  "stop_order = replicate 3 Main_Moves @ replicate 2 Consumer_Moves @ [Arrives 12] @ replicate 4 Handler_Moves @ [Cancelled]
     @ replicate 4 Handler_Moves @ replicate 10 Consumer_Moves @ replicate 2 Main_Moves @ [Arrives 10] @ replicate 2 Handler_Moves"


lemma stop_order_ends:
  "seen (\<lambda>s. (x_pc s, y_cmd s, handling s Main_Thread)) (follow g_next stop_order sigs_start) =
    Some (X_ret 0, 12, [(10, H_cmd)])"
  by code_simp


lemma stop_order_state:
  obtains s where "g_run s" and "x_pc s = X_ret 0" and "y_cmd s = SIGUSR2" and "handling s Main_Thread = [(10, H_cmd)]"
  by (rule seenE [OF stop_order_ends]) (use that sig_order.follow_run in auto)


section \<open>Properties\<close>

text \<open>The consumer makes at most 100 rounds; when \<^verbatim>\<open>main\<close> has joined it and freed the memory it has made 100, or has
  read \<^verbatim>\<open>SIGUSR2\<close>.\<close>

theorem count_down:
  assumes "g_run s"
  shows "rounds s \<le> 100 \<and> (x_pc s = X_ret 0 \<longrightarrow> y_pc s = Y_end \<and> sig_ptr s = None \<and> (rounds s = 100 \<or> y_cmd s = SIGUSR2))
    \<and> (\<forall>d. sig_ptr s = Some d \<longrightarrow> 0 \<le> sd_cnt d \<and> sd_cnt d \<le> 100)"
proof (cases "sig_ptr s")
  case None
  then show ?thesis using run_sigs [OF assms] by (auto simp: sigs_ok_def may_stop_def)
next
  case (Some d)
  then have "sig_count_ok s (sd_cnt d)" "x_pc s \<noteq> X_ret 0" using run_sigs [OF assms] by (auto simp: sigs_ok_def)
  then show ?thesis using Some by (cases "y_pc s") (auto simp: sig_count_ok_def may_stop_def split: if_splits)
qed

lemma count_down_witness: "\<exists>s. g_run s \<and> x_pc s = X_ret 0 \<and> rounds s \<le> 100 \<and> y_cmd s = SIGUSR2"
proof -
  obtain s where "g_run s" "x_pc s = X_ret 0" "y_cmd s = SIGUSR2" by (rule stop_order_state)
  then show ?thesis using count_down by blast
qed




end
