(* ===== verification/Shm_Race.thy ===== *)
theory Shm_Race
  imports Step_System
begin

text \<open>
  Models \<^verbatim>\<open>c5/main.c\<close>: a process writes a line into shared memory while its child, which nothing holds back
  but a \<^verbatim>\<open>sleep\<close>, prints it. Characters are stored and read one at a time, \<^verbatim>\<open>memset\<close> is one step (the
  memory is zero before it). Shown: what the child prints is a beginning of the line, the whole line when the
  writer came first, and no access leaves the memory.
\<close>

section \<open>State\<close>

definition shm_size :: nat where "shm_size = 0x1000"

lemma shm_size_12 [simp]: "i < 12 \<Longrightarrow> i < shm_size" "i \<le> 12 \<Longrightarrow> i \<le> shm_size"
  by (simp_all add: shm_size_def)

text \<open>What \<^verbatim>\<open>sprintf\<close> stores, with its NUL.\<close>

definition hello :: string where
  "hello = ''helloworld'' @ [NL]"

definition stored :: string where
  "stored = hello @ [NUL]"

datatype sub_pc = Sub_none | Sub_start | Sub_enter | Sub_attach | Sub_scan nat | Sub_detach | Sub_end

datatype top_pc = Top_get | Top_fork | Top_run | Top_enter | Top_attach | Top_clear | Top_put nat | Top_detach | Top_wait
  | Top_remove | Top_spin | Top_ret int

text \<open>
  \<open>segm\<close> is the shared memory, \<open>sub_text\<close> what the child has printed of it, \<open>race_out\<close> the other output of
  both processes, \<open>sub_id\<close> the result of \<^verbatim>\<open>fork\<close>.
\<close>

record race =
  segm :: "string option"
  sub_pc :: sub_pc
  top_pc :: top_pc
  sub_id :: int
  sub_text :: string
  race_out :: "log_line list"

definition race_print :: "string \<Rightarrow> int list \<Rightarrow> race \<Rightarrow> race" where
  "race_print f ns s = s\<lparr>race_out := race_out s @ [(f, ns)]\<rparr>"

definition segm_at :: "race \<Rightarrow> nat \<Rightarrow> char res" where
  "segm_at s i = (case segm s of None \<Rightarrow> Inl Use_After_Free | Some m \<Rightarrow> rd m (int i))"

definition segm_put :: "race \<Rightarrow> nat \<Rightarrow> char \<Rightarrow> race res" where
  "segm_put s i c =
     (case segm s of None \<Rightarrow> Inl Use_After_Free | Some m \<Rightarrow> res_bind (wr m (int i) c) (\<lambda>m'. Inr (s\<lparr>segm := Some m'\<rparr>)))"

section \<open>The processes\<close>

text \<open>
  \<open>ok\<close>: whether \<^verbatim>\<open>shmat\<close> succeeds; when it does not the pointer is -1, which the code does not test, and the
  next access through it is out of bounds. \<open>addr\<close> is the address, \<open>r\<close> the result of \<^verbatim>\<open>shmdt\<close>.
\<close>

definition shm_reader :: "bool \<Rightarrow> int \<Rightarrow> int \<Rightarrow> int \<Rightarrow> race \<Rightarrow> race res option" where
  "shm_reader ok addr r shm_id s =
     (case sub_pc s of
        Sub_enter \<Rightarrow> Some (Inr (race_print ''shm_reader, shm_id=%d, shm_size=%d'' [shm_id, int shm_size] (s\<lparr>sub_pc := Sub_attach\<rparr>)))
      | Sub_attach \<Rightarrow> Some (Inr (race_print ''shm_reader, shm_buf=%p'' [addr] (s\<lparr>sub_pc := Sub_scan 0\<rparr>)))
      | Sub_scan i \<Rightarrow>
          if \<not> ok then Some (Inl Out_Of_Bounds)
          else Some (res_bind (segm_at s i) (\<lambda>c.
                 Inr (if c = NUL then s\<lparr>sub_pc := Sub_detach\<rparr>
                      else s\<lparr>sub_text := sub_text s @ [c], sub_pc := Sub_scan (Suc i)\<rparr>)))
      | Sub_detach \<Rightarrow> Some (Inr (let s1 = s\<lparr>sub_pc := Sub_end\<rparr> in if r < 0 then race_print ''shmdt failed %d'' [r] s1 else s1))
      | _ \<Rightarrow> None)"

definition shm_writer :: "bool \<Rightarrow> int \<Rightarrow> int \<Rightarrow> int \<Rightarrow> race \<Rightarrow> race res option" where
  "shm_writer ok addr r shm_id s =
     (case top_pc s of
        Top_enter \<Rightarrow> Some (Inr (race_print ''shm_writer, shm_id=%d, shm_size=%d'' [shm_id, int shm_size] (s\<lparr>top_pc := Top_attach\<rparr>)))
      | Top_attach \<Rightarrow> Some (Inr (race_print ''shm_writer, shm_buf=%p'' [addr] (s\<lparr>top_pc := Top_clear\<rparr>)))
      | Top_clear \<Rightarrow>
          if \<not> ok then Some (Inl Out_Of_Bounds)
          else Some (case segm s of
                 None \<Rightarrow> Inl Use_After_Free
               | Some m \<Rightarrow> if length m < shm_size then Inl Out_Of_Bounds
                   else Inr (s\<lparr>segm := Some (replicate shm_size NUL @ drop shm_size m), top_pc := Top_put 0\<rparr>))
      | Top_put i \<Rightarrow>
          Some (if i < length stored then res_bind (segm_put s i (stored ! i)) (\<lambda>s1. Inr (s1\<lparr>top_pc := Top_put (Suc i)\<rparr>))
                else Inr (s\<lparr>top_pc := Top_detach\<rparr>))
      | Top_detach \<Rightarrow> Some (Inr (let s1 = s\<lparr>top_pc := Top_wait\<rparr> in if r < 0 then race_print ''shmdt failed %d'' [r] s1 else s1))
      | _ \<Rightarrow> None)"

text \<open>
  \<open>get\<close> is the result of \<^verbatim>\<open>shmget\<close>, which gives memory that is zero, \<open>pid\<close> that of \<^verbatim>\<open>fork\<close> in the parent (-1 when it
  fails, and 0 nowhere but in the child), \<open>r\<close> that of \<^verbatim>\<open>shmctl\<close>. \<^verbatim>\<open>wait\<close> waits for the child, if there is one.
\<close>

definition race_main :: "bool \<Rightarrow> int \<Rightarrow> int \<Rightarrow> int \<Rightarrow> int \<Rightarrow> int \<Rightarrow> race \<Rightarrow> race res option" where
  "race_main ok addr get pid own r s =
     (case top_pc s of
        Top_get \<Rightarrow>
          Some (Inr (if get < 0 then race_print ''shmget failed %d'' [get] (s\<lparr>top_pc := Top_ret (- 1)\<rparr>)
                     else race_print ''shm_id=%d'' [get] (s\<lparr>segm := Some (replicate shm_size NUL), top_pc := Top_fork\<rparr>)))
      | Top_fork \<Rightarrow> Some (Inr (s\<lparr>sub_id := pid, sub_pc := (if 0 < pid then Sub_start else Sub_none), top_pc := Top_run\<rparr>))
      | Top_run \<Rightarrow> Some (Inr (race_print ''main process %d is running'' [own] (s\<lparr>top_pc := Top_enter\<rparr>)))
      | Top_wait \<Rightarrow>
          if sub_pc s = Sub_none then Some (Inr (race_print ''child process %d ended'' [- 1] (s\<lparr>top_pc := Top_remove\<rparr>)))
          else if sub_pc s = Sub_end then Some (Inr (race_print ''child process %d ended'' [sub_id s] (s\<lparr>top_pc := Top_remove\<rparr>)))
          else None
      | Top_remove \<Rightarrow>
          Some (Inr (if r \<noteq> 0 then race_print ''destroy shm failed %d'' [r] (s\<lparr>top_pc := Top_spin\<rparr>)
                     else s\<lparr>segm := None, top_pc := Top_spin\<rparr>))
      | Top_spin \<Rightarrow> Some (Inr s)
      | Top_ret v \<Rightarrow> None
      | _ \<Rightarrow> shm_writer ok addr r get s)"

text \<open>The child, up to its \<^verbatim>\<open>sleep\<close>; it ends when \<open>shm_reader\<close> returns.\<close>

definition race_child :: "bool \<Rightarrow> int \<Rightarrow> int \<Rightarrow> int \<Rightarrow> int \<Rightarrow> race \<Rightarrow> race res option" where
  "race_child ok addr r own shm_id s =
     (case sub_pc s of
        Sub_start \<Rightarrow> Some (Inr (race_print ''sub process %d is running'' [own] (s\<lparr>sub_pc := Sub_enter\<rparr>)))
      | _ \<Rightarrow> shm_reader ok addr r shm_id s)"

inductive race_step :: "bool \<Rightarrow> race \<Rightarrow> race res \<Rightarrow> bool" for ok where
  top: "pid \<noteq> 0 \<Longrightarrow> race_main ok addr get pid own r s = Some x \<Longrightarrow> race_step ok s x"
| sub: "race_child ok addr r own shm_id s = Some x \<Longrightarrow> race_step ok s x"

abbreviation race_ok :: "bool \<Rightarrow> race \<Rightarrow> race \<Rightarrow> bool" where
  "race_ok ok s s' \<equiv> race_step ok s (Inr s')"

definition race_start :: race where
  "race_start = \<lparr>segm = None, sub_pc = Sub_none, top_pc = Top_get, sub_id = 0, sub_text = [], race_out = []\<rparr>"

section \<open>What is in the memory\<close>

lemma hello_nth: "i < length hello \<Longrightarrow> hello ! i \<noteq> NUL"
proof -
  have "\<forall>c\<in>set hello. c \<noteq> NUL" by (simp add: hello_def)
  then show "i < length hello \<Longrightarrow> hello ! i \<noteq> NUL" using nth_mem by metis
qed

lemma length_hello [simp]: "length hello = 11" "length stored = 12"
  by (simp_all add: hello_def stored_def)

lemma stored_nth: "i < 12 \<Longrightarrow> stored ! i = (if i < 11 then hello ! i else NUL)"
  by (simp add: stored_def nth_append)

text \<open>Every character is zero or that of the line, and the first \<open>n\<close> are those of the line.\<close>

definition filled :: "nat \<Rightarrow> string \<Rightarrow> bool" where
  "filled n m \<longleftrightarrow> length m = shm_size \<and> (\<forall>i < shm_size. m ! i = NUL \<or> i < 11 \<and> m ! i = hello ! i)
     \<and> (\<forall>i<n. i < 11 \<longrightarrow> m ! i = hello ! i)"

lemma filled_length: "filled n m \<Longrightarrow> i < 12 \<Longrightarrow> i < length m"
  by (simp add: filled_def)

lemma filled_start: "filled 0 (replicate shm_size NUL)"
  by (simp add: filled_def)

lemma filled_put: "filled n m \<Longrightarrow> n < 12 \<Longrightarrow> filled (Suc n) (m[n := stored ! n])"
  by (auto simp: filled_def nth_list_update stored_nth less_Suc_eq)

definition holds :: "nat \<Rightarrow> string option \<Rightarrow> bool" where
  "holds n mo \<longleftrightarrow> (\<exists>m. mo = Some m \<and> filled n m)"

text \<open>The memory while the writer is at a point, and where the child can be then.\<close>

fun wrote :: "top_pc \<Rightarrow> string option \<Rightarrow> sub_pc \<Rightarrow> bool" where
  "wrote (Top_put i) m p \<longleftrightarrow> i \<le> 12 \<and> holds i m"
| "wrote Top_detach m p \<longleftrightarrow> holds 12 m"
| "wrote Top_wait m p \<longleftrightarrow> holds 12 m"
| "wrote Top_fork m p \<longleftrightarrow> holds 0 m \<and> p = Sub_none"
| "wrote Top_get m p \<longleftrightarrow> p = Sub_none"
| "wrote (Top_ret v) m p \<longleftrightarrow> p = Sub_none"
| "wrote Top_remove m p \<longleftrightarrow> p = Sub_none \<or> p = Sub_end"
| "wrote Top_spin m p \<longleftrightarrow> p = Sub_none \<or> p = Sub_end"
| "wrote _ m p \<longleftrightarrow> holds 0 m"

fun has_read :: "sub_pc \<Rightarrow> string \<Rightarrow> bool" where
  "has_read (Sub_scan i) x \<longleftrightarrow> i \<le> 11 \<and> x = take i hello"
| "has_read Sub_detach x \<longleftrightarrow> (\<exists>i. x = take i hello)"
| "has_read Sub_end x \<longleftrightarrow> (\<exists>i. x = take i hello)"
| "has_read _ x \<longleftrightarrow> x = []"

definition race_inv :: "race \<Rightarrow> bool" where
  "race_inv s \<longleftrightarrow> wrote (top_pc s) (segm s) (sub_pc s) \<and> has_read (sub_pc s) (sub_text s)"

lemma race_print_fields [simp]:
  "segm (race_print f ns s) = segm s" "sub_pc (race_print f ns s) = sub_pc s" "top_pc (race_print f ns s) = top_pc s"
  "sub_text (race_print f ns s) = sub_text s"
  by (simp_all add: race_print_def)

lemma wrote_moves: "wrote q m p \<Longrightarrow> p \<noteq> Sub_none \<Longrightarrow> p \<noteq> Sub_end \<Longrightarrow> wrote q m p'"
  and wrote_holds: "wrote q m p \<Longrightarrow> p \<noteq> Sub_none \<Longrightarrow> p \<noteq> Sub_end \<Longrightarrow> \<exists>n. holds n m"
  by (cases q; auto)+

section \<open>Steps\<close>

lemma main_race:
  assumes "race_main ok addr get pid own r s = Some x" and "race_inv s" and "ok" and "pid \<noteq> 0"
  shows "\<exists>s'. x = Inr s' \<and> race_inv s'"
proof (cases "top_pc s")
  case (Top_put i)
  obtain m where m: "segm s = Some m" "filled i m" "i \<le> 12" using assms(2) Top_put by (auto simp: race_inv_def holds_def)
  show ?thesis
  proof (cases "i < 12")
    case True
    have "i < length m" using filled_length [OF m(2) True] .
    then have "x = Inr (s\<lparr>segm := Some (m[i := stored ! i]), top_pc := Top_put (Suc i)\<rparr>)"
      using assms(1) Top_put m(1) True by (simp add: race_main_def shm_writer_def segm_put_def c_mem)
    then show ?thesis
      using filled_put [OF m(2) True] True assms(2) by (simp add: race_inv_def holds_def)
  next
    case False
    then show ?thesis using assms m Top_put by (auto simp: race_main_def shm_writer_def race_inv_def holds_def)
  qed
next
  case Top_clear
  then obtain m where m: "segm s = Some m" "filled 0 m" using assms(2) by (auto simp: race_inv_def holds_def)
  then show ?thesis using assms Top_clear filled_start
    by (auto simp: race_main_def shm_writer_def race_inv_def holds_def filled_def)
qed (use assms filled_start in \<open>auto simp: race_main_def shm_writer_def race_inv_def holds_def Let_def split: if_splits\<close>)

lemma child_race:
  assumes "race_child ok addr r own shm_id s = Some x" and "race_inv s" and "ok"
  shows "\<exists>s'. x = Inr s' \<and> race_inv s'"
proof -
  note w = wrote_moves [of "top_pc s" "segm s" "sub_pc s"]
  show ?thesis
  proof (cases "sub_pc s")
    case (Sub_scan i)
    obtain n m where m: "segm s = Some m" "filled n m" using wrote_holds assms(2) Sub_scan
      by (force simp: race_inv_def holds_def)
    have i: "i \<le> 11" "sub_text s = take i hello" using assms(2) Sub_scan by (auto simp: race_inv_def)
    then have l: "i < length m" "i < shm_size" using filled_length [OF m(2)] by auto
    have c: "m ! i = NUL \<or> i < 11 \<and> m ! i = hello ! i" using m(2) l(2) by (auto simp: filled_def)
    have x: "x = Inr (if m ! i = NUL then s\<lparr>sub_pc := Sub_detach\<rparr>
        else s\<lparr>sub_text := sub_text s @ [m ! i], sub_pc := Sub_scan (Suc i)\<rparr>)"
      using assms(1,3) Sub_scan m(1) l(1) by (simp add: race_child_def shm_reader_def segm_at_def c_mem)
    show ?thesis using x c i w assms(2) Sub_scan by (auto simp: race_inv_def take_Suc_conv_app_nth)
  qed (use assms w in \<open>auto simp: race_child_def shm_reader_def race_inv_def Let_def split: if_splits\<close>)
qed

lemma race_step_inv:
  assumes "race_step True s x" and "race_inv s"
  shows "\<exists>s'. x = Inr s' \<and> race_inv s'"
  using assms main_race [OF _ assms(2)] child_race [OF _ assms(2)] by (cases rule: race_step.cases) auto

interpretation race_sys: safe_system "race_ok True" race_inv
  by unfold_locales (auto dest: race_step_inv)

lemma race_start_inv: "race_inv race_start"
  by (simp add: race_inv_def race_start_def)

section \<open>The writer comes first\<close>

text \<open>The line is in the memory, and the child has printed as much of it as it has read.\<close>

fun reads_all :: "sub_pc \<Rightarrow> string \<Rightarrow> bool" where
  "reads_all Sub_none x \<longleftrightarrow> False"
| "reads_all (Sub_scan i) x \<longleftrightarrow> i \<le> 11 \<and> x = take i hello"
| "reads_all Sub_detach x \<longleftrightarrow> x = hello"
| "reads_all Sub_end x \<longleftrightarrow> x = hello"
| "reads_all _ x \<longleftrightarrow> x = []"

definition all_written :: "race \<Rightarrow> bool" where
  "all_written s \<longleftrightarrow> reads_all (sub_pc s) (sub_text s) \<and>
     (top_pc s \<in> {Top_detach, Top_wait} \<and> holds 12 (segm s) \<or> top_pc s \<in> {Top_remove, Top_spin} \<and> sub_pc s = Sub_end)"

lemma filled_line:
  assumes "filled 12 m" and "i \<le> 11"
  shows "m ! i = (if i < 11 then hello ! i else NUL)"
proof -
  have "i < shm_size" using assms(2) by simp
  then have "m ! i = NUL \<or> i < 11 \<and> m ! i = hello ! i" using assms(1) unfolding filled_def by blast
  moreover have "i < 11 \<Longrightarrow> m ! i = hello ! i" using assms(1) by (simp add: filled_def)
  ultimately show ?thesis by auto
qed

lemma child_all_written:
  assumes "race_child ok addr r own shm_id s = Some (Inr s')" and "all_written s"
  shows "all_written s'"
proof (cases "sub_pc s")
  case (Sub_scan i)
  then obtain m where m: "segm s = Some m" "filled 12 m" using assms(2) by (auto simp: all_written_def holds_def)
  have i: "i \<le> 11" "sub_text s = take i hello" using assms(2) Sub_scan by (auto simp: all_written_def)
  then have l: "i < length m" using filled_length [OF m(2)] by auto
  have "s' = (if i = 11 then s\<lparr>sub_pc := Sub_detach\<rparr> else s\<lparr>sub_text := sub_text s @ [hello ! i], sub_pc := Sub_scan (Suc i)\<rparr>)"
    using assms(1) Sub_scan m(1) l i(1) filled_line [OF m(2) i(1)] hello_nth [of i]
    by (auto simp: race_child_def shm_reader_def segm_at_def c_mem split: if_splits)
  then show ?thesis using assms(2) i Sub_scan by (auto simp: all_written_def take_Suc_conv_app_nth)
qed (use assms in \<open>auto simp: race_child_def shm_reader_def all_written_def Let_def split: if_splits\<close>)

lemma main_all_written:
  assumes "race_main ok addr get pid own r s = Some (Inr s')" and "all_written s"
  shows "all_written s'"
  using assms by (auto simp: race_main_def shm_writer_def all_written_def Let_def split: if_splits)

interpretation written_sys: safe_system "race_ok True" all_written
  by unfold_locales (auto elim!: race_step.cases intro: child_all_written main_all_written)

section \<open>Property\<close>

text \<open>C38. However the two processes interleave, what the child prints is a beginning of the line, and no step leaves
  the shared memory or uses it after it was removed, as long as it can be attached; the child that starts to read
  when the writer is done prints the whole line.\<close>

theorem child_prints_beginning:
  assumes "(race_ok True)\<^sup>*\<^sup>* race_start s"
  shows "(\<exists>k. sub_text s = take k hello) \<and> (\<forall>e. \<not> race_step True s (Inl e))
    \<and> (\<forall>s'. top_pc s \<in> {Top_detach, Top_wait} \<and> sub_pc s \<in> {Sub_start, Sub_enter, Sub_attach}
          \<and> (race_ok True)\<^sup>*\<^sup>* s s' \<and> sub_pc s' \<in> {Sub_detach, Sub_end} \<longrightarrow> sub_text s' = hello)"
proof (intro conjI allI impI)
  have inv: "race_inv s" by (rule race_sys.run_keeps [OF assms race_start_inv])
  then show "\<exists>k. sub_text s = take k hello"
    by (cases "sub_pc s") (auto simp: race_inv_def intro: exI [of _ 0])
  show "\<not> race_step True s (Inl e)" for e using race_step_inv [OF _ inv] by blast
  fix s'
  assume s': "top_pc s \<in> {Top_detach, Top_wait} \<and> sub_pc s \<in> {Sub_start, Sub_enter, Sub_attach}
    \<and> (race_ok True)\<^sup>*\<^sup>* s s' \<and> sub_pc s' \<in> {Sub_detach, Sub_end}"
  have "all_written s" using inv s' by (auto simp: all_written_def race_inv_def)
  then have "all_written s'" using written_sys.run_keeps s' by blast
  then show "sub_text s' = hello" using s' by (auto simp: all_written_def)
qed

text \<open>A child that reads when two characters are there.\<close>

datatype racer = Top_moves | Sub_moves

definition race_move :: "racer \<Rightarrow> race \<Rightarrow> race res option" where
  "race_move m s = (case m of Top_moves \<Rightarrow> race_main True 0 3 8 7 0 s | Sub_moves \<Rightarrow> race_child True 0 0 8 3 s)"

interpretation race_order: scheduled "race_ok True" race_move
  by unfold_locales (auto simp: race_move_def intro: race_step.top [of 8] race_step.sub split: racer.splits)

definition early_order :: "racer list" where
  "early_order = replicate 8 Top_moves @ replicate 6 Sub_moves"

lemma early_order_ends:
  "\<exists>s. follow race_move early_order race_start = Some (Inr s) \<and> sub_text s = ''he'' \<and> sub_pc s = Sub_detach"
  by (simp add: early_order_def race_start_def race_move_def race_main_def race_child_def shm_reader_def shm_writer_def
      race_print_def segm_at_def segm_put_def rd_def wr_def stored_def hello_def eval_nat_numeral nth_append)

lemma child_prints_beginning_witness:
  "\<exists>s. (race_ok True)\<^sup>*\<^sup>* race_start s \<and> sub_text s = ''he'' \<and> (\<exists>k. sub_text s = take k hello)"
proof -
  obtain s where s: "follow race_move early_order race_start = Some (Inr s)" "sub_text s = ''he''"
    using early_order_ends by blast
  have "(race_ok True)\<^sup>*\<^sup>* race_start s" by (rule race_order.follow_run [OF s(1)])
  with child_prints_beginning [OF this] s(2) show ?thesis by blast
qed

end
