(* ===== verification/Fork_Demo.thy ===== *)
theory Fork_Demo
  imports Step_System
begin

text \<open>
  Models \<^verbatim>\<open>c3-4/main.c\<close>, a parent whose handler of \<^verbatim>\<open>SIGCHLD\<close> waits for its child, and \<^verbatim>\<open>c3-2/main.c\<close>, which
  waits itself and prints how the child ended. The flags and the mask of the handler are never set: they have
  any value, and the handler may nest or run once only. Shown: the parent ends only after the child was waited
  for, it can always still end if there is a child, and it never ends if \<^verbatim>\<open>fork\<close> failed.
\<close>

section \<open>State of c3-4\<close>

abbreviation SIGCHLD :: int where "SIGCHLD \<equiv> 17"

datatype kid_pc = Kid_none | Kid_start | Kid_print | Kid_sleep | Kid_exit | Kid_end | Kid_gone

datatype dad_pc = Dad_action | Dad_fork | Dad_set int | Dad_enter | Dad_print | Dad_sleep | Dad_test | Dad_exit | Dad_ret int

datatype hand_pc = Hand_sig | Hand_tell | Hand_wait | Hand_clean | Hand_flag

text \<open>
  The fields of the action that \<^verbatim>\<open>main\<close> leaves as they are: the flags that matter, and whether the mask blocks
  \<^verbatim>\<open>SIGCHLD\<close>.
\<close>

record sa_rest =
  sa_nodefer :: bool
  sa_resethand :: bool
  sa_restart :: bool
  sa_nocldstop :: bool
  sa_nocldwait :: bool
  sa_blocks :: bool

text \<open>
  \<open>chld\<close>: a \<^verbatim>\<open>SIGCHLD\<close> is pending; \<open>hand_on\<close>: the handler is the action of it; \<open>hand\<close>: where the handlers are that run
  on top of the parent, the last one first. \<open>Kid_end\<close> is a child that has ended and \<open>Kid_gone\<close> one that was waited
  for, or that \<^verbatim>\<open>SA_NOCLDWAIT\<close> does not keep.
\<close>

record family =
  parent_exit :: int
  fam_child :: int
  dad_pc :: dad_pc
  kid_pc :: kid_pc
  kid_cnt :: int
  chld :: bool
  fam_sa :: sa_rest
  hand_on :: bool
  hand :: "hand_pc list"
  fam_out :: "log_line list"

definition fam_print :: "string \<Rightarrow> int list \<Rightarrow> family \<Rightarrow> family" where
  "fam_print f ns s = s\<lparr>fam_out := fam_out s @ [(f, ns)]\<rparr>"

section \<open>The processes\<close>

definition child_process :: "int \<Rightarrow> int \<Rightarrow> family \<Rightarrow> family option" where
  "child_process pid ppid s =
     (case kid_pc s of
        Kid_start \<Rightarrow> Some (fam_print ''child process id %d, whose parent is %d'' [pid, ppid] (s\<lparr>kid_cnt := 0, kid_pc := Kid_print\<rparr>))
      | Kid_print \<Rightarrow> Some (fam_print ''child %d is running'' [pid] (s\<lparr>kid_pc := Kid_sleep\<rparr>))
      | Kid_sleep \<Rightarrow> Some (s\<lparr>kid_cnt := kid_cnt s + 1, kid_pc := if kid_cnt s + 1 = 10 then Kid_exit else Kid_print\<rparr>)
      | Kid_exit \<Rightarrow> Some (fam_print ''child %d exit'' [pid] 
          (s\<lparr>kid_pc := if sa_nocldwait (fam_sa s) then Kid_gone else Kid_end, chld := True\<rparr>))
      | _ \<Rightarrow> None)"

definition parent_process :: "int \<Rightarrow> family \<Rightarrow> family option" where
  "parent_process pid s =
     (case dad_pc s of
        Dad_enter \<Rightarrow> Some (fam_print ''parent process id %d'' [pid] (s\<lparr>dad_pc := Dad_print\<rparr>))
      | Dad_print \<Rightarrow> Some (fam_print ''parent %d is running'' [pid] (s\<lparr>dad_pc := Dad_sleep\<rparr>))
      | Dad_sleep \<Rightarrow> Some (s\<lparr>dad_pc := Dad_test\<rparr>)
      | Dad_test \<Rightarrow> Some (s\<lparr>dad_pc := if parent_exit s \<noteq> 0 then Dad_exit else Dad_print\<rparr>)
      | Dad_exit \<Rightarrow> Some (fam_print ''parent %d exit'' [pid] (s\<lparr>dad_pc := Dad_ret 0\<rparr>))
      | _ \<Rightarrow> None)"

text \<open>\<^verbatim>\<open>waitpid\<close> waits until the child has ended, and returns at once when there is none to wait for.\<close>

definition child_signal_process :: "int \<Rightarrow> int \<Rightarrow> family \<Rightarrow> family option" where
  "child_signal_process pid sig s =
     (case hand s of
        [] \<Rightarrow> None
      | h # hs \<Rightarrow>
          (case h of
             Hand_sig \<Rightarrow> Some (fam_print ''sig = %d'' [sig] (s\<lparr>hand := if sig = SIGCHLD then Hand_tell # hs else hs\<rparr>))
           | Hand_tell \<Rightarrow>
               Some (fam_print ''in process %d, will wait child process %d'' [pid, fam_child s] (s\<lparr>hand := Hand_wait # hs\<rparr>))
           | Hand_wait \<Rightarrow>
               if kid_pc s = Kid_end then Some (s\<lparr>kid_pc := Kid_gone, hand := Hand_clean # hs\<rparr>)
               else if kid_pc s = Kid_none \<or> kid_pc s = Kid_gone then Some (s\<lparr>hand := Hand_clean # hs\<rparr>)
               else None
           | Hand_clean \<Rightarrow> Some (fam_print ''clean up child process okay'' [] (s\<lparr>hand := Hand_flag # hs\<rparr>))
           | Hand_flag \<Rightarrow> Some (s\<lparr>parent_exit := 1, hand := hs\<rparr>)))"

text \<open>
  \<open>r\<close> is the result of \<^verbatim>\<open>sigaction\<close>, \<open>sa\<close> what its argument holds in the fields that are not set, and \<open>new\<close> the
  result of \<^verbatim>\<open>fork\<close>; a failure, -1, is taken for the parent.
\<close>

definition family_main :: "int \<Rightarrow> sa_rest \<Rightarrow> int \<Rightarrow> int \<Rightarrow> family \<Rightarrow> family option" where
  "family_main r sa new pid s =
     (case dad_pc s of
        Dad_action \<Rightarrow>
          Some (if r = - 1 then s\<lparr>dad_pc := Dad_ret (- 1)\<rparr> else s\<lparr>fam_sa := sa, hand_on := True, dad_pc := Dad_fork\<rparr>)
      | Dad_fork \<Rightarrow> Some (s\<lparr>dad_pc := Dad_set new, kid_pc := if 0 < new then Kid_start else Kid_none\<rparr>)
      | Dad_set n \<Rightarrow> Some (s\<lparr>fam_child := n, dad_pc := Dad_enter\<rparr>)
      | _ \<Rightarrow> parent_process pid s)"

definition kid_running :: "family \<Rightarrow> bool" where
  "kid_running s \<longleftrightarrow> kid_pc s \<in> {Kid_start, Kid_print, Kid_sleep, Kid_exit}"

definition ended :: "family \<Rightarrow> bool" where
  "ended s \<longleftrightarrow> (case dad_pc s of Dad_ret v \<Rightarrow> True | _ \<Rightarrow> False)"

text \<open>
  The handler starts: the action may be reset. A \<^verbatim>\<open>waitpid\<close> that the signal interrupts is left when it is not
  restarted.
\<close>

definition deliver_chld :: "hand_pc list \<Rightarrow> family \<Rightarrow> family" where
  "deliver_chld hs s = s\<lparr>chld := False, hand_on := \<not> sa_resethand (fam_sa s), hand := Hand_sig # hs\<rparr>"

definition accepts_chld :: "family \<Rightarrow> bool" where
  "accepts_chld s \<longleftrightarrow> chld s \<and> hand_on s \<and> \<not> ended s \<and> (hand s = [] \<or> sa_nodefer (fam_sa s) \<and> \<not> sa_blocks (fam_sa s))"

text \<open>The signal comes when the child ends, and when someone stops or continues it; no one kills it.\<close>

inductive fam_step :: "int \<Rightarrow> family \<Rightarrow> family \<Rightarrow> bool" for new where
  dad: "hand s = [] \<Longrightarrow> family_main r sa new pid s = Some s' \<Longrightarrow> fam_step new s s'"
| kid: "child_process pid ppid s = Some s' \<Longrightarrow> fam_step new s s'"
| stop_kid: "kid_running s \<Longrightarrow> \<not> sa_nocldstop (fam_sa s) \<Longrightarrow> fam_step new s (s\<lparr>chld := True\<rparr>)"
| arrive: "accepts_chld s \<Longrightarrow> fam_step new s (deliver_chld (hand s) s)"
| break_wait: "accepts_chld s \<Longrightarrow> hand s = Hand_wait # hs \<Longrightarrow> \<not> sa_restart (fam_sa s) \<Longrightarrow>
    fam_step new s (deliver_chld (Hand_clean # hs) s)"
| handle: "child_signal_process pid SIGCHLD s = Some s' \<Longrightarrow> fam_step new s s'"

definition no_flags :: sa_rest where
  "no_flags = \<lparr>sa_nodefer = False, sa_resethand = False, sa_restart = False, sa_nocldstop = False, sa_nocldwait = False,
     sa_blocks = False\<rparr>"

definition family_start :: family where
  "family_start = \<lparr>parent_exit = 0, fam_child = 0, dad_pc = Dad_action, kid_pc = Kid_none, kid_cnt = 0, chld = False,
     fam_sa = no_flags, hand_on = False, hand = [], fam_out = []\<rparr>"

section \<open>The invariant\<close>

definition rounds_of :: "family \<Rightarrow> nat" where
  "rounds_of s = count_list (List.map fst (fam_out s)) ''child %d is running''"

lemma fam_print_fields [simp]:
  "parent_exit (fam_print f ns s) = parent_exit s" "fam_child (fam_print f ns s) = fam_child s"
  "dad_pc (fam_print f ns s) = dad_pc s" "kid_pc (fam_print f ns s) = kid_pc s" "kid_cnt (fam_print f ns s) = kid_cnt s"
  "chld (fam_print f ns s) = chld s" "hand (fam_print f ns s) = hand s"
  "fam_sa (fam_print f ns s) = fam_sa s" "hand_on (fam_print f ns s) = hand_on s"
  by (simp_all add: fam_print_def)

lemma rounds_of_print: "rounds_of (fam_print f ns s) = rounds_of s + (if f = ''child %d is running'' then 1 else 0)"
  by (simp add: rounds_of_def fam_print_def)

lemma rounds_texts [simp]:
  "rounds_of (fam_print ''child process id %d, whose parent is %d'' ns s) = rounds_of s"
  "rounds_of (fam_print ''child %d is running'' ns s) = Suc (rounds_of s)"
  "rounds_of (fam_print ''child %d exit'' ns s) = rounds_of s"
  "rounds_of (fam_print ''parent process id %d'' ns s) = rounds_of s"
  "rounds_of (fam_print ''parent %d is running'' ns s) = rounds_of s"
  "rounds_of (fam_print ''parent %d exit'' ns s) = rounds_of s"
  "rounds_of (fam_print ''sig = %d'' ns s) = rounds_of s"
  "rounds_of (fam_print ''in process %d, will wait child process %d'' ns s) = rounds_of s"
  "rounds_of (fam_print ''clean up child process okay'' ns s) = rounds_of s"
  by (simp_all add: rounds_of_print)

lemma rounds_update [simp]:
  "rounds_of (s\<lparr>parent_exit := a\<rparr>) = rounds_of s" "rounds_of (s\<lparr>fam_child := a\<rparr>) = rounds_of s"
  "rounds_of (s\<lparr>dad_pc := b\<rparr>) = rounds_of s" "rounds_of (s\<lparr>kid_pc := c\<rparr>) = rounds_of s"
  "rounds_of (s\<lparr>kid_cnt := a\<rparr>) = rounds_of s" "rounds_of (s\<lparr>chld := d\<rparr>) = rounds_of s"
  "rounds_of (s\<lparr>hand := e\<rparr>) = rounds_of s" "rounds_of (s\<lparr>fam_sa := f\<rparr>) = rounds_of s"
  "rounds_of (s\<lparr>hand_on := d\<rparr>) = rounds_of s"
  by (simp_all add: rounds_of_def)

text \<open>What the child has done.\<close>

fun kid_fine :: "kid_pc \<Rightarrow> int \<Rightarrow> nat \<Rightarrow> bool" where
  "kid_fine Kid_none n k \<longleftrightarrow> k = 0"
| "kid_fine Kid_start n k \<longleftrightarrow> k = 0"
| "kid_fine Kid_print n k \<longleftrightarrow> int k = n \<and> 0 \<le> n \<and> n < 10"
| "kid_fine Kid_sleep n k \<longleftrightarrow> int k = n + 1 \<and> 0 \<le> n \<and> n < 10"
| "kid_fine _ n k \<longleftrightarrow> k = 10 \<and> n = 10"

text \<open>
  What the parent and the handlers know: as long as the child was not waited for the last handler is still before
  its wait, and the parent is not let go; when the child has ended, one of them will let it go, or is to come.
\<close>

definition hand_fine :: "kid_pc \<Rightarrow> bool \<Rightarrow> bool \<Rightarrow> hand_pc list \<Rightarrow> int \<Rightarrow> bool" where
  "hand_fine k c on hs x \<longleftrightarrow>
     (k = Kid_none \<longrightarrow> \<not> c \<and> hs = [] \<and> x = 0)
     \<and> (k = Kid_end \<or> k = Kid_gone \<longrightarrow> x \<noteq> 0 \<or> hs \<noteq> [] \<or> c \<and> on)
     \<and> (k \<noteq> Kid_gone \<longrightarrow> x = 0 \<and> (hs = [] \<or> hd hs \<in> {Hand_sig, Hand_tell, Hand_wait}))"

fun dad_fine :: "int \<Rightarrow> dad_pc \<Rightarrow> kid_pc \<Rightarrow> int \<Rightarrow> bool" where
  "dad_fine new Dad_action k x \<longleftrightarrow> k = Kid_none"
| "dad_fine new Dad_fork k x \<longleftrightarrow> k = Kid_none"
| "dad_fine new Dad_exit k x \<longleftrightarrow> x \<noteq> 0 \<and> 0 < new"
| "dad_fine new (Dad_ret v) k x \<longleftrightarrow> v = - 1 \<and> k = Kid_none \<or> v = 0 \<and> x \<noteq> 0 \<and> 0 < new"
| "dad_fine new _ k x \<longleftrightarrow> (k = Kid_none \<longleftrightarrow> \<not> 0 < new)"

text \<open>The action is in place from the call of \<^verbatim>\<open>sigaction\<close> until a handler has started.\<close>

definition on_fine :: "dad_pc \<Rightarrow> bool \<Rightarrow> hand_pc list \<Rightarrow> int \<Rightarrow> bool" where
  "on_fine q on hs x \<longleftrightarrow> on \<or> hs \<noteq> [] \<or> x \<noteq> 0 \<or> q = Dad_action \<or> q = Dad_ret (- 1)"

definition fam_inv :: "int \<Rightarrow> family \<Rightarrow> bool" where
  "fam_inv new s \<longleftrightarrow> kid_fine (kid_pc s) (kid_cnt s) (rounds_of s)
     \<and> hand_fine (kid_pc s) (chld s) (hand_on s) (hand s) (parent_exit s)
     \<and> dad_fine new (dad_pc s) (kid_pc s) (parent_exit s) \<and> on_fine (dad_pc s) (hand_on s) (hand s) (parent_exit s)"

lemma dad_fine_kid:
  "dad_fine new q k x \<Longrightarrow> k \<noteq> Kid_none \<Longrightarrow> k' \<noteq> Kid_none \<Longrightarrow> dad_fine new q k' x"
  by (cases q) auto

lemma dad_inv:
  assumes "family_main r sa new pid s = Some s'" and "hand s = []" and "fam_inv new s"
  shows "fam_inv new s'"
proof (cases "dad_pc s")
  case Dad_action
  then have k: "kid_pc s = Kid_none" using assms(3) by (simp add: fam_inv_def)
  show ?thesis
  proof (cases "r = - 1")
    case True
    then have "s' = s\<lparr>dad_pc := Dad_ret (- 1)\<rparr>" using assms(1) Dad_action by (simp add: family_main_def)
    then show ?thesis using assms(3) k by (simp add: fam_inv_def on_fine_def)
  next
    case False
    then have "s' = s\<lparr>fam_sa := sa, hand_on := True, dad_pc := Dad_fork\<rparr>" using assms(1) Dad_action by (simp add: family_main_def)
    then show ?thesis using assms(3) k by (simp add: fam_inv_def on_fine_def hand_fine_def)
  qed
next
  case Dad_fork
  then have "kid_pc s = Kid_none" using assms(3) by (simp add: fam_inv_def)
  then show ?thesis using assms Dad_fork
    by (simp add: family_main_def fam_inv_def) (cases "0 < new"; force simp: hand_fine_def on_fine_def)
next
  case (Dad_set n)
  then show ?thesis using assms by (simp add: family_main_def fam_inv_def) (force simp: on_fine_def)
next
  case Dad_test
  then show ?thesis using assms
    by (simp add: family_main_def parent_process_def fam_inv_def) (cases "parent_exit s = 0"; force simp: hand_fine_def on_fine_def)
qed (use assms in \<open>simp add: family_main_def parent_process_def fam_inv_def; force simp: on_fine_def\<close>)+

lemma kid_inv:
  assumes "child_process pid ppid s = Some s'" and "fam_inv new s"
  shows "fam_inv new s'"
proof -
  have k: "kid_pc s \<noteq> Kid_none" using assms(1) by (auto simp: child_process_def)
  have d: "dad_fine new (dad_pc s) k' (parent_exit s)" if "k' \<noteq> Kid_none" for k'
    using assms(2) dad_fine_kid [OF _ k that] by (simp add: fam_inv_def)
  have on: "hand_on s \<or> hand s \<noteq> [] \<or> parent_exit s \<noteq> 0"
    using assms(2) k by (auto simp: fam_inv_def on_fine_def)
  show ?thesis
  proof (cases "kid_pc s")
    case Kid_sleep
    then show ?thesis using assms d
      by (simp add: child_process_def fam_inv_def hand_fine_def) (cases "kid_cnt s = 9"; force)
  next
    case Kid_exit
    then show ?thesis using assms d on
      by (simp add: child_process_def fam_inv_def hand_fine_def) (cases "sa_nocldwait (fam_sa s)"; force)
  qed (use assms k d in \<open>simp add: child_process_def fam_inv_def hand_fine_def; force\<close>)+
qed

lemma handler_inv:
  assumes "child_signal_process pid SIGCHLD s = Some s'" and "fam_inv new s"
  shows "fam_inv new s'"
proof -
  obtain h hs where h: "hand s = h # hs" using assms(1) by (auto simp: child_signal_process_def split: list.splits)
  then have k: "kid_pc s \<noteq> Kid_none" using assms(2) by (auto simp: fam_inv_def hand_fine_def)
  have d: "dad_fine new (dad_pc s) Kid_gone (parent_exit s)"
    using assms(2) dad_fine_kid [OF _ k, of new "dad_pc s" "parent_exit s" Kid_gone] by (simp add: fam_inv_def)
  have f: "dad_fine new q k 1" if "dad_fine new q k x" "k \<noteq> Kid_none" for q k x
    using that by (cases q) auto
  note defs = child_signal_process_def fam_inv_def hand_fine_def on_fine_def
  show ?thesis
  proof (cases h)
    case Hand_wait
    then consider "kid_pc s = Kid_end" "s' = s\<lparr>kid_pc := Kid_gone, hand := Hand_clean # hs\<rparr>"
      | "kid_pc s = Kid_gone" "s' = s\<lparr>hand := Hand_clean # hs\<rparr>"
      using assms(1) h k by (auto simp: child_signal_process_def split: if_splits)
    then show ?thesis by cases (use assms(2) d in \<open>simp_all add: fam_inv_def hand_fine_def on_fine_def\<close>)
  next
    case Hand_flag
    then have "kid_pc s = Kid_gone" using assms(2) h by (auto simp: fam_inv_def hand_fine_def)
    then show ?thesis using assms h k f Hand_flag by (simp add: defs; force)
  qed (use assms h k in \<open>simp add: defs; force\<close>)+
qed

lemma signal_inv:
  assumes "fam_inv new s" and "kid_pc s \<noteq> Kid_none"
  shows "fam_inv new (s\<lparr>chld := True\<rparr>)"
  using assms by (auto simp: fam_inv_def hand_fine_def)

text \<open>A handler that starts is before its wait, whatever becomes of those below it.\<close>

lemma deliver_inv:
  assumes "fam_inv new s" and "chld s"
  shows "fam_inv new (deliver_chld hs s)"
  using assms by (auto simp: fam_inv_def hand_fine_def on_fine_def deliver_chld_def)

lemma fam_step_inv:
  assumes "fam_step new s s'" and "fam_inv new s"
  shows "fam_inv new s'"
  using assms(1)
proof (cases rule: fam_step.cases)
  case stop_kid
  then have "kid_pc s \<noteq> Kid_none" by (auto simp: kid_running_def)
  then show ?thesis using signal_inv [OF assms(2)] stop_kid(1) by simp
next
  case arrive
  then show ?thesis using deliver_inv [OF assms(2)] by (simp add: accepts_chld_def)
next
  case (break_wait hs)
  then show ?thesis using deliver_inv [OF assms(2)] by (simp add: accepts_chld_def)
qed (use assms(2) dad_inv kid_inv handler_inv in blast)+

lemma family_start_inv: "fam_inv new family_start"
  by (simp add: fam_inv_def family_start_def hand_fine_def on_fine_def rounds_of_def)

interpretation fam_sys: safe_system "fam_step new" "fam_inv new" for new
  by unfold_locales (rule fam_step_inv)

lemma fam_run_inv: "(fam_step new)\<^sup>*\<^sup>* family_start s \<Longrightarrow> fam_inv new s"
  by (rule fam_sys.run_keeps [OF _ family_start_inv])

section \<open>The parent can always end\<close>

text \<open>The steps left to the child, to the handlers, and to the parent once it is let go.\<close>

fun kid_left :: "kid_pc \<Rightarrow> int \<Rightarrow> nat" where
  "kid_left Kid_start n = 24"
| "kid_left Kid_print n = 2 * nat (10 - n) + 3"
| "kid_left Kid_sleep n = 2 * nat (10 - n) + 2"
| "kid_left Kid_exit n = 3"
| "kid_left Kid_end n = 1"
| "kid_left _ n = 0"

fun one_left :: "hand_pc \<Rightarrow> nat" where
  "one_left Hand_sig = 5"
| "one_left Hand_tell = 4"
| "one_left Hand_wait = 3"
| "one_left Hand_clean = 2"
| "one_left Hand_flag = 1"

definition hand_left :: "hand_pc list \<Rightarrow> int \<Rightarrow> nat" where
  "hand_left hs x = (if hs = [] \<and> x = 0 then 6 else sum_list (map one_left hs))"

fun dad_left :: "dad_pc \<Rightarrow> nat" where
  "dad_left Dad_action = 100"
| "dad_left Dad_fork = 60"
| "dad_left (Dad_set n) = 7"
| "dad_left Dad_enter = 6"
| "dad_left Dad_print = 5"
| "dad_left Dad_sleep = 4"
| "dad_left Dad_test = 3"
| "dad_left Dad_exit = 2"
| "dad_left (Dad_ret v) = 0"

definition far :: "family \<Rightarrow> nat" where
  "far s = kid_left (kid_pc s) (kid_cnt s) + hand_left (hand s) (parent_exit s) + dad_left (dad_pc s)"

lemma far_print [simp]: "far (fam_print f ns s) = far s"
  by (simp add: far_def)

lemma nat_left: "n < 10 \<Longrightarrow> Suc (2 * nat (9 - n)) < 2 * nat (10 - n)"
  by arith

lemma kid_nearer:
  assumes "fam_inv new s" and "kid_running s"
  shows "\<exists>s'. fam_step new s s' \<and> far s' < far s"
proof -
  have "\<exists>s'. child_process 0 0 s = Some s' \<and> far s' < far s"
    using assms
    by (cases "kid_pc s"; simp add: kid_running_def child_process_def far_def fam_inv_def; cases "kid_cnt s = 9"; auto simp: nat_left)
  then show ?thesis using fam_step.kid by blast
qed

lemma handler_nearer:
  assumes "hand s = h # hs" and "kid_pc s = Kid_end \<or> kid_pc s = Kid_gone"
  shows "\<exists>s'. fam_step new s s' \<and> far s' < far s"
proof -
  have "\<exists>s'. child_signal_process 0 SIGCHLD s = Some s' \<and> far s' < far s"
    using assms
    by (cases h; simp add: child_signal_process_def far_def hand_left_def; fastforce)
  then show ?thesis using fam_step.handle by blast
qed

lemma dad_nearer:
  assumes "hand s = []" and "\<not> ended s" and "0 < new"
    and "dad_pc s \<in> {Dad_action, Dad_fork} \<and> kid_pc s = Kid_none \<or> parent_exit s \<noteq> 0 \<and> dad_pc s \<notin> {Dad_action, Dad_fork}"
  shows "\<exists>s'. fam_step new s s' \<and> far s' < far s"
proof -
  have "\<exists>s'. family_main 0 no_flags new 0 s = Some s' \<and> far s' < far s"
    using assms
    by (cases "dad_pc s"; simp add: family_main_def parent_process_def far_def ended_def)
  then show ?thesis using assms(1) fam_step.dad by blast
qed

lemma fam_nearer:
  assumes "fam_inv new s" and "0 < new" and "\<not> ended s"
  shows "\<exists>s'. fam_step new s s' \<and> far s' < far s"
proof -
  have d: "dad_fine new (dad_pc s) (kid_pc s) (parent_exit s)"
    and h: "hand_fine (kid_pc s) (chld s) (hand_on s) (hand s) (parent_exit s)"
    using assms(1) by (simp_all add: fam_inv_def)
  consider (none) "kid_pc s = Kid_none" | (running) "kid_running s"
    | (handled) p hs where "kid_pc s = Kid_end \<or> kid_pc s = Kid_gone" "hand s = p # hs"
    | (signalled) "kid_pc s = Kid_end \<or> kid_pc s = Kid_gone" "hand s = []" "parent_exit s = 0"
    | (let_go) "kid_pc s = Kid_end \<or> kid_pc s = Kid_gone" "hand s = []" "parent_exit s \<noteq> 0"
    by (cases "kid_pc s"; cases "hand s") (auto simp: kid_running_def)
  then show ?thesis
  proof cases
    case none
    then have "hand s = []" "dad_pc s \<in> {Dad_action, Dad_fork}"
      using h d assms(2,3) by (cases "dad_pc s"; auto simp: hand_fine_def ended_def)+
    then show ?thesis using dad_nearer [OF _ assms(3,2)] none by blast
  next
    case running
    then show ?thesis using kid_nearer [OF assms(1)] by blast
  next
    case handled
    then show ?thesis using handler_nearer by blast
  next
    case signalled
    then have "accepts_chld s" using h assms(3) by (auto simp: hand_fine_def accepts_chld_def)
    from fam_step.arrive [OF this] show ?thesis
      using signalled by (intro exI conjI) (auto simp: far_def hand_left_def deliver_chld_def)
  next
    case let_go
    then have "dad_pc s \<notin> {Dad_action, Dad_fork}" using d by auto
    then show ?thesis using dad_nearer [OF let_go(2) assms(3,2)] let_go(3) by blast
  qed
qed

interpretation fam_ends: reaching_system "fam_step new" "\<lambda>s. fam_inv new s \<and> 0 < new" far ended for new
  by unfold_locales (auto intro: fam_step_inv dest: fam_nearer)

section \<open>c3-2: waiting for the child\<close>

definition print_pid :: "int \<Rightarrow> int \<Rightarrow> log_line list" where
  "print_pid pid ppid = [(''pid=%d'', [pid]), (''ppid=%d'', [ppid])]"

definition WIFEXITED :: "u32 \<Rightarrow> bool" where
  "WIFEXITED status \<longleftrightarrow> status AND 0x7F = 0"

definition WEXITSTATUS :: "u32 \<Rightarrow> u32" where
  "WEXITSTATUS status = drop_bit 8 (status AND 0xFF00)"

text \<open>
  What the process prints that \<^verbatim>\<open>fork\<close> gave \<open>subpid\<close>. \<open>w\<close> is the result of \<^verbatim>\<open>wait\<close> and the status it stores: none when
  it fails, as it does when \<^verbatim>\<open>fork\<close> failed.
\<close>

definition wait_main :: "int \<Rightarrow> int \<Rightarrow> int \<Rightarrow> int \<times> u32 option \<Rightarrow> log_line list res" where
  "wait_main subpid pid ppid w =
     (if subpid = 0 then Inr ((''this is a child process'', []) # print_pid pid ppid)
      else case snd w of
        None \<Rightarrow> Inl Uninit_Read
      | Some status \<Rightarrow>
          Inr ((''this is parent process'', []) # print_pid pid ppid @
            [(if WIFEXITED status then ''child process %d exit normally'' else ''child process %d exit abnormally'', [fst w]),
             (''child process exit status = %x'', [uint (WEXITSTATUS status)])]))"

text \<open>A child that exits with \<open>c\<close> is reported with \<open>c\<close>; one that is killed by a signal is reported with the exit status 0.\<close>

lemma exit_status:
  "WIFEXITED (push_bit 8 (ucast (c :: u8)))" "WEXITSTATUS (push_bit 8 (ucast c)) = ucast c"
proof -
  have m: "(0x7F :: u32) = mask 7" "(0xFF00 :: u32) = push_bit 8 (mask 8)" by (simp_all add: mask_eq_exp_minus_1)
  have c: "n < 8" if "bit c n" for n using bit_imp_le_length [OF that] by simp
  show "WIFEXITED (push_bit 8 (ucast c))" "WEXITSTATUS (push_bit 8 (ucast c)) = ucast c"
    unfolding WIFEXITED_def WEXITSTATUS_def m by (auto intro!: bit_word_eqI simp: bit_simps) (drule c, simp)+
qed

lemma child_status_printed:
  "subpid \<noteq> 0 \<Longrightarrow> \<exists>ls. wait_main subpid pid ppid (kid, Some (push_bit 8 (ucast (c :: u8)))) =
     Inr (ls @ [(''child process %d exit normally'', [kid]), (''child process exit status = %x'', [uint c])])"
  by (simp add: wait_main_def exit_status print_pid_def uint_up_ucast is_up)

lemma killed_child_status: "\<not> WIFEXITED 9 \<and> WEXITSTATUS 9 = 0"
  by (simp add: WIFEXITED_def WEXITSTATUS_def)

section \<open>Property\<close>

text \<open>C39. When \<^verbatim>\<open>main\<close> of the parent returns 0 its child has run its ten rounds, has ended, and is no zombie any
  more: it has been waited for, or was never kept, when the flags happen to say so. If \<^verbatim>\<open>fork\<close> succeeded that
  end can still be reached from every state, whatever signals came before and whatever the flags and the mask
  hold that \<^verbatim>\<open>main\<close> does not set; if it failed the parent does not return 0. No other process kills the child.\<close>

theorem parent_waits_for_child:
  assumes "(fam_step new)\<^sup>*\<^sup>* family_start s"
  shows "(dad_pc s = Dad_ret 0 \<longrightarrow> 0 < new \<and> kid_pc s = Kid_gone \<and> rounds_of s = 10)
    \<and> rounds_of s \<le> 10 \<and> (0 < new \<longrightarrow> (\<exists>s'. (fam_step new)\<^sup>*\<^sup>* s s' \<and> ended s'))"
proof -
  have inv: "fam_inv new s" by (rule fam_run_inv [OF assms])
  have "kid_pc s = Kid_gone" if "parent_exit s \<noteq> 0"
    using inv that by (auto simp: fam_inv_def hand_fine_def)
  moreover have "rounds_of s \<le> 10" using inv by (cases "kid_pc s") (auto simp: fam_inv_def)
  moreover have "\<exists>s'. (fam_step new)\<^sup>*\<^sup>* s s' \<and> ended s'" if "0 < new" using fam_ends.reaches_end inv that by blast
  ultimately show ?thesis using inv by (auto simp: fam_inv_def)
qed

datatype relative = Dad_moves | Kid_moves | Stop_comes | Signal_comes | Handler_moves

text \<open>\<open>sa\<close> is what the action holds: one that lets the handler nest, for instance.\<close>

definition fam_move :: "sa_rest \<Rightarrow> relative \<Rightarrow> family \<Rightarrow> family res option" where
  "fam_move sa m s =
     map_option Inr (case m of
        Dad_moves \<Rightarrow> if hand s = [] then family_main 0 sa 9 8 s else None
      | Kid_moves \<Rightarrow> child_process 9 8 s
      | Stop_comes \<Rightarrow> if kid_running s \<and> \<not> sa_nocldstop (fam_sa s) then Some (s\<lparr>chld := True\<rparr>) else None
      | Signal_comes \<Rightarrow> if accepts_chld s then Some (deliver_chld (hand s) s) else None
      | Handler_moves \<Rightarrow> child_signal_process 8 SIGCHLD s)"

interpretation fam_order: scheduled "fam_step 9" "fam_move sa" for sa
  by unfold_locales (auto simp: fam_move_def intro: fam_step.intros split: relative.splits if_splits)

definition fam_schedule :: "relative list" where
  "fam_schedule = replicate 3 Dad_moves @ replicate 10 Kid_moves @ [Stop_comes, Signal_comes] @ replicate 2 Handler_moves
     @ replicate 12 Kid_moves @ [Signal_comes] @ replicate 8 Handler_moves @ replicate 5 Dad_moves"

definition nesting :: sa_rest where
  "nesting = no_flags\<lparr>sa_nodefer := True\<rparr>"

lemma fam_schedule_ends:
  "seen (\<lambda>s. (dad_pc s, kid_pc s, rounds_of s, chld s)) (follow (fam_move nesting) fam_schedule family_start) =
     Some (Dad_ret 0, Kid_gone, 10, False)"
  by code_simp

lemma parent_waits_for_child_witness:
  "\<exists>s. (fam_step 9)\<^sup>*\<^sup>* family_start s \<and> dad_pc s = Dad_ret 0 \<and> kid_pc s = Kid_gone"
proof -
  obtain s where s: "follow (fam_move nesting) fam_schedule family_start = Some (Inr s)" "dad_pc s = Dad_ret 0"
    by (rule seenE [OF fam_schedule_ends]) auto
  have "(fam_step 9)\<^sup>*\<^sup>* family_start s" by (rule fam_order.follow_run [OF s(1)])
  with parent_waits_for_child [OF this] s(2) show ?thesis by blast
qed

end
