(* ===== verification/Fm_Protocol.thy ===== *)
theory Fm_Protocol
  imports Usb_Device
begin

text \<open>
  Models \<^verbatim>\<open>demo-dh/common/usb_fm_ctrl.h\<close>, the commands of the FM tuner, and holds the handlers of \<open>usb fm\<close>
  against them: what each packet that goes out means to a device that reads it by the header.
\<close>

section \<open>The commands\<close>

datatype fm_set_cmd =
    Set_power | Set_band | Set_chan_rssi_th | Set_chan_spacing | Set_mute | Set_volume | Set_mono | Set_seek_start
  | Set_seek_stop | Set_tuning_chan | Set_rds | Set_dc_thres | Set_spike_thres

datatype fm_get_cmd =
    Get_fm_ic | Get_fm_power_state | Get_band | Get_seek_chan_rssi_th | Get_seek_chan_spacing | Get_mute_state
  | Get_mono_state | Get_vol | Get_seek_state | Get_rds_state | Get_dns_state | Get_af_state | Get_cur_chan
  | Get_dc_thres | Get_spike_thres

text \<open>The order of an enumeration in C is the order of its numbers, so both types are listed in it.\<close>

instantiation fm_set_cmd :: enum
begin

definition enum_fm_set_cmd :: "fm_set_cmd list" where
  "enum_fm_set_cmd =
     [Set_power, Set_band, Set_chan_rssi_th, Set_chan_spacing, Set_mute, Set_volume, Set_mono, Set_seek_start,
      Set_seek_stop, Set_tuning_chan, Set_rds, Set_dc_thres, Set_spike_thres]"

definition enum_all_fm_set_cmd :: "(fm_set_cmd \<Rightarrow> bool) \<Rightarrow> bool" where
  "enum_all_fm_set_cmd p \<longleftrightarrow> list_all p enum_class.enum"

definition enum_ex_fm_set_cmd :: "(fm_set_cmd \<Rightarrow> bool) \<Rightarrow> bool" where
  "enum_ex_fm_set_cmd p \<longleftrightarrow> list_ex p enum_class.enum"

instance
proof
  show u: "(UNIV :: fm_set_cmd set) = set enum_class.enum"
  proof (intro UNIV_eq_I)
    show "c \<in> set enum_class.enum" for c :: fm_set_cmd by (cases c) (simp_all add: enum_fm_set_cmd_def)
  qed
  show "distinct (enum_class.enum :: fm_set_cmd list)" by (simp add: enum_fm_set_cmd_def)
  show "enum_class.enum_all p \<longleftrightarrow> Ball UNIV p" "enum_class.enum_ex p \<longleftrightarrow> Bex UNIV p" for p :: "fm_set_cmd \<Rightarrow> bool"
    unfolding u by (simp_all add: enum_all_fm_set_cmd_def enum_ex_fm_set_cmd_def list_all_iff list_ex_iff)
qed

end

instantiation fm_get_cmd :: enum
begin

definition enum_fm_get_cmd :: "fm_get_cmd list" where
  "enum_fm_get_cmd =
     [Get_fm_ic, Get_fm_power_state, Get_band, Get_seek_chan_rssi_th, Get_seek_chan_spacing, Get_mute_state,
      Get_mono_state, Get_vol, Get_seek_state, Get_rds_state, Get_dns_state, Get_af_state, Get_cur_chan,
      Get_dc_thres, Get_spike_thres]"

definition enum_all_fm_get_cmd :: "(fm_get_cmd \<Rightarrow> bool) \<Rightarrow> bool" where
  "enum_all_fm_get_cmd p \<longleftrightarrow> list_all p enum_class.enum"

definition enum_ex_fm_get_cmd :: "(fm_get_cmd \<Rightarrow> bool) \<Rightarrow> bool" where
  "enum_ex_fm_get_cmd p \<longleftrightarrow> list_ex p enum_class.enum"

instance
proof
  show u: "(UNIV :: fm_get_cmd set) = set enum_class.enum"
  proof (intro UNIV_eq_I)
    show "c \<in> set enum_class.enum" for c :: fm_get_cmd by (cases c) (simp_all add: enum_fm_get_cmd_def)
  qed
  show "distinct (enum_class.enum :: fm_get_cmd list)" by (simp add: enum_fm_get_cmd_def)
  show "enum_class.enum_all p \<longleftrightarrow> Ball UNIV p" "enum_class.enum_ex p \<longleftrightarrow> Bex UNIV p" for p :: "fm_get_cmd \<Rightarrow> bool"
    unfolding u by (simp_all add: enum_all_fm_get_cmd_def enum_ex_fm_get_cmd_def list_all_iff list_ex_iff)
qed

end

text \<open>The numbers: an enumeration counts from its first value, 0 for the settings and 1 for the queries.\<close>

definition fm_set_code :: "fm_set_cmd \<Rightarrow> u16" where
  "fm_set_code c = of_nat (length (takeWhile (\<lambda>d. d \<noteq> c) enum_class.enum))"

definition fm_get_code :: "fm_get_cmd \<Rightarrow> u16" where
  "fm_get_code c = of_nat (1 + length (takeWhile (\<lambda>d. d \<noteq> c) enum_class.enum))"

lemma fm_codes:
  "USB_FM_SET_POWER = fm_set_code Set_power" "USB_FM_SET_BAND = fm_set_code Set_band"
  "USB_FM_SET_MUTE = fm_set_code Set_mute" "USB_FM_SET_VOLUME = fm_set_code Set_volume"
  "USB_FM_SET_TUNING_CHAN = fm_set_code Set_tuning_chan"
  "USB_FM_GET_FM_IC = fm_get_code Get_fm_ic" "USB_FM_GET_BAND = fm_get_code Get_band"
  "USB_FM_GET_MUTE_STATE = fm_get_code Get_mute_state" "USB_FM_GET_VOL = fm_get_code Get_vol"
  "USB_FM_GET_CUR_CHAN = fm_get_code Get_cur_chan"
  by (simp_all add: fm_set_code_def fm_get_code_def enum_fm_set_cmd_def enum_fm_get_cmd_def)

section \<open>What a packet means\<close>

datatype fm_request = Fm_set fm_set_cmd u16 | Fm_get fm_get_cmd

definition fm_set_of :: "u16 \<Rightarrow> fm_set_cmd option" where
  "fm_set_of v = List.find (\<lambda>c. fm_set_code c = v) enum_class.enum"

definition fm_get_of :: "u16 \<Rightarrow> fm_get_cmd option" where
  "fm_get_of v = List.find (\<lambda>c. fm_get_code c = v) enum_class.enum"

lemma fm_set_of_code [simp]: "fm_set_of (fm_set_code c) = Some c"
  by (cases c) (simp_all add: fm_set_of_def fm_set_code_def enum_fm_set_cmd_def)

lemma fm_get_of_code [simp]: "fm_get_of (fm_get_code c) = Some c"
  by (cases c) (simp_all add: fm_get_of_def fm_get_code_def enum_fm_get_cmd_def)

definition fm_meaning :: "ctl_setup \<Rightarrow> fm_request option" where
  "fm_meaning su =
     (if bRequest su = USB_FM_PRIMITIVE_SET then map_option (\<lambda>c. Fm_set c (wIndex su)) (fm_set_of (wValue su))
      else if bRequest su = USB_FM_PRIMITIVE_GET then map_option Fm_get (fm_get_of (wValue su))
      else None)"

lemma fm_meaning_set: "fm_meaning (fm_setup 0xA1 (fm_set_code c) v n) = Some (Fm_set c v)"
  by (simp add: fm_meaning_def fm_setup_def)

lemma fm_meaning_get: "fm_meaning (fm_setup 0xA2 (fm_get_code c) v n) = Some (Fm_get c)"
  by (simp add: fm_meaning_def fm_setup_def)

text \<open>What the help of \<open>usb fm\<close> promises for a name and its argument.\<close>

definition fm_intended :: "string \<Rightarrow> u16 option \<Rightarrow> fm_request option" where
  "fm_intended name arg =
     (if name = ''on'' then Some (Fm_set Set_power 1)
      else if name = ''off'' then Some (Fm_set Set_power 0)
      else if name = ''device'' then Some (Fm_get Get_fm_ic)
      else if name = ''volume'' then Some (case arg of None \<Rightarrow> Fm_get Get_vol | Some v \<Rightarrow> Fm_set Set_volume (v AND 0xF))
      else if name = ''channel'' then Some (case arg of None \<Rightarrow> Fm_get Get_cur_chan | Some v \<Rightarrow> Fm_set Set_tuning_chan v)
      else if name = ''band'' then Some (case arg of None \<Rightarrow> Fm_get Get_band | Some v \<Rightarrow> Fm_set Set_band (v AND 3))
      else if name = ''mute'' then Some (case arg of None \<Rightarrow> Fm_get Get_mute_state | Some v \<Rightarrow> Fm_set Set_mute (v AND 3))
      else None)"

text \<open>The two queries that go out with the primitive for setting.\<close>

definition fm_sent :: "string \<Rightarrow> u16 option \<Rightarrow> fm_request option" where
  "fm_sent name arg =
     (if arg = None \<and> name = ''band'' then Some (Fm_set Set_chan_spacing 0)
      else if arg = None \<and> name = ''mute'' then Some (Fm_set Set_mono 0)
      else fm_intended name arg)"

lemma fm_meaning_numbers:
  "fm_meaning (fm_setup 0xA1 0 v n) = Some (Fm_set Set_power v)" "fm_meaning (fm_setup 0xA1 1 v n) = Some (Fm_set Set_band v)"
  "fm_meaning (fm_setup 0xA1 3 v n) = Some (Fm_set Set_chan_spacing v)"
  "fm_meaning (fm_setup 0xA1 4 v n) = Some (Fm_set Set_mute v)" "fm_meaning (fm_setup 0xA1 5 v n) = Some (Fm_set Set_volume v)"
  "fm_meaning (fm_setup 0xA1 6 v n) = Some (Fm_set Set_mono v)"
  "fm_meaning (fm_setup 0xA1 9 v n) = Some (Fm_set Set_tuning_chan v)"
  "fm_meaning (fm_setup 0xA2 1 v n) = Some (Fm_get Get_fm_ic)" "fm_meaning (fm_setup 0xA2 8 v n) = Some (Fm_get Get_vol)"
  "fm_meaning (fm_setup 0xA2 13 v n) = Some (Fm_get Get_cur_chan)"
  by (simp_all add: fm_meaning_def fm_setup_def fm_set_of_def fm_get_of_def fm_set_code_def fm_get_code_def
      enum_fm_set_cmd_def enum_fm_get_cmd_def)

lemma fm_packet_meaning:
  assumes "fm_sent name arg = Some q"
  obtains su where "fm_packet name arg = Some su" and "fm_meaning su = Some q"
proof -
  have "name \<in> {''on'', ''off'', ''device'', ''volume'', ''channel'', ''band'', ''mute''}"
    using assms by (simp add: fm_sent_def fm_intended_def split: if_splits)
  then have "\<exists>su. fm_packet name arg = Some su \<and> fm_meaning su = Some q"
    using assms
    by (elim insertE emptyE; cases arg)
       (simp_all add: fm_sent_def fm_intended_def fm_packet_def fm_meaning_numbers)
  then show thesis using that by blast
qed

lemma fm_sent_intended:
  assumes "fm_intended name arg = Some q"
  shows "\<exists>q'. fm_sent name arg = Some q' \<and> (q' = q \<longleftrightarrow> arg \<noteq> None \<or> name \<notin> {''band'', ''mute''})"
  using assms by (cases arg) (auto simp: fm_sent_def fm_intended_def)

section \<open>Property\<close>

text \<open>C20. A \<open>usb fm\<close> command other than \<open>test\<close> sends one vendor transfer and returns 0. By the header the
  transfer means what the command is for, with the argument masked to its field, with two exceptions: the
  query of the band sets the channel spacing to 0, and the query of the mute state sets mono to 0.\<close>

theorem fm_command_meaning:
  assumes "uc_bind s \<noteq> 0" and "2 < length args"
    and "arg = (if 3 < length args then Some (strtoul_u16 (args ! 3)) else None)"
    and "fm_intended (args ! 2) arg = Some q"
  shows "\<exists>s' su q'. exec_usb_cmd lib 7 args s = Inr (0, s') \<and> ucalls s' = ucalls s @ [Lib_transfer (uc_handle s) su []]
    \<and> fm_meaning su = Some q' \<and> fm_sent (args ! 2) arg = Some q'
    \<and> (q' = q \<longleftrightarrow> arg \<noteq> None \<or> args ! 2 \<notin> {''band'', ''mute''})"
proof -
  obtain q' where q': "fm_sent (args ! 2) arg = Some q'" "q' = q \<longleftrightarrow> arg \<noteq> None \<or> args ! 2 \<notin> {''band'', ''mute''}"
    using fm_sent_intended [OF assms(4)] by blast
  obtain su where su: "fm_packet (args ! 2) arg = Some su" "fm_meaning su = Some q'" by (rule fm_packet_meaning [OF q'(1)])
  from fm_command [OF assms(1,2) su(1) [unfolded assms(3)], of lib] show ?thesis
    using q' su(2) by (auto simp: exec_usb_cmd_def)
qed

lemma fm_command_meaning_witness:
  "\<exists>s' su. exec_usb_cmd ram_lib 7 [''usb'', ''fm'', ''band''] ram_usb = Inr (0, s')
     \<and> ucalls s' = ucalls ram_usb @ [Lib_transfer (Some ()) su []] \<and> fm_meaning su = Some (Fm_set Set_chan_spacing 0)"
proof -
  have "fm_intended ''band'' None = Some (Fm_get Get_band)" "fm_sent ''band'' None = Some (Fm_set Set_chan_spacing 0)"
    by (simp_all add: fm_intended_def fm_sent_def)
  then show ?thesis
    using fm_command_meaning [of ram_usb "[''usb'', ''fm'', ''band'']" None "Fm_get Get_band" ram_lib]
    by (auto simp: ram_usb_def)
qed

end
