(* ===== verification/Sys_Demo.thy ===== *)
theory Sys_Demo
  imports Comm_File
begin

text \<open>
  Models \<^verbatim>\<open>demo-sys/main.c\<close>, a clock on one line of the terminal driven by an interval timer, with a reader of links
  and a test of permissions that \<^verbatim>\<open>main\<close> does not call, and \<^verbatim>\<open>apue/e1/main.c\<close>, which waits for six interrupts.
  \<^verbatim>\<open>localtime\<close>, \<^verbatim>\<open>setitimer\<close>, \<^verbatim>\<open>readlink\<close>, \<^verbatim>\<open>access\<close> and the directory stream are parameters. Shown: the terminal always
  shows one time, the last.
\<close>

section \<open>printf of numbers\<close>

fun dec_digits :: "nat \<Rightarrow> string" where
  "dec_digits n = (if n < 10 then [char_of (48 + n)] else dec_digits (n div 10) @ [char_of (48 + n mod 10)])"

declare dec_digits.simps [simp del]

text \<open>\<^verbatim>\<open>%0kd\<close>: at least \<open>k\<close> characters, the sign among them.\<close>

definition pad0 :: "nat \<Rightarrow> int \<Rightarrow> string" where
  "pad0 k v =
     (let d = dec_digits (nat \<bar>v\<bar>)
      in if v < 0 then ''-'' @ replicate (k - 1 - length d) CHR ''0'' @ d else replicate (k - length d) CHR ''0'' @ d)"

section \<open>The clock\<close>

abbreviation BS :: char where "BS \<equiv> CHR 0x08"

record tm =
  tm_year :: int
  tm_mon :: int
  tm_mday :: int
  tm_hour :: int
  tm_min :: int
  tm_sec :: int

text \<open>\<open>clock_tick\<close> is the static variable \<^verbatim>\<open>tick\<close>.\<close>

record clock =
  clock_tick :: int
  clock_out :: string

definition stamp :: "int \<Rightarrow> tm \<Rightarrow> string" where
  "stamp year t =
     ''['' @ pad0 4 year @ '','' @ pad0 2 (tm_mon t) @ '','' @ pad0 2 (tm_mday t) @ ''][''
       @ pad0 2 (tm_hour t) @ '':'' @ pad0 2 (tm_min t) @ '':'' @ pad0 2 (tm_sec t) @ '']''"

text \<open>The argument is what \<^verbatim>\<open>localtime\<close> returns.\<close>

definition print_local_time :: "tm option \<Rightarrow> clock \<Rightarrow> clock res" where
  "print_local_time pt s =
     (let n = 4 + 2 + 2 + 2 + 2 + 2 + 8;
          s1 = if clock_tick s > 0 then s\<lparr>clock_out := clock_out s @ replicate n BS\<rparr> else s
      in case pt of
           None \<Rightarrow> Inl Null_Deref
         | Some t \<Rightarrow>
             res_bind (int_ok (tm_year t + 1900)) (\<lambda>year. res_bind (int_ok (clock_tick s1 + 1)) (\<lambda>tick.
               Inr (s1\<lparr>clock_out := clock_out s1 @ stamp year t, clock_tick := tick\<rparr>))))"

definition timer_handler :: "int \<Rightarrow> tm option \<Rightarrow> clock \<Rightarrow> clock res" where
  "timer_handler signum pt s = print_local_time pt s"

fun alarms :: "tm option list \<Rightarrow> clock \<Rightarrow> clock res" where
  "alarms [] s = Inr s"
| "alarms (pt # pts) s = res_bind (timer_handler 14 pt s) (alarms pts)"

text \<open>
  The function ends in a loop: the state is that after the alarms at which \<^verbatim>\<open>localtime\<close> returned \<open>pts\<close>.
  \<open>setitimer\<close> gives the result for the seconds and microseconds of the interval, which are those of the first alarm.
\<close>

definition test_timer :: "(int \<times> int \<Rightarrow> int) \<Rightarrow> tm option list \<Rightarrow> clock res" where
  "test_timer setitimer pts =
     (let s = \<lparr>clock_tick = 0, clock_out = ''test_timer:'' @ [NL]\<rparr>;
          r = setitimer (1, 100 * 1000)
      in if r \<noteq> 0 then Inr (s\<lparr>clock_out := clock_out s @ ''test_timer: setitimer failed '' @ pad0 0 r\<rparr>)
         else alarms pts s)"

section \<open>Links and permissions\<close>

definition test_readlink :: "(string \<Rightarrow> string option) \<Rightarrow> string list \<Rightarrow> (int \<times> trace list) res" where
  "test_readlink readlink av =
     (if length av \<le> 1 then Inr (- 1, [])
      else let path = av ! 1; str = replicate 256 NUL
           in case readlink path of
                None \<Rightarrow> Inr (- 1, [])
              | Some target \<Rightarrow>
                  res_bind (cstr_at (take 256 target @ drop (length target) str) 0) (\<lambda>text.
                    Inr (0, [say ''link %s = %s'' [TStr path, TStr text]])))"

abbreviation F_OK :: int where "F_OK \<equiv> 0"
abbreviation X_OK :: int where "X_OK \<equiv> 1"
abbreviation W_OK :: int where "W_OK \<equiv> 2"
abbreviation R_OK :: int where "R_OK \<equiv> 4"

definition access_line :: "int \<Rightarrow> string \<Rightarrow> string \<Rightarrow> string \<Rightarrow> trace" where
  "access_line r yes no file_dir = (if r = 0 then say yes [TStr file_dir] else say no [TStr file_dir])"

definition test_access :: "(string \<Rightarrow> int \<Rightarrow> int) \<Rightarrow> string list \<Rightarrow> int \<times> trace list" where
  "test_access access av =
     (let file_dir = if length av > 1 then av ! 1 else ''./a.out''
      in if access file_dir F_OK \<noteq> 0 then (0, [say ''not find %s'' [TStr file_dir]])
         else (0,
           [say ''file %s exists'' [TStr file_dir],
            access_line (access file_dir R_OK) ''file %s is readable'' ''file %s is not readable'' file_dir,
            access_line (access file_dir W_OK) ''file %s is writable'' ''file %s is not writable'' file_dir,
            access_line (access file_dir X_OK) ''file %s is executable'' ''file %s is not executable'' file_dir]))"

section \<open>apue/e1: waiting for interrupts\<close>

text \<open>\<open>done1\<close>: the loop has been left. A run is a list of interrupts and of turns of the loop.\<close>

record waiter =
  sig_cnt :: int
  done1 :: bool
  wait_out :: "trace list"

datatype wait_event = Interrupt int | Turn

definition sig_int :: "int \<Rightarrow> waiter \<Rightarrow> waiter res" where
  "sig_int signo s =
     res_bind (int_ok (sig_cnt s + 1)) (\<lambda>n.
       Inr (s\<lparr>sig_cnt := n, wait_out := wait_out s @ [say ''interrupt by %d'' [TInt signo]]\<rparr>))"

definition test_sig_turn :: "waiter \<Rightarrow> waiter" where
  "test_sig_turn s =
     (if done1 s then s
      else if sig_cnt s > 5 then s\<lparr>done1 := True, wait_out := wait_out s @ [say ''test_sig, done'' []]\<rparr>
      else s)"

fun sig_events :: "wait_event list \<Rightarrow> waiter \<Rightarrow> waiter res" where
  "sig_events [] s = Inr s"
| "sig_events (Interrupt n # es) s = res_bind (sig_int n s) (sig_events es)"
| "sig_events (Turn # es) s = sig_events es (test_sig_turn s)"

definition test_sig :: "wait_event list \<Rightarrow> waiter res" where
  "test_sig es = sig_events es \<lparr>sig_cnt = 0, done1 = False, wait_out = [say ''test_sig, start'' []]\<rparr>"

text \<open>\<open>listed\<close> are the names of the stream, if the directory can be opened; the value after the listing is not set.\<close>

definition test_dir :: "(string \<Rightarrow> string list option) \<Rightarrow> string list \<Rightarrow> int option \<times> trace list" where
  "test_dir listed av =
     (if length av \<noteq> 2 then (Some (- 1), [say ''invalid arguments'' []])
      else case listed (av ! 1) of
             None \<Rightarrow> (Some (- 1), [say ''opendir failed'' []])
           | Some names \<Rightarrow> (None, List.map (\<lambda>n. say ''%s'' [TStr n]) names @ [say ''readdir end'' []]))"

section \<open>The terminal\<close>

text \<open>The line of the cursor and the position of the cursor in it.\<close>

fun shows_char :: "char \<Rightarrow> string \<times> nat \<Rightarrow> string \<times> nat" where
  "shows_char c (l, n) =
     (if c = NL then ([], 0) else if c = BS then (l, n - 1) else (take n l @ [c] @ drop (Suc n) l, Suc n))"

definition terminal :: "string \<Rightarrow> string \<times> nat \<Rightarrow> string \<times> nat" where
  "terminal cs t = fold shows_char cs t"

lemma terminal_append: "terminal (as @ bs) t = terminal bs (terminal as t)"
  by (simp add: terminal_def)

lemma terminal_back: "terminal (replicate k BS) (l, n) = (l, n - k)"
  by (induction k arbitrary: n) (simp_all add: terminal_def)

text \<open>Characters that only take their place.\<close>

definition plain :: "string \<Rightarrow> bool" where
  "plain w \<longleftrightarrow> (\<forall>c\<in>set w. c \<noteq> NL \<and> c \<noteq> BS)"

lemma plain_simps [simp]:
  "plain []" "plain (c # w) \<longleftrightarrow> c \<noteq> NL \<and> c \<noteq> BS \<and> plain w" "plain (v @ w) \<longleftrightarrow> plain v \<and> plain w"
  "c \<noteq> NL \<Longrightarrow> c \<noteq> BS \<Longrightarrow> plain (replicate k c)"
  by (auto simp: plain_def)

lemma terminal_plain:
  "plain w \<Longrightarrow> n \<le> length l \<Longrightarrow>
   terminal w (l, n) = (take n l @ w @ drop (n + length w) l, n + length w)"
proof (induction w arbitrary: l n)
  case (Cons c w)
  let ?l = "take n l @ [c] @ drop (Suc n) l"
  have "terminal (c # w) (l, n) = terminal w (?l, Suc n)" using Cons.prems(1) by (simp add: terminal_def)
  also have "\<dots> = (take (Suc n) ?l @ w @ drop (Suc n + length w) ?l, Suc n + length w)"
    using Cons.prems by (intro Cons.IH) auto
  finally show ?case using Cons.prems(2) by (simp add: min_def ac_simps)
qed (simp add: terminal_def)

section \<open>The width of a time\<close>

lemma dec_small: "n < 10 \<Longrightarrow> dec_digits n = [char_of (48 + n)]"
  by (subst dec_digits.simps) simp

lemma dec_length: "n < 10 ^ Suc k \<Longrightarrow> length (dec_digits n) \<le> Suc k"
proof (induction k arbitrary: n)
  case 0
  then show ?case by (simp add: dec_small)
next
  case (Suc k)
  then show ?case
  proof (cases "n < 10")
    case False
    have "n div 10 < 10 ^ Suc k" using Suc.prems by (simp add: less_mult_imp_div_less mult.commute)
    from Suc.IH [OF this] False show ?thesis by (subst dec_digits.simps) simp
  qed (simp add: dec_small)
qed

lemma digit_plain: "n < 10 \<Longrightarrow> char_of (48 + n) \<noteq> NL \<and> char_of (48 + n) \<noteq> BS" for n :: nat
proof -
  assume "n < 10"
  then have e: "(of_char (char_of (48 + n)) :: nat) = 48 + n" by simp
  have "(of_char NL :: nat) = 10" "(of_char BS :: nat) = 8" by simp_all
  then show ?thesis using e by fastforce
qed

lemma dec_plain: "plain (dec_digits n)"
proof (induction n rule: dec_digits.induct)
  case (1 n)
  have d: "plain [char_of (48 + n mod 10)]" using digit_plain [of "n mod 10"] by simp
  show ?case
  proof (cases "n < 10")
    case True
    then show ?thesis using digit_plain [of n] by (simp add: dec_small)
  next
    case False
    then have "dec_digits n = dec_digits (n div 10) @ [char_of (48 + n mod 10)]" by (subst dec_digits.simps) simp
    then show ?thesis using 1 [OF False] d by simp
  qed
qed

lemma pad0_length:
  assumes "0 \<le> v" and "v < 10 ^ k" and "0 < k"
  shows "length (pad0 k v) = k"
proof -
  obtain j where k: "k = Suc j" using assms(3) by (cases k) auto
  have "int (nat v) < int (10 ^ k)" using assms by simp
  then have "nat v < 10 ^ Suc j" unfolding k by (simp only: of_nat_less_iff)
  from dec_length [OF this] have "length (dec_digits (nat v)) \<le> k" using k by simp
  moreover have "pad0 k v = replicate (k - length (dec_digits (nat v))) CHR ''0'' @ dec_digits (nat v)"
    using assms(1) by (simp add: pad0_def Let_def)
  ultimately show ?thesis by simp
qed

lemma pad0_plain [simp]: "plain (pad0 k v)"
  by (simp add: pad0_def Let_def dec_plain)

text \<open>The ranges of a broken-down time; four digits of the year.\<close>

definition good_time :: "tm \<Rightarrow> bool" where
  "good_time t \<longleftrightarrow> - 1900 \<le> tm_year t \<and> tm_year t < 8100 \<and> tm_mon t \<in> {0..11} \<and> tm_mday t \<in> {1..31}
     \<and> tm_hour t \<in> {0..23} \<and> tm_min t \<in> {0..59} \<and> tm_sec t \<in> {0..60}"

lemma stamp_length:
  assumes "good_time t"
  shows "length (stamp (tm_year t + 1900) t) = 22"
proof -
  have two: "length (pad0 2 v) = 2" if "0 \<le> v" "v < 100" for v using pad0_length [of v 2] that by simp
  have four: "length (pad0 4 v) = 4" if "0 \<le> v" "v < 10000" for v using pad0_length [of v 4] that by simp
  show ?thesis using assms by (simp add: stamp_def good_time_def two four)
qed

lemma stamp_plain: "plain (stamp y t)"
  by (simp add: stamp_def)

section \<open>The clock on the terminal\<close>

text \<open>After the header, and after each alarm.\<close>

definition shows_time :: "clock \<Rightarrow> tm \<Rightarrow> bool" where
  "shows_time s t \<longleftrightarrow> terminal (clock_out s) ([], 0) = (stamp (tm_year t + 1900) t, 22)"

lemma first_time:
  assumes "clock_tick s = 0" and "terminal (clock_out s) ([], 0) = ([], 0)" and "good_time t"
  shows "\<exists>s'. print_local_time (Some t) s = Inr s' \<and> clock_tick s' = 1 \<and> shows_time s' t"
proof -
  let ?w = "stamp (tm_year t + 1900) t"
  have y: "int_ok (tm_year t + 1900) = Inr (tm_year t + 1900)" using assms(3) by (simp add: int_ok_def good_time_def)
  have "terminal ?w ([], 0) = (?w, 22)" using terminal_plain [OF stamp_plain] stamp_length [OF assms(3)] by simp
  then show ?thesis
    using assms(1,2) y by (simp add: print_local_time_def Let_def int_ok_def shows_time_def terminal_append)
qed

lemma next_time:
  assumes "shows_time s u" and "0 < clock_tick s" "clock_tick s < 2 ^ 31 - 1" and "good_time t" "good_time u"
  shows "\<exists>s'. print_local_time (Some t) s = Inr s' \<and> clock_tick s' = clock_tick s + 1 \<and> shows_time s' t"
proof -
  let ?w = "stamp (tm_year t + 1900) t" and ?v = "stamp (tm_year u + 1900) u"
  have y: "int_ok (tm_year t + 1900) = Inr (tm_year t + 1900)" using assms(4) by (simp add: int_ok_def good_time_def)
  have c: "int_ok (clock_tick s + 1) = Inr (clock_tick s + 1)" using assms(2,3) by (simp add: int_ok_def)
  have "terminal (clock_out s @ replicate 22 BS) ([], 0) = (?v, 0)"
    using assms(1) by (simp add: shows_time_def terminal_append terminal_back)
  moreover have "terminal ?w (?v, 0) = (?w, 22)"
    using terminal_plain [OF stamp_plain, of 0 ?v] stamp_length [OF assms(4)] stamp_length [OF assms(5)] by simp
  ultimately show ?thesis
    using assms(2) y c by (simp add: print_local_time_def Let_def shows_time_def terminal_append del: append_assoc)
qed

lemma alarms_show:
  assumes "shows_time s u" and "0 < clock_tick s" and "clock_tick s + int (length ts) < 2 ^ 31" and "good_time u"
    and "\<forall>t\<in>set ts. good_time t"
  shows "\<exists>s'. alarms (List.map Some ts) s = Inr s' \<and> shows_time s' (last (u # ts))"
  using assms
proof (induction ts arbitrary: s u)
  case (Cons t ts)
  have t: "good_time t" and l: "clock_tick s < 2 ^ 31 - 1" using Cons.prems by simp_all
  obtain s1 where s1: "print_local_time (Some t) s = Inr s1" "clock_tick s1 = clock_tick s + 1" "shows_time s1 t"
    using next_time [OF Cons.prems(1,2) l t Cons.prems(4)] by blast
  have "\<exists>s'. alarms (List.map Some ts) s1 = Inr s' \<and> shows_time s' (last (t # ts))"
    using Cons.prems s1(2) t by (intro Cons.IH [OF s1(3)]) simp_all
  then show ?case using s1(1) by (simp add: timer_handler_def)
qed simp

section \<open>Properties\<close>

text \<open>C40. However many alarms there were, below \<open>2 ^ 31\<close>, the line of the terminal shows one time, that of the last
  alarm, with the cursor behind it: the 22 backspaces erase exactly the time before, while years have at
  most four digits.\<close>

theorem clock_shows_last_time:
  assumes "setitimer (1, 100000) = 0" and "ts \<noteq> []" and "int (length ts) < 2 ^ 31" and "\<forall>t\<in>set ts. good_time t"
  shows "\<exists>s. test_timer setitimer (List.map Some ts) = Inr s
    \<and> terminal (clock_out s) ([], 0) = (stamp (tm_year (last ts) + 1900) (last ts), 22)"
proof -
  obtain t us where ts: "ts = t # us" using assms(2) by (cases ts) auto
  let ?s = "\<lparr>clock_tick = 0, clock_out = ''test_timer:'' @ [NL]\<rparr>"
  have "terminal (clock_out ?s) ([], 0) = ([], 0)" by (simp add: terminal_def)
  from first_time [OF _ this] obtain s1 where s1: "print_local_time (Some t) ?s = Inr s1" "clock_tick s1 = 1" "shows_time s1 t"
    using assms(4) ts by auto
  have "\<exists>s'. alarms (List.map Some us) s1 = Inr s' \<and> shows_time s' (last (t # us))"
    using assms ts s1(2) by (intro alarms_show [OF s1(3)]) simp_all
  then show ?thesis
    using s1(1) assms(1) ts by (simp add: test_timer_def timer_handler_def shows_time_def Let_def)
qed

definition noon :: tm where
  "noon = \<lparr>tm_year = 119, tm_mon = 3, tm_mday = 7, tm_hour = 12, tm_min = 0, tm_sec = 5\<rparr>"

lemma clock_shows_last_time_witness:
  "\<exists>s. test_timer (\<lambda>_. 0) [Some noon, Some (noon\<lparr>tm_sec := 6\<rparr>)] = Inr s
    \<and> terminal (clock_out s) ([], 0) = (''[2019,03,07][12:00:06]'', 22)"
proof -
  have "stamp 2019 (noon\<lparr>tm_sec := 6\<rparr>) = ''[2019,03,07][12:00:06]''" by code_simp
  then show ?thesis
    using clock_shows_last_time [of "\<lambda>_. 0" "[noon, noon\<lparr>tm_sec := 6\<rparr>]"]
    by (simp add: good_time_def noon_def)
qed

text \<open>A link is printed as it is if it is shorter than the buffer; otherwise there is no end of the string.\<close>

lemma link_printed:
  assumes "readlink path = Some target" and "NUL \<notin> set target"
  shows "test_readlink readlink [prg, path] =
    (if length target < 256 then Inr (0, [say ''link %s = %s'' [TStr path, TStr target]]) else Inl Unterminated)"
proof (cases "length target < 256")
  case True
  define k where "k = 255 - length target"
  have "drop (length target) (replicate 256 NUL) = NUL # replicate k NUL"
    using True by (simp add: k_def drop_replicate flip: replicate_Suc)
  then show ?thesis
    using assms True by (simp add: test_readlink_def Let_def cstr_at_def cstr_append)
next
  case False
  have "cstr w = None" if "NUL \<notin> set w" for w using that by (induction w) auto
  moreover have "NUL \<notin> set (take 256 target)" using assms(2) by (auto dest: in_set_takeD)
  ultimately show ?thesis
    using assms False by (simp add: test_readlink_def Let_def cstr_at_def)
qed

text \<open>The loop is left at its first turn after six interrupts, not before.\<close>

definition interrupts :: "wait_event list \<Rightarrow> nat" where
  "interrupts es = length (filter (\<lambda>e. e \<noteq> Turn) es)"

lemma sig_events_count:
  "sig_events es s = Inr s' \<Longrightarrow> sig_cnt s' = sig_cnt s + int (interrupts es) \<and> (done1 s' \<longrightarrow> done1 s \<or> 5 < sig_cnt s')"
proof (induction es arbitrary: s)
  case (Cons e es)
  show ?case
  proof (cases e)
    case (Interrupt n)
    with Cons.prems obtain s1 where s1: "sig_int n s = Inr s1" "sig_events es s1 = Inr s'" by (auto simp: res_bind_Inr_iff)
    have "sig_cnt s1 = sig_cnt s + 1" "done1 s1 = done1 s"
      using s1(1) by (auto simp: sig_int_def res_bind_Inr_iff int_ok_def split: if_splits)
    then show ?thesis using Cons.IH [OF s1(2)] Interrupt by (auto simp: interrupts_def)
  next
    case Turn
    then show ?thesis using Cons.IH [of "test_sig_turn s"] Cons.prems
      by (auto simp: test_sig_turn_def interrupts_def split: if_splits)
  qed
qed (simp add: interrupts_def)

lemma six_interrupts: "test_sig es = Inr s \<Longrightarrow> done1 s \<Longrightarrow> 6 \<le> interrupts es"
  using sig_events_count [of es] by (force simp: test_sig_def)

end
