(* ===== verification/Small_Demos.thy ===== *)
theory Small_Demos
  imports Comm_File
begin

text \<open>
  Models \<^verbatim>\<open>demo-signal/main.c\<close>, a loop that sleeps until a signal comes, and the build exercises \<^verbatim>\<open>c1\<close>, \<^verbatim>\<open>c2-2\<close>
  and \<^verbatim>\<open>c2-3\<close> (whose sources are the same), as built with \<^verbatim>\<open>DEBUG\<close>. Shown: no more greetings than signals and one,
  and when the sums are defined.
\<close>

section \<open>demo-signal\<close>

datatype greeter_pc = Greet | To_pause | Paused

record greeter =
  greeter_pc :: greeter_pc
  greeter_out :: "trace list"

text \<open>A run is a list of signals and of steps of the loop; \<^verbatim>\<open>pause\<close> ends with a signal that comes during it.\<close>

datatype greeter_event = Signal int | Step

definition sigint_process :: "int \<Rightarrow> greeter \<Rightarrow> greeter" where
  "sigint_process sig s = s\<lparr>greeter_out := greeter_out s @ [say ''sig %d cannot kill me.'' [TInt sig]]\<rparr>"

definition greeter_step :: "int \<Rightarrow> greeter \<Rightarrow> greeter" where
  "greeter_step pid s =
     (case greeter_pc s of
        Greet \<Rightarrow> s\<lparr>greeter_out := greeter_out s @ [say ''pid=%d, hello world'' [TInt pid]], greeter_pc := To_pause\<rparr>
      | To_pause \<Rightarrow> s\<lparr>greeter_pc := Paused\<rparr>
      | Paused \<Rightarrow> s)"

fun greeter_run :: "int \<Rightarrow> greeter_event list \<Rightarrow> greeter \<Rightarrow> greeter" where
  "greeter_run pid [] s = s"
| "greeter_run pid (Step # es) s = greeter_run pid es (greeter_step pid s)"
| "greeter_run pid (Signal n # es) s =
     greeter_run pid es ((sigint_process n s)\<lparr>greeter_pc := (if greeter_pc s = Paused then Greet else greeter_pc s)\<rparr>)"

definition greeter_main :: "int \<Rightarrow> greeter_event list \<Rightarrow> greeter" where
  "greeter_main pid es = greeter_run pid es \<lparr>greeter_pc = Greet, greeter_out = []\<rparr>"

definition greetings :: "int \<Rightarrow> trace list \<Rightarrow> nat" where
  "greetings pid out = count_list out (say ''pid=%d, hello world'' [TInt pid])"

lemma greetings_snoc [simp]:
  "greetings pid (out @ [say ''pid=%d, hello world'' [TInt pid]]) = Suc (greetings pid out)"
  "greetings pid (out @ [say ''sig %d cannot kill me.'' [TInt sig]]) = greetings pid out"
  by (simp_all add: greetings_def say_def)

definition signals :: "greeter_event list \<Rightarrow> nat" where
  "signals es = length (filter (\<lambda>e. e \<noteq> Step) es)"

lemma greeter_run_bound:
  "greetings pid (greeter_out (greeter_run pid es s)) \<le>
     greetings pid (greeter_out s) + signals es + (if greeter_pc s = Greet then 1 else 0)"
proof (induction es arbitrary: s)
  case (Cons e es)
  show ?case
  proof (cases e)
    case (Signal n)
    let ?t = "(sigint_process n s)\<lparr>greeter_pc := (if greeter_pc s = Paused then Greet else greeter_pc s)\<rparr>"
    show ?thesis using Cons.IH [of ?t] Signal
      by (simp add: sigint_process_def signals_def split: if_splits)
  next
    case Step
    show ?thesis using Cons.IH [of "greeter_step pid s"] Step
      by (cases "greeter_pc s") (simp_all add: greeter_step_def signals_def)
  qed
qed (simp add: signals_def)

text \<open>One greeting at the start and at most one for a signal; a signal before \<^verbatim>\<open>pause\<close> is not answered.\<close>

lemma greetings_bound: "greetings pid (greeter_out (greeter_main pid es)) \<le> 1 + signals es"
  using greeter_run_bound [of pid es "\<lparr>greeter_pc = Greet, greeter_out = []\<rparr>"]
  by (simp add: greeter_main_def greetings_def)

lemma signal_missed:
  "greeter_pc (greeter_main pid [Step, Signal 2, Step, Step]) = Paused
    \<and> greetings pid (greeter_out (greeter_main pid [Step, Signal 2, Step, Step])) = 1"
  by (simp add: greeter_main_def greeter_step_def sigint_process_def greetings_def say_def)

section \<open>c1, c2-2 and c2-3\<close>

definition func_add2 :: "int \<Rightarrow> int \<Rightarrow> trace list \<Rightarrow> (int \<times> trace list) res" where
  "func_add2 a b out =
     res_bind (int_ok (a + b)) (\<lambda>r. Inr (r, out @ [say ''%s, a = %d, b = %d'' [TStr ''func_add2'', TInt a, TInt b]]))"

definition func_add3 :: "int \<Rightarrow> int \<Rightarrow> int \<Rightarrow> trace list \<Rightarrow> (int \<times> trace list) res" where
  "func_add3 a b c out =
     res_bind (int_ok (a + b)) (\<lambda>r1. res_bind (int_ok (r1 + c)) (\<lambda>r.
       Inr (r, out @ [say ''%s, a = %d, b = %d, c = %d'' [TStr ''func_add3'', TInt a, TInt b, TInt c]])))"

definition func_inc :: "int \<Rightarrow> trace list \<Rightarrow> (int \<times> trace list) res" where
  "func_inc a out = res_bind (int_ok (a + 1)) (\<lambda>r. Inr (r, out @ [say ''%s, a=%d'' [TStr ''func_inc'', TInt a]]))"

definition sums_main :: "(int \<times> trace list) res" where
  "sums_main =
     res_bind (func_add2 1 2 []) (\<lambda>(s1, o1).
     res_bind (func_add3 1 2 3 (o1 @ [say ''s = %d'' [TInt s1]])) (\<lambda>(s2, o2).
     res_bind (func_inc s2 (o2 @ [say ''s = %d'' [TInt s2]])) (\<lambda>(s3, o3).
       Inr (0, o3 @ [say ''s = %d'' [TInt s3]]))))"

text \<open>The one of \<^verbatim>\<open>c1\<close> does not print its name; \<open>time1\<close> and \<open>date1\<close> are those of the compilation.\<close>

definition c1_add2 :: "int \<Rightarrow> int \<Rightarrow> trace list \<Rightarrow> (int \<times> trace list) res" where
  "c1_add2 a b out = res_bind (int_ok (a + b)) (\<lambda>r. Inr (r, out @ [say ''a = %d, b = %d'' [TInt a, TInt b]]))"

definition c1_main :: "string \<Rightarrow> string \<Rightarrow> string list \<Rightarrow> (int \<times> trace list) res" where
  "c1_main time1 date1 av =
     (let o1 = [say ''end: %x, space: %x'' [TInt 0, TInt 32],
                Trace '' this is fprintf stdout'' [], Trace '' this is printf stdout'' [],
                say '' this is printf stdout with end'' [], say ''argc=%d'' [TInt (int (length av))]]
              @ (if length av > 0 then [say ''file name: %s'' [TStr (av ! 0)]] else [])
              @ (if length av > 1 then [say ''argv[1]: %s'' [TStr (av ! 1)]] else [])
      in res_bind (c1_add2 1 1 o1) (\<lambda>(n, o2).
           Inr (0, o2 @ [say ''n = %d'' [TInt n], say ''__TIME__ = %s, __DATE__ = %s'' [TStr time1, TStr date1]])))"

text \<open>A sum is undefined exactly when it, or the part of it that is added first, is no \<^verbatim>\<open>int\<close>.\<close>

lemma add3_defined:
  "(\<exists>e. func_add3 a b c out = Inl e) \<longleftrightarrow> a + b \<notin> {- (2 ^ 31)..<2 ^ 31} \<or> a + b + c \<notin> {- (2 ^ 31)..<2 ^ 31}"
  by (auto simp: func_add3_def int_ok_def)

lemma sums_printed:
  "\<exists>out. sums_main = Inr (0, out) \<and> filter (\<lambda>l. \<exists>n. l = say ''s = %d'' [TInt n]) out =
     [say ''s = %d'' [TInt 3], say ''s = %d'' [TInt 6], say ''s = %d'' [TInt 7]]"
  by (simp add: sums_main_def func_add2_def func_add3_def func_inc_def int_ok_def say_def)

end
