(* ===== verification/Spec2Isabelle.thy ===== *)
theory Spec2Isabelle
  imports Server Usb_Device Serial_Spec Xyz_Safe Lib_Number Calc_Run Comm_File Echo_Server
    Usb_Test Test_Keys Dir_Walk Prod_Cons Thread_Demo Line_Chat Data_File Arg_Demo Magic_File Shm_Signal Sig_Thread
    Shm_Race Fork_Demo Fm_Protocol Sys_Demo Small_Demos
begin

text \<open>
  A verification library for the C programs of the repository \<^verbatim>\<open>alp\<close>. The programs modelled are
  \<^verbatim>\<open>demo-dh\<close>, a command console on standard input or on a TCP socket that drives USB devices, with a
  threaded serial driver and an XMODEM receiver beside it; \<^verbatim>\<open>demo-calc\<close>, an earlier console with a
  calculator; \<^verbatim>\<open>demo-io\<close>, a file object; \<^verbatim>\<open>demo-lib\<close>, a number parser; \<^verbatim>\<open>demo-env\<close>, a directory walk; the servers
  and clients of \<^verbatim>\<open>c5-2\<close>, \<^verbatim>\<open>c5-3\<close> and \<^verbatim>\<open>c5-4\<close>; the thread, process, signal and shared memory programs \<^verbatim>\<open>c3-2\<close>,
  \<^verbatim>\<open>c3-4\<close>, \<^verbatim>\<open>c4\<close>, \<^verbatim>\<open>c4-2\<close>, \<^verbatim>\<open>c5\<close>, \<^verbatim>\<open>thread\<close> and \<^verbatim>\<open>ipc\<close>; and the option, file and timer programs \<^verbatim>\<open>c2\<close>, \<^verbatim>\<open>apue/e1\<close>,
  \<^verbatim>\<open>apue/e4\<close> and \<^verbatim>\<open>demo-sys\<close>.

  \<^bold>\<open>Theories and code.\<close>
  \<^item> \<open>C_Prelude\<close>: undefined behaviour as the values of \<open>c_error\<close>, buffers with checked indices
    (\<open>rd\<close>, \<open>wr\<close>), strings up to their NUL, \<^verbatim>\<open>strtoul\<close>, the trace macros of \<^verbatim>\<open>include/debug.h\<close>. A function
    that can go wrong returns \<open>'a res\<close>; one that may run for ever returns an option, in which \<open>None\<close> is
    running for ever.
  \<^item> \<open>Sock_IO\<close>, \<open>Comm_IO\<close>: \<^verbatim>\<open>common/sock_io.c\<close>, \<^verbatim>\<open>common/comm_io.c\<close>. The record \<open>io\<close> is all input and
    output of the console; the preprocessor flags are the record \<open>cflags\<close>.
  \<^item> \<open>Comm_Cmd\<close>: \<^verbatim>\<open>common/comm_cmd.c\<close>. \<open>Comm_Line\<close> verifies the line reader and the argument cutter,
    \<open>Comm_Table\<close> the command table and the search for the command of a line.
  \<^item> \<open>Usb_Lib\<close>, \<open>Usb_Cmd\<close>, \<open>Usb_List\<close>: \<^verbatim>\<open>common/usb_cmd.c\<close>; \<open>Usb_Session\<close> and \<open>Usb_Access\<close> verify it;
    \<open>Usb_Device\<close> is an example device.
  \<^item> \<open>Fm_Protocol\<close>: \<^verbatim>\<open>common/usb_fm_ctrl.h\<close>, and what the FM commands mean by it.
  \<^item> \<open>Console\<close>: \<^verbatim>\<open>common/sock_cmd.c\<close>, the objects and registration of the modules, \<^verbatim>\<open>common/comm_main.c\<close>;
    \<open>Console_Table\<close>, \<open>Console_Run\<close> and \<open>Console_Main\<close> verify start-up, one line, and whole sessions.
  \<^item> \<open>Server\<close>: \<^verbatim>\<open>socket/server.c\<close>.
  \<^item> \<open>Serial_Dev\<close>: \<^verbatim>\<open>common/island.c\<close>, \<^verbatim>\<open>common/oslib.c\<close>, \<^verbatim>\<open>drivers/serial_thread.c\<close>; \<open>Serial_Inv\<close>,
    \<open>Serial_Runs\<close> and \<open>Serial_Spec\<close> hold the invariants, the runs with timeouts, and the refinement.
  \<^item> \<open>Xyz_Modem\<close>: \<^verbatim>\<open>drivers/xyzmodem.c\<close>; \<open>Xyz_Crc\<close>, \<open>Xyz_Line\<close>, \<open>Xyz_Stream\<close>, \<open>Xyz_End\<close> and
    \<open>Xyz_Safe\<close> verify it.
  \<^item> \<open>Data_File\<close>: the class of \<^verbatim>\<open>drivers/datafile.cpp\<close>, with a position and length of 32 bits.
  \<^item> \<open>Calc_Cmd\<close>, \<open>Calc_Box\<close>: \<^verbatim>\<open>demo-calc/comm_cmd.c\<close>, \<^verbatim>\<open>calc.c\<close> and \<^verbatim>\<open>box.c\<close>; \<open>Calc_Run\<close> verifies them.
  \<^item> \<open>Usb_Test\<close>, \<open>Test_Keys\<close>: \<^verbatim>\<open>tests/usb_test.c\<close> and \<^verbatim>\<open>tests/main.c\<close>.
  \<^item> \<open>Echo_Server\<close>: \<^verbatim>\<open>c5-4/server.c\<close>. \<open>Msg_Server\<close>: \<^verbatim>\<open>c5-2/server.c\<close> and \<^verbatim>\<open>client.c\<close>, messages with their length in front.
    \<open>Line_Chat\<close>: \<^verbatim>\<open>c5-3/server.c\<close> and \<^verbatim>\<open>client.c\<close>, with the client and the server composed.
  \<^item> \<open>Prod_Cons\<close>: \<^verbatim>\<open>c4-2/main.c\<close>. \<open>Thread_Demo\<close>: \<^verbatim>\<open>thread/thread.c\<close>. \<open>Shm_Signal\<close>: \<^verbatim>\<open>ipc/ipc.c\<close>. \<open>Sig_Thread\<close>: \<^verbatim>\<open>c4/main.c\<close>.
    \<open>Shm_Race\<close>: \<^verbatim>\<open>c5/main.c\<close>. \<open>Fork_Demo\<close>: \<^verbatim>\<open>c3-4/main.c\<close> and \<^verbatim>\<open>c3-2/main.c\<close>. Each is a step relation whose steps are
    the accesses of its threads or processes to what they share; \<open>Step_System\<close> holds what they and the serial
    device have in common.
  \<^item> \<open>Dir_Walk\<close>: \<^verbatim>\<open>demo-env/main.c\<close>. \<open>Arg_Demo\<close>: \<^verbatim>\<open>c2/main.c\<close>. \<open>Magic_File\<close>: \<^verbatim>\<open>apue/e4/main.c\<close>.
    \<open>Sys_Demo\<close>: \<^verbatim>\<open>demo-sys/main.c\<close> and \<^verbatim>\<open>apue/e1/main.c\<close>. \<open>Small_Demos\<close>: \<^verbatim>\<open>demo-signal\<close>, \<^verbatim>\<open>c1\<close>, \<^verbatim>\<open>c2-2\<close> and \<^verbatim>\<open>c2-3\<close>.
  \<^item> \<open>Lib_Number\<close>: \<^verbatim>\<open>demo-lib/main.c\<close>. \<open>Comm_File\<close>: \<^verbatim>\<open>demo-io/comm_file.c\<close> and \<^verbatim>\<open>main.c\<close>.

  \<^bold>\<open>How the parts interact.\<close> \<^verbatim>\<open>comm_main\<close> registers the modules in the table, then reads a line,
  cuts it into \<open>argv\<close>, finds a command by its name (or by its group and name) and calls its handler,
  which works on a copy of the arguments; the USB handlers call libusb. The server runs the same
  \<^verbatim>\<open>comm_main\<close> behind a socket. A caller and the worker of a serial device share a command slot, two
  channels and three semaphores. The XMODEM receiver calls its terminal only through function
  pointers. The calculator repeats the interpreter with a table of its own.

  \<^bold>\<open>Interfaces.\<close> \<open>char_source\<close> is what the line reader needs of its input; it is interpreted on standard
  input, the socket and the console switch. \<open>command_table\<close> is what a module needs of the table, a bag
  of commands with room; it is interpreted on the functions of \<open>Comm_Cmd\<close>, on the traced calls over
  the whole memory of the console, and on the calculator's table. \<open>safe_system\<close>, \<open>ending_system\<close>,
  \<open>reaching_system\<close> and \<open>live_system\<close> are what an invariant, a cost, and a distance from the end give for the
  runs of a step relation, \<open>scheduled\<close> what a schedule does; the first is interpreted on the serial device, the
  others on the threaded programs.

  \<^bold>\<open>What is shown.\<close> For the console: the functional behaviour of reading, cutting, finding and
  running a line, the invariant of every prompt of every session (\<open>at_prompt\<close>, by rule induction), the
  protocol kept towards libusb, the exact USB transfers of a command, and how a run ends. For the
  serial device: runs without timeouts refine a sequential loop-back device and never block, the ways
  into undefined behaviour are known exactly, all runs destroy it safely, and the faults that timeouts bring are
  schedules. For XMODEM: whole
  transfers, the soundness of accepted packets, the checksum against its bit-serial definition,
  termination on a line that falls silent, that no terminal makes a read leave the packet buffer, and
  the two faults of the error paths. For the threaded programs: invariants of every reachable state
  (mutual exclusion, the units of the semaphores, who may still use the shared memory), the ways
  each can go wrong, signal handlers that interrupt one another among them, that every schedule of the producer and its consumers ends, and that a parent that
  waits for its child can always still end. For the servers and clients: lines arrive however the stream
  cuts them, messages if it splits none of their fields. For the other programs: how they end and what
  they print.

  \<^bold>\<open>Loops and bounds.\<close> No fuel of our own is used: loops of the code with a counter are recursive on
  it, with its bound (200 retries, 250000 polls of the terminal, 100 table slots); the threaded programs are step
  relations, and the 277 steps of \<open>Prod_Cons\<close> are a measure of its start; every other loop is
  a \<open>partial_function\<close>, and that it ends is proved where it does (\<open>main_quits\<close>, \<open>wire_stream\<close>,
  \<open>disk_read_loop\<close>, \<open>quit_run\<close>) and that it does not where it does not (\<open>round_eof\<close>, \<open>silent_main\<close>).

  \<^bold>\<open>Parameters.\<close> libusb (\<open>libusb\<close>), the terminal of XMODEM (\<open>tty\<close>), \<^verbatim>\<open>getopt_long\<close> (\<open>getopt\<close>), the POSIX
  file calls (\<open>posix\<close>), the results of the socket calls (\<open>sock_env\<close>, \<open>echo\<close>) and of \<^verbatim>\<open>read\<close> on the socket, also
  of a size above \<^verbatim>\<open>SSIZE_MAX\<close> (\<open>big_read\<close>), the content of fresh memory, and the fields of a \<^verbatim>\<open>struct sigaction\<close>
  that the code leaves unset (\<open>sa_rest\<close>) are arguments or parts of the state. Where a theorem needs a law of
  one, it is a hypothesis, met in the witness by a concrete instance (\<open>ram_lib\<close>, \<open>wire_tty\<close>,
  \<open>demo_getopt\<close>, \<open>disk\<close>). The steps of the two serial threads interleave at their accesses to shared
  memory; a \<^verbatim>\<open>memcpy\<close> is one step, and memory is sequentially consistent.

  \<^bold>\<open>Not modelled.\<close> \<^verbatim>\<open>demo-time\<close>, \<^verbatim>\<open>c3\<close> and \<^verbatim>\<open>c3-3\<close> have no state and no decision of their own: they print what
  the time functions return, loop for ever in two processes, or call \<^verbatim>\<open>system\<close>.
  The register numbers of \<^verbatim>\<open>usb_fm_ctrl.h\<close> are used nowhere. Standard error, delays and trace lines of masked
  levels are left out everywhere.
\<close>

section \<open>Concrete programs for the examples\<close>

definition demo_flags :: cflags where
  "demo_flags = \<lparr>use_socket = False, usb_socket = False, cmd_module_usb = True, cmd_module_sock = True\<rparr>"

definition typed :: "string \<Rightarrow> io" where
  "typed str = \<lparr>io_stdin = str, io_reads = [], io_accept = [], io_sent = [], io_out = []\<rparr>"

definition demo_app :: "string \<Rightarrow> (unit, u32 \<Rightarrow> u8 list) app" where
  "demo_app str = app_boot (typed str) (\<lambda>_. [1, 2, 3, 4])"

lemma boot_fields [simp]:
  "cmd_obj (cst (app_boot s w)) = static_obj" "cio (cst (app_boot s w)) = s"
  "usb_ok (usbctrl (app_boot s w))" "uc_handle (usbctrl (app_boot s w)) = None"
  by (simp_all add: app_boot_def usb_ok_def)

lemma demo_pending: "io_pending demo_flags (cio (cst (demo_app str))) = str"
  by (simp add: demo_flags_def demo_app_def typed_def io_pending_def)

text \<open>The first prompt of the example program, with \<open>str\<close> waiting on standard input.\<close>

lemma demo_prompt:
  obtains a :: "(unit, u32 \<Rightarrow> u8 list) app" where "console_ready demo_flags a" and "usb_ok (usbctrl a)"
    and "argv (box_cdata a) = replicate COMM_ARGV_BUF_SIZE None"
    and "io_pending demo_flags (cio (cst a)) = str"
proof -
  have s: "cmd_obj (cst (demo_app str)) = static_obj" "usb_ok (usbctrl (demo_app str))"
      "uc_handle (usbctrl (demo_app str)) = None"
    by (simp_all add: demo_app_def)
  show ?thesis
  proof (rule comm_main_start [OF s(1)])
    fix a :: "(unit, u32 \<Rightarrow> u8 list) app"
    assume "console_ready demo_flags a" "argv (box_cdata a) = replicate COMM_ARGV_BUF_SIZE None"
      "usb_ok (usbctrl (demo_app str)) \<Longrightarrow> uc_handle (usbctrl (demo_app str)) = None \<Longrightarrow> usb_ok (usbctrl a)"
      "io_pending demo_flags (cio (cst a)) = io_pending demo_flags (cio (cst (demo_app str)))"
    then show ?thesis using s by (intro that [of a]) (simp_all add: demo_pending)
  qed
qed

section \<open>The console program\<close>

text \<open>C1. Whatever is typed, a run of the program that ends returns 0, has unregistered every
  module command, leaves \<open>exit\<close> in the table twice (\<^verbatim>\<open>trivial_cmd_unregister\<close> registers it
  again instead of removing it), and has closed every USB device it opened, opening and using
  none while another was open.\<close>

theorem comm_main_ends_clean:
  assumes "comm_main b lib (app_boot s w) = Some (Inr (r, a'))"
  shows "r = 0 \<and> registered (cst a') = {#Cmd_exit, Cmd_exit#}
    \<and> (cmd_module_usb b \<longrightarrow> run_log None (ucalls (usbctrl a')) = Some None)"
proof -
  obtain a1 where a1: "console_ready b a1" "usb_ok (usbctrl a1)"
      "comm_main b lib (app_boot s w) = map_option (\<lambda>m. res_bind m (main_finish b lib)) (main_loop b lib a1)"
    using comm_main_start [of "app_boot s w" b lib] by auto
  obtain a2 where l: "main_loop b lib a1 = Some (Inr a2)" and f: "main_finish b lib a2 = Inr (r, a')"
    using assms a1(3) by (auto simp: res_bind_Inr_iff)
  obtain a0 where "at_prompt b lib a1 a0" "console_round b lib a0 = Some (Inr a2)"
    using main_loop_ends [OF l refl] by blast
  then have "console_ready b a2" "usb_ok (usbctrl a2)"
    using at_prompt_keeps [OF _ a1(1,2)] round_keeps by blast+
  then show ?thesis using f
    by (elim main_finish_ok [where lib = lib]) (auto simp: usb_ok_def split: if_splits)
qed

lemma demo_quits: "\<exists>a'. comm_main demo_flags ram_lib (demo_app (''quit'' @ [NL])) = Some (Inr (0, a'))"
proof (rule main_quits)
  show "io_pending demo_flags (cio (cst (demo_app (''quit'' @ [NL])))) = ''quit'' @ NL # []"
    by (simp add: demo_pending)
  show "tokens (strip_cr ''quit'') = ''quit'' # []" by code_simp
qed (auto simp: demo_app_def)

lemma comm_main_ends_clean_witness:
  "\<exists>a'. comm_main demo_flags ram_lib (demo_app (''quit'' @ [NL])) = Some (Inr (0, a'))
     \<and> registered (cst a') = {#Cmd_exit, Cmd_exit#} \<and> run_log None (ucalls (usbctrl a')) = Some None"
proof -
  obtain a' where a': "comm_main demo_flags ram_lib (demo_app (''quit'' @ [NL])) = Some (Inr (0, a'))"
    using demo_quits by blast
  have "cmd_module_usb demo_flags" by (simp add: demo_flags_def)
  then show ?thesis using a' comm_main_ends_clean [OF a' [unfolded demo_app_def]] by blast
qed

text \<open>C18. Typing \<open>quit\<close> or \<open>exit\<close>, with any further words, as the first line ends the program
  with 0; what was typed after that line is still unread.\<close>

theorem quit_ends_program:
  fixes lib :: "('d, 'h, 'w) libusb"
  assumes "io_pending b s = ln @ NL # rest" and "NL \<notin> set ln" and "NUL \<notin> set ln" and "length ln < 4096"
    and "tokens (strip_cr ln) = cmd # ws" and "cmd = ''quit'' \<or> cmd = ''exit''"
  shows "\<exists>a'. comm_main b lib (app_boot s w) = Some (Inr (0, a')) \<and> io_pending b (cio (cst a')) = rest"
proof -
  let ?a = "app_boot s w :: ('h, 'w) app"
  have p: "io_pending b (cio (cst ?a)) = ln @ NL # rest" using assms(1) by simp
  show ?thesis using main_quits [OF boot_fields(1,3,4) p assms(2-6), of lib] by blast
qed

lemma quit_ends_program_witness:
  "\<exists>a'. comm_main demo_flags ram_lib (demo_app (''exit now'' @ NL # ''help'')) = Some (Inr (0, a'))
     \<and> io_pending demo_flags (cio (cst a')) = ''help''"
proof -
  have t: "tokens (strip_cr ''exit now'') = ''exit'' # [''now'']" by code_simp
  show ?thesis unfolding demo_app_def
    by (rule quit_ends_program [OF _ _ _ _ t]) (simp_all add: typed_def io_pending_def demo_flags_def)
qed

text \<open>C2. At every prompt of every session, after any number of arbitrary lines, the table holds
  exactly the commands that were registered at start-up, with their names and handlers, the line
  buffer and the argument array have their sizes, and the calls made to libusb keep its protocol:
  one device at a time, transfers only to the open one, \<^verbatim>\<open>usbctrl\<close> naming it.\<close>

theorem prompt_invariant:
  fixes a0 a :: "('h, 'w) app"
  assumes "main_start b (app_boot s w) = Inr (r, a0)" and "at_prompt b lib a0 a"
  shows "r = 0 \<and> console_ready b a \<and> usb_ok (usbctrl a)"
proof -
  let ?a = "app_boot s w :: ('h, 'w) app"
  obtain a1 where "main_start b ?a = Inr (0, a1)" "console_ready b a1"
      "uc_bind (usbctrl a1) = uc_bind (usbctrl (session_start b ?a))"
      "uc_handle (usbctrl a1) = uc_handle (usbctrl (session_start b ?a))"
      "ucalls (usbctrl a1) = ucalls (usbctrl ?a)"
    by (rule main_start_ok [OF boot_fields(1), of b]) blast
  then have "r = 0" "console_ready b a0" "usb_ok (usbctrl a0)"
    using assms(1) by (auto simp: usb_ok_def session_start_def usb_data_init_def app_boot_def split: if_splits)
  then show ?thesis using at_prompt_keeps [OF assms(2)] by blast
qed

lemma prompt_invariant_witness:
  "\<exists>a0. main_start demo_flags (demo_app []) = Inr (0, a0) \<and> at_prompt demo_flags ram_lib a0 a0
     \<and> console_ready demo_flags a0 \<and> usb_ok (usbctrl a0)"
proof -
  obtain a0 where a0: "main_start demo_flags (demo_app []) = Inr (0, a0)"
    by (rule main_start_ok [where a = "demo_app []" and b = demo_flags]) (simp_all add: demo_app_def)
  have p: "at_prompt demo_flags ram_lib a0 a0" by (rule first)
  show ?thesis using a0 p prompt_invariant [OF a0 [unfolded demo_app_def] p] by blast
qed

text \<open>C3. A line \<open>usb <command> <words>\<close> typed at any prompt runs that USB command with all the
  words of the line as its arguments, on the USB state of the prompt; what it prints goes to the
  console's output, and undefined behaviour in it is undefined behaviour of the round.\<close>

theorem usb_line_runs_command:
  assumes "console_ready b a" and "cmd_module_usb b" and "io_pending b (cio (cst a)) = ln @ NL # rest"
    and "NL \<notin> set ln" and "NUL \<notin> set ln" and "length ln < 4096"
    and "tokens (strip_cr ln) = ''usb'' # name # ws" and "(name, i) \<in> set cmds_info"
  shows "\<exists>out. case exec_usb_cmd lib i (''usb'' # name # ws) ((usbctrl a)\<lparr>uout := out\<rparr>) of
      Inl e \<Rightarrow> console_round b lib a = Some (Inl e)
    | Inr (r, u) \<Rightarrow> \<exists>a'. console_round b lib a = Some (Inr a') \<and> usbctrl a' = u
        \<and> io_out (cio (cst a')) = uout u \<and> io_pending b (cio (cst a')) = rest \<and> box_quit a' = box_quit a"
proof -
  obtain a2 where a2: "io_pending b (cio (cst a2)) = rest" "usbctrl a2 = usbctrl a" "box_quit a2 = box_quit a"
      "console_round b lib a =
        Some (res_bind (usb_run (exec_usb_cmd lib i (''usb'' # name # ws)) a2) (\<lambda>x. Inr (snd x)))"
    by (rule round_usb [OF assms(1,3,2,4-8)])
  show ?thesis
    using a2 by (intro exI [of _ "io_out (cio (cst a2))"])
      (auto simp: usb_run_def io_pending_def split: sum.split)
qed

lemma usb_line_runs_command_witness:
  "\<exists>a a'. console_round demo_flags ram_lib a = Some (Inr (a' :: (unit, u32 \<Rightarrow> u8 list) app))
     \<and> io_pending demo_flags (cio (cst a')) = []"
proof -
  let ?ln = "''usb read mem 0x10''"
  obtain a :: "(unit, u32 \<Rightarrow> u8 list) app" where a: "console_ready demo_flags a"
      "io_pending demo_flags (cio (cst a)) = ?ln @ NL # []" "usb_ok (usbctrl a)"
    by (rule demo_prompt [of "?ln @ NL # []"])
  have t: "tokens (strip_cr ?ln) = ''usb'' # ''read'' # [''mem'', ''0x10'']" by code_simp
  obtain out where "case exec_usb_cmd ram_lib 4 (''usb'' # ''read'' # [''mem'', ''0x10''])
        ((usbctrl a)\<lparr>uout := out\<rparr>) of
      Inl e \<Rightarrow> console_round demo_flags ram_lib a = Some (Inl e)
    | Inr (r, u) \<Rightarrow> \<exists>a'. console_round demo_flags ram_lib a = Some (Inr a') \<and> usbctrl a' = u
        \<and> io_out (cio (cst a')) = uout u \<and> io_pending demo_flags (cio (cst a')) = [] \<and> box_quit a' = box_quit a"
    using usb_line_runs_command [OF a(1) _ a(2) _ _ _ t, of 4 ram_lib]
    by (auto simp: demo_flags_def cmds_info_def)
  then show ?thesis by (auto simp: exec_usb_cmd_def split: prod.splits)
qed

text \<open>\<open>echo\<close> prints its first word on a line of its own.\<close>

theorem echo_prints_word:
  fixes a :: "('h, 'w) app"
  assumes "console_ready b a" and "cmd_module_sock b" and "\<not> usb_socket b" and "\<not> use_socket b"
    and "io_pending b (cio (cst a)) = ln @ NL # rest"
    and "NL \<notin> set ln" and "NUL \<notin> set ln" and "length ln < 4096"
    and "tokens (strip_cr ln) = ''echo'' # x # ws"
  shows "\<exists>a' out. console_round b lib a = Some (Inr a') \<and> box_quit a' = box_quit a
    \<and> io_out (cio (cst a')) = out @ [Trace ''%s'' [TStr [NL]], Trace ''%s'' [TStr x], Trace ''%s'' [TStr [NL]]]"
proof -
  obtain a2 where a2: "console_round b lib a = Some (res_bind (run_command b lib a2) (\<lambda>(_, a'). Inr a'))"
      "console_ready b a2" "holds_args (box_cdata a2) (''echo'' # x # ws)" "box_quit a2 = box_quit a"
    using round_reads [OF assms(1,5-8), of lib] assms(9) by metis
  obtain a' where a': "run_command b lib a2 = Inr (0, a')"
      "cio (cst a') = comm_puts b [NL] (comm_puts b x (comm_puts b [NL] (cio (cst a2))))"
      "box_quit a' = box_quit a2"
    by (rule run_echo [OF a2(2) assms(2) a2(3)])
  show ?thesis using a2 a' assms(3)
    by (intro exI [of _ a'] exI [of _ "io_out (cio (cst a2))"]) (simp add: comm_puts_def)
qed

lemma echo_prints_word_witness:
  "\<exists>a a' :: (unit, u32 \<Rightarrow> u8 list) app. \<exists>out. console_round demo_flags ram_lib a = Some (Inr a')
     \<and> io_out (cio (cst a')) = out @ [Trace ''%s'' [TStr [NL]], Trace ''%s'' [TStr ''hi''], Trace ''%s'' [TStr [NL]]]"
proof -
  obtain a :: "(unit, u32 \<Rightarrow> u8 list) app" where a: "console_ready demo_flags a"
      "io_pending demo_flags (cio (cst a)) = ''echo hi'' @ NL # []"
    by (rule demo_prompt [of "''echo hi'' @ NL # []"])
  have t: "tokens (strip_cr ''echo hi'') = ''echo'' # ''hi'' # []" by code_simp
  show ?thesis using echo_prints_word [OF a(1) _ _ _ a(2) _ _ _ t, of ram_lib]
    by (auto simp: demo_flags_def)
qed

text \<open>A line of the single word \<open>usb\<close> right after start-up makes the interpreter compare the
  name of a USB command with \<^verbatim>\<open>argv[1]\<close>, which is still NULL: undefined behaviour.\<close>

theorem group_word_alone_crashes:
  assumes "console_ready b a" and "cmd_module_usb b" and "argv (box_cdata a) ! 1 = None"
    and "io_pending b (cio (cst a)) = ln @ NL # rest"
    and "NL \<notin> set ln" and "NUL \<notin> set ln" and "length ln < 4096"
    and "tokens (strip_cr ln) = [''usb'']"
  shows "console_round b lib a = Some (Inl Null_Deref)"
proof -
  obtain a2 where a2: "console_round b lib a = Some (res_bind (run_command b lib a2) (\<lambda>(_, a'). Inr a'))"
      "console_ready b a2" "holds_args (box_cdata a2) [''usb'']"
      "drop 1 (argv (box_cdata a2)) = drop 1 (argv (box_cdata a))"
    using round_reads [OF assms(1,4-7), of lib] assms(8) by (metis One_nat_def list.size(3,4) add_0)
  have "length (argv (box_cdata a)) = 2048" "length (argv (box_cdata a2)) = 2048"
    using assms(1) a2(2) by (simp_all add: console_ready_def wf_data_def)
  then have "arg_str (box_cdata a2) 1 = Inl Null_Deref"
    using arg_cong [OF a2(4), of hd] assms(3) by (simp add: arg_str_def rd_def hd_drop_conv_nth)
  from find_group_alone [OF a2(2) assms(2) a2(3) this, of lib] show ?thesis using a2(1) by simp
qed

lemma group_word_alone_crashes_witness:
  "\<exists>a :: (unit, u32 \<Rightarrow> u8 list) app. console_round demo_flags ram_lib a = Some (Inl Null_Deref)"
proof -
  obtain a :: "(unit, u32 \<Rightarrow> u8 list) app" where a: "console_ready demo_flags a"
      "argv (box_cdata a) = replicate COMM_ARGV_BUF_SIZE None"
      "io_pending demo_flags (cio (cst a)) = ''usb'' @ NL # []"
    by (rule demo_prompt [of "''usb'' @ NL # []"])
  have t: "tokens (strip_cr ''usb'') = [''usb'']" by code_simp
  have "console_round demo_flags ram_lib a = Some (Inl Null_Deref)"
    by (rule group_word_alone_crashes [OF a(1) _ _ a(3) _ _ _ t]) (simp_all add: a(2) demo_flags_def)
  then show ?thesis by blast
qed

text \<open>On standard input without a further newline the program never ends: at end of file the
  line reader stores EOF for ever, at any prompt.\<close>

theorem eof_never_ends:
  assumes "console_ready b a" and "\<not> use_socket b" and "NL \<notin> set (io_stdin (cio (cst a)))"
  shows "main_loop b lib a = None"
  using round_eof [OF assms, of lib] by (subst main_loop.simps) simp

lemma eof_never_ends_witness:
  "\<exists>a :: (unit, u32 \<Rightarrow> u8 list) app. console_ready demo_flags a \<and> main_loop demo_flags ram_lib a = None"
proof -
  obtain a :: "(unit, u32 \<Rightarrow> u8 list) app" where a: "console_ready demo_flags a"
      "io_pending demo_flags (cio (cst a)) = ''quit''"
    by (rule demo_prompt [of "''quit''"])
  have "main_loop demo_flags ram_lib a = None"
    using a by (intro eof_never_ends) (simp_all add: demo_flags_def io_pending_def)
  then show ?thesis using a by blast
qed

section \<open>The command interpreter\<close>

text \<open>C4. Reading and cutting a line: from standard input or from the socket, however the kernel
  cuts the bytes, a line shorter than the buffer is consumed exactly up to its newline, a carriage
  return before it is dropped, and \<^verbatim>\<open>argv[0 .. argc-1]\<close> are the blank-separated words of the
  line; no access leaves an array.\<close>

theorem line_becomes_words:
  assumes "wf_data d" and "io_pending b s = ln @ NL # rest"
    and "NL \<notin> set ln" and "NUL \<notin> set ln" and "length ln < 4096"
  shows "\<exists>s' d1 d2. comm_get_command (comm_fgetc b) d s = Some (Inr (0, d1), s') \<and> io_pending b s' = rest
    \<and> comm_parse_command d1 = Inr (0, d2) \<and> wf_data d2 \<and> holds_args d2 (tokens (strip_cr ln))"
  using read_parse_line [OF assms] by metis

lemma line_becomes_words_witness:
  "\<exists>s' d1 d2. comm_get_command (comm_fgetc demo_flags)
        (comm_data_zero\<lparr>tmpsize := 4096\<rparr>) (typed (''a  bc'' @ [CR, NL])) = Some (Inr (0, d1), s')
     \<and> comm_parse_command d1 = Inr (0, d2) \<and> holds_args d2 [''a'', ''bc'']"
proof -
  have t: "tokens (strip_cr (''a  bc'' @ [CR])) = [''a'', ''bc'']" by code_simp
  show ?thesis
    using line_becomes_words [of "comm_data_zero\<lparr>tmpsize := 4096\<rparr>" demo_flags
        "typed (''a  bc'' @ [CR, NL])" "''a  bc'' @ [CR]" "[]", unfolded t]
    by (auto simp: wf_data_def comm_data_zero_def typed_def demo_flags_def io_pending_def)
qed

text \<open>C19. A line of exactly 4096 characters that does not end in a carriage return makes the
  reader store its terminator one past the end of the line buffer.\<close>

theorem full_line_overflows:
  assumes "wf_data d" and "io_pending b s = ln @ NL # rest" and "NL \<notin> set ln"
    and "length ln = 4096" and "last ln \<noteq> CR"
  shows "\<exists>s'. comm_get_command (comm_fgetc b) d s = Some (Inl Out_Of_Bounds, s')"
proof -
  have "ln \<noteq> []" using assms(4) by auto
  then show ?thesis using comm_src.get_command_full [OF assms(2,3), of d] assms(1,4,5)
    by (auto simp: wf_data_def)
qed

lemma full_line_overflows_witness:
  "\<exists>s'. comm_get_command (comm_fgetc demo_flags) (comm_data_zero\<lparr>tmpsize := 4096\<rparr>)
          (typed (replicate 4096 (CHR ''a'') @ [NL])) = Some (Inl Out_Of_Bounds, s')"
  by (rule full_line_overflows [where ln = "replicate 4096 (CHR ''a'')" and rest = "[]"])
     (simp_all add: wf_data_def comm_data_zero_def typed_def demo_flags_def io_pending_def)

text \<open>A module whose commands fit the table registers all of them, and unregistering them
  afterwards gives the table back: the same bag of commands and as many free slots.\<close>

theorem register_then_unregister:
  assumes "wf_table st" and "\<forall>p \<in> set ps. valid_cmd st p" and "length ps \<le> free_slots st"
  shows "\<exists>st1 st2. each_until (\<lambda>p. comm_cmd_register (Some p)) ps 0 st = Inr (0, st1)
    \<and> registered st1 = registered st + mset ps
    \<and> each_until (\<lambda>p. comm_cmd_unregister (Some p)) ps 0 st1 = Inr (0, st2)
    \<and> registered st2 = registered st \<and> free_slots st2 = free_slots st"
  using comm_tab.reg_unreg_all assms by blast

definition demo_table :: "(cmd_ref, handler_ref, cdata_ref, priv_ref) comm_state" where
  "demo_table = \<lparr>comm_cmds = replicate 100 None, cmd_obj = static_obj, cio = typed []\<rparr>"

lemma register_then_unregister_witness:
  "\<exists>st1 st2. each_until (\<lambda>p. comm_cmd_register (Some p)) (sock_cmds @ [Cmd_quit]) 0 demo_table = Inr (0, st1)
    \<and> registered st1 = registered demo_table + mset (sock_cmds @ [Cmd_quit])
    \<and> each_until (\<lambda>p. comm_cmd_unregister (Some p)) (sock_cmds @ [Cmd_quit]) 0 st1 = Inr (0, st2)
    \<and> registered st2 = registered demo_table \<and> free_slots st2 = free_slots demo_table"
  by (rule register_then_unregister)
     (simp_all add: demo_table_def wf_table_def valid_cmd_def free_slots_def sock_cmds_def sock_object_def
       trivial_object_def)

text \<open>A command that is valid is refused with -1 by a full table, and unregistering one that is
  not in the table is refused with -1; neither changes anything.\<close>

theorem full_or_absent_refused:
  assumes "valid_cmd st p"
  shows "(free_slots st = 0 \<longrightarrow> comm_cmd_register (Some p) st = Inr (- 1, st))
    \<and> (p \<notin># registered st \<longrightarrow> comm_cmd_unregister (Some p) st = Inr (- 1, st))"
  using register_full [OF assms] unregister_absent [OF assms]
  by (simp add: registered_def map_filter_mem)

lemma full_or_absent_refused_witness:
  "comm_cmd_unregister (Some Cmd_quit) demo_table = Inr (- 1, demo_table)
   \<and> comm_cmd_register (Some Cmd_quit) (demo_table\<lparr>comm_cmds := replicate 100 (Some Cmd_help)\<rparr>)
     = Inr (- 1, demo_table\<lparr>comm_cmds := replicate 100 (Some Cmd_help)\<rparr>)"
  using full_or_absent_refused [of demo_table Cmd_quit]
    full_or_absent_refused [of "demo_table\<lparr>comm_cmds := replicate 100 (Some Cmd_help)\<rparr>" Cmd_quit]
  by (simp add: demo_table_def valid_cmd_def trivial_object_def free_slots_def registered_def
      List.map_filter_def)

section \<open>The socket console\<close>

text \<open>When no read fails, \<^verbatim>\<open>sock_read_blocked\<close> returns exactly the next \<open>len\<close> bytes of the
  peer and leaves the rest, whatever pieces the kernel delivers them in.\<close>

theorem sock_read_blocked_exact:
  assumes "len \<le> length (reads_bytes (io_reads s))" and "Rd_err \<notin> set (io_reads s)"
  shows "\<exists>s'. sock_read_blocked len s = Some (int len, take len (reads_bytes (io_reads s)), s')
    \<and> reads_bytes (io_reads s') = drop len (reads_bytes (io_reads s))"
  using sock_read_loop_exact [OF assms order_refl, where buf = "[]"] by (simp add: sock_read_blocked_def)

lemma sock_read_blocked_exact_witness:
  "\<exists>s'. sock_read_blocked 3 ((typed [])\<lparr>io_reads := [Rd_bytes ''a'', Rd_zero, Rd_bytes ''bcd'']\<rparr>)
      = Some (3, ''abc'', s') \<and> reads_bytes (io_reads s') = ''d''"
  using sock_read_blocked_exact [of 3 "(typed [])\<lparr>io_reads := [Rd_bytes ''a'', Rd_zero, Rd_bytes ''bcd'']\<rparr>"]
  by (simp add: typed_def)

section \<open>The USB commands\<close>

text \<open>C15. Every USB command, with any arguments and any answers of libusb, keeps the protocol: if
  the calls so far opened, used and closed one device at a time and \<^verbatim>\<open>usbctrl\<close> names the open
  one, they still do when the command returns.\<close>

theorem usb_command_keeps_protocol:
  assumes "exec_usb_cmd lib i args s = Inr (r, s')" and "usb_ok s"
  shows "usb_ok s'"
  by (rule exec_usb_ok [OF assms])

lemma usb_command_keeps_protocol_witness:
  "usb_ok (snd (usb_handle_cmd_bind ram_lib [''usb'', ''unbind''] 0 ram_usb))"
proof -
  obtain r s' where e: "usb_handle_cmd_bind ram_lib [''usb'', ''unbind''] 0 ram_usb = (r, s')" by fastforce
  then have "exec_usb_cmd ram_lib 3 [''usb'', ''unbind''] ram_usb = Inr (r, s')" by (simp add: exec_usb_cmd_def)
  from usb_command_keeps_protocol [OF this ram_usb_ok] show ?thesis using e by simp
qed

text \<open>C9. \<open>usb write <module> <addr> <data>\<close> on a bound device: \<open>ana\<close> and \<open>pmu\<close> below 0x400 send
  two bytes, \<open>dig\<close> and \<open>mem\<close> at word addresses four, little endian, in one vendor transfer whose
  setup packet carries the address and the module; the result is 0 exactly when libusb reports
  the whole length. Any other address is refused with -3 before anything is sent.\<close>

theorem usb_write_transfer:
  assumes "uc_bind s \<noteq> 0" and "4 < length args" and "is_module (args ! 2)"
  shows "case mod_access (args ! 2) (strtoul_u32 (args ! 3)) of
      None \<Rightarrow> fst (usb_handle_cmd_rw lib args 0 s) = - 3 \<and> ucalls (snd (usb_handle_cmd_rw lib args 0 s)) = ucalls s
    | Some (c, n, inc) \<Rightarrow>
        let su = raw_setup 0x43 (of_int c) (strtoul_u32 (args ! 3)) n;
            bytes = take (unat n) (le_bytes4 (strtoul_u32 (args ! 4)))
        in setup_addr su = strtoul_u32 (args ! 3)
          \<and> ucalls (snd (usb_handle_cmd_rw lib args 0 s)) = ucalls s @ [Lib_transfer (uc_handle s) su bytes]
          \<and> (fst (usb_handle_cmd_rw lib args 0 s) = 0
              \<longleftrightarrow> fst (lu_control_transfer lib (uc_handle s) su bytes 1000 (uworld s)) = uint n)"
proof (cases "mod_access (args ! 2) (strtoul_u32 (args ! 3))")
  case None
  then show ?thesis using rw_write_cases [OF assms, of lib] by simp
next
  case (Some x)
  obtain c n inc where x: "x = (c, n, inc)" by (cases x) auto
  obtain r s' where e: "rw_send lib c (strtoul_u32 (args ! 3))
      (take (unat n) (le_bytes4 (strtoul_u32 (args ! 4)))) n s = (r, s')" by fastforce
  have w: "REQ_TYPE_OTH_WR = 0x43" by (simp add: REQ_TYPE_OTH_WR_def)
  show ?thesis using rw_write_cases [OF assms, of lib] rw_send_call [OF e] Some x e
    by (simp add: Let_def setup_addr_raw w)
qed

lemma usb_write_transfer_witness:
  "ucalls (snd (usb_handle_cmd_rw ram_lib [''usb'', ''write'', ''mem'', ''0x20'', ''0x1234''] 0 ram_usb))
     = ucalls ram_usb @ [Lib_transfer (Some ()) (raw_setup 0x43 4 0x20 4) [0x34, 0x12, 0, 0]]
   \<and> fst (usb_handle_cmd_rw ram_lib [''usb'', ''write'', ''mem'', ''0x21'', ''1''] 0 ram_usb) = - 3"
proof -
  have n: "strtoul_u32 ''0x20'' = 0x20" "strtoul_u32 ''0x21'' = 0x21" "strtoul_u32 ''0x1234'' = 0x1234"
    by (simp_all add: strtoul_eval)
  have m: "is_module ''mem''" by (simp add: is_module_def)
  have b: "uc_bind ram_usb \<noteq> 0" "uc_handle ram_usb = Some ()" by (simp_all add: ram_usb_def)
  have l: "take 4 (le_bytes4 0x1234) = [0x34, 0x12, 0, 0]" by (simp add: le_bytes4_def)
  have q: "mod_access ''mem'' 0x20 = Some (4, 4, 4)" "mod_access ''mem'' 0x21 = None"
    by (simp_all add: mod_access_def)
  define A B where "A = [''usb'', ''write'', ''mem'', ''0x20'', ''0x1234'']"
    and "B = [''usb'', ''write'', ''mem'', ''0x21'', ''1'']"
  have A: "4 < length A" "A ! 2 = ''mem''" "A ! 3 = ''0x20''" "A ! 4 = ''0x1234''"
    and B: "4 < length B" "B ! 2 = ''mem''" "B ! 3 = ''0x21''"
    by (simp_all add: A_def B_def)
  have "ucalls (snd (usb_handle_cmd_rw ram_lib A 0 ram_usb))
     = ucalls ram_usb @ [Lib_transfer (Some ()) (raw_setup 0x43 4 0x20 4) [0x34, 0x12, 0, 0]]"
    using usb_write_transfer [OF b(1) A(1), of ram_lib, unfolded A n q, OF m]
    by (simp add: Let_def b l)
  moreover have "fst (usb_handle_cmd_rw ram_lib B 0 ram_usb) = - 3"
    using usb_write_transfer [OF b(1) B(1), of ram_lib, unfolded B n q, OF m] by simp
  ultimately show ?thesis by (simp only: A_def B_def)
qed

text \<open>C14. \<open>usb read <module> <addr> [n]\<close> on a bound device: refused addresses send nothing; otherwise
  the transfers are exactly the \<open>n * 4 div len\<close> reads at consecutive addresses (\<open>n\<close> words of four
  bytes, so two 16-bit reads for one word of \<open>ana\<close> or \<open>pmu\<close>), in order, each carrying its own
  address. Each prints its line, the address and the word or the error, and the result is the number of
  transfers that did not bring \<open>len\<close> bytes. The range check looks at the first address only.\<close>

theorem usb_read_transfers:
  assumes "uc_bind s \<noteq> 0" and "3 < length args" and "is_module (args ! 2)"
  shows "case mod_access (args ! 2) (strtoul_u32 (args ! 3)) of
      None \<Rightarrow> fst (usb_handle_cmd_rw lib args 1 s) = - 3 \<and> ucalls (snd (usb_handle_cmd_rw lib args 1 s)) = ucalls s
    | Some (c, len, inc) \<Rightarrow>
        let a = strtoul_u32 (args ! 3);
            n = (if length args > 4 then strtoul_u32 (args ! 4) else 1);
            times = unat (n * 4 div len);
            ans = read_answers lib (uc_handle s) c len inc times a (replicate 8 0) (uworld s)
        in ucalls (snd (usb_handle_cmd_rw lib args 1 s)) = ucalls s @
             map (\<lambda>k. Lib_transfer (uc_handle s) (raw_setup 0xC3 (of_int c) (a + of_nat k * inc) len) []) [0..<times]
           \<and> fst (usb_handle_cmd_rw lib args 1 s) = int (failed_reads len ans)
           \<and> uout (snd (usb_handle_cmd_rw lib args 1 s)) = uout s @ map (read_line len) ans"
proof (cases "mod_access (args ! 2) (strtoul_u32 (args ! 3))")
  case None
  then show ?thesis using rw_read_cases [OF assms, of lib] by simp
next
  case (Some x)
  obtain c len inc where x: "x = (c, len, inc)" by (cases x) auto
  define a n where "a = strtoul_u32 (args ! 3)" and "n = (if length args > 4 then strtoul_u32 (args ! 4) else 1)"
  obtain r s' where e: "rw_read_loop lib c len inc (unat (n * 4 div len)) a (replicate 8 0) 0 s = (r, s')"
    by fastforce
  have w: "REQ_TYPE_OTH_RD = 0xC3" by (simp add: REQ_TYPE_OTH_RD_def)
  have "usb_handle_cmd_rw lib args 1 s = (r, s')"
    using rw_read_cases [OF assms, of lib] Some x e by (simp add: a_def n_def)
  then show ?thesis using read_loop_calls [OF e] Some x
    unfolding a_def [symmetric] n_def [symmetric] read_calls_map w by (simp add: Let_def)
qed

text \<open>The device of the other witnesses, when it answers nothing.\<close>

definition mute_lib where
  "mute_lib = ram_lib\<lparr>lu_control_transfer := \<lambda>h su buf tm w. (- 1, [], w)\<rparr>"

lemma usb_read_transfers_witness:
  "ucalls (snd (usb_handle_cmd_rw mute_lib [''usb'', ''read'', ''ana'', ''0x60''] 1 ram_usb))
     = ucalls ram_usb @ [Lib_transfer (Some ()) (raw_setup 0xC3 1 0x60 2) [],
                         Lib_transfer (Some ()) (raw_setup 0xC3 1 0x61 2) []]
   \<and> fst (usb_handle_cmd_rw mute_lib [''usb'', ''read'', ''ana'', ''0x60''] 1 ram_usb) = 2"
proof -
  have n: "strtoul_u32 ''0x60'' = 0x60" by (simp add: strtoul_eval)
  have m: "is_module ''ana''" by (simp add: is_module_def)
  have b: "uc_bind ram_usb \<noteq> 0" "uc_handle ram_usb = Some ()" by (simp_all add: ram_usb_def)
  have q: "mod_access ''ana'' 0x60 = Some (1, 2, 1)" by (simp add: mod_access_def)
  define A where "A = [''usb'', ''read'', ''ana'', ''0x60'']"
  have A: "3 < length A" "A ! 2 = ''ana''" "A ! 3 = ''0x60''" "length A = 4" by (simp_all add: A_def)
  have f: "failed_reads 2 (read_answers mute_lib h 1 2 1 2 0x60 buf w) = 2" for h buf w
    by (simp add: numeral_2_eq_2 failed_reads_def mute_lib_def Let_def)
  have "ucalls (snd (usb_handle_cmd_rw mute_lib A 1 ram_usb))
     = ucalls ram_usb @ [Lib_transfer (Some ()) (raw_setup 0xC3 1 0x60 2) [],
                         Lib_transfer (Some ()) (raw_setup 0xC3 1 0x61 2) []]
    \<and> fst (usb_handle_cmd_rw mute_lib A 1 ram_usb) = 2"
    using usb_read_transfers [OF b(1) A(1), of mute_lib, unfolded A n q, OF m] f
    by (simp add: Let_def b upt_rec)
  then show ?thesis by (simp only: A_def)
qed

text \<open>C8. Writing a word to \<open>dig\<close> or \<open>mem\<close> and reading the address back prints the word written, when
  the device takes the four bytes and afterwards answers reads with what it holds: the
  little-endian encoding and decoding and the two halves of the address agree.\<close>

theorem usb_write_then_read:
  assumes "uc_bind s \<noteq> 0" and "name = ''dig'' \<and> c = 3 \<or> name = ''mem'' \<and> c = 4"
    and "strtoul_u32 sa = a" and "strtoul_u32 sv = v" and "a mod 4 = 0"
    and "lu_control_transfer lib (uc_handle s) (raw_setup 0x43 (of_int c) a 4) (le_bytes4 v) 1000 (uworld s)
           = (4, [], w1)"
    and "serves lib (uc_handle s) w1 c 4 f" and "f a = le_bytes4 v"
  shows "let (r1, s1) = usb_handle_cmd_rw lib [g, ''write'', name, sa, sv] 0 s;
             (r2, s2) = usb_handle_cmd_rw lib [g, ''read'', name, sa] 1 s1
         in r1 = 0 \<and> r2 = 0 \<and> uout s2 = uout s @ [Trace ''DATA: [%x] = %x'' [TInt (uint a), TInt (uint v)]]"
proof -
  have m: "is_module name" and q: "mod_access name a = Some (c, 4, 4)"
    using assms(2,5) by (auto simp: is_module_def mod_access_def)
  have b4: "take 4 (le_bytes4 v) = le_bytes4 v" by (simp add: le_bytes4_def)
  obtain r1 s1 where e: "rw_send lib c a (le_bytes4 v) 4 s = (r1, s1)" by fastforce
  have W: "REQ_TYPE_OTH_WR = 0x43" by (simp add: REQ_TYPE_OTH_WR_def)
  note f1 = rw_send_call [OF e, unfolded W assms(6)]
  have w: "usb_handle_cmd_rw lib [g, ''write'', name, sa, sv] 0 s = (r1, s1)"
    using rw_write_cases [OF assms(1), of "[g, ''write'', name, sa, sv]" lib] m q assms(3,4) b4 e by simp
  have sv: "serves lib (uc_handle s1) (uworld s1) c 4 f" using assms(7) f1 by simp
  obtain s2 where r: "rw_read_loop lib c 4 4 1 a (replicate 8 0) 0 s1 = (0, s2)"
      "uout s2 = uout s1 @ data_lines 4 4 f 1 a"
    using read_loop_serves [OF _ sv, of "replicate 8 0" 4 1 a 0] by auto
  have "usb_handle_cmd_rw lib [g, ''read'', name, sa] 1 s1 = (0, s2)"
    using rw_read_cases [of s1 "[g, ''read'', name, sa]" lib] f1 m q assms(1,3) r(1) by simp
  then show ?thesis using w r(2) f1 assms(8) by (simp add: rw_word_bytes4)
qed

lemma usb_write_then_read_witness:
  "let (r1, s1) = usb_handle_cmd_rw ram_lib [''usb'', ''write'', ''mem'', ''0x20'', ''0x1234''] 0 ram_usb;
       (r2, s2) = usb_handle_cmd_rw ram_lib [''usb'', ''read'', ''mem'', ''0x20''] 1 s1
   in r1 = 0 \<and> r2 = 0 \<and> uout s2 = uout ram_usb @ [Trace ''DATA: [%x] = %x'' [TInt 0x20, TInt 0x1234]]"
proof -
  let ?w = "(uworld ram_usb)(0x20 := le_bytes4 0x1234)"
  have len: "length (?w a) = 4" for a by (simp add: ram_usb_def le_bytes4_def)
  have t: "lu_control_transfer ram_lib (uc_handle ram_usb) (raw_setup 0x43 (of_int 4) 0x20 4)
      (le_bytes4 0x1234) 1000 (uworld ram_usb) = (4, [], ?w)"
    by (simp add: ram_lib_def setup_addr_raw raw_wLength REQ_TYPE_OTH_RD_def) (simp add: raw_setup_def)
  have n: "strtoul_u32 ''0x20'' = 0x20" "strtoul_u32 ''0x1234'' = 0x1234" by (simp_all add: strtoul_eval)
  have b: "uc_bind ram_usb \<noteq> 0" by (simp add: ram_usb_def)
  have f: "take (unat (4 :: u32)) (?w 0x20) = le_bytes4 0x1234" by (simp add: le_bytes4_def)
  have m: "''mem'' = ''dig'' \<and> (4 :: int) = 3 \<or> ''mem'' = ''mem'' \<and> (4 :: int) = 4" by simp
  have a: "(0x20 :: u32) mod 4 = 0" by simp
  have s: "serves ram_lib (uc_handle ram_usb) ?w 4 4 (\<lambda>a. take (unat (4 :: u32)) (?w a))"
    using len by (rule ram_serves) simp
  show ?thesis using usb_write_then_read [OF b m n a t s f, of "''usb''"] by simp
qed

text \<open>Without a bound device \<open>read\<close>, \<open>write\<close> and \<open>fm\<close> return -1 and do not call libusb.\<close>

theorem usb_unbound_refused:
  assumes "uc_bind s = 0" and "i = 4 \<or> i = 5 \<or> i = 7"
  shows "\<exists>s'. exec_usb_cmd lib i args s = Inr (- 1, s') \<and> ucalls s' = ucalls s \<and> uworld s' = uworld s"
  using assms by (auto simp: exec_usb_cmd_def usb_handle_cmd_rw_def usb_handle_cmd_fm_def)

lemma usb_unbound_refused_witness:
  "\<exists>s'. exec_usb_cmd ram_lib 5 [''usb'', ''write'', ''rst''] (ram_usb\<lparr>uc_bind := 0, uc_handle := None\<rparr>) = Inr (- 1, s')
     \<and> ucalls s' = ucalls ram_usb"
  using usb_unbound_refused [of "ram_usb\<lparr>uc_bind := 0, uc_handle := None\<rparr>" 5 ram_lib "[''usb'', ''write'', ''rst'']"]
  by auto

text \<open>Each \<open>usb fm\<close> command other than \<open>test\<close> sends exactly one vendor transfer, whose packet
  is given by \<open>fm_packet\<close>: setting masks the argument to its field, and the queries of \<open>band\<close> and
  \<open>mute\<close> go out with the primitive for setting. The result is 0 whatever the device answers.\<close>

theorem usb_fm_packet_sent:
  assumes "uc_bind s \<noteq> 0" and "2 < length args"
    and "fm_packet (args ! 2) (if 3 < length args then Some (strtoul_u16 (args ! 3)) else None) = Some su"
  shows "\<exists>s'. exec_usb_cmd lib 7 args s = Inr (0, s') \<and> ucalls s' = ucalls s @ [Lib_transfer (uc_handle s) su []]"
  using fm_command [OF assms, of lib] by (simp add: exec_usb_cmd_def)

lemma usb_fm_packet_sent_witness:
  "\<exists>s'. exec_usb_cmd ram_lib 7 [''usb'', ''fm'', ''band''] ram_usb = Inr (0, s')
     \<and> ucalls s' = ucalls ram_usb @ [Lib_transfer (Some ()) (fm_setup 0xA1 3 0 2) []]"
proof -
  have "fm_packet ''band'' None = Some (fm_setup 0xA1 3 0 2)" by (simp add: fm_packet_def)
  then show ?thesis
    using usb_fm_packet_sent [of ram_usb "[''usb'', ''fm'', ''band'']" "fm_setup 0xA1 3 0 2" ram_lib]
    by (simp add: ram_usb_def)
qed

text \<open>\<open>usb fm test\<close> on a bound device runs its five transfers (query the device, power on, band 0,
  channel 9740, volume 8) and then always reports -4, the code of an unknown command.\<close>

theorem usb_fm_test_fails:
  assumes "uc_bind s \<noteq> 0" and "2 < length args" and "args ! 2 = ''test''"
  shows "\<exists>s'. exec_usb_cmd lib 7 args s = Inr (- 4, s') \<and> ucalls s' = ucalls s @
     map (\<lambda>su. Lib_transfer (uc_handle s) su [])
       [fm_setup 0xA2 1 0 2, fm_setup 0xA1 0 1 1, fm_setup 0xA1 1 0 1, fm_setup 0xA1 9 9740 1,
        fm_setup 0xA1 5 8 1]"
  using assms fm_test_calls [of lib s] by (simp add: exec_usb_cmd_def usb_handle_cmd_fm_def)

lemma usb_fm_test_fails_witness:
  "\<exists>s'. exec_usb_cmd ram_lib 7 [''usb'', ''fm'', ''test''] ram_usb = Inr (- 4, s')"
proof -
  have "uc_bind ram_usb \<noteq> 0" by (simp add: ram_usb_def)
  from usb_fm_test_fails [OF this, of "[''usb'', ''fm'', ''test'']" ram_lib] show ?thesis by auto
qed

text \<open>The configuration printer prints the first interface once for every interface the
  descriptor announces: the other interfaces never reach the output.\<close>

theorem config_print_first_interface_only:
  fixes s :: "('h, 'w) usb"
  shows "usb_config_desc_print (Some (d\<lparr>itfs := x # xs\<rparr>)) s = usb_config_desc_print (Some (d\<lparr>itfs := x # ys\<rparr>)) s"
proof -
  have "itf_loop (x # xs) n s = itf_loop (x # ys) n s" for n and s :: "('h, 'w) usb"
  proof (induction n arbitrary: s)
    case (Suc n)
    then have "itf_loop (x # xs) n = (itf_loop (x # ys) n :: ('h, 'w) usb \<Rightarrow> _)" by (intro ext)
    then show ?case by (simp add: rd_def)
  qed simp
  then show ?thesis by (simp add: usb_config_desc_print_def)
qed

section \<open>The serial device\<close>

text \<open>C5. Built with \<^verbatim>\<open>DEBUG\<close>, and as long as no read times out, the two threads of a serial
  device refine the sequential loop-back device: whatever their interleaving, the history of calls
  and returns is a run of it, so every read returns the whole of what was written last.\<close>

theorem serial_refines_loopback:
  assumes "created dev" and "s_steps True False (serial_start dev) s"
  shows "loop_run (None, P_free) (evs s) = Some (loop_abs s)"
  using loop_sys.run_keeps [OF assms(2), of "(None, P_free)"] start_hand_shake [OF assms(1)]
  by (simp add: serial_start_def loop_abs_def)

lemma serial_refines_loopback_witness:
  "\<exists>s. s_steps True False (serial_start example_dev) s
     \<and> evs s = [Ev_call (Call_write ''A''), Ev_ret (Ret_write 1), Ev_call (Call_read eight 8 1), Ev_ret (Ret_read 1 ''A'')]
     \<and> loop_run (None, P_free) (evs s) = Some (loop_abs s)"
proof -
  obtain s where s: "do_moves True (echo_schedule CHR ''A'') (serial_start example_dev) = Some s"
    "evs s = [Ev_call (Call_write ''A''), Ev_ret (Ret_write 1), Ev_call (Call_read eight 8 1), Ev_ret (Ret_read 1 ''A'')]"
    using echo_schedule_run [OF example_dev_created] by blast
  have "s_steps True False (serial_start example_dev) s"
    by (rule do_moves_steps [OF s(1)]) (simp add: echo_schedule_def)
  with s(2) serial_refines_loopback [OF example_dev_created this] show ?thesis by blast
qed

text \<open>C7. In the same runs the hand-shake never stalls inside a call: when neither the caller nor
  the worker can move, the caller is between two calls or has destroyed the device.\<close>

theorem serial_never_stalls:
  assumes "created dev" and "s_steps True False (serial_start dev) s"
    and "caller_step s = None" and "worker_step True (sdev s, land s, wpc s) = None"
  shows "cpc s = C_free \<or> cpc s = C_gone"
  using hand_shake_moves [OF _ assms(3,4)] shake_sys.run_keeps [OF assms(2) start_hand_shake [OF assms(1)]] by blast

lemma serial_never_stalls_witness:
  "\<exists>s. s_steps True False (serial_start example_dev) s \<and> wpc s = W_wait \<and> (cpc s = C_free \<or> cpc s = C_gone)"
proof -
  let ?s = "(serial_start example_dev)\<lparr>wpc := W_wait\<rparr>"
  have step: "do_moves True [Worker] (serial_start example_dev) = Some ?s"
    by (simp add: serial_start_def worker_defs)
  have run: "s_steps True False (serial_start example_dev) ?s"
    by (rule do_moves_steps [OF step]) simp
  have "caller_step ?s = None" "worker_step True (sdev ?s, land ?s, wpc ?s) = None"
    by (simp_all add: serial_start_def caller_defs worker_defs wait_active_def example_dev_def Let_def)
  from serial_never_stalls [OF example_dev_created run this] run show ?thesis by auto
qed



text \<open>A read that timed out leaves its unit behind: the worker serves it later, and the next read
  takes that unit at once and returns 0 bytes, although \<open>d\<close> has been written in between.\<close>

theorem serial_stale_read:
  assumes "created dev" and "length d \<le> SERIAL_CHAN_BUF_SIZE"
  shows "\<exists>s. s_steps True True (serial_start dev) s
    \<and> evs s = [Ev_call (Call_write []), Ev_ret (Ret_write 0), Ev_call (Call_read eight 8 1), Ev_ret (Ret_read (- 1) []),
               Ev_call (Call_write d), Ev_ret (Ret_write (int (length d))),
               Ev_call (Call_read eight 8 1), Ev_ret (Ret_read 0 [])]"
  using stale_run [OF assms] do_moves_steps by blast

lemma serial_stale_read_witness:
  "\<exists>s. s_steps True True (serial_start example_dev) s
    \<and> evs s = [Ev_call (Call_write []), Ev_ret (Ret_write 0), Ev_call (Call_read eight 8 1), Ev_ret (Ret_read (- 1) []),
               Ev_call (Call_write ''hello''), Ev_ret (Ret_write 5), Ev_call (Call_read eight 8 1), Ev_ret (Ret_read 0 [])]"
  using serial_stale_read [OF example_dev_created, of "''hello''"] by simp

text \<open>A read that times out while the worker has fetched its command but not yet cleared the slot
  lets the worker clear the command of the next write: that write then waits for ever, both
  threads being blocked.\<close>

theorem serial_lost_write:
  assumes "created dev"
  shows "\<exists>s. s_steps True True (serial_start dev) s \<and> cpc s = C_wr_wait \<and> (\<forall>s'. \<not> s_step True True s s')"
proof -
  obtain s where s: "do_moves True (lost_schedule CHR ''x'') (serial_start dev) = Some s"
    "cpc s = C_wr_wait" "wpc s = W_wait" "slots_are (sdev s) 0 1 0 0"
    using lost_run [OF assms] by blast
  have "s_steps True True (serial_start dev) s" by (rule do_moves_steps [OF s(1)]) simp
  with s(2) lost_is_stuck [OF s(2-4)] show ?thesis by blast
qed

lemma serial_lost_write_witness:
  "\<exists>s. s_steps True True (serial_start example_dev) s \<and> cpc s = C_wr_wait \<and> (\<forall>s'. \<not> s_step True True s s')"
  by (rule serial_lost_write [OF example_dev_created])

text \<open>C17. Destroying a device is safe in every run, with or without \<^verbatim>\<open>DEBUG\<close> and timeouts: while
  \<open>serial_dev_destroy\<close> waits for the worker, one of the two can move, and when it has returned
  (and the memory is freed) no thread takes another step on the device.\<close>

theorem serial_destroy_safe:
  assumes "s_steps dbg tmo (serial_start dev) s"
  shows "(cpc s = C_de_join \<longrightarrow> caller_step s \<noteq> None \<or> worker_step dbg (sdev s, land s, wpc s) \<noteq> None)
       \<and> (cpc s = C_gone \<longrightarrow> \<not> s_step dbg tmo s s')"
  using join_not_stuck gone_is_final stop_sys.run_keeps [OF assms start_stop_ok] by blast

lemma serial_destroy_safe_witness:
  "\<exists>s. s_steps False True (serial_start example_dev) s \<and> cpc s = C_gone
     \<and> evs s = [Ev_call Call_destroy, Ev_ret Ret_destroy] \<and> \<not> s_step False True s s"
proof -
  obtain s where s: "do_moves False [Call Call_destroy, Caller, Caller, Worker, Worker, Worker, Worker, Caller]
      (serial_start example_dev) = Some s" "cpc s = C_gone" "evs s = [Ev_call Call_destroy, Ev_ret Ret_destroy]"
    using created_fields [OF example_dev_created] by (simp add: schedule_eval slots_are_def)
  have run: "s_steps False True (serial_start example_dev) s" by (rule do_moves_steps [OF s(1)]) simp
  from serial_destroy_safe [OF run, of s] s run show ?thesis by blast
qed

text \<open>The worker is never on an island without a way: wherever it stands, the ticket it takes is
  sold there, so the branch of \<open>serial_run\<close> that resets the worker is never taken.\<close>

theorem serial_never_lost:
  assumes "s_steps dbg tmo (serial_start dev) s"
  shows "land s \<noteq> ISLAND_NULL"
proof -
  have "land_ok s"
    using land_sys.run_keeps [OF assms] by (simp add: land_ok_def serial_start_def)
  then show ?thesis by (auto simp: land_ok_def split: wpc.splits)
qed

lemma serial_never_lost_witness: "land (serial_start example_dev) \<noteq> ISLAND_NULL"
  by (rule serial_never_lost [OF rtranclp.rtrancl_refl])

section \<open>The XMODEM receiver\<close>

text \<open>C6. Opening the stream and reading as many bytes as the blocks hold returns exactly their contents:
  whatever the terminal, if it delivers the frames of the blocks 1, 2, ... (each once the block before
  it has been acknowledged), the data of the blocks is returned in order, without its ^Z padding.\<close>

theorem xmodem_transfer:
  assumes "xyzModem_stream_open buf (xyzModem_init (Some t) y) w = Inr (0, None, x, w0)"
    and "1024 \<le> length buf" and "\<And>d. d \<in> set ds \<Longrightarrow> block_size d \<and> unpad d \<noteq> []"
    and "feed_blocks t False 1 ds w0 = Some w'"
  shows "\<exists>x'. xyzModem_stream_read (int (length (concat (map unpad ds)))) x w0
    = Some (Inr (concat (map unpad ds), None, x', w'))"
proof -
  have "stream_ready t x" "tx_ack x = False" "next_blk x = 1"
    using assms(1,2) by (auto simp: xyzModem_stream_open_def xyzModem_init_def stream_ready_def)
  then show ?thesis
    using stream_blocks [of t x ds w0 w' "[]"] assms(3,4) by (auto simp: xyzModem_stream_read_def)
qed

definition block_1 :: "u8 list" where
  "block_1 = replicate 128 0x41"

definition block_2 :: "u8 list" where
  "block_2 = 0x42 # replicate 127 CTRL_Z"

lemma dropWhile_pad: "P a \<Longrightarrow> dropWhile P (replicate n a @ xs) = dropWhile P xs"
  by (induction n) auto

lemma blocks_12:
  "block_size block_1" "unpad block_1 = block_1" "block_size block_2" "unpad block_2 = [0x42]"
proof -
  show "block_size block_1" "block_size block_2" by (simp_all add: block_size_def block_1_def block_2_def)
  show "unpad block_1 = block_1" by (simp add: unpad_def block_1_def numeral_3_eq_3)
  show "unpad block_2 = [0x42]" by (simp add: unpad_def block_2_def numeral_3_eq_3 drop_Cons' dropWhile_pad)
qed

text \<open>A stream just opened on a wire.\<close>

definition opened :: "wire xyz" where
  "opened = (xyzModem_init (Some wire_tty) xyz_zero)\<lparr>pkt := Some (replicate 1024 0), next_blk := 1\<rparr>"

lemma opened_open:
  "xyzModem_stream_open (replicate 1024 0) (xyzModem_init (Some wire_tty) xyz_zero) (q, s) = Inr (0, None, opened, (q, s @ [CHR_C]))"
  by (simp add: xyzModem_stream_open_def opened_def xyzModem_init_def xyz_zero_def)

lemma opened_ready: "stream_ready wire_tty opened" "next_blk opened = 1" "tx_ack opened = False" "xtty opened = Some wire_tty"
  by (simp_all add: stream_ready_def opened_def xyzModem_init_def xyz_zero_def)

lemma xmodem_transfer_witness:
  "\<exists>x'. xyzModem_stream_read 129 opened (frame 1 block_1 @ frame 2 block_2, [CHR_C])
     = Some (Inr (block_1 @ [0x42], None, x', ([], [CHR_C, ACK])))"
proof -
  have feed: "feed_blocks wire_tty False 1 [block_1, block_2] (frame 1 block_1 @ frame 2 block_2, [CHR_C])
      = Some ([], [CHR_C, ACK])" by simp
  have blocks: "block_size d \<and> unpad d \<noteq> []" if "d \<in> set [block_1, block_2]" for d
    using that blocks_12 by (auto simp: block_1_def)
  have "\<exists>x'. xyzModem_stream_read (int (length (concat (map unpad [block_1, block_2])))) opened
      (frame 1 block_1 @ frame 2 block_2, [CHR_C])
    = Some (Inr (concat (map unpad [block_1, block_2]), None, x', ([], [CHR_C, ACK])))"
    by (rule xmodem_transfer [OF opened_open [of _ "[]", unfolded append_Nil] _ blocks feed]) simp_all
  then show ?thesis using blocks_12 by (simp add: block_1_def)
qed

text \<open>C10. Whatever the line delivers, a packet for which \<^verbatim>\<open>xyzModem_get_hdr\<close> returns 0 is sound: its block
  number is followed by its complement, it has 128 or 1024 bytes, all of them inside the packet
  buffer, and the checksum it came with is their CRC-16.\<close>

theorem xmodem_accepts_sound_packets:
  assumes "xyzModem_get_hdr t x w = Some (Inr (0, x', w'))"
  shows "\<exists>p n. pkt x' = Some p \<and> bufp x' = Some 0 \<and> xlen x' = int n \<and> (n = 128 \<or> n = 1024) \<and> n \<le> length p
    \<and> cblk x' = NOT (blk x') \<and> crc_ccitt (take n p) = push_bit 8 (ucast (crc1 x')) OR ucast (crc2 x')"
proof -
  have "b = NOT a" if "a XOR b = (0xFF :: u8)" for a b
  proof -
    have "a XOR b = a XOR NOT a" using that by (simp only: complement)
    from arg_cong [OF this, of "bit"] show ?thesis
      by (intro bit_word_eqI) (auto simp: bit_simps fun_eq_iff)
  qed
  with get_hdr_sound [OF assms] show ?thesis by (auto simp: sound_packet_def)
qed

lemma xmodem_accepts_sound_packets_witness:
  "\<exists>x' p. xyzModem_get_hdr wire_tty opened (frame 1 block_1, []) = Some (Inr (0, x', ([], [])))
     \<and> pkt x' = Some p \<and> crc_ccitt (take 128 p) = push_bit 8 (ucast (crc1 x')) OR ucast (crc2 x')"
proof -
  have hdr: "xyzModem_get_hdr wire_tty opened (frame 1 block_1, []) = Some (Inr (0, taken 1 block_1 opened, ([], [])))"
    by (rule get_hdr_taken [of _ _ _ _ _ _ "replicate 1024 0"])
      (use blocks_12 in \<open>simp_all add: acked_def opened_def xyzModem_init_def xyz_zero_def block_1_def\<close>)
  have "xlen (taken 1 block_1 opened) = 128" by (simp add: taken_def block_1_def)
  with xmodem_accepts_sound_packets [OF hdr] hdr show ?thesis by auto
qed

text \<open>C12. The checksum loop of \<^verbatim>\<open>rda_crc16\<close>, three shifts and four exclusive ors a byte, computes the
  CRC-16 of polynomial 0x1021 that is defined one bit at a time, over the first \<open>n\<close> bytes of the buffer and
  no other: with fewer bytes in the buffer the loop leaves it.\<close>

theorem rda_crc16_is_crc:
  "rda_crc16 buf (int n) = (if n \<le> length buf then Inr (crc_ccitt (take n buf)) else Inl Out_Of_Bounds)"
  by (simp add: rda_crc16_ccitt rda_crc16_outside)

text \<open>A block with one damaged byte never has the checksum of the original.\<close>

theorem rda_crc16_detects_damage:
  assumes "a \<noteq> b"
  shows "rda_crc16 (xs @ a # ys) (int (length (xs @ a # ys))) \<noteq> rda_crc16 (xs @ b # ys) (int (length (xs @ b # ys)))"
proof -
  have "rda_crc16 bs (int (length bs)) = Inr (crc_ccitt bs)" for bs
    using rda_crc16_ccitt [of "length bs" bs] by simp
  then show ?thesis using crc_detects_byte [OF assms] by (simp only: sum.inject not_False_eq_True)
qed

lemma rda_crc16_detects_damage_witness: "rda_crc16 [1, 2, 3] 3 \<noteq> rda_crc16 [1, 7, 3] 3"
  using rda_crc16_detects_damage [of 2 7 "[1]" "[3]"] by simp

text \<open>C21. A sender whose acknowledgements are lost and who repeats a block 200 times gets its data
  delivered a second time: the retries are used up with the code of success, and the read
  returns the repeated block as if it were the next one.\<close>

theorem xmodem_repeats_delivered:
  assumes "stream_ready t x" and "block_size d"
    and "feed_dups t 200 (next_blk x - 1) d (acked t x w) = Some w'"
  shows "\<exists>x'. xyzModem_stream_read (int (length d)) x w = Some (Inr (d, None, x', w'))"
  using stream_dups [OF assms] by (simp add: xyzModem_stream_read_def)

lemma wire_dups: "feed_dups wire_tty n k d (concat (replicate n (frame k d)), s) = Some ([], s @ replicate n ACK)"
  by (induction n arbitrary: s) (simp_all add: replicate_append_same)

lemma xmodem_repeats_delivered_witness:
  "\<exists>x'. xyzModem_stream_read 128 opened (concat (replicate 200 (frame 0 block_1)), [])
     = Some (Inr (block_1, None, x', ([], replicate 200 ACK)))"
proof -
  have "feed_dups wire_tty 200 (next_blk opened - 1) block_1 (acked wire_tty opened (concat (replicate 200 (frame 0 block_1)), []))
      = Some ([], replicate 200 ACK)"
    using wire_dups [of 200 0 block_1 "[]"] by (simp only: opened_ready acked_def if_False append_Nil diff_self)
  from xmodem_repeats_delivered [OF opened_ready(1) blocks_12(1) this] show ?thesis by (simp add: block_1_def)
qed

text \<open>An error leaves the length field at -1. The next read of a stream that has not reached its end
  passes that length to \<^verbatim>\<open>memcpy\<close>: the call never returns a result, whatever the line.\<close>

theorem xmodem_read_after_error:
  assumes "xyzModem_stream_read n x w = Some (Inr (out, Some e, x', w'))" and "\<not> at_eof x'" and "0 < m"
  shows "e < 0 \<and> (\<exists>err. xyzModem_stream_read m x' w'' = Some (Inl err))"
proof -
  have x': "xlen x' = - 1" "e < 0"
    using stream_loop_error [of n "[]" x w] assms(1) by (auto simp: xyzModem_stream_read_def)
  from deliver_after_error [OF x'(1) assms(3)] show ?thesis
    using x' assms(2,3) unfolding xyzModem_stream_read_def by (subst stream_loop.simps) auto
qed

lemma cancelled_read:
  "xyzModem_stream_read 8 opened ([CAN, CAN, CAN], []) = Some (Inr ([], Some xyzModem_cancel, opened\<lparr>xlen := - 1\<rparr>, ([], [])))"
proof -
  have "hdr_search wire_tty 0 0 ([CAN, CAN, CAN], []) = Some (Inl xyzModem_cancel, ([], []))"
    by (simp add: hdr_search.simps)
  then have "retry_loop wire_tty (Suc 199) xyzModem_cancel opened ([CAN, CAN, CAN], [])
      = Some (Inr (xyzModem_cancel, opened, ([], [])))"
    unfolding retry_loop.simps using opened_ready by (simp add: xyzModem_get_hdr_def)
  then show ?thesis
    using opened_ready unfolding xyzModem_stream_read_def
    by (subst stream_loop.simps) (simp add: stream_ready_def)
qed

lemma xmodem_read_after_error_witness:
  "\<exists>err. xyzModem_stream_read 8 (opened\<lparr>xlen := - 1\<rparr>) ([0x41], []) = Some (Inl err)"
  using xmodem_read_after_error [OF cancelled_read, of 8 "([0x41], [])"] opened_ready by (simp add: stream_ready_def)

text \<open>C11. On a line that delivers finitely many bytes, whatever they are, and is silent afterwards,
  every read returns: the search for a header, the flushes, the retries and the outer loop end.\<close>

theorem xmodem_read_terminates:
  assumes "xtty x = Some wire_tty"
  shows "\<exists>r. xyzModem_stream_read n x (q, s) = Some r"
  using wire_stream [OF assms] by (simp add: xyzModem_stream_read_def)

lemma xmodem_read_terminates_witness: "\<exists>r. xyzModem_stream_read 64 opened ([EOT, CAN, SOH, 7, 9], []) = Some r"
  by (rule xmodem_read_terminates [OF opened_ready(4)])

section \<open>The socket server\<close>

definition demo_env :: sock_env where
  "demo_env = \<lparr>sk_socket = 3, sk_addr = (\<lambda>_. 0x0100007F), sk_bind = 0, sk_listen = 0, sk_accept = 4, sk_tries = 5\<rparr>"

definition demo_server :: "(unit, u32 \<Rightarrow> u8 list) server" where
  "demo_server = \<lparr>sdata = sockdata, scalls = [], sapp = demo_app []\<rparr>"

text \<open>C22. A run of the socket server that returns gives -1 only when no socket could be made, and has then
  done nothing; otherwise it returns 0 and has closed the listening socket exactly once, at the end,
  on every path, after an attempt to remove the file named like the IP address.\<close>

theorem server_closes_socket:
  assumes "server_main b lib e s = Some (Inr (r, s'))"
  shows "(sk_socket e < 0 \<longrightarrow> r = - 1 \<and> s' = s)
    \<and> (0 \<le> sk_socket e \<longrightarrow> r = 0
       \<and> (\<exists>opening. scalls s' = scalls s @ opening @ [Sys_unlink (sd_ips (sdata s)), Sys_close (sk_socket e)]
           \<and> (\<forall>c \<in> set opening. \<forall>p fd. c \<noteq> Sys_unlink p \<and> c \<noteq> Sys_close fd)))"
  using assms server_calls [OF assms] by (auto simp: server_main_def)

lemma server_closes_socket_witness:
  "\<exists>s' opening. server_main demo_flags ram_lib (demo_env\<lparr>sk_bind := - 1\<rparr>) demo_server = Some (Inr (0, s'))
     \<and> scalls s' = opening @ [Sys_unlink ''127.0.0.1'', Sys_close 3]"
proof -
  obtain s' where s': "server_main demo_flags ram_lib (demo_env\<lparr>sk_bind := - 1\<rparr>) demo_server = Some (Inr (0, s'))"
    by (simp add: server_main_def demo_env_def server_exit_def Let_def)
  from server_closes_socket [OF s'] s' show ?thesis
    by (auto simp: demo_env_def demo_server_def sockdata_def)
qed

text \<open>When \<^verbatim>\<open>accept\<close> fails the server reports it and goes on with the descriptor -1: every
  character is then asked for again and again, and the program never ends.\<close>

theorem server_accept_failure_hangs:
  assumes "use_socket b" and "cmd_obj (cst (sapp s)) = static_obj"
    and "0 \<le> sk_socket e" and "sk_bind e = 0" and "sk_listen e = 0" and "sk_accept e < 0"
  shows "server_main b lib e s = None"
proof -
  have "comm_main b lib a = None"
    if "cmd_obj (cst a) = static_obj" "reads_bytes (io_reads (cio (cst a))) = []" for a :: "('a, 'b) app"
    by (rule silent_main [OF assms(1) that])
  then show ?thesis
    using assms by (simp add: server_defs server_run_def out_trace_def on_io_def connect_io_def)
qed

lemma server_accept_failure_hangs_witness:
  "server_main (demo_flags\<lparr>use_socket := True\<rparr>) ram_lib (demo_env\<lparr>sk_accept := - 1\<rparr>) demo_server = None"
  by (rule server_accept_failure_hangs) (simp_all add: demo_server_def demo_app_def demo_env_def)

section \<open>The number parser of demo-lib\<close>

text \<open>C23. \<^verbatim>\<open>astrtol\<close> returns the value of a numeral of base 10, 8 or 16 as long as it has at most 9, 10
  (after the leading 0) or 8 digits; a longer one overflows the \<^verbatim>\<open>int\<close> that holds the weight of the
  digit, or shifts by 32 or more, also when its value fits 32 bits.\<close>

theorem astrtol_numerals:
  assumes "\<And>d. d \<in> set ds \<Longrightarrow> d < b" and "ds \<noteq> []" and "hd ds \<noteq> 0"
  shows "(b = 10 \<longrightarrow> astrtol (List.map digit_char ds) 0 =
           (if length ds \<le> 9 then Inr (of_nat (num_of 10 ds)) else Inl Int_Overflow))
       \<and> (b = 8 \<longrightarrow> astrtol (''0'' @ List.map digit_char ds) 0 =
           (if length ds \<le> 10 then Inr (of_nat (num_of 8 ds)) else Inl Int_Overflow))
       \<and> (b = 16 \<longrightarrow> astrtol (''0x'' @ List.map digit_char ds) 0 =
           (if length ds \<le> 8 then Inr (of_nat (num_of 16 ds)) else Inl Bad_Shift))"
proof (intro conjI impI)
  assume "b = 10"
  with assms show "astrtol (List.map digit_char ds) 0 =
      (if length ds \<le> 9 then Inr (of_nat (num_of 10 ds)) else Inl Int_Overflow)"
    by (intro astrtol_dec) auto
next
  assume "b = 8"
  with assms(1) show "astrtol (''0'' @ List.map digit_char ds) 0 =
      (if length ds \<le> 10 then Inr (of_nat (num_of 8 ds)) else Inl Int_Overflow)"
    using astrtol_oct [of ds] by simp
next
  assume "b = 16"
  with assms(1) show "astrtol (''0x'' @ List.map digit_char ds) 0 =
      (if length ds \<le> 8 then Inr (of_nat (num_of 16 ds)) else Inl Bad_Shift)"
    using astrtol_hex [of ds] by simp
qed

lemma astrtol_numerals_witness:
  "astrtol (List.map digit_char [1, 2, 3]) 0 = Inr 123 \<and> astrtol (List.map digit_char (replicate 10 1)) 0 = Inl Int_Overflow"
proof -
  have short: "d < 10" if "d \<in> set [1, 2, 3]" for d :: nat using that by auto
  have long: "d < 10" if "d \<in> set (replicate 10 1)" for d :: nat using that by simp
  show ?thesis
    using astrtol_numerals [of "[1, 2, 3]" 10, OF short] astrtol_numerals [of "replicate 10 1" 10, OF long]
    by (simp add: num_of_def)
qed

section \<open>The calculator\<close>

text \<open>C24. Whatever is typed, and however \<^verbatim>\<open>getopt_long\<close> behaves, a run of the calculator program that ends
  returns 0 and has removed all its commands from the table.\<close>

theorem box_main_ends_clean:
  assumes "box_main getopt (box_boot s g) = Some (Inr (r, a'))"
  shows "r = 0 \<and> registered (as_comm (btab a')) = {#}"
proof -
  have "bt_obj (btab (box_boot s g)) = box_obj" by (simp add: box_boot_def)
  then obtain a1 where a1: "box_start (box_boot s g) = Inr (0, a1)" "box_ready a1"
    by (rule box_start_ok)
  with assms obtain a2 where a2: "box_loop getopt a1 = Some (Inr a2)" "box_finish a2 = Inr (r, a')"
    by (auto simp: box_main_def res_bind_Inr_iff)
  have "box_ready a2"
    using box_loop_table [OF a2(1)] a1(2) by (simp add: box_ready_def box_wf_def)
  from box_finish_ok [OF this] a2(2) show ?thesis by auto
qed

definition demo_getopt :: "nat getopt" where
  "demo_getopt = (\<lambda>g ac av mem oi. if g = 0 then (uchar_val CHR ''d'', 3, av, 1) else (- 1, 2, av, 0))"

lemma box_main_ends_clean_witness:
  "\<exists>a'. box_main demo_getopt (box_boot (typed (''quit'' @ [NL])) 0) = Some (Inr (0, a'))
     \<and> registered (as_comm (btab a')) = {#}"
proof -
  obtain a' where a': "box_main demo_getopt (box_boot (typed (''quit'' @ [NL])) 0) = Some (Inr (0, a'))"
    using quit_run [of "box_boot (typed (''quit'' @ [NL])) 0" demo_getopt] by (auto simp: box_boot_def typed_def)
  from box_main_ends_clean [OF a'] a' show ?thesis by blast
qed

text \<open>C25. When \<^verbatim>\<open>getopt_long\<close> finds one arithmetic option, with its first operand as the option argument
  and the second one after it, the calculator prints the exact result as one line, provided it is
  an \<^verbatim>\<open>int\<close>; a result that is none is a signed overflow, and a division by zero is executed: the test
  for it only sets the error code.\<close>

theorem calc_prints_result:
  assumes "next_option getopt 1 a = (uchar_val c, oi, a1)"
    and "c \<in> {CHR ''a'', CHR ''s'', CHR ''m'', CHR ''d''}"
    and "calc_arg a1 (oi - 1) = Inr x" and "calc_arg a1 oi = Inr y"
    and "\<And>v. next_option getopt oi (calc_print_result v a1) = (- 1, oi', calc_print_result v a2)"
  shows "let v = exact_value c (strtol_int x) (strtol_int y)
    in if c = CHR ''d'' \<and> strtol_int y = 0 then start_calc getopt a = Some (Inl Div_By_Zero)
       else if v < - (2 ^ 31) \<or> 2 ^ 31 \<le> v then start_calc getopt a = Some (Inl Int_Overflow)
       else \<exists>a'. start_calc getopt a = Some (Inr a')
              \<and> io_out (bio a') = io_out (bio a2) @ [Trace (''%d'' @ [NL]) [TInt v]]"
  using calc_one_option [OF assms]
  by (auto simp: Let_def int_ok_def calc_print_result_def box_io_def ioprintf_def)

definition demo_box :: "nat box" where
  "demo_box = (box_boot (typed []) 0)
     \<lparr>bdata := comm_data_zero\<lparr>temp := ''calc'' @ [NUL] @ ''-d'' @ [NUL] @ ''17'' @ [NUL] @ ''5'' @ [NUL]\<rparr>,
      calc_cd := comm_data_zero\<lparr>argv := [Some 0, Some 5, Some 8, Some 11], argc := 4\<rparr>\<rparr>"

lemma calc_prints_result_witness:
  "\<exists>a'. start_calc demo_getopt demo_box = Some (Inr a') \<and> io_out (bio a') = [Trace (''%d'' @ [NL]) [TInt 3]]"
proof -
  have one: "next_option demo_getopt 1 demo_box = (uchar_val CHR ''d'', 3, demo_box\<lparr>gopt := 1\<rparr>)"
    by (simp add: next_option_def demo_getopt_def demo_box_def box_boot_def comm_data_zero_def)
  have last: "next_option demo_getopt 3 (calc_print_result v (demo_box\<lparr>gopt := 1\<rparr>))
      = (- 1, 2, calc_print_result v (demo_box\<lparr>gopt := 0\<rparr>))" for v
    by (simp add: next_option_def demo_getopt_def demo_box_def box_boot_def comm_data_zero_def calc_print_result_def
        box_io_def)
  have args: "calc_arg (demo_box\<lparr>gopt := 1\<rparr>) (3 - 1) = Inr ''17''" "calc_arg (demo_box\<lparr>gopt := 1\<rparr>) 3 = Inr ''5''"
    by (simp_all add: calc_arg_def rd_def demo_box_def box_boot_def comm_data_zero_def cstr_at_def)
  have "strtol_int ''17'' = 17" "strtol_int ''5'' = 5"
    by (simp_all add: strtol_int_def is_space_def digit_val_def Let_def)
  moreover have "exact_value CHR ''d'' 17 5 = 3" by (simp add: exact_value_def signed_divide_int_def)
  ultimately show ?thesis
    using calc_prints_result [OF one _ args last]
    by (auto simp: Let_def demo_box_def box_boot_def typed_def)
qed

section \<open>The file demo\<close>

text \<open>C26. On a regular file that held \<open>old_text c\<close>, or that did not exist, the program leaves exactly
  \<open>final_text\<close>: the text overwritten with \<^verbatim>\<open>helloworld\<close> at its start, two words appended, three
  characters replaced at 7. It prints it back when it is shorter than the 100 characters that
  \<^verbatim>\<open>memset\<close> clears, and is undefined for any longer one.\<close>

theorem comm_file_demo:
  assumes "NUL \<notin> set (old_text c)"
  shows "\<exists>out. file_main disk True path (c, k) =
    Some (res_bind (shown (final_text (old_text c))) (\<lambda>str.
      Inr (out @ [Trace ''%s'' [TStr str], Trace [NL] []], (Some str, length str))))"
proof -
  let ?f0 = "comm_file_init ''file1''" and ?cs = "put_at 0 ''helloworld'' (old_text c)"
  have final: "put_at 7 ''xyz'' (?cs @ ''programprogram'') = final_text (old_text c)" by (simp add: final_text_def)
  have nul: "NUL \<notin> set (final_text (old_text c))"
    using assms by (auto simp: final_text_def put_at_def dest!: in_set_takeD in_set_dropD)
  obtain f1 out1 where w: "main_write disk path ?f0 (c, k) = Inr (True, out1, f1, (Some ?cs, 10))" "cf_status f1 = 0"
    using write_disk [of ?f0 path c k] by (auto simp: comm_file_init_def)
  obtain f2 out2 where e: "main_extend disk path f1 (Some ?cs, 10) =
      Inr (True, out2, f2, (Some (final_text (old_text c)), 10))" "cf_status f2 = 0"
    using extend_disk [OF w(2), of path ?cs 10] unfolding final by blast
  obtain f3 out3 where p: "main_print disk path f2 (Some (final_text (old_text c)), 10) =
      Some (res_bind (shown (final_text (old_text c))) (\<lambda>str.
        Inr (out3 @ [Trace ''%s'' [TStr str], Trace [NL] []], f3, (Some (final_text (old_text c)), length (final_text (old_text c))))))"
      "cf_status f3 = 0"
    using print_disk [OF e(2) nul, of path 10] by blast
  have same: "str = cs" if "shown cs = Inr str" for cs str using that by (simp add: shown_def split: if_splits)
  then show ?thesis
    using w(1) e(1) p by (intro exI [of _ "out1 @ out2 @ out3"], cases "shown (final_text (old_text c))")
      (auto simp: file_main_def comm_file_create_def comm_file_destroy_def dest: same)
qed

lemma comm_file_demo_witness:
  "\<exists>out. file_main disk True ''cf.txt'' (None, 0) =
    Some (Inr (out @ [Trace ''%s'' [TStr ''hellowoxyzprogramprogram''], Trace [NL] []], (Some ''hellowoxyzprogramprogram'', length ''hellowoxyzprogramprogram'')))"
proof -
  have "final_text (old_text None) = ''hellowoxyzprogramprogram''" by (simp add: old_text_def final_text_def put_at_def)
  moreover have "shown ''hellowoxyzprogramprogram'' = Inr ''hellowoxyzprogramprogram''" by (simp add: shown_def)
  moreover have "NUL \<notin> set (old_text None)" by (simp add: old_text_def)
  ultimately show ?thesis using comm_file_demo [of None "''cf.txt''" 0] by simp
qed

section \<open>The echo server\<close>

text \<open>C27. Whatever the chunks in which a client sends its lines, each is answered by its message: the line
  less its last character, whatever that is. An empty message gets no answer; the message
  \<^verbatim>\<open>quit\<close> is answered and ends the connection, with what follows it unread.\<close>

theorem echo_session:
  assumes "reads_bytes (io_reads s) = concat (List.map (\<lambda>(m, c). m @ [c, NL]) ls) @ ''quit'' @ [c, NL] @ rest"
    and "c \<noteq> NL" and "\<And>m c. (m, c) \<in> set ls \<Longrightarrow> plain_msg m c \<and> m \<noteq> ''quit''"
    and "Rd_err \<notin> set (io_reads s)" and "io_accept s = []"
  shows "\<exists>s'. echo_run True s = Some (Inr (Some 1, s')) \<and> reads_bytes (io_reads s') = rest
    \<and> io_sent s' = io_sent s @ concat (List.map (answer o fst) ls) @ answer ''quit''"
  using loop_session [OF assms] by (simp add: echo_run_def)

definition demo_client :: io where
  "demo_client = \<lparr>io_stdin = [], io_reads = [Rd_bytes ''hi'', Rd_zero, Rd_bytes ([CR, NL] @ ''quit''), Rd_bytes ([CR, NL] @ ''more'')],
     io_accept = [], io_sent = [], io_out = []\<rparr>"

lemma echo_session_witness:
  "\<exists>s'. echo_run True demo_client = Some (Inr (Some 1, s')) \<and> reads_bytes (io_reads s') = ''more''
    \<and> io_sent s' = [CHR ''>'', NUL] @ ''hi'' @ [CR, NL] @ [CHR ''>'', NUL] @ ''quit'' @ [CR, NL]"
  using echo_session [of demo_client "[(''hi'', CR)]" CR "''more''"]
  by (simp add: demo_client_def plain_msg_def SERVER_BUF_SIZE_def answer_def)

text \<open>A line of no character makes the echo server store before its buffer, and a line of more
  than 1024 characters past it.\<close>

theorem echo_line_bounds:
  assumes "reads_bytes (io_reads s) = ln @ NL # rest" and "NL \<notin> set ln" and "Rd_err \<notin> set (io_reads s)"
    and "ln = [] \<or> 1024 < length ln"
  shows "echo_run True s = Some (Inl Out_Of_Bounds)"
proof -
  have "echo_read (pad []) 0 s = Some (Inl Out_Of_Bounds)"
    using read_line [of s ln rest "[]"] assms by (simp add: SERVER_BUF_SIZE_def)
  then show ?thesis unfolding echo_run_def by (subst echo_loop.simps) (simp add: pad_Nil)
qed

lemma echo_line_bounds_witness: "echo_run True (demo_client\<lparr>io_reads := [Rd_bytes [NL]]\<rparr>) = Some (Inl Out_Of_Bounds)"
  by (rule echo_line_bounds [of _ "[]" "[]"]) simp_all

section \<open>The test programs\<close>

text \<open>C28. On a device that opens, the USB test makes exactly these transfers: it overwrites a word of
  memory, sets the low bits of one register of each other module, and puts back only the analog
  one, to the value it printed; it leaves libusb without closing the device.\<close>

theorem test_device_transfers:
  assumes "lu_init lib (uworld s) = (0, w1)" and "lu_open_vid_pid lib vid pid w1 = (Some h, w2)"
    and "fits_request lib" and "length stack = 128"
  shows "\<exists>s' v p d. test_device lib stack vid pid s = (0, s')
    \<and> ucalls s' = ucalls s @ [Lib_init 0, Lib_open vid pid (Some h)] @
       [rd_call h OP_RW_MEM 0x20000000 4, wr_call h OP_RW_MEM 0x20000000 0x12345678 4,
        rd_call h OP_RW_MEM 0x20000000 4, rd_call h OP_RW_MEM 0x20000000 8] @
       [rd_call h OP_RW_ANA 0x60 2, rd_call h OP_RW_ANA 0x61 2, wr_call h OP_RW_ANA 0x61 (v OR 0xF) 2,
        rd_call h OP_RW_ANA 0x61 2, wr_call h OP_RW_ANA 0x61 v 2, rd_call h OP_RW_ANA 0x61 2] @
       [rd_call h OP_RW_PMU 0 2, rd_call h OP_RW_PMU 1 2, wr_call h OP_RW_PMU 1 (p OR 0x7) 2, rd_call h OP_RW_PMU 1 2] @
       [rd_call h OP_RW_DIG 0x40300000 4, wr_call h OP_RW_DIG 0x40300000 (d OR 1) 4,
        rd_call h OP_RW_DIG 0x40300000 4, wr_call h OP_RESET_CDC 0x40300000 (d OR 1) 4] @ [Lib_exit]
    \<and> shows_word ''ana 2'' 0x61 v s' \<and> shows_word ''pmu 2'' 1 p s' \<and> shows_word ''dig 1'' 0x40300000 d s'"
proof -
  obtain s3 where s3: "ucalls s3 = ucalls s @ [Lib_init 0, Lib_open vid pid (Some h)]"
      "test_device lib stack vid pid s =
        (0, call_exit lib (snd (test_dig lib h (test_pmu lib h (test_ana lib h (test_mem lib h (stack, s3)))))))"
    by (rule test_device_opens [OF assms(1,2)])
  let ?m1 = "test_mem lib h (stack, s3)"
  let ?m2 = "test_ana lib h ?m1"
  let ?m3 = "test_pmu lib h ?m2"
  have len: "8 \<le> length (fst ?m1)" using test_mem_log(2) [of "(stack, s3)" lib h] assms(4) by simp
  obtain v where v: "ucalls (snd ?m2) = ucalls (snd ?m1) @
     [rd_call h OP_RW_ANA 0x60 2, rd_call h OP_RW_ANA 0x61 2, wr_call h OP_RW_ANA 0x61 (v OR 0xF) 2,
      rd_call h OP_RW_ANA 0x61 2, wr_call h OP_RW_ANA 0x61 v 2, rd_call h OP_RW_ANA 0x61 2]"
     "shows_word ''ana 2'' 0x61 v (snd ?m2)"
    using test_ana_log(1) [OF assms(3) len] by metis
  obtain p where p: "ucalls (snd ?m3) = ucalls (snd ?m2) @
     [rd_call h OP_RW_PMU 0 2, rd_call h OP_RW_PMU 1 2, wr_call h OP_RW_PMU 1 (p OR 0x7) 2, rd_call h OP_RW_PMU 1 2]"
     "shows_word ''pmu 2'' 1 p (snd ?m3)"
    using test_pmu_log by metis
  obtain d where d: "ucalls (snd (test_dig lib h ?m3)) = ucalls (snd ?m3) @
     [rd_call h OP_RW_DIG 0x40300000 4, wr_call h OP_RW_DIG 0x40300000 (d OR 1) 4,
      rd_call h OP_RW_DIG 0x40300000 4, wr_call h OP_RESET_CDC 0x40300000 (d OR 1) 4]"
     "shows_word ''dig 1'' 0x40300000 d (snd (test_dig lib h ?m3))"
    using test_dig_log by metis
  have kept: "shows_word ''ana 2'' 0x61 v (snd (test_dig lib h ?m3))" "shows_word ''pmu 2'' 1 p (snd (test_dig lib h ?m3))"
    using v(2) p(2) prints_kept(1) [of ?m2 lib h] prints_kept(2) [of ?m3 lib h] unfolding shows_word_def by blast+
  show ?thesis
    unfolding s3(2) using kept d
    by (intro exI [of _ "call_exit lib (snd (test_dig lib h ?m3))"] exI [of _ v] exI [of _ p] exI [of _ d])
      (simp add: p(1) v(1) test_mem_log(1) s3(1) exit_log)
qed

lemma test_device_transfers_witness:
  "\<exists>s'. test_device ram_lib (replicate 128 0) 0xBE57 0x0238 ram_usb = (0, s')
     \<and> (\<exists>v. wr_call () OP_RW_ANA 0x61 v 2 \<in> set (ucalls s') \<and> shows_word ''ana 2'' 0x61 v s')"
proof -
  have "fits_request ram_lib" by (simp add: fits_request_def ram_lib_def)
  from test_device_transfers [where lib = ram_lib and s = ram_usb and vid = "0xBE57" and pid = "0x0238" and h = "()"
      and stack = "replicate 128 0", OF _ _ this]
  obtain s' v p d where "test_device ram_lib (replicate 128 0) 0xBE57 0x0238 ram_usb = (0, s')"
    "shows_word ''ana 2'' 0x61 v s'"
    "ucalls s' = ucalls ram_usb @ [Lib_init 0, Lib_open 0xBE57 0x0238 (Some ())] @
       [rd_call () OP_RW_MEM 0x20000000 4, wr_call () OP_RW_MEM 0x20000000 0x12345678 4,
        rd_call () OP_RW_MEM 0x20000000 4, rd_call () OP_RW_MEM 0x20000000 8] @
       [rd_call () OP_RW_ANA 0x60 2, rd_call () OP_RW_ANA 0x61 2, wr_call () OP_RW_ANA 0x61 (v OR 0xF) 2,
        rd_call () OP_RW_ANA 0x61 2, wr_call () OP_RW_ANA 0x61 v 2, rd_call () OP_RW_ANA 0x61 2] @
       [rd_call () OP_RW_PMU 0 2, rd_call () OP_RW_PMU 1 2, wr_call () OP_RW_PMU 1 (p OR 0x7) 2, rd_call () OP_RW_PMU 1 2] @
       [rd_call () OP_RW_DIG 0x40300000 4, wr_call () OP_RW_DIG 0x40300000 (d OR 1) 4,
        rd_call () OP_RW_DIG 0x40300000 4, wr_call () OP_RESET_CDC 0x40300000 (d OR 1) 4] @ [Lib_exit]"
    by (auto simp: ram_lib_def ram_usb_def)
  then show ?thesis by (intro exI [of _ s'] conjI exI [of _ v]) simp_all
qed

text \<open>The key test reports the characters typed up to the newline and the last arrow key of its table
  that stands at a position that is a multiple of 3 and below a third of their number; 100
  characters before the newline overrun its buffer.\<close>

theorem test1_arrow_keys:
  assumes "NL \<notin> set cs" and "length stack = 100"
  shows "test1 stack (List.map uchar_val cs @ 10 # rest) =
    Some (if length cs < 100
          then Inr (Trace (''CMD>'' @ [NL]) [] # key_report (cs @ [NL]) (found_key (cs @ [NL])))
          else Inl Out_Of_Bounds)"
  using keys_loop_ok [OF assms, of 0 rest] by (auto simp: test1_def nat_add_distrib split: if_splits)

lemma test1_arrow_keys_witness:
  "test1 (replicate 100 NUL) (List.map uchar_val [CHR 0x1B, CHR 0x5B, CHR 0x42, CHR 0x1B, CHR 0x5B, CHR 0x44] @ [10])
   = Some (Inr (Trace (''CMD>'' @ [NL]) [] # key_report [CHR 0x1B, CHR 0x5B, CHR 0x42, CHR 0x1B, CHR 0x5B, CHR 0x44, NL] 1))"
  using test1_arrow_keys [of "[CHR 0x1B, CHR 0x5B, CHR 0x42, CHR 0x1B, CHR 0x5B, CHR 0x44]" "replicate 100 NUL" "[]"]
  by (simp add: found_key_def key_seen_def arrow_key_val_def upt_conv_Cons)

end
